(* ===== verification/Prelude.thy ===== *)
theory Prelude
  imports Main "HOL-Library.Word" "HOL-Library.State_Monad" "HOL-Library.Signed_Division"
begin

text \<open>
  Shared vocabulary of the development: the Go integer types the code uses, decimal
  printing (the \<^verbatim>\<open>%d\<close> of \<^verbatim>\<open>fmt.Sprintf\<close> and \<^verbatim>\<open>strconv.Itoa\<close>), result values and
  the state-and-error plumbing of Go's \<^verbatim>\<open>if err != nil { return err }\<close>, and the
  collections of simplification rules the components extend.
\<close>

named_theorems go_defs \<open>definitions of operations that proofs unfold together\<close>
named_theorems run_simps \<open>how stateful operations run\<close>

section \<open>Machine integers\<close>

type_synonym uint64 = "64 word"
type_synonym uint32 = "32 word"
type_synonym byte = "8 word"

type_synonym Term = uint64
type_synonym SequenceNum = uint64
type_synonym Index = uint64
type_synonym MemberID = uint32
type_synonym GroupID = uint32

text \<open>
  Go's \<^verbatim>\<open>int\<close> is 64 bits wide and wraps; \<open>int64\<close> brings a mathematical integer back
  into its range, \<open>in_int64\<close> says that it already was there. Signed values of the
  API types (\<^verbatim>\<open>int32\<close>, \<^verbatim>\<open>int64\<close>) are integers with the corresponding range.
\<close>

definition int64 :: "int \<Rightarrow> int" where
  "int64 i = signed_take_bit 63 i"

definition in_int64 :: "int \<Rightarrow> bool" where
  "in_int64 i \<longleftrightarrow> - (2 ^ 63) \<le> i \<and> i < 2 ^ 63"

definition in_int32 :: "int \<Rightarrow> bool" where
  "in_int32 i \<longleftrightarrow> - (2 ^ 31) \<le> i \<and> i < 2 ^ 31"

lemma int64_id: "in_int64 i \<Longrightarrow> int64 i = i"
  unfolding int64_def in_int64_def by (rule signed_take_bit_int_eq_self) simp_all

lemma in_int64_int64 [simp]: "in_int64 (int64 i)"
  using signed_take_bit_int_less_exp [of 63 i] signed_take_bit_int_greater_eq_minus_exp [of 63 i]
  by (simp add: int64_def in_int64_def)

text \<open>The successor of a machine integer is larger unless it wraps.\<close>

lemma unat_word_next:
  fixes n :: "'a::len word"
  shows "n \<noteq> - 1 \<Longrightarrow> unat (n + 1) = Suc (unat n)"
  by (metis add.commute add_cancel_right_left add_eq_0_iff unatSuc)

lemma word_next_less:
  fixes n :: "'a::len word"
  shows "n \<noteq> - 1 \<Longrightarrow> n < n + 1"
  by (simp add: word_less_nat_alt unat_word_next)

lemma word_next_pos:
  fixes n :: "'a::len word"
  shows "n \<noteq> - 1 \<Longrightarrow> 0 < n + 1"
  by (simp add: word_less_nat_alt unat_word_next)

section \<open>Printing integers\<close>

definition digit :: "nat \<Rightarrow> char" where
  "digit d = char_of (48 + d)"

fun digits :: "nat \<Rightarrow> string" where
  "digits n = (if n < 10 then [digit n] else digits (n div 10) @ [digit (n mod 10)])"

declare digits.simps [simp del]

definition itoa :: "int \<Rightarrow> string" where
  "itoa i = (if i < 0 then CHR ''-'' # digits (nat (- i)) else digits (nat i))"

definition undigits :: "string \<Rightarrow> nat" where
  "undigits s = foldl (\<lambda>a c. 10 * a + (of_char c - 48)) 0 s"

lemma digit_value: "d < 10 \<Longrightarrow> of_char (digit d) = (48 + d :: nat)"
  unfolding digit_def by simp

lemma undigits_digits [simp]: "undigits (digits n) = n"
proof (induction n rule: digits.induct)
  case (1 n)
  show ?case
  proof (cases "n < 10")
    case True
    then show ?thesis by (simp add: digits.simps undigits_def digit_value)
  next
    case False
    with 1 have "undigits (digits (n div 10)) = n div 10" by simp
    with False show ?thesis
      by (subst digits.simps) (simp add: undigits_def digit_value)
  qed
qed

lemma digits_inject [simp]: "digits m = digits n \<longleftrightarrow> m = n"
  by (metis undigits_digits)

lemma digit_not_dash: "d < 10 \<Longrightarrow> digit d \<noteq> CHR ''-''"
proof
  assume "d < 10" and "digit d = CHR ''-''"
  then have "(48 + d :: nat) = of_char CHR ''-''" by (metis digit_value)
  then show False by simp
qed

lemma digits_no_dash: "CHR ''-'' \<notin> set (digits n)"
proof (induction n rule: digits.induct)
  case (1 n)
  show ?case
  proof (cases "n < 10")
    case True
    then show ?thesis using digit_not_dash by (subst digits.simps) force
  next
    case False
    with 1 have "CHR ''-'' \<notin> set (digits (n div 10))" by simp
    moreover have "digit (n mod 10) \<noteq> CHR ''-''" by (rule digit_not_dash) simp
    ultimately show ?thesis using False by (subst digits.simps) auto
  qed
qed

lemma itoa_inject: "0 \<le> i \<Longrightarrow> 0 \<le> j \<Longrightarrow> itoa i = itoa j \<longleftrightarrow> i = j"
  by (auto simp: itoa_def eq_nat_nat_iff)

lemma itoa_no_dash: "0 \<le> i \<Longrightarrow> CHR ''-'' \<notin> set (itoa i)"
  by (simp add: itoa_def digits_no_dash)

text \<open>
  A name built as prefix, dash, number can be taken apart again: the number is what
  follows the last dash.
\<close>

lemma takeWhile_upto_dash:
  "CHR ''-'' \<notin> set x \<Longrightarrow> takeWhile (\<lambda>c. c \<noteq> CHR ''-'') (x @ CHR ''-'' # r) = x"
  by (induction x) auto

lemma dash_suffix_inject:
  assumes eq: "a @ CHR ''-'' # x = b @ CHR ''-'' # y"
    and x: "CHR ''-'' \<notin> set x" and y: "CHR ''-'' \<notin> set y"
  shows "a = b \<and> x = y"
proof -
  have "rev x @ CHR ''-'' # rev a = rev (a @ CHR ''-'' # x)" by simp
  also have "\<dots> = rev y @ CHR ''-'' # rev b" using eq by simp
  finally have "takeWhile (\<lambda>c. c \<noteq> CHR ''-'') (rev x @ CHR ''-'' # rev a) =
      takeWhile (\<lambda>c. c \<noteq> CHR ''-'') (rev y @ CHR ''-'' # rev b)" by (rule arg_cong)
  then have "rev x = rev y" using x y by (simp add: takeWhile_upto_dash)
  then have "x = y" by simp
  with eq show ?thesis by simp
qed

section \<open>Results\<close>

text \<open>
  A Go function that returns a value and an error returns a sum: \<open>Inl\<close> the error,
  \<open>Inr\<close> the value. \<open>bindE\<close> is the early return on an error inside a sequence of calls
  that also change a state.
\<close>

abbreviation ret :: "'a \<Rightarrow> ('s, 'a) state" where
  "ret \<equiv> State_Monad.return"

definition bindE :: "('s, 'e + 'a) state \<Rightarrow> ('a \<Rightarrow> ('s, 'e + 'b) state) \<Rightarrow> ('s, 'e + 'b) state" where
  "bindE m f = do { r \<leftarrow> m; (case r of Inl e \<Rightarrow> ret (Inl e) | Inr x \<Rightarrow> f x) }"

lemma run_bindE [run_simps]:
  "run_state (bindE m f) s =
     (case run_state m s of
        (Inl e, s') \<Rightarrow> (Inl e, s')
      | (Inr x, s') \<Rightarrow> run_state (f x) s')"
  by (simp add: bindE_def split: prod.split sum.split)

section \<open>Maps\<close>

lemma map_upd_dom_subset: "dom (m(k \<mapsto> v)) = insert k (dom m)"
  by simp

lemma map_del_eq: "m(k := None) = m |` (- {k})"
  by (auto simp: restrict_map_def fun_eq_iff)

end
