(* ===== verification/ProtocolContext.thy ===== *)
theory ProtocolContext
  imports Prelude
begin

text \<open>
  The protocol context of a partition (\<^verbatim>\<open>node/pkg/consensus/context.go\<close>): the table of
  response streams of the proposals this node has in flight, keyed by the term and the
  sequence number under which they were proposed, and the counter the sequence numbers
  come from. The stream registry is stated as a locale, the interface the executor (which
  adds streams) and the replicated state machine (which looks them up) share, and the
  code's table is shown to provide it.
\<close>

section \<open>State\<close>

record protocolStreamID =
  sid_term :: Term
  sid_sequenceNum :: SequenceNum

text \<open>
  A stream value the code builds: the SDK's nil stream, which drops what is written to
  it, or a client's stream \<open>'s\<close> wrapped with a closer. The closer is the function literal
  \<^verbatim>\<open>removeStream(term, sequenceNum)\<close>; the wrapper holds the two values it captured.
\<close>

datatype 's writeStream =
    NilStream
  | CloserStream 's Term SequenceNum

record 's protocolContext =
  streams :: "protocolStreamID \<rightharpoonup> 's writeStream"
  sequenceNum :: SequenceNum

definition newContext :: "'s protocolContext" where
  "newContext = \<lparr>streams = Map.empty, sequenceNum = 0\<rparr>"

section \<open>Operations\<close>

text \<open>
  \<open>addStream\<close> is an atomic counter increment followed by an insertion under the lock;
  the two atomic parts are named, because other goroutines run between them.
\<close>

definition nextSequenceNum :: "'s protocolContext \<Rightarrow> SequenceNum \<times> 's protocolContext" where
  "nextSequenceNum r = (let n = sequenceNum r + 1 in (n, r\<lparr>sequenceNum := n\<rparr>))"

definition insertStream :: "'s protocolContext \<Rightarrow> Term \<Rightarrow> SequenceNum \<Rightarrow> 's \<Rightarrow> 's protocolContext" where
  "insertStream r t n s =
     r\<lparr>streams := (streams r)(\<lparr>sid_term = t, sid_sequenceNum = n\<rparr> \<mapsto> CloserStream s t n)\<rparr>"

definition addStream :: "'s protocolContext \<Rightarrow> Term \<Rightarrow> 's \<Rightarrow> SequenceNum \<times> 's protocolContext" where
  "addStream r t s = (let (n, r') = nextSequenceNum r in (n, insertStream r' t n s))"

definition removeStream :: "'s protocolContext \<Rightarrow> Term \<Rightarrow> SequenceNum \<Rightarrow> 's protocolContext" where
  "removeStream r t n =
     r\<lparr>streams := (streams r)(\<lparr>sid_term = t, sid_sequenceNum = n\<rparr> := None)\<rparr>"

definition getStream :: "'s protocolContext \<Rightarrow> Term \<Rightarrow> SequenceNum \<Rightarrow> 's writeStream" where
  "getStream r t n =
     (case streams r \<lparr>sid_term = t, sid_sequenceNum = n\<rparr> of Some s \<Rightarrow> s | None \<Rightarrow> NilStream)"

text \<open>Closing a stream runs its closer, if it has one.\<close>

definition closeStream :: "'s protocolContext \<Rightarrow> 's writeStream \<Rightarrow> 's protocolContext" where
  "closeStream r ws =
     (case ws of NilStream \<Rightarrow> r | CloserStream s t n \<Rightarrow> removeStream r t n)"

lemmas context_defs [go_defs] =
  newContext_def nextSequenceNum_def insertStream_def addStream_def removeStream_def
  getStream_def closeStream_def

section \<open>Invariant\<close>

text \<open>
  Every registered stream sits under a sequence number the counter has already given out,
  and under the very key its closer removes.
\<close>

definition context_wf :: "'s protocolContext \<Rightarrow> bool" where
  "context_wf r \<longleftrightarrow>
     (\<forall>k ws. streams r k = Some ws \<longrightarrow>
        0 < sid_sequenceNum k \<and> sid_sequenceNum k \<le> sequenceNum r \<and>
        (\<exists>s. ws = CloserStream s (sid_term k) (sid_sequenceNum k)))"

definition live :: "'s protocolContext \<Rightarrow> (Term \<times> SequenceNum) set" where
  "live r = {(t, n). streams r \<lparr>sid_term = t, sid_sequenceNum = n\<rparr> \<noteq> None}"

lemma context_wfD:
  "context_wf r \<Longrightarrow> streams r k = Some ws \<Longrightarrow>
     0 < sid_sequenceNum k \<and> sid_sequenceNum k \<le> sequenceNum r \<and>
     (\<exists>s. ws = CloserStream s (sid_term k) (sid_sequenceNum k))"
  by (auto simp: context_wf_def)

lemma newContext_wf [simp]: "context_wf newContext"
  by (simp add: context_wf_def newContext_def)

lemma insertStream_wf:
  "context_wf r \<Longrightarrow> 0 < n \<Longrightarrow> n \<le> sequenceNum r \<Longrightarrow> context_wf (insertStream r t n s)"
  by (auto simp: context_wf_def insertStream_def)

lemma removeStream_wf: "context_wf r \<Longrightarrow> context_wf (removeStream r t n)"
  by (auto simp: context_wf_def removeStream_def)

lemma closeStream_wf: "context_wf r \<Longrightarrow> context_wf (closeStream r ws)"
  by (auto simp: closeStream_def removeStream_wf split: writeStream.split)

text \<open>
  Until the counter wraps, a new stream gets a key that is not in the table, so it never
  replaces another client's stream.
\<close>

lemma nextSequenceNum_fresh:
  assumes "context_wf r" and "sequenceNum r \<noteq> - 1" and "nextSequenceNum r = (n, r')"
  shows "context_wf r'" and "0 < n" and "n = sequenceNum r'"
    and "\<And>t. streams r' \<lparr>sid_term = t, sid_sequenceNum = n\<rparr> = None"
proof -
  from assms(3) have n: "n = sequenceNum r + 1" and r': "r' = r\<lparr>sequenceNum := n\<rparr>"
    by (auto simp: nextSequenceNum_def Let_def)
  from assms(2) have less: "sequenceNum r < n" and pos: "0 < n"
    by (simp_all add: n word_next_less word_next_pos)
  show "0 < n" and "n = sequenceNum r'" by (simp_all add: pos r')
  show "context_wf r'"
    using assms(1) less by (fastforce simp: context_wf_def r')
  show "streams r' \<lparr>sid_term = t, sid_sequenceNum = n\<rparr> = None" for t
    using context_wfD [OF assms(1), of "\<lparr>sid_term = t, sid_sequenceNum = n\<rparr>"] less
    by (cases "streams r \<lparr>sid_term = t, sid_sequenceNum = n\<rparr>") (auto simp: r')
qed

lemma addStream_wf:
  assumes "context_wf r" and "sequenceNum r \<noteq> - 1" and "addStream r t s = (n, r')"
  shows "context_wf r'"
proof -
  obtain r1 where next1: "nextSequenceNum r = (n, r1)" and r': "r' = insertStream r1 t n s"
    using assms(3) by (auto simp: addStream_def split: prod.splits)
  note fresh = nextSequenceNum_fresh [OF assms(1,2) next1]
  show ?thesis unfolding r' by (rule insertStream_wf) (use fresh in auto)
qed

lemma addStream_live:
  "addStream r t s = (n, r') \<Longrightarrow> live r' = insert (t, n) (live r)"
  by (auto simp: addStream_def nextSequenceNum_def insertStream_def live_def Let_def)

lemma removeStream_live: "live (removeStream r t n) = live r - {(t, n)}"
  by (auto simp: live_def removeStream_def)

section \<open>The stream registry interface\<close>

text \<open>
  What the executor and the state machine rely on. \<open>ok\<close> is the registry's invariant,
  \<open>room\<close> says that another stream can be added without reusing a number.
\<close>

locale stream_registry =
  fixes ok :: "'r \<Rightarrow> bool"
    and room :: "'r \<Rightarrow> bool"
    and add :: "'r \<Rightarrow> Term \<Rightarrow> 's \<Rightarrow> SequenceNum \<times> 'r"
    and remove :: "'r \<Rightarrow> Term \<Rightarrow> SequenceNum \<Rightarrow> 'r"
    and lookup :: "'r \<Rightarrow> Term \<Rightarrow> SequenceNum \<Rightarrow> 's writeStream"
  assumes add_ok: "ok r \<Longrightarrow> room r \<Longrightarrow> add r t s = (n, r') \<Longrightarrow> ok r'"
    and remove_ok: "ok r \<Longrightarrow> ok (remove r t n)"
    and add_fresh: "ok r \<Longrightarrow> room r \<Longrightarrow> add r t s = (n, r') \<Longrightarrow> lookup r t' n = NilStream"
    and lookup_add: "add r t s = (n, r') \<Longrightarrow>
      lookup r' t' n' = (if t' = t \<and> n' = n then CloserStream s t n else lookup r t' n')"
    and lookup_remove:
      "lookup (remove r t n) t' n' = (if t' = t \<and> n' = n then NilStream else lookup r t' n')"
begin

lemma lookup_added: "add r t s = (n, r') \<Longrightarrow> lookup r' t n = CloserStream s t n"
  by (simp add: lookup_add)

lemma add_keeps_others:
  assumes "ok r" and "room r" and "add r t s = (n, r')"
    and "lookup r t' n' = CloserStream s' t'' n''"
  shows "lookup r' t' n' = CloserStream s' t'' n''"
proof -
  from add_fresh [OF assms(1-3), of t'] assms(4) have "n' \<noteq> n" by auto
  with lookup_add [OF assms(3)] assms(4) show ?thesis by simp
qed

lemma adds_distinct:
  assumes "ok r" and "room r" and "add r t s = (n, r1)"
    and "room r1" and "add r1 t' s' = (n', r2)"
  shows "n \<noteq> n'"
proof
  assume "n = n'"
  have "ok r1" by (rule add_ok [OF assms(1-3)])
  from add_fresh [OF this assms(4,5), of t] lookup_added [OF assms(3)] \<open>n = n'\<close>
  show False by simp
qed

lemma add_remove_roundtrip:
  assumes "ok r" and "room r" and "add r t s = (n, r')"
  shows "lookup (remove r' t n) t' n' = lookup r t' n'"
  using add_fresh [OF assms, of t'] lookup_add [OF assms(3)]
  by (auto simp: lookup_remove)

end

lemma getStream_insert:
  "getStream (insertStream r t n s) t' n' =
     (if t' = t \<and> n' = n then CloserStream s t n else getStream r t' n')"
  by (auto simp: getStream_def insertStream_def)

lemma getStream_remove:
  "getStream (removeStream r t n) t' n' =
     (if t' = t \<and> n' = n then NilStream else getStream r t' n')"
  by (auto simp: getStream_def removeStream_def)

lemma getStream_next: "nextSequenceNum r = (n, r') \<Longrightarrow> getStream r' t m = getStream r t m"
  by (auto simp: getStream_def nextSequenceNum_def Let_def)

lemma getStream_add:
  "addStream r t s = (n, r') \<Longrightarrow>
     getStream r' t' n' = (if t' = t \<and> n' = n then CloserStream s t n else getStream r t' n')"
  by (auto simp: addStream_def getStream_insert getStream_next split: prod.splits)

lemma addStream_fresh:
  assumes "context_wf r" and "sequenceNum r \<noteq> - 1" and "addStream r t s = (n, r')"
  shows "getStream r t' n = NilStream"
proof -
  obtain r1 where next1: "nextSequenceNum r = (n, r1)"
    using assms(3) by (auto simp: addStream_def split: prod.splits)
  from nextSequenceNum_fresh(4) [OF assms(1,2) next1, of t'] getStream_next [OF next1]
  show ?thesis by (metis getStream_def option.simps(4))
qed

interpretation ctx: stream_registry context_wf "\<lambda>r. sequenceNum r \<noteq> - 1"
  addStream removeStream getStream
  by unfold_locales
    (auto intro: addStream_wf addStream_fresh simp: removeStream_wf getStream_add getStream_remove)

section \<open>Properties\<close>

text \<open>
  C5. While the counter has not wrapped, registering a stream gives it a key nobody
  holds: every stream registered before is found unchanged, the new one is found under
  its key, and closing it puts the table back exactly as it was.
\<close>

theorem addStream_isolated:
  assumes "context_wf r" and "sequenceNum r \<noteq> - 1" and "addStream r t s = (n, r')"
  shows "context_wf r' \<and> getStream r' t n = CloserStream s t n \<and>
    (\<forall>t' n'. getStream r t' n' \<noteq> NilStream \<longrightarrow> getStream r' t' n' = getStream r t' n') \<and>
    (\<forall>t' n'. getStream (closeStream r' (getStream r' t n)) t' n' = getStream r t' n')"
proof -
  have "getStream r' t' n' = getStream r t' n'" if "getStream r t' n' \<noteq> NilStream" for t' n'
    using that ctx.add_keeps_others [OF assms] by (cases "getStream r t' n'") auto
  moreover have "getStream (closeStream r' (getStream r' t n)) t' n' = getStream r t' n'" for t' n'
    using ctx.add_remove_roundtrip [OF assms] ctx.lookup_added [OF assms(3)]
    by (simp add: closeStream_def)
  ultimately show ?thesis
    using ctx.add_ok [OF assms] ctx.lookup_added [OF assms(3)] by blast
qed

theorem addStream_isolated_witness:
  "getStream (snd (addStream (newContext :: nat protocolContext) 3 7)) 3 1 = CloserStream 7 3 1"
proof -
  have "addStream (newContext :: nat protocolContext) 3 7 =
      (1, insertStream (newContext\<lparr>sequenceNum := 1\<rparr>) 3 1 7)"
    by (simp add: addStream_def nextSequenceNum_def newContext_def Let_def)
  with addStream_isolated [OF newContext_wf _ this] show ?thesis
    by (simp add: newContext_def)
qed

end
