(* ===== verification/ProtoWire.thy ===== *)
theory ProtoWire
  imports Prelude
begin

text \<open>
  The wire format shared by every message of \<^verbatim>\<open>node/pkg/consensus/protocol.pb.go\<close>:
  varints (\<^verbatim>\<open>encodeVarintProtocol\<close>, \<^verbatim>\<open>sovProtocol\<close> and the reading loop every
  \<^verbatim>\<open>Unmarshal\<close> repeats), the writers that fill a buffer from its end towards its start,
  and the field loop of an \<^verbatim>\<open>Unmarshal\<close> with the skipping of unknown fields
  (\<^verbatim>\<open>skipProtocol\<close>). A slice is a list of bytes; an index that runs out of it is Go's
  panic, the result \<open>None\<close> of a writer. A message's codec is a locale: the message
  theories prove its laws for each message and reuse its lemmas where messages nest.
\<close>

unbundle bit_operations_syntax

section \<open>Errors\<close>

datatype wireError =
    ErrInvalidLengthProtocol
  | ErrIntOverflowProtocol
  | ErrUnexpectedEndOfGroupProtocol
  | ErrUnexpectedEOF
  | EndGroupForNonGroup string
  | IllegalTag string int uint64
  | WrongWireType uint64 string
  | IllegalWireType uint64
  | StdTimeError string

section \<open>Sizes of varints\<close>

text \<open>\<^verbatim>\<open>math/bits.Len64\<close>: the number of bits needed to represent the value, 0 for 0.\<close>

fun bitLen :: "nat \<Rightarrow> nat" where
  "bitLen n = (if n = 0 then 0 else Suc (bitLen (n div 2)))"

declare bitLen.simps [simp del]

definition Len64 :: "uint64 \<Rightarrow> nat" where
  "Len64 x = bitLen (unat x)"

definition sovProtocol :: "uint64 \<Rightarrow> nat" where
  "sovProtocol x = (Len64 (x OR 1) + 6) div 7"

text \<open>The bytes of a varint, the specification the two loops are measured against.\<close>

function varint :: "uint64 \<Rightarrow> byte list" where
  "varint v =
     (if v < 128 then [ucast v] else ucast ((v AND 127) OR 128) # varint (drop_bit 7 v))"
  by pat_completeness auto

lemma unat_drop_bit_7: "unat (drop_bit 7 v :: uint64) = unat v div 128"
  by (simp add: drop_bit_eq_div unat_div_distrib)

termination varint
  by (relation "measure unat") (auto simp: unat_drop_bit_7 word_less_nat_alt not_less)

declare varint.simps [simp del]

lemma bitLen_0 [simp]: "bitLen 0 = 0"
  by (simp add: bitLen.simps)

lemma bitLen_pos: "0 < n \<Longrightarrow> bitLen n = Suc (bitLen (n div 2))"
  by (simp add: bitLen.simps [of n])

lemma bitLen_or_1: "bitLen (n OR 1) = max 1 (bitLen n)"
proof (cases "n = 0")
  case True
  then show ?thesis by (simp add: bitLen_pos)
next
  case False
  have "(n OR 1) div 2 = n div 2"
    by (cases "even n") (simp_all add: or_Suc_0_eq)
  moreover have "0 < n OR 1" using False by (simp add: or_Suc_0_eq)
  ultimately have "bitLen (n OR 1) = Suc (bitLen (n div 2))" by (simp add: bitLen_pos)
  with False show ?thesis by (simp add: bitLen_pos)
qed

lemma bitLen_128: "128 \<le> n \<Longrightarrow> bitLen n = 7 + bitLen (n div 128)"
  by (simp add: bitLen_pos div_mult2_eq [symmetric] Suc_le_eq div_greater_zero_iff)

lemma bitLen_bound: "n < 2 ^ k \<Longrightarrow> bitLen n \<le> k"
proof (induction k arbitrary: n)
  case 0
  then show ?case by simp
next
  case (Suc k)
  then have "n div 2 < 2 ^ k" by simp
  with Suc.IH have "bitLen (n div 2) \<le> k" by blast
  then show ?case by (cases "n = 0") (simp_all add: bitLen_pos)
qed

lemma Len64_or_1: "Len64 (x OR 1) = max 1 (Len64 x)"
  using bitLen_or_1 [of "unat x"] by (simp add: Len64_def unsigned_or_eq)

lemma sovProtocol_rec:
  "sovProtocol v = (if v < 128 then 1 else Suc (sovProtocol (drop_bit 7 v)))"
proof (cases "v < 128")
  case True
  then have "Len64 v \<le> 7" unfolding Len64_def
    by (intro bitLen_bound) (simp add: word_less_nat_alt)
  then have "max 1 (Len64 v) + 6 < 14" and "7 \<le> max 1 (Len64 v) + 6" by simp_all
  then have "(max 1 (Len64 v) + 6) div 7 = 1" by linarith
  with True show ?thesis by (simp add: sovProtocol_def Len64_or_1)
next
  case False
  then have "128 \<le> unat v" by (simp add: word_less_nat_alt)
  then have "Len64 v = 7 + Len64 (drop_bit 7 v)" and "1 \<le> Len64 (drop_bit 7 v)"
    by (simp_all add: Len64_def unat_drop_bit_7 bitLen_128 bitLen_pos div_greater_zero_iff)
  with False show ?thesis by (simp add: sovProtocol_def Len64_or_1 max_def)
qed

lemma length_varint: "length (varint v) = sovProtocol v"
proof (induction v rule: varint.induct)
  case (1 v)
  then show ?case
    by (cases "v < 128") (simp_all add: varint.simps [of v] sovProtocol_rec [of v])
qed

lemma sovProtocol_pos [simp]: "0 < sovProtocol v"
  by (subst sovProtocol_rec) simp

lemma sovProtocol_le_10: "sovProtocol v \<le> 10"
proof -
  have "unat v < 2 ^ LENGTH(64)" by (rule unsigned_less)
  then have "Len64 v \<le> 64" unfolding Len64_def by (intro bitLen_bound) simp
  then have "max 1 (Len64 v) + 6 \<le> 70" by simp
  then show ?thesis by (simp add: sovProtocol_def Len64_or_1)
qed

section \<open>Writing\<close>

text \<open>
  A writer works on a slice and the index of the first byte already written; it moves the
  index down. It fails with Go's panic on an index outside the slice, or with the error
  its code returns.
\<close>

datatype writeFailure = Panic | Failed wireError

type_synonym writeState = "byte list \<times> int"
type_synonym writer = "writeState \<Rightarrow> writeFailure + writeState"

definition setByte :: "byte list \<Rightarrow> int \<Rightarrow> byte \<Rightarrow> writeFailure + byte list" where
  "setByte dAtA i b =
     (if 0 \<le> i \<and> i < int (length dAtA) then Inr (dAtA[nat i := b]) else Inl Panic)"

function encodeVarintLoop :: "byte list \<Rightarrow> int \<Rightarrow> uint64 \<Rightarrow> writeFailure + byte list" where
  "encodeVarintLoop dAtA offset v =
     (if 128 \<le> v then
        (case setByte dAtA offset (ucast ((v AND 127) OR 128)) of
           Inl e \<Rightarrow> Inl e
         | Inr dAtA' \<Rightarrow> encodeVarintLoop dAtA' (offset + 1) (drop_bit 7 v))
      else setByte dAtA offset (ucast v))"
  by pat_completeness auto
termination
  by (relation "measure (\<lambda>(d, i, v). unat v)")
     (auto simp: unat_drop_bit_7 word_le_nat_alt)

declare encodeVarintLoop.simps [simp del]

definition encodeVarintProtocol :: "byte list \<Rightarrow> int \<Rightarrow> uint64 \<Rightarrow> writeFailure + writeState" where
  "encodeVarintProtocol dAtA offset v =
     (let base = offset - int (sovProtocol v)
      in case encodeVarintLoop dAtA base v of
           Inl e \<Rightarrow> Inl e
         | Inr dAtA' \<Rightarrow> Inr (dAtA', base))"

definition wVarint :: "uint64 \<Rightarrow> writer" where
  "wVarint v s = (case s of (dAtA, i) \<Rightarrow> encodeVarintProtocol dAtA i v)"

definition wByte :: "byte \<Rightarrow> writer" where
  "wByte b s = (case s of (dAtA, i) \<Rightarrow>
     (case setByte dAtA (i - 1) b of Inl e \<Rightarrow> Inl e | Inr dAtA' \<Rightarrow> Inr (dAtA', i - 1)))"

definition wCopy :: "byte list \<Rightarrow> writer" where
  "wCopy src s = (case s of (dAtA, i) \<Rightarrow>
     (let i' = i - int (length src)
      in if 0 \<le> i' \<and> i' \<le> int (length dAtA)
         then Inr (take (nat i') dAtA @ take (length dAtA - nat i') src @
                     drop (nat i' + length src) dAtA, i')
         else Inl Panic))"

definition wSeq :: "writer \<Rightarrow> writer \<Rightarrow> writer" where
  "wSeq w1 w2 s = (case w1 s of Inl e \<Rightarrow> Inl e | Inr s' \<Rightarrow> w2 s')"

definition wWhen :: "bool \<Rightarrow> writer \<Rightarrow> writer" where
  "wWhen c w = (if c then w else Inr)"

text \<open>The loop over a repeated field runs from the last element to the first.\<close>

fun wAll :: "('a \<Rightarrow> writer) \<Rightarrow> 'a list \<Rightarrow> writer" where
  "wAll w [] = Inr"
| "wAll w (x # xs) = wSeq (wAll w xs) (w x)"

text \<open>
  A nested message writes into the slice up to the current index, which shares its bytes
  with the outer slice, and is then prefixed with its size.
\<close>

definition wNested :: "writer \<Rightarrow> writer" where
  "wNested w s = (case s of (dAtA, i) \<Rightarrow>
     (if 0 \<le> i \<and> i \<le> int (length dAtA) then
        (case w (take (nat i) dAtA, i) of
           Inl e \<Rightarrow> Inl e
         | Inr (sub, i') \<Rightarrow>
             (let sz = i - i'
              in encodeVarintProtocol (sub @ drop (nat i) dAtA) (i - sz) (word_of_int sz)))
      else Inl Panic))"

definition marshal :: "nat \<Rightarrow> writer \<Rightarrow> writeFailure + byte list" where
  "marshal sz w =
     (case w (replicate sz 0, int sz) of
        Inl e \<Rightarrow> Inl e
      | Inr (dAtA, i) \<Rightarrow> Inr (take (nat (int sz - i)) dAtA))"

text \<open>A writer emits a byte string if it puts exactly it in front of the index.\<close>

definition emits :: "writer \<Rightarrow> byte list \<Rightarrow> bool" where
  "emits w bs \<longleftrightarrow>
     (\<forall>dAtA i. length bs \<le> i \<longrightarrow> i \<le> length dAtA \<longrightarrow>
        w (dAtA, int i) = Inr (take (i - length bs) dAtA @ bs @ drop i dAtA, int (i - length bs)))"

lemma emitsD:
  "emits w bs \<Longrightarrow> length bs \<le> i \<Longrightarrow> i \<le> length dAtA \<Longrightarrow>
     w (dAtA, int i) = Inr (take (i - length bs) dAtA @ bs @ drop i dAtA, int (i - length bs))"
  by (simp add: emits_def)

lemma encodeVarintLoop_varint:
  "i + length (varint v) \<le> length dAtA \<Longrightarrow>
     encodeVarintLoop dAtA (int i) v =
       Inr (take i dAtA @ varint v @ drop (i + length (varint v)) dAtA)"
proof (induction v arbitrary: dAtA i rule: varint.induct)
  case (1 v)
  show ?case
  proof (cases "v < 128")
    case True
    then have "\<not> 128 \<le> v" by (simp only: not_le simp_thms)
    with True "1.prems" show ?thesis
      by (simp add: varint.simps [of v] encodeVarintLoop.simps [of _ _ v] setByte_def
          upd_conv_take_nth_drop)
  next
    case False
    let ?b = "ucast ((v AND 127) OR 128) :: byte"
    let ?rest = "varint (drop_bit 7 v)"
    from False have "128 \<le> v" by (simp only: not_less)
    from False have v: "varint v = ?b # ?rest" by (simp add: varint.simps [of v])
    with "1.prems" have i: "i < length dAtA" and len: "Suc i + length ?rest \<le> length (dAtA[i := ?b])"
      by simp_all
    have "encodeVarintLoop dAtA (int i) v =
        encodeVarintLoop (dAtA[i := ?b]) (int (Suc i)) (drop_bit 7 v)"
      using \<open>128 \<le> v\<close> i by (simp add: encodeVarintLoop.simps [of _ _ v] setByte_def add.commute)
    also have "\<dots> = Inr (take (Suc i) (dAtA[i := ?b]) @ ?rest @
        drop (Suc i + length ?rest) (dAtA[i := ?b]))"
      by (rule "1.IH" [OF False len])
    also have "take (Suc i) (dAtA[i := ?b]) = take i dAtA @ [?b]"
      using i by (simp add: take_Suc_conv_app_nth)
    finally show ?thesis using v by simp
  qed
qed

lemma emits_varint: "emits (wVarint v) (varint v)"
  unfolding emits_def
proof (intro allI impI)
  fix dAtA :: "byte list" and i
  assume "length (varint v) \<le> i" and "i \<le> length dAtA"
  moreover from this have "int i - int (length (varint v)) = int (i - length (varint v))" by simp
  ultimately show "wVarint v (dAtA, int i) =
      Inr (take (i - length (varint v)) dAtA @ varint v @ drop i dAtA, int (i - length (varint v)))"
    using encodeVarintLoop_varint [of "i - length (varint v)" v dAtA]
    by (simp add: wVarint_def encodeVarintProtocol_def length_varint [symmetric] Let_def
        del: of_nat_diff)
qed

lemma emits_byte: "emits (wByte b) [b]"
  by (auto simp: emits_def wByte_def setByte_def upd_conv_take_nth_drop nat_diff_distrib Suc_le_eq)

lemma emits_copy: "emits (wCopy bs) bs"
  by (auto simp: emits_def wCopy_def Let_def nat_diff_distrib)

lemma emits_seq:
  assumes "emits w1 a" and "emits w2 b"
  shows "emits (wSeq w1 w2) (b @ a)"
  unfolding emits_def
proof (intro allI impI)
  fix dAtA :: "byte list" and i
  assume i: "length (b @ a) \<le> i" "i \<le> length dAtA"
  let ?j = "i - length a"
  let ?d = "take ?j dAtA @ a @ drop i dAtA"
  from i have "w1 (dAtA, int i) = Inr (?d, int ?j)"
    using emitsD [OF assms(1), of i dAtA] by simp
  moreover from i have "w2 (?d, int ?j) =
      Inr (take (?j - length b) ?d @ b @ drop ?j ?d, int (?j - length b))"
    by (intro emitsD [OF assms(2)]) simp_all
  ultimately show "wSeq w1 w2 (dAtA, int i) =
      Inr (take (i - length (b @ a)) dAtA @ (b @ a) @ drop i dAtA, int (i - length (b @ a)))"
    using i by (simp add: wSeq_def diff_diff_left add.commute min_def)
qed

lemma emits_when: "(c \<Longrightarrow> emits w bs) \<Longrightarrow> emits (wWhen c w) (if c then bs else [])"
  by (simp add: wWhen_def emits_def)

lemma emits_all: "(\<And>x. x \<in> set xs \<Longrightarrow> emits (w x) (f x)) \<Longrightarrow> emits (wAll w xs) (concat (map f xs))"
  by (induction xs) (simp_all add: emits_seq emits_def [of Inr])

lemma emits_nested:
  assumes "emits w bs"
  shows "emits (wNested w) (varint (of_nat (length bs)) @ bs)"
  unfolding emits_def
proof (intro allI impI)
  fix dAtA :: "byte list" and i
  let ?h = "varint (of_nat (length bs))"
  assume i: "length (?h @ bs) \<le> i" "i \<le> length dAtA"
  let ?j = "i - length bs"
  let ?d = "take ?j dAtA @ bs @ drop i dAtA"
  from i have "w (take i dAtA, int i) = Inr (take ?j dAtA @ bs, int ?j)"
    using emitsD [OF assms, of i "take i dAtA"] by (simp add: min_def)
  moreover have "int i - int ?j = int (length bs)" using i by simp
  ultimately have "wNested w (dAtA, int i) = wVarint (of_nat (length bs)) (?d, int ?j)"
    using i by (simp add: wNested_def wVarint_def Let_def)
  also have "\<dots> = Inr (take (?j - length ?h) ?d @ ?h @ drop ?j ?d, int (?j - length ?h))"
    using i by (intro emitsD [OF emits_varint]) simp_all
  finally show "wNested w (dAtA, int i) =
      Inr (take (i - length (?h @ bs)) dAtA @ (?h @ bs) @ drop i dAtA, int (i - length (?h @ bs)))"
    using i by (simp add: diff_diff_left add.commute min_def)
qed

lemma marshal_emits:
  assumes "emits w bs" and "sz = length bs"
  shows "marshal sz w = Inr bs"
  using emitsD [OF assms(1), of sz "replicate sz 0"] assms(2)
  by (simp add: marshal_def)

section \<open>Reading\<close>

text \<open>
  The loop that reads a varint, written out in every \<^verbatim>\<open>Unmarshal\<close> with the type of the
  target: the width of the accumulator is that type's, so bits beyond it are shifted out.
\<close>

function readVarint :: "byte list \<Rightarrow> nat \<Rightarrow> nat \<Rightarrow> 'a::len word \<Rightarrow> wireError + ('a word \<times> nat)" where
  "readVarint dAtA iNdEx shift acc =
     (if 64 \<le> shift then Inl ErrIntOverflowProtocol
      else if length dAtA \<le> iNdEx then Inl ErrUnexpectedEOF
      else
        (let b = dAtA ! iNdEx; acc' = acc OR push_bit shift (ucast (b AND 127))
         in if b < 128 then Inr (acc', Suc iNdEx)
            else readVarint dAtA (Suc iNdEx) (shift + 7) acc'))"
  by pat_completeness auto
termination
  by (relation "measure (\<lambda>(d, i, shift, a). 64 - shift)") auto

declare readVarint.simps [simp del]

lemma readVarint_progress: "readVarint dAtA i shift acc = Inr (v, i') \<Longrightarrow> i < i' \<and> i' \<le> length dAtA"
proof (induction dAtA i shift acc rule: readVarint.induct)
  case (1 dAtA i shift acc)
  from "1.prems" show ?case
    by (subst (asm) readVarint.simps)
       (auto simp: Let_def split: if_splits dest: "1.IH" [OF _ _ refl refl])
qed

text \<open>
  An \<^verbatim>\<open>int\<close> sum of two non-negative terms is negative exactly when it leaves the 64-bit
  range, which is what the generated \<^verbatim>\<open>< 0\<close> tests after an addition find.
\<close>

definition sumOverflows :: "nat \<Rightarrow> nat \<Rightarrow> bool" where
  "sumOverflows a b \<longleftrightarrow> 2 ^ 63 \<le> a + b"

lemma sumOverflows_int64:
  assumes "a < 2 ^ 63" and "b < 2 ^ 63"
  shows "sumOverflows a b \<longleftrightarrow> int64 (int a + int b) < 0"
proof (cases "a + b < 2 ^ 63")
  case True
  then have "in_int64 (int a + int b)" by (simp add: in_int64_def)
  with True show ?thesis by (simp add: sumOverflows_def int64_id)
next
  case False
  let ?s = "int a + int b"
  from False assms have "2 ^ 63 \<le> ?s" and "?s < 2 ^ 64" by simp_all
  then have "take_bit 64 ?s = ?s" by (intro take_bit_int_eq_self) simp_all
  then have "int64 ?s = take_bit 64 (?s + 2 ^ 63) - 2 ^ 63"
    unfolding int64_def by (simp add: signed_take_bit_eq_take_bit_shift)
  moreover have "take_bit 64 (?s + 2 ^ 63) = ?s + 2 ^ 63 - 2 ^ 64"
  proof -
    have "take_bit 64 (?s + 2 ^ 63) = take_bit 64 (?s + 2 ^ 63 - 2 ^ 64)"
      by (simp only: take_bit_eq_mod minus_mod_self2)
    also have "\<dots> = ?s + 2 ^ 63 - 2 ^ 64"
      using \<open>2 ^ 63 \<le> ?s\<close> \<open>?s < 2 ^ 64\<close> by (intro take_bit_int_eq_self) simp_all
    finally show ?thesis .
  qed
  ultimately have "int64 ?s < 0" using \<open>?s < 2 ^ 64\<close> by simp
  with False show ?thesis by (simp add: sumOverflows_def)
qed

text \<open>
  The payload of a length-delimited field: its length (an \<^verbatim>\<open>int\<close>), then the slice
  \<^verbatim>\<open>dAtA[iNdEx:postIndex]\<close>.
\<close>

definition readSlice :: "byte list \<Rightarrow> nat \<Rightarrow> wireError + (byte list \<times> nat)" where
  "readSlice dAtA iNdEx =
     (case readVarint dAtA iNdEx 0 (0 :: uint64) of
        Inl e \<Rightarrow> Inl e
      | Inr (n, i) \<Rightarrow>
          if sint n < 0 then Inl ErrInvalidLengthProtocol
          else if sumOverflows i (nat (sint n)) then Inl ErrInvalidLengthProtocol
          else
            (let postIndex = i + nat (sint n)
             in if length dAtA < postIndex then Inl ErrUnexpectedEOF
                else Inr (take (nat (sint n)) (drop i dAtA), postIndex)))"

lemma readSlice_progress: "readSlice dAtA i = Inr (bs, i') \<Longrightarrow> i < i' \<and> i' \<le> length dAtA"
  by (auto simp: readSlice_def Let_def split: sum.splits if_splits dest!: readVarint_progress)

text \<open>One field of \<^verbatim>\<open>skipProtocol\<close>: the index behind it and the new group depth.\<close>

definition skipField :: "byte list \<Rightarrow> uint64 \<Rightarrow> nat \<Rightarrow> nat \<Rightarrow> wireError + (nat \<times> nat)" where
  "skipField dAtA wireType iNdEx depth =
     (if wireType = 0 then
        (case readVarint dAtA iNdEx 0 (0 :: uint64) of Inl e \<Rightarrow> Inl e | Inr (_, i) \<Rightarrow> Inr (i, depth))
      else if wireType = 1 then Inr (iNdEx + 8, depth)
      else if wireType = 2 then
        (case readVarint dAtA iNdEx 0 (0 :: uint64) of
           Inl e \<Rightarrow> Inl e
         | Inr (n, i) \<Rightarrow>
             if sint n < 0 then Inl ErrInvalidLengthProtocol else Inr (i + nat (sint n), depth))
      else if wireType = 3 then Inr (iNdEx, depth + 1)
      else if wireType = 4 then
        (if depth = 0 then Inl ErrUnexpectedEndOfGroupProtocol else Inr (iNdEx, depth - 1))
      else if wireType = 5 then Inr (iNdEx + 4, depth)
      else Inl (IllegalWireType wireType))"

lemma skipField_progress: "skipField dAtA wt i d = Inr (i', d') \<Longrightarrow> i \<le> i'"
  by (auto simp: skipField_def split: sum.splits if_splits dest!: readVarint_progress)

function skipLoop :: "byte list \<Rightarrow> nat \<Rightarrow> nat \<Rightarrow> wireError + nat" where
  "skipLoop dAtA iNdEx depth =
     (if iNdEx < length dAtA then
        (case readVarint dAtA iNdEx 0 (0 :: uint64) of
           Inl e \<Rightarrow> Inl e
         | Inr (wire, i) \<Rightarrow>
             (case skipField dAtA (wire AND 7) i depth of
                Inl e \<Rightarrow> Inl e
              | Inr (i', depth') \<Rightarrow>
                  if sumOverflows i' 0 then Inl ErrInvalidLengthProtocol
                  else if depth' = 0 then Inr i'
                  else skipLoop dAtA i' depth'))
      else Inl ErrUnexpectedEOF)"
  by pat_completeness auto
termination
  by (relation "measure (\<lambda>(d, i, depth). length d - i)")
     (auto dest!: readVarint_progress skipField_progress)

declare skipLoop.simps [simp del]

definition skipProtocol :: "byte list \<Rightarrow> wireError + nat" where
  "skipProtocol dAtA = skipLoop dAtA 0 0"

lemma skipLoop_progress: "skipLoop dAtA i depth = Inr i' \<Longrightarrow> i < i'"
proof (induction dAtA i depth rule: skipLoop.induct)
  case (1 dAtA i depth)
  from "1.prems" show ?case
    by (subst (asm) skipLoop.simps)
       (fastforce split: if_splits sum.splits
         dest: "1.IH" [rotated -1] readVarint_progress skipField_progress)
qed

section \<open>The field loop\<close>

text \<open>
  What a message's \<^verbatim>\<open>switch fieldNum\<close> does with a known field: a varint of 64 or 32 bits
  that is stored, or a length-delimited payload that is stored or unmarshalled. The string
  is the field's name in the wire-type error.
\<close>

datatype 'm field =
    VarintField string "uint64 \<Rightarrow> 'm \<Rightarrow> 'm"
  | Varint32Field string "uint32 \<Rightarrow> 'm \<Rightarrow> 'm"
  | LenField string "byte list \<Rightarrow> 'm \<Rightarrow> wireError + 'm"

type_synonym 'm fields = "int \<Rightarrow> 'm field option"

definition readField :: "byte list \<Rightarrow> uint64 \<Rightarrow> nat \<Rightarrow> 'm field \<Rightarrow> 'm \<Rightarrow> wireError + (nat \<times> 'm)" where
  "readField dAtA wireType iNdEx f m =
     (case f of
        VarintField name upd \<Rightarrow>
          if wireType \<noteq> 0 then Inl (WrongWireType wireType name)
          else (case readVarint dAtA iNdEx 0 0 of
                  Inl e \<Rightarrow> Inl e | Inr (v, i) \<Rightarrow> Inr (i, upd v m))
      | Varint32Field name upd \<Rightarrow>
          if wireType \<noteq> 0 then Inl (WrongWireType wireType name)
          else (case readVarint dAtA iNdEx 0 0 of
                  Inl e \<Rightarrow> Inl e | Inr (v, i) \<Rightarrow> Inr (i, upd v m))
      | LenField name upd \<Rightarrow>
          if wireType \<noteq> 2 then Inl (WrongWireType wireType name)
          else (case readSlice dAtA iNdEx of
                  Inl e \<Rightarrow> Inl e
                | Inr (bs, i) \<Rightarrow> (case upd bs m of Inl e \<Rightarrow> Inl e | Inr m' \<Rightarrow> Inr (i, m'))))"

definition skipUnknown :: "byte list \<Rightarrow> nat \<Rightarrow> wireError + nat" where
  "skipUnknown dAtA preIndex =
     (case skipProtocol (drop preIndex dAtA) of
        Inl e \<Rightarrow> Inl e
      | Inr skippy \<Rightarrow>
          if sumOverflows preIndex skippy then Inl ErrInvalidLengthProtocol
          else if length dAtA < preIndex + skippy then Inl ErrUnexpectedEOF
          else Inr (preIndex + skippy))"

definition unmarshalField :: "string \<Rightarrow> 'm fields \<Rightarrow> byte list \<Rightarrow> nat \<Rightarrow> 'm \<Rightarrow> wireError + (nat \<times> 'm)" where
  "unmarshalField msg fs dAtA iNdEx m =
     (case readVarint dAtA iNdEx 0 (0 :: uint64) of
        Inl e \<Rightarrow> Inl e
      | Inr (wire, i) \<Rightarrow>
          (let fieldNum = sint (ucast (drop_bit 3 wire) :: uint32); wireType = wire AND 7
           in if wireType = 4 then Inl (EndGroupForNonGroup msg)
              else if fieldNum \<le> 0 then Inl (IllegalTag msg fieldNum wire)
              else (case fs fieldNum of
                      Some f \<Rightarrow> readField dAtA wireType i f m
                    | None \<Rightarrow>
                        (case skipUnknown dAtA iNdEx of Inl e \<Rightarrow> Inl e | Inr i' \<Rightarrow> Inr (i', m)))))"

lemma unmarshalField_progress:
  "unmarshalField msg fs dAtA i m = Inr (i', m') \<Longrightarrow> i < i' \<and> i' \<le> length dAtA"
  by (auto simp: unmarshalField_def readField_def skipUnknown_def skipProtocol_def Let_def
      split: sum.splits if_splits option.splits field.splits
      dest!: readVarint_progress readSlice_progress skipLoop_progress)

function unmarshalFrom :: "string \<Rightarrow> 'm fields \<Rightarrow> byte list \<Rightarrow> nat \<Rightarrow> 'm \<Rightarrow> wireError + 'm" where
  "unmarshalFrom msg fs dAtA iNdEx m =
     (if iNdEx < length dAtA then
        (case unmarshalField msg fs dAtA iNdEx m of
           Inl e \<Rightarrow> Inl e
         | Inr (i, m') \<Rightarrow> unmarshalFrom msg fs dAtA i m')
      else if length dAtA < iNdEx then Inl ErrUnexpectedEOF
      else Inr m)"
  by pat_completeness auto
termination
  by (relation "measure (\<lambda>(msg, fs, d, i, m). length d - i)")
     (auto dest!: unmarshalField_progress)

declare unmarshalFrom.simps [simp del]

definition unmarshal :: "string \<Rightarrow> 'm fields \<Rightarrow> byte list \<Rightarrow> 'm \<Rightarrow> wireError + 'm" where
  "unmarshal msg fs dAtA m = unmarshalFrom msg fs dAtA 0 m"

section \<open>Reading back what was written\<close>

lemma bit_128: "bit (128 :: 'a::semiring_bit_operations) n \<longleftrightarrow> n = 7 \<and> possible_bit TYPE('a) 7"
  using bit_exp_iff [where ?'a = 'a, of 7 n] by auto

lemma byte_low_bits:
  "ucast (ucast ((v AND 127) OR 128 :: uint64) AND 127 :: byte) = (ucast (v AND 127) :: 'a::len word)"
proof -
  have m: "(127 :: byte) = mask 7" "(127 :: uint64) = mask 7"
    by (simp_all add: mask_eq_exp_minus_1)
  show ?thesis
    unfolding m by (rule bit_eqI) (auto simp: bit_simps bit_128)
qed

lemma byte_last:
  assumes "v < 128"
  shows "ucast (ucast v AND 127 :: byte) = (ucast (v :: uint64) :: 'a::len word)"
    and "(ucast v :: byte) < 128"
proof -
  have "unat v < 2 ^ 7" using assms by (simp add: word_less_nat_alt)
  then have "v = take_bit 7 v"
    by (simp add: word_unat_eq_iff unsigned_take_bit_eq take_bit_nat_eq_self)
  then have high: "n < 7" if "bit v n" for n
    using that by (metis bit_take_bit_iff)
  have m: "(127 :: byte) = mask 7" by (simp add: mask_eq_exp_minus_1)
  show "ucast (ucast v AND 127 :: byte) = (ucast v :: 'a::len word)"
    unfolding m by (rule bit_eqI) (auto simp: bit_simps dest: high)
  show "(ucast v :: byte) < 128"
    using \<open>unat v < 2 ^ 7\<close> by (simp add: word_less_nat_alt unsigned_ucast_eq take_bit_nat_eq_self)
qed

lemma byte_more: "\<not> (ucast ((v AND 127) OR 128 :: uint64) :: byte) < 128"
proof -
  have "(128 :: byte) \<le> ucast (v AND 127) OR 128"
    by (metis le_word_or2 or.commute)
  then show ?thesis by (simp add: unsigned_or_eq not_less)
qed

lemma word_split_7:
  assumes "LENGTH('a::len) \<le> 64"
  shows "ucast (v AND 127) OR push_bit 7 (ucast (drop_bit 7 v)) = (ucast (v :: uint64) :: 'a word)"
proof -
  have m: "(127 :: uint64) = mask 7" by (simp add: mask_eq_exp_minus_1)
  show ?thesis
    unfolding m by (rule bit_eqI) (use assms in \<open>auto simp: bit_simps\<close>)
qed

lemma drop_Cons_nth:
  assumes "drop i xs = b # r"
  shows "i < length xs" and "xs ! i = b" and "drop (Suc i) xs = r"
proof -
  show i: "i < length xs" using assms by (metis drop_all list.distinct(1) not_less)
  show "xs ! i = b" using assms i by (metis hd_drop_conv_nth list.sel(1))
  show "drop (Suc i) xs = r" using assms by (metis drop_Suc list.sel(3) tl_drop)
qed

lemma readVarint_varint:
  assumes "LENGTH('a::len) \<le> 64"
  shows "drop i dAtA = varint v @ rest \<Longrightarrow> shift + 7 * (length (varint v) - 1) < 64 \<Longrightarrow>
    readVarint dAtA i shift (acc :: 'a word) =
      Inr (acc OR push_bit shift (ucast v), i + length (varint v))"
proof (induction v arbitrary: i shift acc rule: varint.induct)
  case (1 v)
  show ?case
  proof (cases "v < 128")
    case True
    then have v: "varint v = [ucast v]" by (simp add: varint.simps [of v])
    with "1.prems" have "drop i dAtA = ucast v # rest" and "shift < 64" by simp_all
    note at = drop_Cons_nth [OF this(1)]
    from at \<open>shift < 64\<close> show ?thesis
      by (subst readVarint.simps) (simp add: v byte_last [OF True] Let_def not_le)
  next
    case False
    let ?b = "ucast ((v AND 127) OR 128) :: byte"
    let ?rest = "varint (drop_bit 7 v)"
    from False have v: "varint v = ?b # ?rest" by (simp add: varint.simps [of v])
    have "0 < length ?rest" unfolding length_varint by (rule sovProtocol_pos)
    then obtain k where k: "length ?rest = Suc k" by (auto simp: gr0_conv_Suc)
    from "1.prems" v have d: "drop i dAtA = ?b # (?rest @ rest)" by simp
    from "1.prems" v have shift: "shift + 7 + 7 * (length ?rest - 1) < 64"
      by (simp add: k)
    note at = drop_Cons_nth [OF d]
    let ?acc = "acc OR push_bit shift (ucast (v AND 127))"
    have "readVarint dAtA i shift acc = readVarint dAtA (Suc i) (shift + 7) ?acc"
      using at(1,2) shift
      by (subst readVarint.simps) (simp add: Let_def byte_more byte_low_bits not_le)
    also have "\<dots> = Inr (?acc OR push_bit (shift + 7) (ucast (drop_bit 7 v)), Suc i + length ?rest)"
      by (rule "1.IH" [OF False at(3) shift])
    also have "?acc OR push_bit (shift + 7) (ucast (drop_bit 7 v)) =
        acc OR push_bit shift (ucast (v AND 127) OR push_bit 7 (ucast (drop_bit 7 v)))"
      by (simp add: push_bit_or or.assoc)
    also have "\<dots> = acc OR push_bit shift (ucast v)"
      by (simp only: word_split_7 [OF assms])
    finally show ?thesis by (simp add: v)
  qed
qed

lemma readVarint_start:
  assumes "LENGTH('a::len) \<le> 64" and "drop i dAtA = varint v @ rest"
  shows "readVarint dAtA i 0 (0 :: 'a word) = Inr (ucast v, i + length (varint v))"
proof -
  have "0 + 7 * (length (varint v) - 1) < 64"
    using sovProtocol_le_10 [of v] by (simp add: length_varint)
  from readVarint_varint [OF assms this, of 0] show ?thesis by simp
qed

text \<open>
  \<open>decodes fs bs m m'\<close>: wherever the field loop meets the bytes \<open>bs\<close> it consumes exactly
  them and turns the message \<open>m\<close> into \<open>m'\<close>. Slices are shorter than \<^verbatim>\<open>2^63\<close>, as every Go
  slice is.
\<close>

definition decodes :: "'m fields \<Rightarrow> byte list \<Rightarrow> 'm \<Rightarrow> 'm \<Rightarrow> bool" where
  "decodes fs bs m m' \<longleftrightarrow>
     (\<forall>msg dAtA i rest. length dAtA < 2 ^ 63 \<longrightarrow> drop i dAtA = bs @ rest \<longrightarrow>
        unmarshalFrom msg fs dAtA i m = unmarshalFrom msg fs dAtA (i + length bs) m')"

lemma decodes_Nil: "decodes fs [] m m"
  by (simp add: decodes_def)

lemma decodes_append:
  assumes "decodes fs a m m1" and "decodes fs b m1 m2"
  shows "decodes fs (a @ b) m m2"
  unfolding decodes_def
proof (intro allI impI)
  fix msg dAtA i rest
  assume len: "length (dAtA :: byte list) < 2 ^ 63" and d: "drop i dAtA = (a @ b) @ rest"
  from d have "drop i dAtA = a @ (b @ rest)" by simp
  moreover from this have "drop (i + length a) dAtA = b @ rest"
    by (metis add.commute append_eq_conv_conj drop_drop)
  ultimately show "unmarshalFrom msg fs dAtA i m = unmarshalFrom msg fs dAtA (i + length (a @ b)) m2"
    using assms len unfolding decodes_def by (simp add: add.assoc)
qed

lemma decodes_when: "(c \<Longrightarrow> decodes fs bs m m') \<Longrightarrow> (\<not> c \<Longrightarrow> m' = m) \<Longrightarrow>
    decodes fs (if c then bs else []) m m'"
  by (simp add: decodes_Nil)

lemma unmarshal_decodes:
  assumes "decodes fs bs m m'" and "length bs < 2 ^ 63"
  shows "unmarshal msg fs bs m = Inr m'"
proof -
  have "unmarshal msg fs bs m = unmarshalFrom msg fs bs (length bs) m'"
    using assms unfolding unmarshal_def decodes_def by fastforce
  then show ?thesis by (simp add: unmarshalFrom.simps)
qed

section \<open>Decoding one field\<close>

text \<open>The one-byte tag of field number \<open>n\<close> with wire type \<open>w\<close>.\<close>

definition isTag :: "byte \<Rightarrow> int \<Rightarrow> uint64 \<Rightarrow> bool" where
  "isTag t n w \<longleftrightarrow>
     t < 128 \<and> sint (ucast (drop_bit 3 (ucast t :: uint64)) :: uint32) = n \<and>
     (ucast t :: uint64) AND 7 = w \<and> 0 < n \<and> w \<noteq> 4"

lemma readVarint_tag:
  assumes "drop i dAtA = t # rest" and "t < 128"
  shows "readVarint dAtA i 0 (0 :: uint64) = Inr (ucast t, Suc i)"
proof -
  have u: "unat t < 128" using assms(2) by (simp add: word_less_nat_alt)
  then have "unat (ucast t :: uint64) = unat t"
    by (simp add: unsigned_ucast_eq unsigned_take_bit_eq take_bit_nat_eq_self)
  with u have "(ucast t :: uint64) < 128" and "(ucast (ucast t :: uint64) :: byte) = t"
    by (simp_all add: word_less_nat_alt word_unat_eq_iff unsigned_ucast_eq unsigned_take_bit_eq take_bit_nat_eq_self)
  then have "varint (ucast t) = [t]"
    by (subst varint.simps) simp
  with readVarint_start [where ?'a = 64 and v = "ucast t"] assms(1) show ?thesis by simp
qed

lemma unmarshalField_known:
  assumes "drop i dAtA = t # rest" and "isTag t n w" and "fs n = Some f"
  shows "unmarshalField msg fs dAtA i m = readField dAtA w (Suc i) f m"
  using assms readVarint_tag [OF assms(1)]
  by (auto simp: unmarshalField_def isTag_def Let_def)

lemma unmarshalFrom_step:
  assumes "drop i dAtA = t # rest" and "unmarshalField msg fs dAtA i m = Inr (i', m')"
  shows "unmarshalFrom msg fs dAtA i m = unmarshalFrom msg fs dAtA i' m'"
  using drop_Cons_nth(1) [OF assms(1)] assms(2)
  by (subst unmarshalFrom.simps) simp

lemma decodes_varint:
  assumes "isTag t n 0" and "fs n = Some (VarintField name upd)"
  shows "decodes fs (t # varint v) m (upd v m)"
  unfolding decodes_def
proof (intro allI impI)
  fix msg dAtA i rest
  assume "drop i (dAtA :: byte list) = (t # varint v) @ rest"
  then have d: "drop i dAtA = t # (varint v @ rest)" by simp
  have "readVarint dAtA (Suc i) 0 0 = Inr (v, Suc i + length (varint v))"
    using readVarint_start [where ?'a = 64, OF _ drop_Cons_nth(3) [OF d]] by simp
  with unmarshalField_known [where fs = fs and n = n, OF d assms]
  have "unmarshalField msg fs dAtA i m = Inr (Suc i + length (varint v), upd v m)"
    by (simp add: readField_def)
  from unmarshalFrom_step [OF d this]
  show "unmarshalFrom msg fs dAtA i m = unmarshalFrom msg fs dAtA (i + length (t # varint v)) (upd v m)"
    by simp
qed

lemma decodes_varint32:
  assumes "isTag t n 0" and "fs n = Some (Varint32Field name upd)"
  shows "decodes fs (t # varint v) m (upd (ucast v) m)"
  unfolding decodes_def
proof (intro allI impI)
  fix msg dAtA i rest
  assume "drop i (dAtA :: byte list) = (t # varint v) @ rest"
  then have d: "drop i dAtA = t # (varint v @ rest)" by simp
  have "readVarint dAtA (Suc i) 0 (0 :: uint32) = Inr (ucast v, Suc i + length (varint v))"
    using readVarint_start [where ?'a = 32, OF _ drop_Cons_nth(3) [OF d]] by simp
  with unmarshalField_known [where fs = fs and n = n, OF d assms]
  have "unmarshalField msg fs dAtA i m = Inr (Suc i + length (varint v), upd (ucast v) m)"
    by (simp add: readField_def)
  from unmarshalFrom_step [OF d this]
  show "unmarshalFrom msg fs dAtA i m =
      unmarshalFrom msg fs dAtA (i + length (t # varint v)) (upd (ucast v) m)"
    by simp
qed

lemma sint_of_nat_64: "n < 2 ^ 63 \<Longrightarrow> sint (of_nat n :: uint64) = int n"
  by (simp add: signed_of_nat signed_take_bit_int_eq_self)

lemma readSlice_written:
  assumes "drop i dAtA = varint (of_nat (length bs)) @ bs @ rest" and "length dAtA < 2 ^ 63"
  shows "readSlice dAtA i = Inr (bs, i + length (varint (of_nat (length bs))) + length bs)"
proof -
  let ?h = "varint (of_nat (length bs))"
  let ?j = "i + length ?h"
  have j: "drop ?j dAtA = bs @ rest"
    using assms(1) by (metis add.commute append_eq_conv_conj drop_drop)
  have "length dAtA - i = length ?h + length bs + length rest"
    using arg_cong [OF assms(1), of length] by simp
  moreover have "0 < length ?h" by (simp only: length_varint sovProtocol_pos)
  ultimately have le: "?j + length bs \<le> length dAtA" by linarith
  with assms(2) have "length bs < 2 ^ 63" by simp
  then have s: "sint (of_nat (length bs) :: uint64) = int (length bs)" by (rule sint_of_nat_64)
  have "readVarint dAtA i 0 (0 :: uint64) = Inr (of_nat (length bs), ?j)"
    using readVarint_start [where ?'a = 64, OF _ assms(1)] by simp
  with le assms(2) show ?thesis
    by (simp add: readSlice_def s sumOverflows_def Let_def j)
qed

lemma decodes_len:
  assumes "isTag t n 2" and "fs n = Some (LenField name upd)" and "upd bs m = Inr m'"
  shows "decodes fs (t # varint (of_nat (length bs)) @ bs) m m'"
  unfolding decodes_def
proof (intro allI impI)
  fix msg dAtA i rest
  let ?h = "varint (of_nat (length bs))"
  assume len: "length (dAtA :: byte list) < 2 ^ 63"
    and "drop i dAtA = (t # ?h @ bs) @ rest"
  then have d: "drop i dAtA = t # (?h @ bs @ rest)" by simp
  from readSlice_written [OF drop_Cons_nth(3) [OF d] len]
    unmarshalField_known [where fs = fs and n = n, OF d assms(1,2)] assms(3)
  have "unmarshalField msg fs dAtA i m = Inr (Suc i + length ?h + length bs, m')"
    by (simp add: readField_def)
  from unmarshalFrom_step [OF d this]
  show "unmarshalFrom msg fs dAtA i m =
      unmarshalFrom msg fs dAtA (i + length (t # ?h @ bs)) m'"
    by (simp add: add.assoc)
qed

section \<open>The codec of a message\<close>

text \<open>
  What a message type provides: its field table, size, writer and the bytes the writer
  emits; unmarshalling those bytes into the zero value gives the message back.
\<close>

definition embed :: "string \<Rightarrow> 'm fields \<Rightarrow> ('o \<Rightarrow> 'm) \<Rightarrow> ('m \<Rightarrow> 'o \<Rightarrow> 'o) \<Rightarrow>
    byte list \<Rightarrow> 'o \<Rightarrow> wireError + 'o" where
  "embed msg fs get put bs outer =
     (case unmarshal msg fs bs (get outer) of Inl e \<Rightarrow> Inl e | Inr x \<Rightarrow> Inr (put x outer))"

locale message_codec =
  fixes fs :: "'m fields"
    and sz :: "'m \<Rightarrow> nat"
    and w :: "'m \<Rightarrow> writer"
    and enc :: "'m \<Rightarrow> byte list"
    and zero :: 'm
  assumes writes: "emits (w m) (enc m)"
    and sizes: "sz m = length (enc m)"
    and reads: "decodes fs (enc m) zero m"
begin

lemma marshal_enc: "marshal (sz m) (w m) = Inr (enc m)"
  by (rule marshal_emits [OF writes sizes])

lemma roundtrip: "length (enc m) < 2 ^ 63 \<Longrightarrow> unmarshal msg fs (enc m) zero = Inr m"
  by (rule unmarshal_decodes [OF reads])

lemma enc_inject:
  assumes "enc m = enc m'" and "length (enc m) < 2 ^ 63"
  shows "m = m'"
proof -
  have "Inr m = unmarshal msg fs (enc m) zero" by (rule roundtrip [OF assms(2), symmetric])
  also have "\<dots> = Inr m'" using roundtrip [of m'] assms by simp
  finally show ?thesis by simp
qed

lemma nested_writes:
  "emits (wSeq (wNested (w m)) (wByte t)) (t # varint (of_nat (length (enc m))) @ enc m)"
  using emits_seq [OF emits_nested [OF writes] emits_byte] by simp

lemma nested_reads:
  assumes "isTag t n 2" and "ofs n = Some (LenField name (embed msg fs get put))"
    and "get outer = zero"
  shows "decodes ofs (t # varint (of_nat (length (enc m))) @ enc m) outer (put m outer)"
  unfolding decodes_def
proof (intro allI impI)
  fix omsg dAtA i rest
  let ?bs = "t # varint (of_nat (length (enc m))) @ enc m"
  assume len: "length (dAtA :: byte list) < 2 ^ 63" and d: "drop i dAtA = ?bs @ rest"
  have "length (enc m) < 2 ^ 63"
    using arg_cong [OF d, of length] len by simp
  then have "embed msg fs get put (enc m) outer = Inr (put m outer)"
    by (simp add: embed_def assms(3) roundtrip)
  from decodes_len [where fs = ofs and n = n, OF assms(1,2) this] len d
  show "unmarshalFrom omsg ofs dAtA i outer = unmarshalFrom omsg ofs dAtA (i + length ?bs) (put m outer)"
    unfolding decodes_def by blast
qed

lemma nested_reads_all:
  assumes "isTag t n 2" and "ofs n = Some (LenField name (embed msg fs (\<lambda>_. zero) put))"
  shows "decodes ofs (concat (map (\<lambda>m. t # varint (of_nat (length (enc m))) @ enc m) ms)) outer
    (fold put ms outer)"
proof (induction ms arbitrary: outer)
  case Nil
  then show ?case by (simp add: decodes_Nil)
next
  case (Cons m ms)
  have "decodes ofs (t # varint (of_nat (length (enc m))) @ enc m) outer (put m outer)"
    by (rule nested_reads [where ofs = ofs and get = "\<lambda>_. zero", OF assms]) simp
  from decodes_append [OF this Cons.IH] show ?case by simp
qed

end

text \<open>The rules a message's codec is assembled from.\<close>

lemma emits_done: "emits Inr []"
  by (simp add: emits_def)

lemma emits_uint: "emits (wSeq (wVarint v) (wByte t)) (t # varint v)"
  using emits_seq [OF emits_varint emits_byte] by simp

lemma emits_bytes:
  "emits (wSeq (wCopy bs) (wSeq (wVarint (of_nat (length bs))) (wByte t)))
     (t # varint (of_nat (length bs)) @ bs)"
  using emits_seq [OF emits_copy emits_uint] by simp

lemma emitsI: "emits w a \<Longrightarrow> a = b \<Longrightarrow> emits w b"
  by simp

lemma decodesI: "decodes fs bs m m' \<Longrightarrow> m' = m'' \<Longrightarrow> decodes fs bs m m''"
  by simp

lemmas emits_rules =
  emits_nested emits_uint emits_bytes emits_when emits_byte emits_done emits_all emits_seq

lemma decodes_uint_when:
  "isTag t n 0 \<Longrightarrow> fs n = Some (VarintField name upd) \<Longrightarrow> (v = 0 \<Longrightarrow> upd v m = m) \<Longrightarrow>
     decodes fs (if v \<noteq> 0 then t # varint v else []) m (upd v m)"
  by (intro decodes_when decodes_varint) auto

lemma ucast_32_64_32 [simp]: "(ucast (ucast v :: uint64) :: uint32) = v"
  by (rule bit_eqI) (simp add: bit_simps)

lemma ucast_scast_32 [simp]: "(ucast (scast v :: uint64) :: uint32) = v"
  by (rule bit_eqI) (auto simp: bit_simps)

lemma decodes_uint32_when:
  "isTag t n 0 \<Longrightarrow> fs n = Some (Varint32Field name upd) \<Longrightarrow> (v = 0 \<Longrightarrow> upd v m = m) \<Longrightarrow>
     decodes fs (if v \<noteq> 0 then t # varint (ucast v) else []) m (upd v m)"
  by (rule decodes_when)
     (use decodes_varint32 [of t n fs name upd "ucast v"] in auto)

lemma decodes_int32_when:
  "isTag t n 0 \<Longrightarrow> fs n = Some (Varint32Field name upd) \<Longrightarrow> (v = 0 \<Longrightarrow> upd v m = m) \<Longrightarrow>
     decodes fs (if v \<noteq> 0 then t # varint (scast v) else []) m (upd v m)"
  by (rule decodes_when)
     (use decodes_varint32 [of t n fs name upd "scast v"] in auto)

lemma varint_1: "varint 1 = [1]"
  by (simp add: varint.simps)

lemma decodes_bool_when:
  "isTag t n 0 \<Longrightarrow> fs n = Some (VarintField name upd) \<Longrightarrow>
     decodes fs (if b then [t, 1] else []) m (if b then upd 1 m else m)"
  by (rule decodes_when) (use decodes_varint [of t n fs name upd 1 m] in \<open>auto simp: varint_1\<close>)

lemma decodes_bytes_when:
  "isTag t n 2 \<Longrightarrow> fs n = Some (LenField name upd) \<Longrightarrow> upd bs m = Inr m' \<Longrightarrow>
     (bs = [] \<Longrightarrow> m' = m) \<Longrightarrow>
     decodes fs (if 0 < length bs then t # varint (of_nat (length bs)) @ bs else []) m m'"
  by (rule decodes_when) (use decodes_len [of t n fs name upd bs m m'] in auto)

text \<open>The tags of the generated code.\<close>

lemma tags:
  "isTag 0x8 1 0" "isTag 0x10 2 0" "isTag 0x18 3 0"
  "isTag 0xa 1 2" "isTag 0x12 2 2" "isTag 0x1a 3 2" "isTag 0x22 4 2" "isTag 0x2a 5 2"
  "isTag 0x32 6 2" "isTag 0x3a 7 2" "isTag 0x42 8 2" "isTag 0x4a 9 2" "isTag 0x52 10 2"
  "isTag 0x5a 11 2" "isTag 0x62 12 2" "isTag 0x6a 13 2" "isTag 0x72 14 2" "isTag 0x7a 15 2"
  by (simp_all add: isTag_def)

text \<open>Go strings are bytes.\<close>

definition stringBytes :: "string \<Rightarrow> byte list" where
  "stringBytes s = map (\<lambda>c. of_nat (of_char c)) s"

definition bytesString :: "byte list \<Rightarrow> string" where
  "bytesString bs = map (\<lambda>b. char_of (unat b)) bs"

lemma bytesString_stringBytes [simp]: "bytesString (stringBytes s) = s"
proof -
  have "unat (of_nat (of_char c) :: byte) = of_char c" for c
    using of_char_mod_256 [where ?'a = nat, of c]
    by (simp add: unsigned_of_nat take_bit_eq_mod)
  then show ?thesis
    by (simp add: bytesString_def stringBytes_def comp_def)
qed

lemma length_stringBytes [simp]: "length (stringBytes s) = length s"
  by (simp add: stringBytes_def)

lemma stringBytes_Nil [simp]: "stringBytes s = [] \<longleftrightarrow> s = []"
  by (simp add: stringBytes_def)

end
