(* ===== verification/ProtoMessages.thy ===== *)
theory ProtoMessages
  imports ProtoWire
begin

text \<open>
  The messages of \<^verbatim>\<open>protocol.proto\<close> that carry proposals and group configurations, with
  the \<^verbatim>\<open>Size\<close>, \<^verbatim>\<open>MarshalToSizedBuffer\<close> and \<^verbatim>\<open>Unmarshal\<close> of the generated
  \<^verbatim>\<open>protocol.pb.go\<close>. Each message interprets \<open>message_codec\<close>, which gives it the round
  trip and the laws of a nested field.
\<close>

section \<open>RaftProposal\<close>

record RaftProposal =
  rp_Term :: Term
  rp_SequenceNum :: SequenceNum
  rp_Data :: "byte list"

definition zeroRaftProposal :: RaftProposal where
  "zeroRaftProposal = \<lparr>rp_Term = 0, rp_SequenceNum = 0, rp_Data = []\<rparr>"

definition RaftProposal_Size :: "RaftProposal \<Rightarrow> nat" where
  "RaftProposal_Size m =
     (if rp_Term m \<noteq> 0 then 1 + sovProtocol (rp_Term m) else 0) +
     (if rp_SequenceNum m \<noteq> 0 then 1 + sovProtocol (rp_SequenceNum m) else 0) +
     (let l = length (rp_Data m) in if 0 < l then 1 + l + sovProtocol (of_nat l) else 0)"

definition RaftProposal_MarshalToSizedBuffer :: "RaftProposal \<Rightarrow> writer" where
  "RaftProposal_MarshalToSizedBuffer m =
     wSeq (wWhen (0 < length (rp_Data m))
             (wSeq (wCopy (rp_Data m))
               (wSeq (wVarint (of_nat (length (rp_Data m)))) (wByte 0x1a))))
      (wSeq (wWhen (rp_SequenceNum m \<noteq> 0) (wSeq (wVarint (rp_SequenceNum m)) (wByte 0x10)))
        (wWhen (rp_Term m \<noteq> 0) (wSeq (wVarint (rp_Term m)) (wByte 0x8))))"

definition RaftProposal_Marshal :: "RaftProposal \<Rightarrow> writeFailure + byte list" where
  "RaftProposal_Marshal m = marshal (RaftProposal_Size m) (RaftProposal_MarshalToSizedBuffer m)"

definition RaftProposal_fields :: "RaftProposal fields" where
  "RaftProposal_fields n =
     (if n = 1 then Some (VarintField ''Term'' (\<lambda>v m. m\<lparr>rp_Term := v\<rparr>))
      else if n = 2 then Some (VarintField ''SequenceNum'' (\<lambda>v m. m\<lparr>rp_SequenceNum := v\<rparr>))
      else if n = 3 then Some (LenField ''Data'' (\<lambda>bs m. Inr (m\<lparr>rp_Data := bs\<rparr>)))
      else None)"

definition RaftProposal_Unmarshal :: "byte list \<Rightarrow> RaftProposal \<Rightarrow> wireError + RaftProposal" where
  "RaftProposal_Unmarshal dAtA m = unmarshal ''RaftProposal'' RaftProposal_fields dAtA m"

definition RaftProposal_bytes :: "RaftProposal \<Rightarrow> byte list" where
  "RaftProposal_bytes m =
     (if rp_Term m \<noteq> 0 then 0x8 # varint (rp_Term m) else []) @
     (if rp_SequenceNum m \<noteq> 0 then 0x10 # varint (rp_SequenceNum m) else []) @
     (if 0 < length (rp_Data m)
      then 0x1a # varint (of_nat (length (rp_Data m))) @ rp_Data m else [])"

lemma RaftProposal_field_eqs:
  "RaftProposal_fields 1 = Some (VarintField ''Term'' (\<lambda>v m. m\<lparr>rp_Term := v\<rparr>))"
  "RaftProposal_fields 2 = Some (VarintField ''SequenceNum'' (\<lambda>v m. m\<lparr>rp_SequenceNum := v\<rparr>))"
  "RaftProposal_fields 3 = Some (LenField ''Data'' (\<lambda>bs m. Inr (m\<lparr>rp_Data := bs\<rparr>)))"
  by (simp_all add: RaftProposal_fields_def)

lemma RaftProposal_emits: "emits (RaftProposal_MarshalToSizedBuffer m) (RaftProposal_bytes m)"
  unfolding RaftProposal_MarshalToSizedBuffer_def
  by (rule emitsI, (rule emits_rules)+) (simp add: RaftProposal_bytes_def)

lemma RaftProposal_decodes: "decodes RaftProposal_fields (RaftProposal_bytes m) zeroRaftProposal m"
  unfolding RaftProposal_bytes_def
  by (rule decodesI, (rule decodes_append
        decodes_uint_when [where fs = RaftProposal_fields, OF tags(1) RaftProposal_field_eqs(1)]
        decodes_uint_when [where fs = RaftProposal_fields, OF tags(2) RaftProposal_field_eqs(2)]
        decodes_bytes_when [where fs = RaftProposal_fields, OF tags(6) RaftProposal_field_eqs(3) refl]
        | simp add: zeroRaftProposal_def)+)

lemma RaftProposal_sizes: "RaftProposal_Size m = length (RaftProposal_bytes m)"
  by (simp add: RaftProposal_bytes_def RaftProposal_Size_def length_varint Let_def)

interpretation RaftProposal: message_codec RaftProposal_fields
  RaftProposal_Size RaftProposal_MarshalToSizedBuffer RaftProposal_bytes zeroRaftProposal
  by (unfold_locales, rule RaftProposal_emits, rule RaftProposal_sizes, rule RaftProposal_decodes)

section \<open>MemberConfig\<close>

text \<open>
  \<^verbatim>\<open>Port\<close> is an \<^verbatim>\<open>int32\<close>, kept as its 32-bit pattern; \<^verbatim>\<open>uint64(m.Port)\<close> sign-extends it.
\<close>

record MemberConfig =
  mc_MemberID :: MemberID
  mc_Host :: string
  mc_Port :: uint32

definition zeroMemberConfig :: MemberConfig where
  "zeroMemberConfig = \<lparr>mc_MemberID = 0, mc_Host = [], mc_Port = 0\<rparr>"

definition MemberConfig_Size :: "MemberConfig \<Rightarrow> nat" where
  "MemberConfig_Size m =
     (if mc_MemberID m \<noteq> 0 then 1 + sovProtocol (ucast (mc_MemberID m)) else 0) +
     (let l = length (mc_Host m) in if 0 < l then 1 + l + sovProtocol (of_nat l) else 0) +
     (if mc_Port m \<noteq> 0 then 1 + sovProtocol (scast (mc_Port m)) else 0)"

definition MemberConfig_MarshalToSizedBuffer :: "MemberConfig \<Rightarrow> writer" where
  "MemberConfig_MarshalToSizedBuffer m =
     wSeq (wWhen (mc_Port m \<noteq> 0) (wSeq (wVarint (scast (mc_Port m))) (wByte 0x18)))
      (wSeq (wWhen (0 < length (mc_Host m))
               (wSeq (wCopy (stringBytes (mc_Host m)))
                 (wSeq (wVarint (of_nat (length (mc_Host m)))) (wByte 0x12))))
        (wWhen (mc_MemberID m \<noteq> 0) (wSeq (wVarint (ucast (mc_MemberID m))) (wByte 0x8))))"

definition MemberConfig_fields :: "MemberConfig fields" where
  "MemberConfig_fields n =
     (if n = 1 then Some (Varint32Field ''MemberID'' (\<lambda>v m. m\<lparr>mc_MemberID := v\<rparr>))
      else if n = 2 then Some (LenField ''Host'' (\<lambda>bs m. Inr (m\<lparr>mc_Host := bytesString bs\<rparr>)))
      else if n = 3 then Some (Varint32Field ''Port'' (\<lambda>v m. m\<lparr>mc_Port := v\<rparr>))
      else None)"

definition MemberConfig_Unmarshal :: "byte list \<Rightarrow> MemberConfig \<Rightarrow> wireError + MemberConfig" where
  "MemberConfig_Unmarshal dAtA m = unmarshal ''MemberConfig'' MemberConfig_fields dAtA m"

definition MemberConfig_bytes :: "MemberConfig \<Rightarrow> byte list" where
  "MemberConfig_bytes m =
     (if mc_MemberID m \<noteq> 0 then 0x8 # varint (ucast (mc_MemberID m)) else []) @
     (if 0 < length (stringBytes (mc_Host m))
      then 0x12 # varint (of_nat (length (stringBytes (mc_Host m)))) @ stringBytes (mc_Host m)
      else []) @
     (if mc_Port m \<noteq> 0 then 0x18 # varint (scast (mc_Port m)) else [])"

lemma MemberConfig_field_eqs:
  "MemberConfig_fields 1 = Some (Varint32Field ''MemberID'' (\<lambda>v m. m\<lparr>mc_MemberID := v\<rparr>))"
  "MemberConfig_fields 2 = Some (LenField ''Host'' (\<lambda>bs m. Inr (m\<lparr>mc_Host := bytesString bs\<rparr>)))"
  "MemberConfig_fields 3 = Some (Varint32Field ''Port'' (\<lambda>v m. m\<lparr>mc_Port := v\<rparr>))"
  by (simp_all add: MemberConfig_fields_def)

lemma MemberConfig_emits: "emits (MemberConfig_MarshalToSizedBuffer m) (MemberConfig_bytes m)"
  unfolding MemberConfig_MarshalToSizedBuffer_def length_stringBytes [symmetric]
  by (rule emitsI, (rule emits_rules)+) (simp add: MemberConfig_bytes_def)

lemma MemberConfig_sizes: "MemberConfig_Size m = length (MemberConfig_bytes m)"
  by (simp add: MemberConfig_bytes_def MemberConfig_Size_def length_varint Let_def)

lemma MemberConfig_decodes: "decodes MemberConfig_fields (MemberConfig_bytes m) zeroMemberConfig m"
  unfolding MemberConfig_bytes_def
  by (rule decodesI, (rule decodes_append
        decodes_uint32_when [where fs = MemberConfig_fields, OF tags(1) MemberConfig_field_eqs(1)]
        decodes_bytes_when [where fs = MemberConfig_fields, OF tags(5) MemberConfig_field_eqs(2) refl]
        decodes_int32_when [where fs = MemberConfig_fields, OF tags(3) MemberConfig_field_eqs(3)]
        | simp add: zeroMemberConfig_def)+)

interpretation MemberConfig: message_codec MemberConfig_fields
  MemberConfig_Size MemberConfig_MarshalToSizedBuffer MemberConfig_bytes zeroMemberConfig
  by (unfold_locales, rule MemberConfig_emits, rule MemberConfig_sizes, rule MemberConfig_decodes)

section \<open>GroupConfig\<close>

text \<open>\<^verbatim>\<open>MemberRole\<close> is an \<^verbatim>\<open>int32\<close> with four named values.\<close>

type_synonym MemberRole = uint32

definition MemberRole_UNKNOWN :: MemberRole where "MemberRole_UNKNOWN = 0"
definition MemberRole_MEMBER :: MemberRole where "MemberRole_MEMBER = 1"
definition MemberRole_OBSERVER :: MemberRole where "MemberRole_OBSERVER = 2"
definition MemberRole_WITNESS :: MemberRole where "MemberRole_WITNESS = 3"

lemmas MemberRole_defs =
  MemberRole_UNKNOWN_def MemberRole_MEMBER_def MemberRole_OBSERVER_def MemberRole_WITNESS_def

record GroupConfig =
  gc_GroupID :: GroupID
  gc_MemberID :: MemberID
  gc_Role :: MemberRole
  gc_Members :: "MemberConfig list"

definition zeroGroupConfig :: GroupConfig where
  "zeroGroupConfig = \<lparr>gc_GroupID = 0, gc_MemberID = 0, gc_Role = 0, gc_Members = []\<rparr>"

definition GroupConfig_Size :: "GroupConfig \<Rightarrow> nat" where
  "GroupConfig_Size m =
     (if gc_GroupID m \<noteq> 0 then 1 + sovProtocol (ucast (gc_GroupID m)) else 0) +
     (if gc_MemberID m \<noteq> 0 then 1 + sovProtocol (ucast (gc_MemberID m)) else 0) +
     (if gc_Role m \<noteq> 0 then 1 + sovProtocol (scast (gc_Role m)) else 0) +
     sum_list (map (\<lambda>e. let l = MemberConfig_Size e in 1 + l + sovProtocol (of_nat l)) (gc_Members m))"

definition GroupConfig_MarshalToSizedBuffer :: "GroupConfig \<Rightarrow> writer" where
  "GroupConfig_MarshalToSizedBuffer m =
     wSeq (wAll (\<lambda>e. wSeq (wNested (MemberConfig_MarshalToSizedBuffer e)) (wByte 0x22)) (gc_Members m))
      (wSeq (wWhen (gc_Role m \<noteq> 0) (wSeq (wVarint (scast (gc_Role m))) (wByte 0x18)))
        (wSeq (wWhen (gc_MemberID m \<noteq> 0) (wSeq (wVarint (ucast (gc_MemberID m))) (wByte 0x10)))
          (wWhen (gc_GroupID m \<noteq> 0) (wSeq (wVarint (ucast (gc_GroupID m))) (wByte 0x8)))))"

definition GroupConfig_fields :: "GroupConfig fields" where
  "GroupConfig_fields n =
     (if n = 1 then Some (Varint32Field ''GroupID'' (\<lambda>v m. m\<lparr>gc_GroupID := v\<rparr>))
      else if n = 2 then Some (Varint32Field ''MemberID'' (\<lambda>v m. m\<lparr>gc_MemberID := v\<rparr>))
      else if n = 3 then Some (Varint32Field ''Role'' (\<lambda>v m. m\<lparr>gc_Role := v\<rparr>))
      else if n = 4 then
        Some (LenField ''Members''
          (embed ''MemberConfig'' MemberConfig_fields (\<lambda>_. zeroMemberConfig)
            (\<lambda>x m. m\<lparr>gc_Members := gc_Members m @ [x]\<rparr>)))
      else None)"

definition GroupConfig_Unmarshal :: "byte list \<Rightarrow> GroupConfig \<Rightarrow> wireError + GroupConfig" where
  "GroupConfig_Unmarshal dAtA m = unmarshal ''GroupConfig'' GroupConfig_fields dAtA m"

definition GroupConfig_bytes :: "GroupConfig \<Rightarrow> byte list" where
  "GroupConfig_bytes m =
     (if gc_GroupID m \<noteq> 0 then 0x8 # varint (ucast (gc_GroupID m)) else []) @
     (if gc_MemberID m \<noteq> 0 then 0x10 # varint (ucast (gc_MemberID m)) else []) @
     (if gc_Role m \<noteq> 0 then 0x18 # varint (scast (gc_Role m)) else []) @
     concat (map (\<lambda>e. 0x22 # varint (of_nat (length (MemberConfig_bytes e))) @ MemberConfig_bytes e)
       (gc_Members m))"

lemma GroupConfig_field_eqs:
  "GroupConfig_fields 1 = Some (Varint32Field ''GroupID'' (\<lambda>v m. m\<lparr>gc_GroupID := v\<rparr>))"
  "GroupConfig_fields 2 = Some (Varint32Field ''MemberID'' (\<lambda>v m. m\<lparr>gc_MemberID := v\<rparr>))"
  "GroupConfig_fields 3 = Some (Varint32Field ''Role'' (\<lambda>v m. m\<lparr>gc_Role := v\<rparr>))"
  "GroupConfig_fields 4 =
     Some (LenField ''Members''
       (embed ''MemberConfig'' MemberConfig_fields (\<lambda>_. zeroMemberConfig)
         (\<lambda>x m. m\<lparr>gc_Members := gc_Members m @ [x]\<rparr>)))"
  by (simp_all add: GroupConfig_fields_def)

lemma GroupConfig_emits: "emits (GroupConfig_MarshalToSizedBuffer m) (GroupConfig_bytes m)"
  unfolding GroupConfig_MarshalToSizedBuffer_def
  by (rule emitsI, (rule MemberConfig.nested_writes emits_rules)+) (simp add: GroupConfig_bytes_def)

lemma GroupConfig_sizes: "GroupConfig_Size m = length (GroupConfig_bytes m)"
  by (simp add: GroupConfig_bytes_def GroupConfig_Size_def length_varint Let_def length_concat
      comp_def MemberConfig_sizes ac_simps)

lemma append_members:
  "fold (\<lambda>x m. m\<lparr>gc_Members := gc_Members m @ [x]\<rparr>) xs m = m\<lparr>gc_Members := gc_Members m @ xs\<rparr>"
  by (induction xs arbitrary: m) simp_all

lemma GroupConfig_decodes: "decodes GroupConfig_fields (GroupConfig_bytes m) zeroGroupConfig m"
  unfolding GroupConfig_bytes_def
  by (rule decodesI, (rule decodes_append
        decodes_uint32_when [where fs = GroupConfig_fields, OF tags(1) GroupConfig_field_eqs(1)]
        decodes_uint32_when [where fs = GroupConfig_fields, OF tags(2) GroupConfig_field_eqs(2)]
        decodes_int32_when [where fs = GroupConfig_fields, OF tags(3) GroupConfig_field_eqs(3)]
        MemberConfig.nested_reads_all [where ofs = GroupConfig_fields, OF tags(7) GroupConfig_field_eqs(4)]
        | simp add: zeroGroupConfig_def append_members)+)

interpretation GroupConfig: message_codec GroupConfig_fields
  GroupConfig_Size GroupConfig_MarshalToSizedBuffer GroupConfig_bytes zeroGroupConfig
  by (unfold_locales, rule GroupConfig_emits, rule GroupConfig_sizes, rule GroupConfig_decodes)

section \<open>Requests and responses\<close>

record BootstrapRequest =
  br_Group :: GroupConfig

definition zeroBootstrapRequest :: BootstrapRequest where
  "zeroBootstrapRequest = \<lparr>br_Group = zeroGroupConfig\<rparr>"

definition BootstrapRequest_Size :: "BootstrapRequest \<Rightarrow> nat" where
  "BootstrapRequest_Size m =
     (let l = GroupConfig_Size (br_Group m) in 1 + l + sovProtocol (of_nat l))"

definition BootstrapRequest_MarshalToSizedBuffer :: "BootstrapRequest \<Rightarrow> writer" where
  "BootstrapRequest_MarshalToSizedBuffer m =
     wSeq (wNested (GroupConfig_MarshalToSizedBuffer (br_Group m))) (wByte 0xa)"

definition BootstrapRequest_fields :: "BootstrapRequest fields" where
  "BootstrapRequest_fields n =
     (if n = 1 then Some (LenField ''Group''
        (embed ''GroupConfig'' GroupConfig_fields br_Group (\<lambda>x m. m\<lparr>br_Group := x\<rparr>)))
      else None)"

definition BootstrapRequest_Unmarshal :: "byte list \<Rightarrow> BootstrapRequest \<Rightarrow> wireError + BootstrapRequest" where
  "BootstrapRequest_Unmarshal dAtA m = unmarshal ''BootstrapRequest'' BootstrapRequest_fields dAtA m"

definition BootstrapRequest_bytes :: "BootstrapRequest \<Rightarrow> byte list" where
  "BootstrapRequest_bytes m =
     (0xa # varint (of_nat (length (GroupConfig_bytes (br_Group m)))) @ GroupConfig_bytes (br_Group m))"

lemma BootstrapRequest_field_eqs:
  "BootstrapRequest_fields 1 = Some (LenField ''Group''
        (embed ''GroupConfig'' GroupConfig_fields br_Group (\<lambda>x m. m\<lparr>br_Group := x\<rparr>)))"
  by (simp_all add: BootstrapRequest_fields_def)

lemma BootstrapRequest_emits: "emits (BootstrapRequest_MarshalToSizedBuffer m) (BootstrapRequest_bytes m)"
  unfolding BootstrapRequest_MarshalToSizedBuffer_def
  by (rule emitsI, (rule GroupConfig.nested_writes emits_rules)+) (simp add: BootstrapRequest_bytes_def)

lemma BootstrapRequest_sizes: "BootstrapRequest_Size m = length (BootstrapRequest_bytes m)"
  by (simp add: BootstrapRequest_bytes_def BootstrapRequest_Size_def length_varint Let_def GroupConfig_sizes)

lemma BootstrapRequest_decodes: "decodes BootstrapRequest_fields (BootstrapRequest_bytes m) zeroBootstrapRequest m"
  unfolding BootstrapRequest_bytes_def
  by (rule decodesI, (rule GroupConfig.nested_reads [where ofs = BootstrapRequest_fields and get = br_Group, OF tags(4) BootstrapRequest_field_eqs(1)]
        | simp add: zeroBootstrapRequest_def)+)

interpretation BootstrapRequest: message_codec BootstrapRequest_fields
  BootstrapRequest_Size BootstrapRequest_MarshalToSizedBuffer BootstrapRequest_bytes zeroBootstrapRequest
  by (unfold_locales, rule BootstrapRequest_emits, rule BootstrapRequest_sizes, rule BootstrapRequest_decodes)

record JoinRequest =
  jr_Group :: GroupConfig

definition zeroJoinRequest :: JoinRequest where
  "zeroJoinRequest = \<lparr>jr_Group = zeroGroupConfig\<rparr>"

definition JoinRequest_Size :: "JoinRequest \<Rightarrow> nat" where
  "JoinRequest_Size m =
     (let l = GroupConfig_Size (jr_Group m) in 1 + l + sovProtocol (of_nat l))"

definition JoinRequest_MarshalToSizedBuffer :: "JoinRequest \<Rightarrow> writer" where
  "JoinRequest_MarshalToSizedBuffer m =
     wSeq (wNested (GroupConfig_MarshalToSizedBuffer (jr_Group m))) (wByte 0xa)"

definition JoinRequest_fields :: "JoinRequest fields" where
  "JoinRequest_fields n =
     (if n = 1 then Some (LenField ''Group''
        (embed ''GroupConfig'' GroupConfig_fields jr_Group (\<lambda>x m. m\<lparr>jr_Group := x\<rparr>)))
      else None)"

definition JoinRequest_Unmarshal :: "byte list \<Rightarrow> JoinRequest \<Rightarrow> wireError + JoinRequest" where
  "JoinRequest_Unmarshal dAtA m = unmarshal ''JoinRequest'' JoinRequest_fields dAtA m"

definition JoinRequest_bytes :: "JoinRequest \<Rightarrow> byte list" where
  "JoinRequest_bytes m =
     (0xa # varint (of_nat (length (GroupConfig_bytes (jr_Group m)))) @ GroupConfig_bytes (jr_Group m))"

lemma JoinRequest_field_eqs:
  "JoinRequest_fields 1 = Some (LenField ''Group''
        (embed ''GroupConfig'' GroupConfig_fields jr_Group (\<lambda>x m. m\<lparr>jr_Group := x\<rparr>)))"
  by (simp_all add: JoinRequest_fields_def)

lemma JoinRequest_emits: "emits (JoinRequest_MarshalToSizedBuffer m) (JoinRequest_bytes m)"
  unfolding JoinRequest_MarshalToSizedBuffer_def
  by (rule emitsI, (rule GroupConfig.nested_writes emits_rules)+) (simp add: JoinRequest_bytes_def)

lemma JoinRequest_sizes: "JoinRequest_Size m = length (JoinRequest_bytes m)"
  by (simp add: JoinRequest_bytes_def JoinRequest_Size_def length_varint Let_def GroupConfig_sizes)

lemma JoinRequest_decodes: "decodes JoinRequest_fields (JoinRequest_bytes m) zeroJoinRequest m"
  unfolding JoinRequest_bytes_def
  by (rule decodesI, (rule GroupConfig.nested_reads [where ofs = JoinRequest_fields and get = jr_Group, OF tags(4) JoinRequest_field_eqs(1)]
        | simp add: zeroJoinRequest_def)+)

interpretation JoinRequest: message_codec JoinRequest_fields
  JoinRequest_Size JoinRequest_MarshalToSizedBuffer JoinRequest_bytes zeroJoinRequest
  by (unfold_locales, rule JoinRequest_emits, rule JoinRequest_sizes, rule JoinRequest_decodes)

record LeaveRequest =
  lr_GroupID :: GroupID

definition zeroLeaveRequest :: LeaveRequest where
  "zeroLeaveRequest = \<lparr>lr_GroupID = 0\<rparr>"

definition LeaveRequest_Size :: "LeaveRequest \<Rightarrow> nat" where
  "LeaveRequest_Size m =
     (if lr_GroupID m \<noteq> 0 then 1 + sovProtocol (ucast (lr_GroupID m)) else 0)"

definition LeaveRequest_MarshalToSizedBuffer :: "LeaveRequest \<Rightarrow> writer" where
  "LeaveRequest_MarshalToSizedBuffer m =
     wWhen (lr_GroupID m \<noteq> 0) (wSeq (wVarint (ucast (lr_GroupID m))) (wByte 0x8))"

definition LeaveRequest_fields :: "LeaveRequest fields" where
  "LeaveRequest_fields n =
     (if n = 1 then Some (Varint32Field ''GroupID'' (\<lambda>v m. m\<lparr>lr_GroupID := v\<rparr>))
      else None)"

definition LeaveRequest_Unmarshal :: "byte list \<Rightarrow> LeaveRequest \<Rightarrow> wireError + LeaveRequest" where
  "LeaveRequest_Unmarshal dAtA m = unmarshal ''LeaveRequest'' LeaveRequest_fields dAtA m"

definition LeaveRequest_bytes :: "LeaveRequest \<Rightarrow> byte list" where
  "LeaveRequest_bytes m =
     (if lr_GroupID m \<noteq> 0 then 0x8 # varint (ucast (lr_GroupID m)) else [])"

lemma LeaveRequest_field_eqs:
  "LeaveRequest_fields 1 = Some (Varint32Field ''GroupID'' (\<lambda>v m. m\<lparr>lr_GroupID := v\<rparr>))"
  by (simp_all add: LeaveRequest_fields_def)

lemma LeaveRequest_emits: "emits (LeaveRequest_MarshalToSizedBuffer m) (LeaveRequest_bytes m)"
  unfolding LeaveRequest_MarshalToSizedBuffer_def
  by (rule emitsI, (rule emits_rules)+) (simp add: LeaveRequest_bytes_def)

lemma LeaveRequest_sizes: "LeaveRequest_Size m = length (LeaveRequest_bytes m)"
  by (simp add: LeaveRequest_bytes_def LeaveRequest_Size_def length_varint Let_def)

lemma LeaveRequest_decodes: "decodes LeaveRequest_fields (LeaveRequest_bytes m) zeroLeaveRequest m"
  unfolding LeaveRequest_bytes_def
  by (rule decodesI, (rule decodes_uint32_when [where fs = LeaveRequest_fields, OF tags(1) LeaveRequest_field_eqs(1)]
        | simp add: zeroLeaveRequest_def)+)

interpretation LeaveRequest: message_codec LeaveRequest_fields
  LeaveRequest_Size LeaveRequest_MarshalToSizedBuffer LeaveRequest_bytes zeroLeaveRequest
  by (unfold_locales, rule LeaveRequest_emits, rule LeaveRequest_sizes, rule LeaveRequest_decodes)

text \<open>
  The messages without fields (\<^verbatim>\<open>BootstrapResponse\<close>, \<^verbatim>\<open>JoinResponse\<close>,
  \<^verbatim>\<open>LeaveResponse\<close>, \<^verbatim>\<open>WatchRequest\<close>): nothing is written, and every field of the
  input is skipped as unknown.
\<close>

definition empty_fields :: "unit fields" where
  "empty_fields n = None"

definition empty_Size :: "unit \<Rightarrow> nat" where
  "empty_Size m = 0"

definition empty_MarshalToSizedBuffer :: "unit \<Rightarrow> writer" where
  "empty_MarshalToSizedBuffer m = Inr"

definition BootstrapResponse_Unmarshal :: "byte list \<Rightarrow> wireError + unit" where
  "BootstrapResponse_Unmarshal dAtA = unmarshal ''BootstrapResponse'' empty_fields dAtA ()"

definition JoinResponse_Unmarshal :: "byte list \<Rightarrow> wireError + unit" where
  "JoinResponse_Unmarshal dAtA = unmarshal ''JoinResponse'' empty_fields dAtA ()"

definition LeaveResponse_Unmarshal :: "byte list \<Rightarrow> wireError + unit" where
  "LeaveResponse_Unmarshal dAtA = unmarshal ''LeaveResponse'' empty_fields dAtA ()"

definition WatchRequest_Unmarshal :: "byte list \<Rightarrow> wireError + unit" where
  "WatchRequest_Unmarshal dAtA = unmarshal ''WatchRequest'' empty_fields dAtA ()"

interpretation empty_message: message_codec empty_fields
  empty_Size empty_MarshalToSizedBuffer "\<lambda>_. []" "()"
  by unfold_locales
     (simp_all add: empty_MarshalToSizedBuffer_def emits_done empty_Size_def decodes_Nil)

section \<open>Properties\<close>

text \<open>
  The proposal a node writes into the replicated log is the proposal every replica
  reads from it: \<^verbatim>\<open>RaftProposal.Marshal\<close> never fails or panics, its buffer has exactly
  the announced size, and \<^verbatim>\<open>RaftProposal.Unmarshal\<close> of the bytes into a fresh message
  returns term, sequence number and data unchanged.
\<close>

theorem RaftProposal_roundtrip:
  assumes "length (rp_Data m) < 2 ^ 62"
  shows "\<exists>bs. RaftProposal_Marshal m = Inr bs \<and> length bs = RaftProposal_Size m \<and>
    RaftProposal_Unmarshal bs zeroRaftProposal = Inr m"
proof -
  let ?bs = "RaftProposal_bytes m"
  have "RaftProposal_Size m \<le> 33 + length (rp_Data m)"
    using sovProtocol_le_10 [of "rp_Term m"] sovProtocol_le_10 [of "rp_SequenceNum m"]
      sovProtocol_le_10 [of "of_nat (length (rp_Data m))"]
    by (auto simp: RaftProposal_Size_def Let_def)
  with assms have "length ?bs < 2 ^ 63" by (simp add: RaftProposal_sizes [symmetric])
  then show ?thesis
    using RaftProposal.marshal_enc [of m] RaftProposal.roundtrip [of m]
    by (simp add: RaftProposal_Marshal_def RaftProposal_Unmarshal_def RaftProposal_sizes)
qed

theorem RaftProposal_roundtrip_witness:
  "\<exists>bs. RaftProposal_Marshal \<lparr>rp_Term = 7, rp_SequenceNum = 300, rp_Data = [1, 2, 3]\<rparr> = Inr bs \<and>
     RaftProposal_Unmarshal bs zeroRaftProposal =
       Inr \<lparr>rp_Term = 7, rp_SequenceNum = 300, rp_Data = [1, 2, 3]\<rparr>"
  using RaftProposal_roundtrip [of "\<lparr>rp_Term = 7, rp_SequenceNum = 300, rp_Data = [1, 2, 3]\<rparr>"]
  by auto

text \<open>
  C28. The group configuration the controller sends is the one the node receives: a
  \<^verbatim>\<open>BootstrapRequest\<close> whose encoding fits a slice is written without a panic into a
  buffer of the announced size, and unmarshalled back with its group, member, role and
  member list (order included) unchanged.
\<close>

theorem BootstrapRequest_roundtrip:
  assumes "BootstrapRequest_Size m < 2 ^ 63"
  shows "\<exists>bs. marshal (BootstrapRequest_Size m) (BootstrapRequest_MarshalToSizedBuffer m) = Inr bs \<and>
    length bs = BootstrapRequest_Size m \<and>
    BootstrapRequest_Unmarshal bs zeroBootstrapRequest = Inr m"
  using assms BootstrapRequest.marshal_enc [of m] BootstrapRequest.roundtrip [of m]
  by (simp add: BootstrapRequest_Unmarshal_def BootstrapRequest_sizes)

definition sampleRequest :: BootstrapRequest where
  "sampleRequest = \<lparr>br_Group = \<lparr>gc_GroupID = 1, gc_MemberID = 2, gc_Role = MemberRole_OBSERVER,
     gc_Members = [\<lparr>mc_MemberID = 1, mc_Host = ''a-0'', mc_Port = 5679\<rparr>,
       \<lparr>mc_MemberID = 2, mc_Host = ''a-1'', mc_Port = - 1\<rparr>]\<rparr>\<rparr>"

theorem BootstrapRequest_roundtrip_witness:
  "\<exists>bs. BootstrapRequest_Unmarshal bs zeroBootstrapRequest = Inr sampleRequest"
proof -
  have "BootstrapRequest_Size sampleRequest < 2 ^ 63"
    by (simp add: sampleRequest_def BootstrapRequest_Size_def GroupConfig_Size_def
        MemberConfig_Size_def MemberRole_defs sovProtocol_rec)
  from BootstrapRequest_roundtrip [OF this] show ?thesis by blast
qed

end
