(* ===== verification/NodeConfig.thy ===== *)
theory NodeConfig
  imports Prelude
begin

text \<open>
  The node's configuration (\<^verbatim>\<open>node/pkg/consensus/config.go\<close>) and the options of its
  protocol server (\<^verbatim>\<open>options.go\<close>): optional fields are \<open>option\<close> values, the getters fall
  back to the defaults, an option is a function that updates the options. Durations are
  \<^verbatim>\<open>time.Duration\<close> values: signed 64-bit nanosecond counts.
\<close>

section \<open>Durations\<close>

type_synonym Duration = int

definition Millisecond :: Duration where "Millisecond = 1000000"
definition Minute :: Duration where "Minute = 60000000000"

text \<open>\<^verbatim>\<open>Duration.Milliseconds\<close> divides by a million, rounding towards zero.\<close>

definition Milliseconds :: "Duration \<Rightarrow> int" where
  "Milliseconds d = d sdiv 1000000"

lemma Milliseconds_nonneg: "0 \<le> d \<Longrightarrow> Milliseconds d = d div 1000000"
  by (cases "d = 0") (simp_all add: Milliseconds_def signed_divide_int_def)

lemma Milliseconds_0_iff: "0 \<le> d \<Longrightarrow> Milliseconds d = 0 \<longleftrightarrow> d < 1000000"
  by (auto simp: Milliseconds_nonneg div_eq_0_iff)

section \<open>Configuration\<close>

record ServerConfig =
  sc_ReadBufferSize :: "int option"
  sc_WriteBufferSize :: "int option"
  sc_MaxRecvMsgSize :: "int option"
  sc_MaxSendMsgSize :: "int option"
  sc_NumStreamWorkers :: "uint32 option"
  sc_MaxConcurrentStreams :: "uint32 option"

record NodeRaftConfig =
  nrc_HeartbeatPeriod :: "Duration option"
  nrc_ElectionTimeout :: "Duration option"
  nrc_SnapshotEntryThreshold :: "uint64 option"
  nrc_CompactionRetainEntries :: "uint64 option"
  nrc_DataDir :: "string option"

record NodeConfig =
  nc_Server :: ServerConfig
  nc_Raft :: NodeRaftConfig

definition defaultDataDir :: string where "defaultDataDir = ''/var/lib/atomix/data''"
definition defaultSnapshotEntryThreshold :: uint64 where "defaultSnapshotEntryThreshold = 10000"
definition defaultCompactionRetainEntries :: uint64 where "defaultCompactionRetainEntries = 1000"
definition defaultHeartbeatPeriod :: Duration where "defaultHeartbeatPeriod = 200 * Millisecond"
definition defaultClientTimeout :: Duration where "defaultClientTimeout = Minute"

definition GetDataDir :: "NodeRaftConfig \<Rightarrow> string" where
  "GetDataDir c = (case nrc_DataDir c of Some d \<Rightarrow> d | None \<Rightarrow> defaultDataDir)"

definition GetSnapshotEntryThreshold :: "NodeRaftConfig \<Rightarrow> uint64" where
  "GetSnapshotEntryThreshold c =
     (case nrc_SnapshotEntryThreshold c of Some n \<Rightarrow> n | None \<Rightarrow> defaultSnapshotEntryThreshold)"

definition GetCompactionRetainEntries :: "NodeRaftConfig \<Rightarrow> uint64" where
  "GetCompactionRetainEntries c =
     (case nrc_CompactionRetainEntries c of Some n \<Rightarrow> n | None \<Rightarrow> defaultCompactionRetainEntries)"

definition GetHeartbeatPeriod :: "NodeRaftConfig \<Rightarrow> Duration" where
  "GetHeartbeatPeriod c =
     (case nrc_HeartbeatPeriod c of Some d \<Rightarrow> d | None \<Rightarrow> defaultHeartbeatPeriod)"

section \<open>Options\<close>

record Options =
  opt_Host :: string
  opt_Port :: int

type_synonym Option = "Options \<Rightarrow> Options"

definition defaultPort :: int where "defaultPort = 8080"

text \<open>The zero value of the Go struct, which \<^verbatim>\<open>NewProtocol\<close> starts from.\<close>

definition zeroOptions :: Options where
  "zeroOptions = \<lparr>opt_Host = [], opt_Port = 0\<rparr>"

definition applyOptions :: "Options \<Rightarrow> Option list \<Rightarrow> Options" where
  "applyOptions options opts =
     foldl (\<lambda>acc opt. opt acc) (options\<lparr>opt_Port := defaultPort\<rparr>) opts"

definition WithOptions :: "Options \<Rightarrow> Option" where
  "WithOptions opts options = opts"

definition WithHost :: "string \<Rightarrow> Option" where
  "WithHost host options = options\<lparr>opt_Host := host\<rparr>"

definition WithPort :: "int \<Rightarrow> Option" where
  "WithPort port options = options\<lparr>opt_Port := port\<rparr>"

text \<open>The last option wins where options write the same field.\<close>

lemma applyOptions_snoc:
  "applyOptions options (opts @ [opt]) = opt (applyOptions options opts)"
  by (simp add: applyOptions_def)

lemma applyOptions_host_port:
  "applyOptions zeroOptions [WithHost h, WithPort p] = \<lparr>opt_Host = h, opt_Port = p\<rparr>"
  by (simp add: applyOptions_def zeroOptions_def WithHost_def WithPort_def)

section \<open>Options of the gRPC server\<close>

text \<open>
  The node's \<^verbatim>\<open>main\<close> turns the server configuration into gRPC server options, one per
  configured field, in this order.
\<close>

datatype grpcServerOption =
    GrpcReadBufferSize int
  | GrpcWriteBufferSize int
  | GrpcMaxSendMsgSize int
  | GrpcMaxRecvMsgSize int
  | GrpcNumStreamWorkers uint32
  | GrpcMaxConcurrentStreams uint32

definition appendOption :: "('a \<Rightarrow> grpcServerOption) \<Rightarrow> 'a option \<Rightarrow>
    grpcServerOption list \<Rightarrow> grpcServerOption list" where
  "appendOption c v opts = (case v of Some x \<Rightarrow> opts @ [c x] | None \<Rightarrow> opts)"

definition serverOptions :: "ServerConfig \<Rightarrow> grpcServerOption list" where
  "serverOptions c =
     appendOption GrpcMaxConcurrentStreams (sc_MaxConcurrentStreams c)
      (appendOption GrpcNumStreamWorkers (sc_NumStreamWorkers c)
        (appendOption GrpcMaxRecvMsgSize (sc_MaxRecvMsgSize c)
          (appendOption GrpcMaxSendMsgSize (sc_MaxSendMsgSize c)
            (appendOption GrpcWriteBufferSize (sc_WriteBufferSize c)
              (appendOption GrpcReadBufferSize (sc_ReadBufferSize c) [])))))"

end
