(* ===== verification/Partition.thy ===== *)
theory Partition
  imports ProtocolContext ProtoMessages NodeConfig
begin

text \<open>
  A Raft partition of a node (\<^verbatim>\<open>node/pkg/consensus/partition.go\<close>): its readiness, its
  view of the current leader, and the executor that proposes and queries through the
  NodeHost of dragonboat. The NodeHost, the SDK's marshalling of inputs and the text of
  dragonboat's errors are parameters.
\<close>

section \<open>Errors\<close>

text \<open>The errors of dragonboat the node tells apart; \<open>DbOther\<close> is any other error value.\<close>

datatype dbError =
    ErrClusterNotFound | ErrClusterNotBootstrapped | ErrClusterNotInitialized
  | ErrClusterNotReady | ErrClusterClosed | ErrSystemBusy | ErrBadKey | ErrClosed
  | ErrNodeRemoved | ErrInvalidSession | ErrInvalidTarget | ErrInvalidAddress
  | ErrInvalidOperation | ErrPayloadTooBig | ErrTimeoutTooSmall | ErrDeadlineNotSet
  | ErrInvalidDeadline | ErrDirNotExist | ErrTimeout | ErrCanceled | ErrRejected
  | ErrClusterAlreadyExist | DbOther string

text \<open>The SDK's error kinds, with their message.\<close>

datatype atomixError =
    Unavailable string | Invalid string | Forbidden string | Internal string
  | Timeout string | Canceled string | Unknown string

definition wrapError :: "(dbError \<Rightarrow> string) \<Rightarrow> dbError \<Rightarrow> atomixError" where
  "wrapError Error err =
     (case err of
        ErrClusterNotFound \<Rightarrow> Unavailable (Error err)
      | ErrClusterNotBootstrapped \<Rightarrow> Unavailable (Error err)
      | ErrClusterNotInitialized \<Rightarrow> Unavailable (Error err)
      | ErrClusterNotReady \<Rightarrow> Unavailable (Error err)
      | ErrClusterClosed \<Rightarrow> Unavailable (Error err)
      | ErrSystemBusy \<Rightarrow> Unavailable (Error err)
      | ErrBadKey \<Rightarrow> Unavailable (Error err)
      | ErrClosed \<Rightarrow> Unavailable (Error err)
      | ErrNodeRemoved \<Rightarrow> Unavailable (Error err)
      | ErrInvalidSession \<Rightarrow> Invalid (Error err)
      | ErrInvalidTarget \<Rightarrow> Invalid (Error err)
      | ErrInvalidAddress \<Rightarrow> Invalid (Error err)
      | ErrInvalidOperation \<Rightarrow> Invalid (Error err)
      | ErrPayloadTooBig \<Rightarrow> Forbidden (Error err)
      | ErrTimeoutTooSmall \<Rightarrow> Forbidden (Error err)
      | ErrDeadlineNotSet \<Rightarrow> Internal (Error err)
      | ErrInvalidDeadline \<Rightarrow> Internal (Error err)
      | ErrDirNotExist \<Rightarrow> Internal (Error err)
      | ErrTimeout \<Rightarrow> Timeout (Error err)
      | ErrCanceled \<Rightarrow> Canceled (Error err)
      | ErrRejected \<Rightarrow> Forbidden (Error err)
      | _ \<Rightarrow> Unknown (Error err))"

section \<open>Partition state\<close>

text \<open>
  The SDK's \<^verbatim>\<open>PartitionID\<close> is an integer type whose width the code here never states: it
  is the type parameter \<open>'p\<close>, and conversions to and from it are word casts.
\<close>

record 'pid Partition =
  part_ID :: 'pid
  part_memberID :: MemberID
  part_ready :: int
  part_leader :: uint64
  part_term :: uint64

definition newPartition :: "'p::len word \<Rightarrow> MemberID \<Rightarrow> 'p word Partition" where
  "newPartition pid memberID =
     \<lparr>part_ID = pid, part_memberID = memberID, part_ready = 0, part_leader = 0, part_term = 0\<rparr>"

definition setReady :: "'p::len word Partition \<Rightarrow> 'p word Partition" where
  "setReady p = p\<lparr>part_ready := 1\<rparr>"

definition getReady :: "'p::len word Partition \<Rightarrow> bool" where
  "getReady p \<longleftrightarrow> part_ready p = 1"

text \<open>\<open>setLeader\<close> is two atomic stores, \<open>getLeader\<close> two atomic loads; each is named.\<close>

definition storeTerm :: "Term \<Rightarrow> 'p::len word Partition \<Rightarrow> 'p word Partition" where
  "storeTerm t p = p\<lparr>part_term := t\<rparr>"

definition storeLeader :: "MemberID \<Rightarrow> 'p::len word Partition \<Rightarrow> 'p word Partition" where
  "storeLeader leader p = p\<lparr>part_leader := ucast leader\<rparr>"

definition setLeader :: "Term \<Rightarrow> MemberID \<Rightarrow> 'p::len word Partition \<Rightarrow> 'p word Partition" where
  "setLeader t leader p = storeLeader leader (storeTerm t p)"

definition loadTerm :: "'p::len word Partition \<Rightarrow> Term" where
  "loadTerm p = part_term p"

definition loadLeader :: "'p::len word Partition \<Rightarrow> MemberID" where
  "loadLeader p = ucast (part_leader p)"

definition getLeader :: "'p::len word Partition \<Rightarrow> Term \<times> MemberID" where
  "getLeader p = (loadTerm p, loadLeader p)"

lemmas partition_defs [go_defs] =
  newPartition_def setReady_def getReady_def storeTerm_def storeLeader_def setLeader_def
  loadTerm_def loadLeader_def getLeader_def

lemma getLeader_setLeader [simp]: "getLeader (setLeader t l p) = (t, l)"
  by (simp add: go_defs)

lemma getReady_setReady [simp]: "getReady (setReady p)"
  by (simp add: go_defs)

section \<open>The executor\<close>

text \<open>
  What a call of the executor can read and change: its partition, its table of streams
  and the rest of the host \<open>'h\<close>. A NodeHost call runs in this state: dragonboat may apply
  log entries to the state machine while the call waits, which looks up and closes
  streams, and may deliver leader events. The contexts and their deadlines are left to
  the host.
\<close>

record ('pid, 's, 'h) execState =
  es_partition :: "'pid Partition"
  es_streams :: "'s protocolContext"
  es_host :: 'h

record ('q, 's) protocolQuery =
  pq_input :: 'q
  pq_stream :: 's

record ('w, 'query) NodeHost =
  nh_SyncPropose :: "uint64 \<Rightarrow> byte list \<Rightarrow> ('w, dbError + unit) state"
  nh_SyncRead :: "uint64 \<Rightarrow> 'query \<Rightarrow> ('w, dbError + unit) state"
  nh_StaleRead :: "uint64 \<Rightarrow> 'query \<Rightarrow> ('w, dbError + unit) state"

record ('w, 'query) executorEnv =
  ee_host :: "('w, 'query) NodeHost"
  ee_Error :: "dbError \<Rightarrow> string"

definition writeErrorText :: "writeFailure \<Rightarrow> string" where
  "writeErrorText e = (case e of Panic \<Rightarrow> ''panic'' | Failed _ \<Rightarrow> ''error'')"

definition Propose :: "(('p::len word, 's, 'h) execState, 'query) executorEnv \<Rightarrow>
    ('i \<Rightarrow> string + byte list) \<Rightarrow> 'i \<Rightarrow> 's \<Rightarrow>
    (('p word, 's, 'h) execState, atomixError + unit) state" where
  "Propose env Marshal input stream = do {
     e \<leftarrow> State_Monad.get;
     let (term, leader) = getLeader (es_partition e);
     if leader \<noteq> part_memberID (es_partition e)
     then ret (Inl (Unavailable ''not the leader''))
     else (case Marshal input of
         Inl err \<Rightarrow> ret (Inl (Internal err))
       | Inr inputBytes \<Rightarrow> do {
           let (sequenceNum, streams') = addStream (es_streams e) term stream;
           _ \<leftarrow> State_Monad.set (e\<lparr>es_streams := streams'\<rparr>);
           (case RaftProposal_Marshal
                 \<lparr>rp_Term = term, rp_SequenceNum = sequenceNum, rp_Data = inputBytes\<rparr> of
              Inl err \<Rightarrow>
                ret (Inl (Internal (''failed to marshal RaftLogEntry: '' @ writeErrorText err)))
            | Inr proposalBytes \<Rightarrow> do {
                r \<leftarrow> nh_SyncPropose (ee_host env) (ucast (part_ID (es_partition e))) proposalBytes;
                (case r of
                   Inl err \<Rightarrow> ret (Inl (wrapError (ee_Error env) err))
                 | Inr _ \<Rightarrow> ret (Inr ()))
              })
         })
   }"

text \<open>
  \<^verbatim>\<open>metadata.FromIncomingContext\<close> yields the request's metadata, a map from keys to
  value lists; \<^verbatim>\<open>md["Sync"] != nil\<close> indexes it directly.
\<close>

definition Query :: "('w, ('q, 'qs) protocolQuery) executorEnv \<Rightarrow> ('w \<Rightarrow> 'p::len word Partition) \<Rightarrow>
    (string \<rightharpoonup> string list) \<Rightarrow> 'q \<Rightarrow> 'qs \<Rightarrow> ('w, atomixError + unit) state" where
  "Query env partitionOf md input stream = do {
     let query = \<lparr>pq_input = input, pq_stream = stream\<rparr>;
     w \<leftarrow> State_Monad.get;
     let clusterID = ucast (part_ID (partitionOf w));
     let sync = (md ''Sync'' \<noteq> None);
     r \<leftarrow> (if sync then nh_SyncRead (ee_host env) clusterID query
           else nh_StaleRead (ee_host env) clusterID query);
     (case r of
        Inl err \<Rightarrow> ret (Inl (wrapError (ee_Error env) err))
      | Inr _ \<Rightarrow> ret (Inr ()))
   }"

section \<open>How the executor runs\<close>

lemma run_Propose_not_leader:
  "loadLeader (es_partition e) \<noteq> part_memberID (es_partition e) \<Longrightarrow>
     run_state (Propose env Marshal input stream) e = (Inl (Unavailable ''not the leader''), e)"
  by (simp add: Propose_def getLeader_def)

lemma run_Propose_marshal_error:
  "loadLeader (es_partition e) = part_memberID (es_partition e) \<Longrightarrow> Marshal input = Inl err \<Longrightarrow>
     run_state (Propose env Marshal input stream) e = (Inl (Internal err), e)"
  by (simp add: Propose_def getLeader_def)

lemma run_Propose_leader:
  assumes "loadLeader (es_partition e) = part_memberID (es_partition e)"
    and "Marshal input = Inr data"
    and "addStream (es_streams e) (loadTerm (es_partition e)) stream = (n, c)"
  shows "run_state (Propose env Marshal input stream) e =
    (case run_state (nh_SyncPropose (ee_host env) (ucast (part_ID (es_partition e)))
             (RaftProposal_bytes
               \<lparr>rp_Term = loadTerm (es_partition e), rp_SequenceNum = n, rp_Data = data\<rparr>))
            (e\<lparr>es_streams := c\<rparr>) of
       (Inl err, e') \<Rightarrow> (Inl (wrapError (ee_Error env) err), e')
     | (Inr _, e') \<Rightarrow> (Inr (), e'))"
  using assms RaftProposal.marshal_enc
  by (simp add: Propose_def getLeader_def RaftProposal_Marshal_def split: prod.split sum.split)

lemma run_Query:
  "run_state (Query env partitionOf md input stream) w =
    (let q = \<lparr>pq_input = input, pq_stream = stream\<rparr>; c = ucast (part_ID (partitionOf w)) in
     case run_state (if md ''Sync'' = None then nh_StaleRead (ee_host env) c q
                     else nh_SyncRead (ee_host env) c q) w of
       (Inl err, w') \<Rightarrow> (Inl (wrapError (ee_Error env) err), w')
     | (Inr _, w') \<Rightarrow> (Inr (), w'))"
  by (simp add: Query_def Let_def split: prod.split sum.split)

section \<open>Properties\<close>

text \<open>
  C6. What the leader sends to the log names the stream it registered: if this member is
  the leader it believes in, \<^verbatim>\<open>Propose\<close> registers the client's stream under the current
  term and a sequence number no other stream holds, hands dragonboat bytes that decode to
  exactly that term, number and the input's data, and returns the host's outcome with its
  error wrapped.
\<close>

theorem Propose_registers_what_it_proposes:
  fixes e :: "('p::len word, 's, 'h) execState"
  assumes "loadLeader (es_partition e) = part_memberID (es_partition e)"
    and "Marshal input = Inr data" and "length data < 2 ^ 62"
    and "context_wf (es_streams e)" and "sequenceNum (es_streams e) \<noteq> - 1"
  shows "\<exists>n c bs. let t = loadTerm (es_partition e) in
    getStream (es_streams e) t n = NilStream \<and>
    getStream c t n = CloserStream stream t n \<and> context_wf c \<and>
    RaftProposal_Unmarshal bs zeroRaftProposal =
      Inr \<lparr>rp_Term = t, rp_SequenceNum = n, rp_Data = data\<rparr> \<and>
    run_state (Propose env Marshal input stream) e =
      (case run_state (nh_SyncPropose (ee_host env) (ucast (part_ID (es_partition e))) bs)
              (e\<lparr>es_streams := c\<rparr>) of
         (Inl err, e') \<Rightarrow> (Inl (wrapError (ee_Error env) err), e')
       | (Inr _, e') \<Rightarrow> (Inr (), e'))"
proof -
  let ?t = "loadTerm (es_partition e)"
  obtain n c where add: "addStream (es_streams e) ?t stream = (n, c)" by fastforce
  let ?m = "\<lparr>rp_Term = ?t, rp_SequenceNum = n, rp_Data = data\<rparr>"
  from RaftProposal_sizes [of ?m] assms(3) have "length (RaftProposal_bytes ?m) < 2 ^ 63"
    using sovProtocol_le_10 [of ?t] sovProtocol_le_10 [of n] sovProtocol_le_10 [of "of_nat (length data)"]
    by (simp add: RaftProposal_Size_def Let_def split: if_splits)
  then have "RaftProposal_Unmarshal (RaftProposal_bytes ?m) zeroRaftProposal = Inr ?m"
    unfolding RaftProposal_Unmarshal_def by (rule RaftProposal.roundtrip)
  with run_Propose_leader [where env = env and Marshal = Marshal, OF assms(1,2) add]
    ctx.add_fresh [OF assms(4,5) add] ctx.lookup_added [OF add] ctx.add_ok [OF assms(4,5) add]
  show ?thesis unfolding Let_def by blast
qed

text \<open>Sample values the witnesses run on: a host that rejects every proposal.\<close>

definition samplePartition :: "32 word Partition" where
  "samplePartition = \<lparr>part_ID = 1, part_memberID = 2, part_ready = 1, part_leader = 2, part_term = 5\<rparr>"

definition sampleExec :: "(32 word, nat, unit) execState" where
  "sampleExec = \<lparr>es_partition = samplePartition, es_streams = newContext, es_host = ()\<rparr>"

definition rejectingHost :: "('w, 'query) NodeHost" where
  "rejectingHost = \<lparr>nh_SyncPropose = (\<lambda>_ _. ret (Inl ErrTimeout)),
     nh_SyncRead = (\<lambda>_ _. ret (Inl ErrTimeout)), nh_StaleRead = (\<lambda>_ _. ret (Inr ()))\<rparr>"

definition sampleEnv :: "('w, 'query) executorEnv" where
  "sampleEnv = \<lparr>ee_host = rejectingHost, ee_Error = (\<lambda>_. ''timeout'')\<rparr>"

lemma sampleExec_leader:
  "loadLeader (es_partition sampleExec) = part_memberID (es_partition sampleExec)"
  by (simp add: sampleExec_def samplePartition_def loadLeader_def)

lemma sampleExec_streams: "es_streams sampleExec = newContext"
  by (simp add: sampleExec_def)

lemma newContext_room: "sequenceNum newContext \<noteq> - 1"
  by (simp add: newContext_def)

theorem Propose_registers_what_it_proposes_witness:
  "\<exists>n c bs. getStream c 5 n = CloserStream (3 :: nat) 5 n \<and>
     RaftProposal_Unmarshal bs zeroRaftProposal =
       Inr \<lparr>rp_Term = 5, rp_SequenceNum = n, rp_Data = [1]\<rparr>"
proof -
  have t: "loadTerm (es_partition sampleExec) = 5"
    by (simp add: sampleExec_def samplePartition_def loadTerm_def)
  have len: "length [1 :: byte] < 2 ^ 62" by simp
  have wf: "context_wf (es_streams sampleExec)" "sequenceNum (es_streams sampleExec) \<noteq> - 1"
    by (simp_all add: sampleExec_streams newContext_room)
  have m: "(\<lambda>_ :: unit. Inr [1]) () = (Inr [1] :: string + byte list)" by simp
  from Propose_registers_what_it_proposes [where env = sampleEnv and stream = "3 :: nat" and
      Marshal = "\<lambda>_ :: unit. Inr [1]" and input = "()" and e = sampleExec,
      OF sampleExec_leader m len wf]
  show ?thesis unfolding Let_def t by blast
qed

text \<open>
  A member that does not believe it is the leader changes nothing: \<^verbatim>\<open>Propose\<close> returns
  the unavailable error, registers no stream and never calls dragonboat, whatever the host.
\<close>

theorem Propose_not_leader_no_effect:
  assumes "loadLeader (es_partition e) \<noteq> part_memberID (es_partition e)"
  shows "run_state (Propose env Marshal input stream) e = (Inl (Unavailable ''not the leader''), e)"
  by (rule run_Propose_not_leader [OF assms])

theorem Propose_not_leader_no_effect_witness:
  "run_state (Propose sampleEnv (\<lambda>_ :: unit. Inr []) () (3 :: nat))
     (sampleExec\<lparr>es_partition := setLeader 6 1 samplePartition\<rparr>) =
   (Inl (Unavailable ''not the leader''), sampleExec\<lparr>es_partition := setLeader 6 1 samplePartition\<rparr>)"
  by (rule Propose_not_leader_no_effect)
     (simp add: samplePartition_def go_defs)

text \<open>
  A failed proposal leaks its stream: when dragonboat refuses a proposal without
  applying it (a timeout, a closed cluster), \<^verbatim>\<open>Propose\<close> returns the wrapped error but the
  client's stream stays registered. Only closing the stream removes it, and nothing will.
\<close>

lemma Propose_failure_leaks_stream:
  fixes e :: "('p::len word, 's, 'h) execState"
  assumes "loadLeader (es_partition e) = part_memberID (es_partition e)"
    and "Marshal input = Inr data"
    and "context_wf (es_streams e)" and "sequenceNum (es_streams e) \<noteq> - 1"
    and refused: "\<And>c bs w. run_state (nh_SyncPropose (ee_host env) c bs) w = (Inl err, w)"
  shows "\<exists>e'. run_state (Propose env Marshal input stream) e =
      (Inl (wrapError (ee_Error env) err), e') \<and>
    live (es_streams e) \<subset> live (es_streams e') \<and>
    (\<exists>n. getStream (es_streams e') (loadTerm (es_partition e)) n =
       CloserStream stream (loadTerm (es_partition e)) n)"
proof -
  let ?t = "loadTerm (es_partition e)"
  obtain n c where add: "addStream (es_streams e) ?t stream = (n, c)" by fastforce
  have "getStream (es_streams e) ?t n = NilStream"
    by (rule ctx.add_fresh [OF assms(3,4) add])
  then have "(?t, n) \<notin> live (es_streams e)"
    using context_wfD [OF assms(3)]
    by (auto simp: live_def getStream_def split: option.splits)
  with addStream_live [OF add] have "live (es_streams e) \<subset> live c" by auto
  with run_Propose_leader [where env = env and Marshal = Marshal, OF assms(1,2) add]
    ctx.lookup_added [OF add] refused show ?thesis by auto
qed

theorem Propose_failure_leaks_stream_witness:
  "\<exists>e'. run_state (Propose sampleEnv (\<lambda>_ :: unit. Inr [1]) () (3 :: nat)) sampleExec =
      (Inl (Timeout ''timeout''), e') \<and> live (es_streams e') \<noteq> {}"
proof -
  have m: "(\<lambda>_ :: unit. Inr [1]) () = (Inr [1] :: string + byte list)" by simp
  have wf: "context_wf (es_streams sampleExec)" "sequenceNum (es_streams sampleExec) \<noteq> - 1"
    by (simp_all add: sampleExec_streams newContext_room)
  have r: "\<And>c bs w. run_state (nh_SyncPropose (ee_host sampleEnv) c bs) w = (Inl ErrTimeout, w)"
    by (simp add: sampleEnv_def rejectingHost_def)
  from Propose_failure_leaks_stream [where env = sampleEnv and stream = "3 :: nat" and
      Marshal = "\<lambda>_ :: unit. Inr [1]" and input = "()" and e = sampleExec,
      OF sampleExec_leader m wf r]
  show ?thesis by (auto simp: wrapError_def sampleEnv_def)
qed

definition lowercaseKeys :: "(string \<rightharpoonup> 'v) \<Rightarrow> bool" where
  "lowercaseKeys md \<longleftrightarrow>
     (\<forall>k \<in> dom md. \<forall>c \<in> set k. \<not> (65 \<le> (of_char c :: nat) \<and> (of_char c :: nat) \<le> 90))"

text \<open>
  No query is ever a linearizable read. gRPC lowercases metadata keys, and
  \<^verbatim>\<open>Query\<close> indexes the metadata with \<^verbatim>\<open>"Sync"\<close>; so for any metadata with lowercase keys,
  in particular one with \<^verbatim>\<open>sync\<close> set, the query is the host's stale read.
\<close>
theorem Query_always_stale:
  assumes "lowercaseKeys md"
  shows "run_state (Query env partitionOf md input stream) w =
    (case run_state (nh_StaleRead (ee_host env) (ucast (part_ID (partitionOf w)))
            \<lparr>pq_input = input, pq_stream = stream\<rparr>) w of
       (Inl err, w') \<Rightarrow> (Inl (wrapError (ee_Error env) err), w')
     | (Inr _, w') \<Rightarrow> (Inr (), w'))"
proof -
  have "''Sync'' \<notin> dom md"
    using assms by (force simp: lowercaseKeys_def)
  then have "md ''Sync'' = None" by (simp add: domIff)
  then show ?thesis by (simp add: run_Query Let_def)
qed

theorem Query_always_stale_witness:
  "run_state (Query sampleEnv es_partition [''sync'' \<mapsto> [''true'']] () (0 :: nat)) sampleExec =
     (Inr (), sampleExec)"
proof -
  have "lowercaseKeys [''sync'' \<mapsto> [''true'']]" by (simp add: lowercaseKeys_def)
  from Query_always_stale [OF this, of sampleEnv es_partition "()" "0 :: nat" sampleExec]
  show ?thesis by (simp add: sampleEnv_def rejectingHost_def)
qed

fun errorText :: "atomixError \<Rightarrow> string" where
  "errorText (Unavailable s) = s"
| "errorText (Invalid s) = s"
| "errorText (Forbidden s) = s"
| "errorText (Internal s) = s"
| "errorText (Timeout s) = s"
| "errorText (Canceled s) = s"
| "errorText (Unknown s) = s"

text \<open>
  Wrapping an error keeps its text, and reports it as unknown exactly for the errors
  the code does not name: an already existing cluster and errors outside dragonboat's list.
\<close>
theorem wrapError_text_and_unknown:
  "errorText (wrapError E err) = E err \<and>
   ((\<exists>s. wrapError E err = Unknown s) = (err = ErrClusterAlreadyExist \<or> (\<exists>t. err = DbOther t)))"
  by (cases err) (simp_all add: wrapError_def)

end
