(* ===== verification/StateMachine.thy ===== *)
theory StateMachine
  imports Partition
begin

text \<open>
  The replicated state machine dragonboat drives (\<^verbatim>\<open>node/pkg/consensus/statemachine.go\<close>):
  \<open>Update\<close> decodes a log entry, finds the stream of the client that proposed it, if that
  client is on this node, and hands both to the SDK's state machine. The SDK's state
  machine and the decoding of its inputs are parameters; its steps run on a state that
  holds the stream table, because closing a stream removes it there.
\<close>

section \<open>State and operations\<close>

record ('s, 'm) smState =
  sm_protocol :: "'s protocolContext"
  sm_sm :: 'm

datatype updateError = ProposalError wireError | InputError string

record ('i, 'q, 's, 'qs, 'm) sdkMachine =
  sdk_Unmarshal :: "byte list \<Rightarrow> string + 'i"
  sdk_Propose :: "'i \<Rightarrow> 's writeStream \<Rightarrow> ('s, 'm) smState \<Rightarrow> ('s, 'm) smState"
  sdk_Query :: "'q \<Rightarrow> 'qs \<Rightarrow> ('s, 'm) smState \<Rightarrow> ('s, 'm) smState"
  sdk_Snapshot :: "'m \<Rightarrow> string + byte list"
  sdk_Recover :: "byte list \<Rightarrow> 'm \<Rightarrow> (string + unit) \<times> 'm"

definition newStateMachine :: "'s protocolContext \<Rightarrow> 'm \<Rightarrow> ('s, 'm) smState" where
  "newStateMachine protocol sm = \<lparr>sm_protocol = protocol, sm_sm = sm\<rparr>"

definition Update :: "('i, 'q, 's, 'qs, 'm) sdkMachine \<Rightarrow> byte list \<Rightarrow> ('s, 'm) smState \<Rightarrow>
    (updateError + unit) \<times> ('s, 'm) smState" where
  "Update sdk bytes s =
     (case RaftProposal_Unmarshal bytes zeroRaftProposal of
        Inl err \<Rightarrow> (Inl (ProposalError err), s)
      | Inr proposal \<Rightarrow>
          (case sdk_Unmarshal sdk (rp_Data proposal) of
             Inl err \<Rightarrow> (Inl (InputError err), s)
           | Inr input \<Rightarrow>
               (let stream = getStream (sm_protocol s) (rp_Term proposal) (rp_SequenceNum proposal)
                in (Inr (), sdk_Propose sdk input stream s))))"

definition Lookup :: "('i, 'q, 's, 'qs, 'm) sdkMachine \<Rightarrow> ('q, 'qs) protocolQuery \<Rightarrow>
    ('s, 'm) smState \<Rightarrow> ('s, 'm) smState" where
  "Lookup sdk query s = sdk_Query sdk (pq_input query) (pq_stream query) s"

text \<open>
  A snapshot writes the state, a recovery reads it back; what a failed recovery leaves
  behind is up to the SDK's machine.
\<close>

definition SaveSnapshot :: "('i, 'q, 's, 'qs, 'm) sdkMachine \<Rightarrow> ('s, 'm) smState \<Rightarrow> string + byte list" where
  "SaveSnapshot sdk s =
     (case sdk_Snapshot sdk (sm_sm s) of Inl err \<Rightarrow> Inl err | Inr bytes \<Rightarrow> Inr bytes)"

definition RecoverFromSnapshot :: "('i, 'q, 's, 'qs, 'm) sdkMachine \<Rightarrow> byte list \<Rightarrow> ('s, 'm) smState \<Rightarrow>
    (string + unit) \<times> ('s, 'm) smState" where
  "RecoverFromSnapshot sdk r s =
     (case sdk_Recover sdk r (sm_sm s) of
        (Inl err, m) \<Rightarrow> (Inl err, s\<lparr>sm_sm := m\<rparr>)
      | (Inr _, m) \<Rightarrow> (Inr (), s\<lparr>sm_sm := m\<rparr>))"

fun applyLog :: "('i, 'q, 's, 'qs, 'm) sdkMachine \<Rightarrow> byte list list \<Rightarrow> ('s, 'm) smState \<Rightarrow>
    ('s, 'm) smState" where
  "applyLog sdk [] s = s"
| "applyLog sdk (e # es) s = applyLog sdk es (snd (Update sdk e s))"

section \<open>Decoding an entry\<close>

lemma Update_proposal:
  assumes "length (rp_Data p) < 2 ^ 62" and "RaftProposal_Marshal p = Inr bs"
    and "sdk_Unmarshal sdk (rp_Data p) = Inr input"
  shows "Update sdk bs s =
    (Inr (), sdk_Propose sdk input (getStream (sm_protocol s) (rp_Term p) (rp_SequenceNum p)) s)"
proof -
  have "bs = RaftProposal_bytes p"
    using assms(2) RaftProposal.marshal_enc [of p] by (simp add: RaftProposal_Marshal_def)
  moreover have "RaftProposal_Size p < 2 ^ 63"
    using assms(1) sovProtocol_le_10 [of "rp_Term p"] sovProtocol_le_10 [of "rp_SequenceNum p"]
      sovProtocol_le_10 [of "of_nat (length (rp_Data p))"]
    by (auto simp: RaftProposal_Size_def Let_def)
  ultimately have "RaftProposal_Unmarshal bs zeroRaftProposal = Inr p"
    using RaftProposal.roundtrip [of p]
    by (simp add: RaftProposal_Unmarshal_def RaftProposal_sizes)
  with assms(3) show ?thesis by (simp add: Update_def Let_def)
qed

section \<open>Replicas\<close>

definition stream_independent :: "('i, 'q, 's, 'qs, 'm) sdkMachine \<Rightarrow> bool" where
  "stream_independent sdk \<longleftrightarrow>
     (\<forall>input ws ws' s s'. sm_sm s = sm_sm s' \<longrightarrow>
        sm_sm (sdk_Propose sdk input ws s) = sm_sm (sdk_Propose sdk input ws' s'))"

lemma Update_agree:
  assumes "stream_independent sdk" and "sm_sm s = sm_sm s'"
  shows "sm_sm (snd (Update sdk bs s)) = sm_sm (snd (Update sdk bs s')) \<and>
    fst (Update sdk bs s) = fst (Update sdk bs s')"
proof (cases "RaftProposal_Unmarshal bs zeroRaftProposal")
  case (Inl err)
  with assms(2) show ?thesis by (simp add: Update_def)
next
  case (Inr p)
  note proposal = Inr
  show ?thesis
  proof (cases "sdk_Unmarshal sdk (rp_Data p)")
    case (Inl err)
    with proposal assms(2) show ?thesis by (simp add: Update_def)
  next
    case (Inr input)
    with proposal have "Update sdk bs u =
        (Inr (), sdk_Propose sdk input (getStream (sm_protocol u) (rp_Term p) (rp_SequenceNum p)) u)" for u
      by (simp add: Update_def Let_def)
    note up = this
    from assms have "sm_sm (sdk_Propose sdk input ws s) = sm_sm (sdk_Propose sdk input ws' s')" for ws ws'
      unfolding stream_independent_def by blast
    then show ?thesis unfolding up snd_conv fst_conv by (rule conjI [OF _ refl])
  qed
qed

lemma applyLog_agree:
  assumes "stream_independent sdk" and "sm_sm s = sm_sm s'"
  shows "sm_sm (applyLog sdk log s) = sm_sm (applyLog sdk log s')"
  using assms(2)
proof (induction log arbitrary: s s')
  case (Cons e log)
  have "sm_sm (snd (Update sdk e s)) = sm_sm (snd (Update sdk e s'))"
    using Update_agree [OF assms(1) Cons.prems] by (rule conjunct1)
  then show ?case unfolding applyLog.simps by (rule Cons.IH)
qed simp

section \<open>Properties\<close>

text \<open>
  C1. Replicas agree. If the SDK's state machine computes its next state from its state
  and the input alone (whatever stream it writes to and whatever the stream table holds),
  then two replicas that start in the same state and apply the same log end in the same
  state, although each resolves the entries to its own clients' streams, and they accept or
  reject any next entry alike.
\<close>

theorem replicas_agree:
  assumes "stream_independent sdk" and "sm_sm s = sm_sm s'"
  shows "sm_sm (applyLog sdk log s) = sm_sm (applyLog sdk log s') \<and>
    (\<forall>e. fst (Update sdk e (applyLog sdk log s)) = fst (Update sdk e (applyLog sdk log s')))"
  using applyLog_agree [OF assms] Update_agree [OF assms(1) applyLog_agree [OF assms]] by blast

text \<open>A machine that appends its inputs and drops what it would write to the streams.\<close>

definition appendMachine :: "(byte list, unit, nat, unit, byte list) sdkMachine" where
  "appendMachine = \<lparr>sdk_Unmarshal = Inr,
     sdk_Propose = (\<lambda>i ws s. \<lparr>sm_protocol = closeStream (sm_protocol s) ws, sm_sm = sm_sm s @ i\<rparr>),
     sdk_Query = (\<lambda>_ _ s. s), sdk_Snapshot = Inr, sdk_Recover = (\<lambda>b _. (Inr (), b))\<rparr>"

lemma appendMachine_independent: "stream_independent appendMachine"
  by (simp add: stream_independent_def appendMachine_def)

theorem replicas_agree_witness:
  "sm_sm (applyLog appendMachine [[8, 1, 26, 1, 9], [255]] (newStateMachine newContext [])) =
   sm_sm (applyLog appendMachine [[8, 1, 26, 1, 9], [255]]
     (newStateMachine (snd (addStream newContext 1 4)) []))"
  by (rule replicas_agree [OF appendMachine_independent, THEN conjunct1]) (simp add: newStateMachine_def)

text \<open>
  C7. A response finds its client. The entry that the leader's \<^verbatim>\<open>Propose\<close> hands to the log
  for a client reaches, when it is applied, the SDK's state machine as the client's own
  input with the client's own stream, for any state of the replica whose stream table still
  holds the registration; the table \<^verbatim>\<open>Propose\<close> leaves is such a table, and once the stream is
  closed in it the same entry is applied to the nil stream and reaches nobody.
\<close>

theorem Update_reaches_the_proposer:
  fixes e :: "('p::len word, 's, 'h) execState"
  assumes "loadLeader (es_partition e) = part_memberID (es_partition e)"
    and "Marshal input = Inr data" and "length data < 2 ^ 62"
    and "sdk_Unmarshal sdk data = Inr input'"
    and "context_wf (es_streams e)" and "sequenceNum (es_streams e) \<noteq> - 1"
  shows "\<exists>n c bs. let t = loadTerm (es_partition e); ws = CloserStream stream t n in
    run_state (Propose env Marshal input stream) e =
      (case run_state (nh_SyncPropose (ee_host env) (ucast (part_ID (es_partition e))) bs)
              (e\<lparr>es_streams := c\<rparr>) of
         (Inl err, e') \<Rightarrow> (Inl (wrapError (ee_Error env) err), e')
       | (Inr _, e') \<Rightarrow> (Inr (), e')) \<and>
    getStream c t n = ws \<and> getStream (closeStream c ws) t n = NilStream \<and>
    (\<forall>s. Update sdk bs s =
       (Inr (), sdk_Propose sdk input' (getStream (sm_protocol s) t n) s))"
proof -
  let ?t = "loadTerm (es_partition e)"
  obtain n c where add: "addStream (es_streams e) ?t stream = (n, c)" by fastforce
  note run = run_Propose_leader [where env = env and Marshal = Marshal, OF assms(1,2) add]
  let ?p = "\<lparr>rp_Term = ?t, rp_SequenceNum = n, rp_Data = data\<rparr>"
  have "RaftProposal_Marshal ?p = Inr (RaftProposal_bytes ?p)"
    by (simp add: RaftProposal_Marshal_def RaftProposal.marshal_enc)
  then have up: "Update sdk (RaftProposal_bytes ?p) s =
      (Inr (), sdk_Propose sdk input' (getStream (sm_protocol s) ?t n) s)" for s
    using Update_proposal [of ?p, of _ sdk input' s] assms(3,4) by simp
  have "getStream c ?t n = CloserStream stream ?t n" by (rule ctx.lookup_added [OF add])
  moreover have "getStream (closeStream c (CloserStream stream ?t n)) ?t n = NilStream"
    by (simp add: closeStream_def ctx.lookup_remove)
  ultimately show ?thesis using run up unfolding Let_def by blast
qed

theorem Update_reaches_the_proposer_witness:
  "\<exists>n c bs. getStream c 5 n = CloserStream (3 :: nat) 5 n \<and>
     snd (Update appendMachine bs \<lparr>sm_protocol = c, sm_sm = []\<rparr>) =
       sdk_Propose appendMachine [1, 2] (CloserStream 3 5 n) \<lparr>sm_protocol = c, sm_sm = []\<rparr>"
proof -
  have t: "loadTerm (es_partition sampleExec) = 5"
    by (simp add: sampleExec_def samplePartition_def loadTerm_def)
  have len: "length [1, 2 :: byte] < 2 ^ 62" by simp
  have dec: "sdk_Unmarshal appendMachine [1, 2] = Inr [1, 2]" by (simp add: appendMachine_def)
  have wf: "context_wf (es_streams sampleExec)" "sequenceNum (es_streams sampleExec) \<noteq> - 1"
    by (simp_all add: sampleExec_streams newContext_room)
  have m: "(\<lambda>_ :: unit. Inr [1, 2]) () = (Inr [1, 2] :: string + byte list)" by simp
  obtain n c bs where get: "getStream c 5 n = CloserStream (3 :: nat) 5 n"
    and up: "\<And>s. Update appendMachine bs s =
      (Inr (), sdk_Propose appendMachine [1, 2] (getStream (sm_protocol s) 5 n) s)"
    using Update_reaches_the_proposer [where env = sampleEnv and stream = "3 :: nat" and
      Marshal = "\<lambda>_ :: unit. Inr [1, 2]" and input = "()" and e = sampleExec,
      OF sampleExec_leader m len dec wf] unfolding Let_def t by blast
  have "snd (Update appendMachine bs \<lparr>sm_protocol = c, sm_sm = []\<rparr>) =
      sdk_Propose appendMachine [1, 2] (CloserStream 3 5 n) \<lparr>sm_protocol = c, sm_sm = []\<rparr>"
    by (simp only: up get snd_conv smState.simps)
  with get show ?thesis by blast
qed

definition snapshot_restores :: "('i, 'q, 's, 'qs, 'm) sdkMachine \<Rightarrow> bool" where
  "snapshot_restores sdk \<longleftrightarrow>
     (\<forall>m bytes m'. sdk_Snapshot sdk m = Inr bytes \<longrightarrow> sdk_Recover sdk bytes m' = (Inr (), m))"

lemma applyLog_append: "applyLog sdk (l1 @ l2) s = applyLog sdk l2 (applyLog sdk l1 s)"
  by (induction l1 arbitrary: s) simp_all

lemma Recover_snapshot:
  assumes "snapshot_restores sdk" and "SaveSnapshot sdk s = Inr bytes"
  shows "RecoverFromSnapshot sdk bytes s' = (Inr (), s'\<lparr>sm_sm := sm_sm s\<rparr>)"
  using assms by (simp add: snapshot_restores_def SaveSnapshot_def RecoverFromSnapshot_def
      split: sum.splits)

text \<open>
  C8. A snapshot stands for the log it covers: if the SDK's machine restores from a
  snapshot the state the snapshot was taken of, a replica that recovers from a snapshot
  taken after the first part of the log and applies the rest ends in the state of a
  replica that applied all of it, whatever it held before.
\<close>
theorem recovered_replica_agrees:
  assumes "stream_independent sdk" and "snapshot_restores sdk"
    and "SaveSnapshot sdk (applyLog sdk log1 s) = Inr bytes"
    and "RecoverFromSnapshot sdk bytes s' = (r, s'')"
  shows "r = Inr () \<and> sm_sm (applyLog sdk log2 s'') = sm_sm (applyLog sdk (log1 @ log2) s)"
proof -
  have "r = Inr ()" and s'': "s'' = s'\<lparr>sm_sm := sm_sm (applyLog sdk log1 s)\<rparr>"
    using Recover_snapshot [OF assms(2,3), of s'] assms(4) by simp_all
  moreover have "sm_sm (applyLog sdk log2 s'') = sm_sm (applyLog sdk log2 (applyLog sdk log1 s))"
    by (rule applyLog_agree [OF assms(1)]) (simp add: s'')
  ultimately show ?thesis by (simp add: applyLog_append)
qed

theorem recovered_replica_agrees_witness:
  "\<exists>bytes s''. SaveSnapshot appendMachine
        (applyLog appendMachine [[26, 1, 9]] (newStateMachine newContext [])) = Inr bytes \<and>
     RecoverFromSnapshot appendMachine bytes (newStateMachine newContext [4]) = (Inr (), s'') \<and>
     sm_sm (applyLog appendMachine [[26, 1, 7]] s'') =
       sm_sm (applyLog appendMachine ([[26, 1, 9]] @ [[26, 1, 7]]) (newStateMachine newContext []))"
proof -
  let ?s = "applyLog appendMachine [[26, 1, 9]] (newStateMachine newContext [])"
  have law: "snapshot_restores appendMachine"
    by (simp add: snapshot_restores_def appendMachine_def)
  have save: "SaveSnapshot appendMachine ?s = Inr (sm_sm ?s)"
    by (simp add: SaveSnapshot_def appendMachine_def)
  obtain r s'' where rec: "RecoverFromSnapshot appendMachine (sm_sm ?s) (newStateMachine newContext [4]) = (r, s'')"
    by fastforce
  from recovered_replica_agrees [OF appendMachine_independent law save rec, of "[[26, 1, 7]]"] save rec
  show ?thesis by blast
qed

end
