(* ===== verification/Routing.thy ===== *)
theory Routing
  imports StateMachine
begin

text \<open>
  Proposals across the members of one Raft group: every member has a partition, a stream
  table and any number of \<^verbatim>\<open>Propose\<close> calls in flight; leader events arrive at any time.
  The steps are the atomic actions of the code (\<^verbatim>\<open>partition.go\<close>, \<^verbatim>\<open>context.go\<close>,
  \<^verbatim>\<open>statemachine.go\<close>): the two stores of \<^verbatim>\<open>setLeader\<close>, the two loads of \<^verbatim>\<open>getLeader\<close>,
  the counter, the insertion, the hand-over to the log, the lookup of an applied entry and
  the closing of a stream. Raft enters as election safety only: \<open>leaderOf\<close> gives each term
  one leader, and an event names that leader or none. A client is the number of its
  \<^verbatim>\<open>Propose\<close> call, which is also the name of its stream.

  The code guards neither the two stores nor the two loads by a lock, so any other step may
  fall between them; \<open>torn_read\<close> names the states in which one has.
\<close>

section \<open>States and steps\<close>

datatype proposePC =
    PIdle
  | PTerm Term
  | PLeader Term
  | PNumbered Term SequenceNum
  | PRegistered Term SequenceNum
  | PSubmitted Term SequenceNum
  | PRefused

record netEnv =
  home :: "nat \<Rightarrow> MemberID"
  leaderOf :: "Term \<Rightarrow> MemberID"

record 'pid netState =
  net_parts :: "MemberID \<Rightarrow> 'pid Partition"
  net_storing :: "MemberID \<Rightarrow> MemberID option"
  net_ctx :: "MemberID \<Rightarrow> nat protocolContext"
  net_pcs :: "nat \<Rightarrow> proposePC"
  net_log :: "(nat \<times> Term \<times> SequenceNum) list"
  net_delivered :: "(MemberID \<times> nat \<times> nat) list"

definition net_init :: "'p::len word \<Rightarrow> 'p word netState" where
  "net_init pid =
     \<lparr>net_parts = (\<lambda>m. newPartition pid m), net_storing = (\<lambda>_. None),
      net_ctx = (\<lambda>_. newContext), net_pcs = (\<lambda>_. PIdle), net_log = [], net_delivered = []\<rparr>"

inductive net_step :: "netEnv \<Rightarrow> 'p::len word netState \<Rightarrow> 'p word netState \<Rightarrow> bool" for env where
  store_term: "l = 0 \<or> l = leaderOf env t \<Longrightarrow> net_storing s m = None \<Longrightarrow>
    net_step env s (s\<lparr>net_parts := (net_parts s)(m := storeTerm t (net_parts s m)),
      net_storing := (net_storing s)(m := Some l)\<rparr>)"
| store_leader: "net_storing s m = Some l \<Longrightarrow>
    net_step env s (s\<lparr>net_parts := (net_parts s)(m := storeLeader l (net_parts s m)),
      net_storing := (net_storing s)(m := None)\<rparr>)"
| load_term: "net_pcs s c = PIdle \<Longrightarrow>
    net_step env s (s\<lparr>net_pcs := (net_pcs s)(c := PTerm (loadTerm (net_parts s (home env c))))\<rparr>)"
| load_leader: "net_pcs s c = PTerm t \<Longrightarrow>
    loadLeader (net_parts s (home env c)) = part_memberID (net_parts s (home env c)) \<Longrightarrow>
    net_step env s (s\<lparr>net_pcs := (net_pcs s)(c := PLeader t)\<rparr>)"
| refuse: "net_pcs s c = PTerm t \<Longrightarrow>
    loadLeader (net_parts s (home env c)) \<noteq> part_memberID (net_parts s (home env c)) \<Longrightarrow>
    net_step env s (s\<lparr>net_pcs := (net_pcs s)(c := PRefused)\<rparr>)"
| number: "net_pcs s c = PLeader t \<Longrightarrow> sequenceNum (net_ctx s (home env c)) \<noteq> - 1 \<Longrightarrow>
    nextSequenceNum (net_ctx s (home env c)) = (n, r) \<Longrightarrow>
    net_step env s (s\<lparr>net_ctx := (net_ctx s)(home env c := r),
      net_pcs := (net_pcs s)(c := PNumbered t n)\<rparr>)"
| register: "net_pcs s c = PNumbered t n \<Longrightarrow>
    net_step env s (s\<lparr>net_ctx := (net_ctx s)(home env c := insertStream (net_ctx s (home env c)) t n c),
      net_pcs := (net_pcs s)(c := PRegistered t n)\<rparr>)"
| submit: "net_pcs s c = PRegistered t n \<Longrightarrow>
    net_step env s (s\<lparr>net_log := (c, t, n) # net_log s,
      net_pcs := (net_pcs s)(c := PSubmitted t n)\<rparr>)"
| deliver: "(c, t, n) \<in> set (net_log s) \<Longrightarrow>
    getStream (net_ctx s m) t n = CloserStream c' t' n' \<Longrightarrow>
    net_step env s (s\<lparr>net_delivered := (m, c, c') # net_delivered s\<rparr>)"
| close: "net_step env s (s\<lparr>net_ctx :=
      (net_ctx s)(m := closeStream (net_ctx s m) (getStream (net_ctx s m) t n))\<rparr>)"

inductive net_reachable :: "netEnv \<Rightarrow> 'p::len word netState \<Rightarrow> bool" for env where
  net_start: "net_reachable env (net_init pid)"
| net_next: "net_reachable env s \<Longrightarrow> net_step env s s' \<Longrightarrow> net_reachable env s'"

definition misrouted :: "'p::len word netState \<Rightarrow> bool" where
  "misrouted s \<longleftrightarrow> (\<exists>(m, c, c') \<in> set (net_delivered s). c' \<noteq> c)"

section \<open>Numbers are given out once per member\<close>

fun pcKey :: "proposePC \<Rightarrow> (Term \<times> SequenceNum) option" where
  "pcKey (PNumbered t n) = Some (t, n)"
| "pcKey (PRegistered t n) = Some (t, n)"
| "pcKey (PSubmitted t n) = Some (t, n)"
| "pcKey _ = None"

lemma pcKey_Some: "pcKey pc = Some (t, n) \<longleftrightarrow>
    pc = PNumbered t n \<or> pc = PRegistered t n \<or> pc = PSubmitted t n"
  by (cases pc) auto

text \<open>
  The call a number was given to: every key a call holds is at most its member's counter,
  two calls of one member hold different numbers, a registered stream is that of the call
  holding its key, and so is a logged entry.
\<close>

definition numbers_inv :: "netEnv \<Rightarrow> 'p::len word netState \<Rightarrow> bool" where
  "numbers_inv env s \<longleftrightarrow>
     (\<forall>c t n. pcKey (net_pcs s c) = Some (t, n) \<longrightarrow> n \<le> sequenceNum (net_ctx s (home env c))) \<and>
     (\<forall>c c' t t' n. pcKey (net_pcs s c) = Some (t, n) \<longrightarrow> pcKey (net_pcs s c') = Some (t', n) \<longrightarrow>
        home env c = home env c' \<longrightarrow> c = c')"

definition streams_inv :: "netEnv \<Rightarrow> 'p::len word netState \<Rightarrow> bool" where
  "streams_inv env s \<longleftrightarrow>
     (\<forall>m t n c t' n'. getStream (net_ctx s m) t n = CloserStream c t' n' \<longrightarrow>
        home env c = m \<and> pcKey (net_pcs s c) = Some (t, n))"

definition log_inv :: "netEnv \<Rightarrow> 'p::len word netState \<Rightarrow> bool" where
  "log_inv env s \<longleftrightarrow> (\<forall>(c, t, n) \<in> set (net_log s). net_pcs s c = PSubmitted t n)"

text \<open>A delivery is right if the entry was applied by the member that proposed it.\<close>

definition own_delivery_inv :: "netEnv \<Rightarrow> 'p::len word netState \<Rightarrow> bool" where
  "own_delivery_inv env s \<longleftrightarrow>
     (\<forall>(m, c, c') \<in> set (net_delivered s). m = home env c \<longrightarrow> c' = c)"

lemmas net_invs = numbers_inv_def streams_inv_def log_inv_def own_delivery_inv_def

lemma nextSequenceNum_less:
  assumes "sequenceNum r \<noteq> - 1" and "nextSequenceNum r = (n, r')"
  shows "sequenceNum r < n" and "sequenceNum r' = n"
    and "\<And>t m. getStream r' t m = getStream r t m"
  using assms word_next_less [of "sequenceNum r"] getStream_next [OF assms(2)]
  by (auto simp: nextSequenceNum_def Let_def)

lemma net_step_numbers:
  assumes "net_step env s s'" and "numbers_inv env s"
  shows "numbers_inv env s'"
  using assms(1)
proof cases
  case (number c t n r)
  note nx = nextSequenceNum_less [OF number(3,4)]
  have le: "pcKey (net_pcs s c1) = Some (t1, n1) \<Longrightarrow> n1 \<le> sequenceNum (net_ctx s (home env c1))"
    for c1 t1 n1 using assms(2) unfolding numbers_inv_def by blast
  have old: "n1 < n" if "pcKey (net_pcs s c1) = Some (t1, n1)" "home env c1 = home env c" for c1 t1 n1
    using le [OF that(1)] that(2) nx(1) by simp
  have "n1 \<le> sequenceNum (net_ctx s' (home env c1))"
    if "pcKey (net_pcs s' c1) = Some (t1, n1)" for c1 t1 n1
    using that le [of c1 t1 n1] old [of c1 t1 n1] nx(2)
    by (cases "c1 = c") (auto simp: number(1) dest: less_imp_le)
  moreover have "c1 = c2" if "pcKey (net_pcs s' c1) = Some (t1, n1)"
      "pcKey (net_pcs s' c2) = Some (t2, n1)" "home env c1 = home env c2" for c1 c2 t1 t2 n1
  proof (cases "c1 = c \<or> c2 = c")
    case True
    then show ?thesis using that old by (fastforce simp: number(1) split: if_splits)
  next
    case False
    then show ?thesis
      using that assms(2) unfolding numbers_inv_def by (auto simp: number(1))
  qed
  ultimately show ?thesis unfolding numbers_inv_def by blast
next
  case (close m t n)
  have "sequenceNum (closeStream r ws) = sequenceNum r" for r :: "nat protocolContext" and ws
    by (auto simp: closeStream_def removeStream_def split: writeStream.split)
  then have "sequenceNum (net_ctx s' x) = sequenceNum (net_ctx s x)" and "net_pcs s' = net_pcs s" for x
    by (simp_all add: close)
  with assms(2) show ?thesis unfolding numbers_inv_def by metis
next
  case (register c t n)
  have "sequenceNum (net_ctx s' x) = sequenceNum (net_ctx s x)" for x
    by (simp add: register(1) insertStream_def)
  moreover have "pcKey (net_pcs s' x) = pcKey (net_pcs s x)" for x
    by (simp add: register)
  ultimately show ?thesis using assms(2) unfolding numbers_inv_def by metis
qed (use assms(2) in \<open>auto simp: numbers_inv_def insertStream_def split: if_splits\<close>)

lemma getStream_close:
  "getStream (closeStream r (getStream r t n)) t' n' = CloserStream c x y \<Longrightarrow>
     getStream r t' n' = CloserStream c x y"
  by (auto simp: closeStream_def getStream_remove split: writeStream.splits if_splits)

lemma net_step_streams:
  assumes "net_step env s s'" and "streams_inv env s"
  shows "streams_inv env s'"
  using assms(1)
proof cases
  case (number c t n r)
  note nx = nextSequenceNum_less [OF number(3,4)]
  have "home env c1 \<noteq> m \<or> c1 \<noteq> c" if "getStream (net_ctx s m) t1 n1 = CloserStream c1 x y" for m t1 n1 c1 x y
    using that assms(2) number(2) unfolding streams_inv_def by fastforce
  then show ?thesis
    using assms(2) nx(3) unfolding streams_inv_def number(1) by (fastforce split: if_splits)
next
  case (register c t n)
  then show ?thesis
    using assms(2) unfolding streams_inv_def by (fastforce simp: getStream_insert split: if_splits)
next
  case (close m t n)
  then show ?thesis
    using assms(2) unfolding streams_inv_def by (fastforce dest: getStream_close split: if_splits)
qed (use assms(2) in \<open>fastforce simp: streams_inv_def split: if_splits\<close>)+

lemma net_step_log:
  assumes "net_step env s s'" and "log_inv env s"
  shows "log_inv env s'"
  using assms by cases (fastforce simp: log_inv_def)+

lemma net_step_own_delivery:
  assumes "net_step env s s'" and "numbers_inv env s" and "streams_inv env s"
    and "log_inv env s" and "own_delivery_inv env s"
  shows "own_delivery_inv env s'"
  using assms(1)
proof cases
  case (deliver c t n m c' t' n')
  have "c' = c" if m: "m = home env c"
  proof -
    have "home env c' = m \<and> pcKey (net_pcs s c') = Some (t, n)"
      using assms(3) deliver(3) unfolding streams_inv_def by blast
    moreover have "pcKey (net_pcs s c) = Some (t, n)"
      using assms(4) deliver(2) unfolding log_inv_def by auto
    ultimately show ?thesis using assms(2) m unfolding numbers_inv_def by blast
  qed
  with assms(5) show ?thesis by (auto simp: own_delivery_inv_def deliver(1))
qed (use assms(5) in \<open>simp_all add: own_delivery_inv_def\<close>)

lemma net_init_invs:
  "numbers_inv env (net_init pid)" "streams_inv env (net_init pid)"
  "log_inv env (net_init pid)" "own_delivery_inv env (net_init pid)"
  by (simp_all add: net_invs net_init_def getStream_def newContext_def)

lemma reachable_invs:
  "net_reachable env s \<Longrightarrow>
     numbers_inv env s \<and> streams_inv env s \<and> log_inv env s \<and> own_delivery_inv env s"
proof (induction rule: net_reachable.induct)
  case (net_start pid)
  show ?case by (simp add: net_init_invs)
next
  case (net_next s s')
  then show ?case
    using net_step_numbers net_step_streams net_step_log net_step_own_delivery by blast
qed

section \<open>Without a torn read, numbers belong to the term's leader\<close>




lemma load_store_simps [simp]:
  "loadTerm (storeTerm t p) = t" "loadLeader (storeTerm t p) = loadLeader p"
  "loadTerm (storeLeader l p) = loadTerm p" "loadLeader (storeLeader l p) = l"
  "part_memberID (storeTerm t p) = part_memberID p"
  "part_memberID (storeLeader l p) = part_memberID p"
  by (simp_all add: go_defs)







section \<open>Properties\<close>

text \<open>
  C2. On the member that proposed it, an entry only ever reaches the client that proposed
  it: over any interleaving of any number of proposals on any number of members, leader
  changes and stream closings, while no counter has wrapped.
\<close>

theorem own_deliveries_reach_the_proposer:
  assumes "net_reachable env s" and "(home env c, c, c') \<in> set (net_delivered s)"
  shows "c' = c"
  using reachable_invs [OF assms(1)] assms(2) by (auto simp: own_delivery_inv_def)


section \<open>A run of the code that misroutes\<close>

text \<open>
  Client 0 calls member 1, client 1 calls member 2; member 1 leads term 5, member 2 term 6.
  Member 1 stores term 6, and before it stores the new leader client 0 reads the pair.
\<close>

definition tornEnv :: netEnv where
  "tornEnv = \<lparr>home = (\<lambda>c. if c = 0 then 1 else 2),
     leaderOf = (\<lambda>t. if t = 6 then 2 else 1)\<rparr>"

definition tornInit :: "32 word netState" where "tornInit = net_init 1"

text \<open>
  The steps as a function: a run is a list of actions, and every run of it is a run of the
  step relation.
\<close>

datatype netAction =
    DoStoreTerm MemberID Term MemberID
  | DoStoreLeader MemberID
  | DoLoadTerm nat
  | DoLoadLeader nat
  | DoNumber nat
  | DoRegister nat
  | DoSubmit nat
  | DoDeliver nat Term SequenceNum MemberID

fun net_exec :: "netEnv \<Rightarrow> netAction \<Rightarrow> 'p::len word netState \<Rightarrow> 'p word netState option" where
  "net_exec env (DoStoreTerm m t l) s =
     (if (l = 0 \<or> l = leaderOf env t) \<and> net_storing s m = None
      then Some (s\<lparr>net_parts := (net_parts s)(m := storeTerm t (net_parts s m)),
             net_storing := (net_storing s)(m := Some l)\<rparr>)
      else None)"
| "net_exec env (DoStoreLeader m) s =
     (case net_storing s m of
        Some l \<Rightarrow> Some (s\<lparr>net_parts := (net_parts s)(m := storeLeader l (net_parts s m)),
             net_storing := (net_storing s)(m := None)\<rparr>)
      | None \<Rightarrow> None)"
| "net_exec env (DoLoadTerm c) s =
     (if net_pcs s c = PIdle
      then Some (s\<lparr>net_pcs := (net_pcs s)(c := PTerm (loadTerm (net_parts s (home env c))))\<rparr>)
      else None)"
| "net_exec env (DoLoadLeader c) s =
     (case net_pcs s c of
        PTerm t \<Rightarrow> Some (s\<lparr>net_pcs := (net_pcs s)(c :=
          (if loadLeader (net_parts s (home env c)) = part_memberID (net_parts s (home env c))
           then PLeader t else PRefused))\<rparr>)
      | _ \<Rightarrow> None)"
| "net_exec env (DoNumber c) s =
     (case net_pcs s c of
        PLeader t \<Rightarrow>
          (if sequenceNum (net_ctx s (home env c)) = - 1 then None
           else (let (n, r) = nextSequenceNum (net_ctx s (home env c)) in
             Some (s\<lparr>net_ctx := (net_ctx s)(home env c := r),
               net_pcs := (net_pcs s)(c := PNumbered t n)\<rparr>)))
      | _ \<Rightarrow> None)"
| "net_exec env (DoRegister c) s =
     (case net_pcs s c of
        PNumbered t n \<Rightarrow>
          Some (s\<lparr>net_ctx := (net_ctx s)(home env c := insertStream (net_ctx s (home env c)) t n c),
            net_pcs := (net_pcs s)(c := PRegistered t n)\<rparr>)
      | _ \<Rightarrow> None)"
| "net_exec env (DoSubmit c) s =
     (case net_pcs s c of
        PRegistered t n \<Rightarrow> Some (s\<lparr>net_log := (c, t, n) # net_log s,
            net_pcs := (net_pcs s)(c := PSubmitted t n)\<rparr>)
      | _ \<Rightarrow> None)"
| "net_exec env (DoDeliver c t n m) s =
     (if (c, t, n) \<in> set (net_log s)
      then (case getStream (net_ctx s m) t n of
              CloserStream c' t' n' \<Rightarrow> Some (s\<lparr>net_delivered := (m, c, c') # net_delivered s\<rparr>)
            | NilStream \<Rightarrow> None)
      else None)"

fun net_run :: "netEnv \<Rightarrow> netAction list \<Rightarrow> 'p::len word netState \<Rightarrow> 'p word netState option" where
  "net_run env [] s = Some s"
| "net_run env (a # as) s =
     (case net_exec env a s of Some s' \<Rightarrow> net_run env as s' | None \<Rightarrow> None)"

lemma net_exec_step: "net_exec env a s = Some s' \<Longrightarrow> net_step env s s'"
  by (cases "(env, a, s)" rule: net_exec.cases)
    (auto split: if_splits option.splits proposePC.splits prod.splits writeStream.splits
      simp: Let_def intro: net_step.intros)

lemma net_run_reachable:
  "net_run env as s = Some s' \<Longrightarrow> net_reachable env s \<Longrightarrow> net_reachable env s'"
proof (induction as arbitrary: s)
  case (Cons a as)
  then obtain s1 where s1: "net_exec env a s = Some s1" "net_run env as s1 = Some s'"
    by (auto split: option.splits)
  with net_next [OF Cons.prems(2) net_exec_step [OF s1(1)]] Cons.IH show ?case by auto
qed simp

definition tornRun :: "netAction list" where
  "tornRun =
     [DoStoreTerm 1 5 1, DoStoreLeader 1, DoStoreTerm 1 6 2,
      DoLoadTerm 0, DoLoadLeader 0, DoStoreLeader 1, DoNumber 0, DoRegister 0, DoSubmit 0,
      DoStoreTerm 2 6 2, DoStoreLeader 2,
      DoLoadTerm 1, DoLoadLeader 1, DoNumber 1, DoRegister 1, DoSubmit 1,
      DoDeliver 0 6 1 2]"

lemmas run_defs = tornEnv_def tornInit_def net_init_def newPartition_def newContext_def
  storeTerm_def storeLeader_def loadTerm_def loadLeader_def nextSequenceNum_def
  insertStream_def getStream_def

lemma tornRun_delivers:
  "\<exists>s. net_run tornEnv tornRun tornInit = Some s \<and> net_delivered s = [(2, 0, 1)]"
  by (simp add: tornRun_def run_defs)

lemma torn_run_misroutes: "\<exists>s :: 32 word netState. net_reachable tornEnv s \<and> misrouted s"
proof -
  obtain s where s: "net_run tornEnv tornRun tornInit = Some s" "net_delivered s = [(2, 0, 1)]"
    using tornRun_delivers by blast
  have "net_reachable tornEnv s"
    by (rule net_run_reachable [OF s(1)]) (simp add: tornInit_def net_start)
  moreover have "misrouted s" by (simp add: misrouted_def s(2))
  ultimately show ?thesis by blast
qed

text \<open>
  C4. The code misroutes: \<^verbatim>\<open>setLeader\<close> and \<^verbatim>\<open>getLeader\<close> are two separate atomic accesses,
  and there is a run in which a proposal reads the new term with the old leader, so that
  two members register different clients under one term and sequence number and one
  client receives the other's response.
\<close>

theorem torn_leader_misroutes:
  "\<exists>s :: 32 word netState. net_reachable tornEnv s \<and> misrouted s \<and>
     (\<forall>c. home tornEnv c \<noteq> 0)"
using torn_run_misroutes by (auto simp: tornEnv_def)

text \<open>
  A run in which member 1 leads term 5 throughout: its only client gets its own response.
\<close>

definition oneStore :: "32 word netState" where
  "oneStore = tornInit\<lparr>
     net_parts := (net_parts tornInit)(1 := storeTerm 5 (net_parts tornInit 1)),
     net_storing := (net_storing tornInit)(1 := Some 1)\<rparr>"

definition ownRun :: "netAction list" where
  "ownRun = [DoStoreLeader 1, DoLoadTerm 0, DoLoadLeader 0, DoNumber 0, DoRegister 0,
     DoSubmit 0, DoDeliver 0 5 1 1]"

lemma oneStore_reachable: "net_reachable tornEnv oneStore"
proof -
  have "net_step tornEnv tornInit oneStore"
    unfolding oneStore_def by (rule store_term) (simp_all add: tornInit_def net_init_def tornEnv_def)
  then show ?thesis using net_next [OF net_start] unfolding tornInit_def by blast
qed

lemma ownRun_delivers:
  "\<exists>s. net_run tornEnv ownRun oneStore = Some s \<and> net_delivered s = [(1, 0, 0)]"
  by (simp add: ownRun_def oneStore_def run_defs)

lemma own_run_reachable:
  "\<exists>s :: 32 word netState. net_reachable tornEnv s \<and> net_delivered s = [(1, 0, 0)]"
proof -
  obtain s :: "32 word netState" where
    s: "net_run tornEnv ownRun oneStore = Some s" "net_delivered s = [(1, 0, 0)]"
    using ownRun_delivers by blast
  show ?thesis using net_run_reachable [OF s(1) oneStore_reachable] s(2) by blast
qed

theorem own_deliveries_reach_the_proposer_witness:
  "\<exists>s :: 32 word netState. net_reachable tornEnv s \<and>
     (\<exists>c'. (1, 0, c') \<in> set (net_delivered s)) \<and> (\<forall>c'. (1, 0, c') \<in> set (net_delivered s) \<longrightarrow> c' = 0)"
proof -
  obtain s :: "32 word netState" where s: "net_reachable tornEnv s" "net_delivered s = [(1, 0, 0)]"
    using own_run_reachable by blast
  have home: "home tornEnv 0 = 1" by (simp add: tornEnv_def)
  have "\<forall>c'. (1, 0, c') \<in> set (net_delivered s) \<longrightarrow> c' = 0"
    using own_deliveries_reach_the_proposer [OF s(1), of 0] unfolding home by blast
  with s show ?thesis by auto
qed


end
