(* ===== verification/WireEvolution.thy ===== *)
theory WireEvolution
  imports ProtoMessages
begin

text \<open>
  Messages of another version. \<^verbatim>\<open>protocol.proto\<close> may gain fields, and during a rolling update
  a node reads log entries and requests of a newer one; the \<^verbatim>\<open>default\<close> branch of every
  generated \<^verbatim>\<open>Unmarshal\<close> hands such fields to \<^verbatim>\<open>skipProtocol\<close>. This theory states what a
  well formed field of the wire format is, nested groups included, shows that \<^verbatim>\<open>skipProtocol\<close>
  consumes exactly its bytes, and that a message reads the same with any such fields around it.
\<close>

section \<open>Fields a message does not know\<close>

text \<open>
  A field of the wire format by its number: a varint, 8 bytes, a length-delimited payload, a
  group of fields between a start and an end tag, or 4 bytes (wire types 0, 1, 2, 3 with 4,
  and 5).
\<close>

datatype extraField =
    XVarint nat uint64
  | XFixed64 nat "byte list"
  | XBytes nat "byte list"
  | XGroup nat "extraField list"
  | XFixed32 nat "byte list"

definition fieldTag :: "nat \<Rightarrow> nat \<Rightarrow> uint64" where
  "fieldTag n wireType = of_nat (8 * n + wireType)"

fun extraNumber :: "extraField \<Rightarrow> nat" where
  "extraNumber (XVarint n _) = n"
| "extraNumber (XFixed64 n _) = n"
| "extraNumber (XBytes n _) = n"
| "extraNumber (XGroup n _) = n"
| "extraNumber (XFixed32 n _) = n"

fun extraWireType :: "extraField \<Rightarrow> nat" where
  "extraWireType (XVarint _ _) = 0"
| "extraWireType (XFixed64 _ _) = 1"
| "extraWireType (XBytes _ _) = 2"
| "extraWireType (XGroup _ _) = 3"
| "extraWireType (XFixed32 _ _) = 5"

fun extraPayload :: "extraField \<Rightarrow> byte list" where
  "extraPayload (XVarint _ v) = varint v"
| "extraPayload (XFixed64 _ bs) = bs"
| "extraPayload (XBytes _ bs) = varint (of_nat (length bs)) @ bs"
| "extraPayload (XGroup n xs) =
     concat (map (\<lambda>x. varint (fieldTag (extraNumber x) (extraWireType x)) @ extraPayload x) xs) @
       varint (fieldTag n 4)"
| "extraPayload (XFixed32 _ bs) = bs"

definition extraBytes :: "extraField \<Rightarrow> byte list" where
  "extraBytes x = varint (fieldTag (extraNumber x) (extraWireType x)) @ extraPayload x"

text \<open>Field numbers have 29 bits, and the fixed-width payloads their width.\<close>

fun extraOk :: "extraField \<Rightarrow> bool" where
  "extraOk (XVarint n _) = (n < 2 ^ 29)"
| "extraOk (XFixed64 n bs) = (n < 2 ^ 29 \<and> length bs = 8)"
| "extraOk (XBytes n _) = (n < 2 ^ 29)"
| "extraOk (XGroup n xs) = (n < 2 ^ 29 \<and> (\<forall>x\<in>set xs. extraOk x))"
| "extraOk (XFixed32 n bs) = (n < 2 ^ 29 \<and> length bs = 4)"

text \<open>The fields a message with the field table \<open>fs\<close> leaves to the default branch.\<close>

definition unknownTo :: "'m fields \<Rightarrow> extraField \<Rightarrow> bool" where
  "unknownTo fs x \<longleftrightarrow> extraOk x \<and> 0 < extraNumber x \<and> fs (int (extraNumber x)) = None"

lemma extraPayload_group:
  "extraPayload (XGroup n xs) = concat (map extraBytes xs) @ varint (fieldTag n 4)"
  by (simp add: extraBytes_def [abs_def])

lemma extraOk_number: "extraOk x \<Longrightarrow> extraNumber x < 2 ^ 29"
  by (cases x) simp_all

lemma extraWireType_less: "extraWireType x < 8"
  by (cases x) simp_all

section \<open>Skipping a field\<close>

lemma fieldTag_wireType:
  assumes "n < 2 ^ 29" and "wt < 8"
  shows "fieldTag n wt AND 7 = of_nat wt"
proof -
  have "fieldTag n wt AND 7 = take_bit 3 (of_nat (8 * n + wt) :: uint64)"
    by (simp add: fieldTag_def take_bit_eq_mask mask_eq_exp_minus_1)
  also have "\<dots> = of_nat (take_bit 3 (8 * n + wt))" by (rule take_bit_of_nat)
  also have "take_bit 3 (8 * n + wt) = wt" using assms(2) by (simp add: take_bit_eq_mod)
  finally show ?thesis .
qed

lemma fieldTag_number:
  assumes "n < 2 ^ 29" and "wt < 8"
  shows "sint (ucast (drop_bit 3 (fieldTag n wt)) :: uint32) = int n"
proof -
  have "unat (fieldTag n wt) = 8 * n + wt"
    using assms unfolding fieldTag_def unsigned_of_nat by (simp add: take_bit_nat_eq_self del: of_nat_add of_nat_mult)
  then have "unat (drop_bit 3 (fieldTag n wt)) = n"
    using assms(2) unfolding unat_drop_bit_eq by (simp add: drop_bit_eq_div)
  then have "(ucast (drop_bit 3 (fieldTag n wt)) :: uint32) = of_nat n"
    by (metis of_nat_unat)
  with assms(1) show ?thesis by (simp add: signed_of_nat signed_take_bit_int_eq_self)
qed

lemma readVarint_here:
  "drop i dAtA = varint v @ rest \<Longrightarrow>
     readVarint dAtA i 0 (0 :: uint64) = Inr (v, i + length (varint v)) \<and>
     drop (i + length (varint v)) dAtA = rest \<and> i < length dAtA"
  using readVarint_start [where ?'a = 64, of i dAtA v rest] sovProtocol_pos [of v]
  by (auto simp: length_varint [symmetric] not_less dest: arg_cong [of _ _ "drop (length (varint v))"])
    (metis add.commute append_eq_conv_conj drop_drop, metis drop_all le_eq_less_or_eq linorder_not_le append_is_Nil_conv length_0_conv)

lemma drop_prefix_length: "drop i xs = a @ b \<Longrightarrow> a \<noteq> [] \<Longrightarrow> i + length a \<le> length xs"
  by (metis append_is_Nil_conv drop_eq_Nil2 length_append length_drop le_add1 le_add_diff_inverse nat_add_left_cancel_le nle_le)

text \<open>
  \<^verbatim>\<open>skipProtocol\<close> on a field: behind it, the loop returns at depth 0 and goes on inside a
  group.
\<close>

definition skips :: "byte list \<Rightarrow> bool" where
  "skips bs \<longleftrightarrow>
     (\<forall>dAtA i d rest. length dAtA < 2 ^ 63 \<longrightarrow> drop i dAtA = bs @ rest \<longrightarrow>
        skipLoop dAtA i d =
          (if d = 0 then Inr (i + length bs) else skipLoop dAtA (i + length bs) d))"

lemma skipsI:
  assumes "\<And>dAtA i d rest. length dAtA < 2 ^ 63 \<Longrightarrow> drop i dAtA = payload @ rest \<Longrightarrow>
    skipField dAtA (of_nat wt) i d = Inr (i + length payload, d)"
    and n: "n < 2 ^ 29" and wt: "wt < 8"
  shows "skips (varint (fieldTag n wt) @ payload)"
  unfolding skips_def
proof (intro allI impI)
  fix dAtA i d rest
  let ?t = "varint (fieldTag n wt)"
  assume len: "length (dAtA :: byte list) < 2 ^ 63" and dr: "drop i dAtA = (?t @ payload) @ rest"
  then have r: "readVarint dAtA i 0 (0 :: uint64) = Inr (fieldTag n wt, i + length ?t)"
    "drop (i + length ?t) dAtA = payload @ rest" "i < length dAtA"
    using readVarint_here [of i dAtA "fieldTag n wt" "payload @ rest"] by simp_all
  have "i + length (?t @ payload) \<le> length dAtA"
    using drop_prefix_length [OF dr] sovProtocol_pos [of "fieldTag n wt"]
    by (fastforce simp: length_varint [symmetric])
  with len have "\<not> sumOverflows (i + length ?t + length payload) 0"
    by (simp add: sumOverflows_def)
  with assms(1) [OF len r(2)] r(1,3)
  show "skipLoop dAtA i d =
      (if d = 0 then Inr (i + length (?t @ payload))
       else skipLoop dAtA (i + length (?t @ payload)) d)"
    by (subst skipLoop.simps) (simp add: fieldTag_wireType [OF n wt] add.assoc)
qed


lemma skipsD:
  "skips bs \<Longrightarrow> length dAtA < 2 ^ 63 \<Longrightarrow> drop i dAtA = bs @ rest \<Longrightarrow>
     skipLoop dAtA i d = (if d = 0 then Inr (i + length bs) else skipLoop dAtA (i + length bs) d)"
  unfolding skips_def by blast

lemma skips_all:
  assumes "\<forall>bs\<in>set bss. skips bs" and "length dAtA < 2 ^ 63"
    and "drop i dAtA = concat bss @ rest" and "0 < d"
  shows "skipLoop dAtA i d = skipLoop dAtA (i + length (concat bss)) d"
  using assms
proof (induction bss arbitrary: i)
  case (Cons bs bss)
  from Cons.prems(3) have d: "drop i dAtA = bs @ (concat bss @ rest)" by simp
  then have d': "drop (i + length bs) dAtA = concat bss @ rest"
    by (metis add.commute append_eq_conv_conj drop_drop)
  from Cons.prems d have "skipLoop dAtA i d = skipLoop dAtA (i + length bs) d"
    unfolding skips_def by (metis list.set_intros(1) less_not_refl)
  also have "\<dots> = skipLoop dAtA (i + length bs + length (concat bss)) d"
    using Cons.prems d' by (intro Cons.IH) simp_all
  finally show ?case by (simp add: add.assoc)
qed simp

lemma tag_in_bounds: "drop i dAtA = varint v @ rest \<Longrightarrow> i + length (varint v) \<le> length dAtA"
  using drop_prefix_length [of i dAtA "varint v" rest] sovProtocol_pos [of v]
  by (fastforce simp: length_varint [symmetric])

lemma skips_group:
  assumes n: "n < 2 ^ 29" and bss: "\<forall>bs\<in>set bss. skips bs"
  shows "skips (varint (fieldTag n 3) @ concat bss @ varint (fieldTag n 4))"
  unfolding skips_def
proof (intro allI impI)
  fix dAtA i d rest
  let ?s = "varint (fieldTag n 3)" and ?e = "varint (fieldTag n 4)"
  let ?j = "i + length ?s" let ?k = "?j + length (concat bss)"
  assume len: "length (dAtA :: byte list) < 2 ^ 63"
    and "drop i dAtA = (?s @ concat bss @ ?e) @ rest"
  then have s: "drop i dAtA = ?s @ (concat bss @ ?e @ rest)" by simp
  note rs = readVarint_here [OF s]
  then have j: "drop ?j dAtA = concat bss @ (?e @ rest)" by simp
  then have k: "drop ?k dAtA = ?e @ rest"
    by (metis add.commute append_eq_conv_conj drop_drop)
  note re = readVarint_here [OF k]
  have so: "\<not> sumOverflows ?j 0" and eo: "\<not> sumOverflows (?k + length ?e) 0"
    using tag_in_bounds [OF s] tag_in_bounds [OF k] len by (simp_all add: sumOverflows_def)
  have "skipLoop dAtA i d = skipLoop dAtA ?j (Suc d)"
    using rs so fieldTag_wireType [OF n, of 3]
    by (subst skipLoop.simps) (simp add: skipField_def)
  also have "\<dots> = skipLoop dAtA ?k (Suc d)"
    by (rule skips_all [OF bss len j]) simp
  also have "\<dots> = (if d = 0 then Inr (?k + length ?e) else skipLoop dAtA (?k + length ?e) d)"
    using re eo fieldTag_wireType [OF n, of 4]
    by (subst skipLoop.simps) (simp add: skipField_def)
  finally show "skipLoop dAtA i d =
      (if d = 0 then Inr (i + length (?s @ concat bss @ ?e))
       else skipLoop dAtA (i + length (?s @ concat bss @ ?e)) d)"
    by (simp add: add.assoc)
qed

lemma skips_extra: "extraOk x \<Longrightarrow> skips (extraBytes x)"
proof (induction x)
  case (XVarint n v)
  then show ?case unfolding extraBytes_def
    by (intro skipsI) (auto simp: skipField_def dest: readVarint_here)
next
  case (XFixed64 n bs)
  then show ?case unfolding extraBytes_def
    by (intro skipsI) (auto simp: skipField_def)
next
  case (XBytes n bs)
  then show ?case unfolding extraBytes_def
  proof (intro skipsI)
    fix dAtA i d rest
    let ?h = "varint (of_nat (length bs))"
    assume len: "length (dAtA :: byte list) < 2 ^ 63"
      and "drop i dAtA = extraPayload (XBytes n bs) @ rest"
    then have h: "drop i dAtA = ?h @ (bs @ rest)" by simp
    have "length bs < 2 ^ 63"
      using arg_cong [OF h, of length] len by simp
    then have "sint (of_nat (length bs) :: uint64) = int (length bs)" by (rule sint_of_nat_64)
    with readVarint_here [OF h]
    show "skipField dAtA (of_nat (extraWireType (XBytes n bs))) i d =
        Inr (i + length (extraPayload (XBytes n bs)), d)"
      by (simp add: skipField_def)
  qed simp_all
next
  case (XGroup n xs)
  then have "\<forall>bs\<in>set (map extraBytes xs). skips bs" and "n < 2 ^ 29" by auto
  from skips_group [OF this(2,1)] show ?case
    by (simp only: extraBytes_def [of "XGroup n xs"] extraPayload_group extraNumber.simps
        extraWireType.simps)
next
  case (XFixed32 n bs)
  then show ?case unfolding extraBytes_def
    by (intro skipsI) (auto simp: skipField_def)
qed


section \<open>Reading a message of another version\<close>

lemma extraBytes_nonempty: "extraBytes x \<noteq> []"
  using sovProtocol_pos [of "fieldTag (extraNumber x) (extraWireType x)"]
  by (auto simp: extraBytes_def length_varint [symmetric])

lemma extraWireType_group_end: "of_nat (extraWireType x) \<noteq> (4 :: uint64)"
  by (cases x) simp_all

lemma skipUnknown_extra:
  assumes "extraOk x" and "drop i dAtA = extraBytes x @ rest" and "length dAtA < 2 ^ 63"
  shows "skipUnknown dAtA i = Inr (i + length (extraBytes x))"
proof -
  have le: "i + length (extraBytes x) \<le> length dAtA"
    by (rule drop_prefix_length [OF assms(2) extraBytes_nonempty])
  have "skipLoop (drop i dAtA) 0 0 = Inr (length (extraBytes x))"
    using skipsD [OF skips_extra [OF assms(1)], of "drop i dAtA" 0 rest 0] assms(2,3)
      length_drop [of i dAtA] by (simp del: length_drop)
  with le assms(3) show ?thesis
    by (simp add: skipUnknown_def skipProtocol_def sumOverflows_def)
qed

lemma decodes_extra:
  assumes "unknownTo fs x"
  shows "decodes fs (extraBytes x) m m"
  unfolding decodes_def
proof (intro allI impI)
  fix msg dAtA i rest
  let ?t = "fieldTag (extraNumber x) (extraWireType x)"
  assume len: "length (dAtA :: byte list) < 2 ^ 63" and d: "drop i dAtA = extraBytes x @ rest"
  from assms have ok: "extraOk x" and pos: "0 < extraNumber x"
    and unknown: "fs (int (extraNumber x)) = None" by (simp_all add: unknownTo_def)
  note tag = fieldTag_wireType [OF extraOk_number [OF ok] extraWireType_less]
    fieldTag_number [OF extraOk_number [OF ok] extraWireType_less]
  have r: "readVarint dAtA i 0 (0 :: uint64) = Inr (?t, i + length (varint ?t))" "i < length dAtA"
    using readVarint_here [of i dAtA ?t "extraPayload x @ rest"] d
    by (simp_all add: extraBytes_def)
  have "unmarshalField msg fs dAtA i m = Inr (i + length (extraBytes x), m)"
    using r(1) tag pos unknown skipUnknown_extra [OF ok d len]
    by (simp add: unmarshalField_def Let_def extraWireType_group_end)
  with r(2) show "unmarshalFrom msg fs dAtA i m =
      unmarshalFrom msg fs dAtA (i + length (extraBytes x)) m"
    by (subst unmarshalFrom.simps) simp
qed

lemma decodes_extras:
  "\<forall>x\<in>set xs. unknownTo fs x \<Longrightarrow> decodes fs (concat (map extraBytes xs)) m m"
  by (induction xs) (auto intro: decodes_Nil decodes_append decodes_extra)

context message_codec
begin

lemma reads_other_version:
  assumes "\<forall>x\<in>set (before @ after). unknownTo fs x"
    and "length (concat (map extraBytes before) @ enc m @ concat (map extraBytes after)) < 2 ^ 63"
  shows "unmarshal msg fs
    (concat (map extraBytes before) @ enc m @ concat (map extraBytes after)) zero = Inr m"
proof -
  from assms(1) have "\<forall>x\<in>set before. unknownTo fs x" and "\<forall>x\<in>set after. unknownTo fs x"
    by simp_all
  note extras = this [THEN decodes_extras]
  show ?thesis
    by (rule unmarshal_decodes [OF decodes_append [OF extras(1)
          decodes_append [OF reads extras(2)]] assms(2)])
qed

end

text \<open>
  C29. A log entry survives a rolling update: whatever well formed fields a newer version of
  the node adds before or after the ones this version writes (varints, fixed-width values,
  payloads and nested groups, with field numbers this version does not use), every replica
  of this version still reads the same term, sequence number and data from the entry. Without
  such fields this is the round trip of \<^verbatim>\<open>RaftProposal.Marshal\<close>, which never fails and writes
  exactly the announced number of bytes.
\<close>

theorem proposals_survive_new_fields:
  assumes "\<forall>x\<in>set (before @ after). unknownTo RaftProposal_fields x"
    and "length (concat (map extraBytes before)) + RaftProposal_Size m +
      length (concat (map extraBytes after)) < 2 ^ 63"
  shows "\<exists>bs. RaftProposal_Marshal m = Inr bs \<and> length bs = RaftProposal_Size m \<and>
    RaftProposal_Unmarshal
      (concat (map extraBytes before) @ bs @ concat (map extraBytes after)) zeroRaftProposal = Inr m"
  using RaftProposal.marshal_enc [of m] RaftProposal.reads_other_version [OF assms(1), of m]
    assms(2)
  by (simp add: RaftProposal_Marshal_def RaftProposal_Unmarshal_def RaftProposal_sizes)

theorem proposals_survive_new_fields_witness:
  "\<exists>bs. RaftProposal_Marshal \<lparr>rp_Term = 7, rp_SequenceNum = 300, rp_Data = [1, 2, 3]\<rparr> = Inr bs \<and>
     RaftProposal_Unmarshal
       (extraBytes (XGroup 9 [XBytes 1 [4, 5]]) @ bs @ extraBytes (XVarint 4 200))
       zeroRaftProposal = Inr \<lparr>rp_Term = 7, rp_SequenceNum = 300, rp_Data = [1, 2, 3]\<rparr>"
proof -
  let ?m = "\<lparr>rp_Term = 7, rp_SequenceNum = 300, rp_Data = [1, 2, 3]\<rparr> :: RaftProposal"
  let ?before = "[XGroup 9 [XBytes 1 [4, 5]]]" and ?after = "[XVarint 4 200]"
  have "\<forall>x\<in>set (?before @ ?after). unknownTo RaftProposal_fields x"
    by (simp add: unknownTo_def RaftProposal_fields_def)
  moreover have "length (concat (map extraBytes ?before)) + RaftProposal_Size ?m +
      length (concat (map extraBytes ?after)) < 2 ^ 63"
    using sovProtocol_le_10 [of "fieldTag 9 3"] sovProtocol_le_10 [of "fieldTag 1 2"]
      sovProtocol_le_10 [of 2] sovProtocol_le_10 [of "fieldTag 9 4"] sovProtocol_le_10 [of 7]
      sovProtocol_le_10 [of 300] sovProtocol_le_10 [of 3] sovProtocol_le_10 [of "fieldTag 4 0"]
      sovProtocol_le_10 [of 200]
    by (simp add: extraBytes_def length_varint RaftProposal_Size_def)
  ultimately show ?thesis
    using proposals_survive_new_fields [of ?before ?after ?m] by auto
qed

end
