(* ===== verification/ControllerTypes.thy ===== *)
theory ControllerTypes
  imports NodeConfig
begin

text \<open>
  The resources of the controller's API (\<^verbatim>\<open>controller/pkg/apis/consensus/v1beta1\<close>:
  \<^verbatim>\<open>config.go\<close>, \<^verbatim>\<open>cluster.go\<close>, \<^verbatim>\<open>group.go\<close>, \<^verbatim>\<open>member.go\<close>, \<^verbatim>\<open>store.go\<close>) and the parts of the
  Kubernetes types the controller reads or writes. State constants are the strings of the
  source, because a resource that was never written to holds the empty string. What the
  controller only passes on is an opaque type. Signed fields are integers; \<open>in_int32\<close>
  states their range where it matters.
\<close>

section \<open>Kubernetes types\<close>

typedecl SecurityContext
typedecl PersistentVolumeClaimSpec

record NamespacedName =
  nn_Namespace :: string
  nn_Name :: string

type_synonym stringMap = "string \<rightharpoonup> string"

record ObjectMeta =
  om_Name :: string
  om_Namespace :: string
  om_UID :: string
  om_Labels :: stringMap
  om_Annotations :: stringMap
  om_Finalizers :: "string list"
  om_DeletionTimestamp :: "int option"
  om_OwnerReferences :: "string list"

text \<open>An object as the controller builds it: the server fills in the other fields.\<close>

definition newMeta :: "string \<Rightarrow> string \<Rightarrow> stringMap \<Rightarrow> stringMap \<Rightarrow> ObjectMeta" where
  "newMeta namespace name labels annotations =
     \<lparr>om_Name = name, om_Namespace = namespace, om_UID = [], om_Labels = labels,
      om_Annotations = annotations, om_Finalizers = [], om_DeletionTimestamp = None,
      om_OwnerReferences = []\<rparr>"

record PersistentVolumeClaim =
  pvc_Name :: string
  pvc_Spec :: PersistentVolumeClaimSpec

record ObjectReference =
  or_APIVersion :: string
  or_Kind :: string
  or_Namespace :: string
  or_Name :: string
  or_UID :: string

record ContainerStatus =
  cs_Name :: string
  cs_RestartCount :: int

record Pod =
  pod_APIVersion :: string
  pod_Kind :: string
  pod_Meta :: ObjectMeta
  pod_IP :: string
  pod_ContainerStatuses :: "ContainerStatus list"

section \<open>Configuration (config.go)\<close>

record RaftConfigSpec =
  rcs_QuorumSize :: "int option"
  rcs_ReadReplicas :: "int option"
  rcs_HeartbeatPeriod :: "Duration option"
  rcs_ElectionTimeout :: "Duration option"
  rcs_SnapshotEntryThreshold :: "int option"
  rcs_CompactionRetainEntries :: "int option"

record OutputConfig =
  oc_Sink :: "string option"
  oc_Level :: "string option"

record LoggerConfig =
  lc_Level :: "string option"
  lc_Output :: "string \<rightharpoonup> OutputConfig"

record FileSinkConfig =
  fsc_Path :: string

record SinkConfig =
  snk_Encoding :: "string option"
  snk_Stdout :: "unit option"
  snk_Stderr :: "unit option"
  snk_File :: "FileSinkConfig option"

record LoggingConfig =
  lg_Loggers :: "string \<rightharpoonup> LoggerConfig"
  lg_Sinks :: "string \<rightharpoonup> SinkConfig"

section \<open>Clusters (cluster.go)\<close>

text \<open>A \<^verbatim>\<open>resource.Quantity\<close> is represented by what its \<^verbatim>\<open>Value\<close> returns, an \<^verbatim>\<open>int64\<close>.\<close>

record MultiRaftServerConfig =
  msc_ReadBufferSize :: "int option"
  msc_WriteBufferSize :: "int option"
  msc_MaxRecvMsgSize :: "int option"
  msc_MaxSendMsgSize :: "int option"
  msc_NumStreamWorkers :: "uint32 option"
  msc_MaxConcurrentStreams :: "uint32 option"

record MultiRaftClusterConfig =
  mcc_Server :: MultiRaftServerConfig
  mcc_Raft :: RaftConfigSpec
  mcc_Logging :: LoggingConfig

record MultiRaftClusterSpec =
  mcs_Replicas :: int
  mcs_Groups :: int
  mcs_Image :: string
  mcs_ImagePullPolicy :: string
  mcs_ImagePullSecrets :: "string list"
  mcs_SecurityContext :: "SecurityContext option"
  mcs_VolumeClaimTemplate :: "PersistentVolumeClaim option"
  mcs_Config :: MultiRaftClusterConfig

record RaftPartitionStatus =
  ps_PartitionID :: int
  ps_Leader :: "string option"
  ps_Followers :: "string list"

text \<open>
  A nil slice is not the same as an empty one where the code compares with \<^verbatim>\<open>nil\<close>, so the
  partitions of a cluster's status are optional.
\<close>

record MultiRaftClusterStatus =
  mst_State :: string
  mst_Partitions :: "RaftPartitionStatus list option"

record MultiRaftCluster =
  mrc_Meta :: ObjectMeta
  mrc_Spec :: MultiRaftClusterSpec
  mrc_Status :: MultiRaftClusterStatus

definition MultiRaftClusterNotReady :: string where "MultiRaftClusterNotReady = ''NotReady''"
definition MultiRaftClusterReady :: string where "MultiRaftClusterReady = ''Ready''"

section \<open>Groups (group.go)\<close>

text \<open>A \<^verbatim>\<open>LocalObjectReference\<close> is a name.\<close>

record RaftGroupStatus =
  gs_State :: string
  gs_Term :: "uint64 option"
  gs_Leader :: "string option"
  gs_Followers :: "string list"

record RaftGroup =
  rg_Meta :: ObjectMeta
  rg_Spec :: RaftConfigSpec
  rg_Status :: RaftGroupStatus

definition RaftGroupNotReady :: string where "RaftGroupNotReady = ''NotReady''"
definition RaftGroupReady :: string where "RaftGroupReady = ''Ready''"

definition zeroGroupStatus :: RaftGroupStatus where
  "zeroGroupStatus = \<lparr>gs_State = [], gs_Term = None, gs_Leader = None, gs_Followers = []\<rparr>"

section \<open>Members (member.go)\<close>

definition RaftMemberNotReady :: string where "RaftMemberNotReady = ''NotReady''"
definition RaftMemberReady :: string where "RaftMemberReady = ''Ready''"

definition RaftVotingMember :: string where "RaftVotingMember = ''Member''"
definition RaftWitness :: string where "RaftWitness = ''Witness''"
definition RaftObserver :: string where "RaftObserver = ''Observer''"

definition RaftLeader :: string where "RaftLeader = ''Leader''"
definition RaftCandidate :: string where "RaftCandidate = ''Candidate''"
definition RaftFollower :: string where "RaftFollower = ''Follower''"

record RaftMemberSpec =
  rms_Pod :: string
  rms_Type :: string

record 't RaftMemberStatus =
  ms_PodRef :: "ObjectReference option"
  ms_Version :: "int option"
  ms_State :: string
  ms_Role :: "string option"
  ms_Leader :: "string option"
  ms_Term :: "uint64 option"
  ms_LastUpdated :: "'t option"
  ms_LastSnapshotIndex :: "uint64 option"
  ms_LastSnapshotTime :: "'t option"

record 't RaftMember =
  rm_Meta :: ObjectMeta
  rm_Spec :: RaftMemberSpec
  rm_Status :: "'t RaftMemberStatus"

definition zeroMemberStatus :: "'t RaftMemberStatus" where
  "zeroMemberStatus = \<lparr>ms_PodRef = None, ms_Version = None, ms_State = [], ms_Role = None,
     ms_Leader = None, ms_Term = None, ms_LastUpdated = None, ms_LastSnapshotIndex = None,
     ms_LastSnapshotTime = None\<rparr>"

section \<open>Stores (store.go)\<close>

definition ConsensusStoreNotReady :: string where "ConsensusStoreNotReady = ''NotReady''"
definition ConsensusStoreReady :: string where "ConsensusStoreReady = ''Ready''"

record ConsensusStore =
  cst_Meta :: ObjectMeta
  cst_Spec :: MultiRaftClusterSpec
  cst_State :: string

lemmas state_strings =
  MultiRaftClusterNotReady_def MultiRaftClusterReady_def RaftGroupNotReady_def RaftGroupReady_def
  RaftMemberNotReady_def RaftMemberReady_def RaftVotingMember_def RaftWitness_def
  RaftObserver_def RaftLeader_def RaftCandidate_def RaftFollower_def
  ConsensusStoreNotReady_def ConsensusStoreReady_def

section \<open>The Kubernetes client\<close>

text \<open>
  The controller-runtime client of one kind of object \<open>'o\<close>, on a world \<open>'w\<close>; a call that
  writes returns the object as the server left it. \<^verbatim>\<open>k8serrors.IsNotFound\<close> tells one error
  from the others.
\<close>

datatype k8sError = NotFound | OtherError string

definition IsNotFound :: "k8sError \<Rightarrow> bool" where
  "IsNotFound err \<longleftrightarrow> err = NotFound"

record ('w, 'o) objectClient =
  cl_Get :: "NamespacedName \<Rightarrow> ('w, k8sError + 'o) state"
  cl_Create :: "'o \<Rightarrow> ('w, k8sError + 'o) state"
  cl_Update :: "'o \<Rightarrow> ('w, k8sError + 'o) state"
  cl_StatusUpdate :: "'o \<Rightarrow> ('w, k8sError + 'o) state"

text \<open>What a controller returns to its work queue.\<close>

record reconcileResult =
  rr_Requeue :: bool

definition noRequeue :: reconcileResult where "noRequeue = \<lparr>rr_Requeue = False\<rparr>"
definition requeue :: reconcileResult where "requeue = \<lparr>rr_Requeue = True\<rparr>"

text \<open>
  What the API server documents of one kind of object: reading returns the stored object
  and changes nothing; an update of an existing object stores it. \<open>view\<close> is the store.
\<close>

definition get_law :: "('w \<Rightarrow> NamespacedName \<rightharpoonup> 'o) \<Rightarrow> ('w, 'o) objectClient \<Rightarrow> bool" where
  "get_law view c \<longleftrightarrow> (\<forall>n w. run_state (cl_Get c n) w =
     (case view w n of Some o' \<Rightarrow> (Inr o', w) | None \<Rightarrow> (Inl NotFound, w)))"

definition status_law :: "('w \<Rightarrow> NamespacedName \<rightharpoonup> 'o) \<Rightarrow> ('o \<Rightarrow> NamespacedName) \<Rightarrow>
    ('w, 'o) objectClient \<Rightarrow> bool" where
  "status_law view key c \<longleftrightarrow> (\<forall>o' w. view w (key o') \<noteq> None \<longrightarrow>
     (\<exists>w'. run_state (cl_StatusUpdate c o') w = (Inr o', w') \<and>
        view w' = (view w)(key o' \<mapsto> o')))"

definition metaKey :: "ObjectMeta \<Rightarrow> NamespacedName" where
  "metaKey m = \<lparr>nn_Namespace = om_Namespace m, nn_Name = om_Name m\<rparr>"

lemma run_Get:
  "get_law view c \<Longrightarrow> run_state (cl_Get c n) w =
     (case view w n of Some o' \<Rightarrow> (Inr o', w) | None \<Rightarrow> (Inl NotFound, w))"
  by (simp add: get_law_def)

lemma run_StatusUpdate:
  assumes "status_law view key c" and "view w (key o') \<noteq> None"
  obtains w' where "run_state (cl_StatusUpdate c o') w = (Inr o', w')"
    and "view w' = (view w)(key o' \<mapsto> o')"
  using assms unfolding status_law_def by blast

end
