(* ===== verification/ClusterNaming.thy ===== *)
theory ClusterNaming
  imports ControllerTypes
begin

text \<open>
  Sizes, names, placement and labels of a cluster's resources
  (\<^verbatim>\<open>controller/pkg/controller/consensus/v1beta1/cluster.go\<close>, lines 41-70 and 853-995). A
  group's members are numbered from one; the pod of a member is an ordinal of the stateful
  set. Go's \<^verbatim>\<open>int\<close> wraps and its remainder rounds towards zero.
\<close>

section \<open>Constants\<close>

definition apiPort :: int where "apiPort = 5678"
definition protocolPort :: int where "protocolPort = 5679"
definition probePort :: int where "probePort = 5679"
definition defaultImage :: string where "defaultImage = ''atomix/consensus-node:latest''"
definition headlessServiceSuffix :: string where "headlessServiceSuffix = ''hs''"
definition nodeContainerName :: string where "nodeContainerName = ''atomix-consensus-node''"
definition multiRaftPodFinalizer :: string where "multiRaftPodFinalizer = ''multiraft.atomix.io/pod''"
definition storeKey :: string where "storeKey = ''atomix.io/store''"
definition multiRaftStoreKey :: string where "multiRaftStoreKey = ''multiraft.atomix.io/store''"
definition multiRaftClusterKey :: string where "multiRaftClusterKey = ''multiraft.atomix.io/cluster''"
definition raftGroupKey :: string where "raftGroupKey = ''multiraft.atomix.io/group''"
definition raftPartitionKey :: string where "raftPartitionKey = ''multiraft.atomix.io/partition''"
definition raftMemberKey :: string where "raftMemberKey = ''multiraft.atomix.io/member''"

lemmas label_keys = storeKey_def multiRaftStoreKey_def multiRaftClusterKey_def raftGroupKey_def
  raftPartitionKey_def raftMemberKey_def

section \<open>Sizes\<close>

definition getNumGroups :: "MultiRaftCluster \<Rightarrow> int" where
  "getNumGroups cluster =
     (if mcs_Groups (mrc_Spec cluster) = 0 then 1 else mcs_Groups (mrc_Spec cluster))"

definition getNumReplicas :: "MultiRaftCluster \<Rightarrow> int" where
  "getNumReplicas cluster =
     (if mcs_Replicas (mrc_Spec cluster) = 0 then 1 else mcs_Replicas (mrc_Spec cluster))"

definition raftSpec :: "MultiRaftCluster \<Rightarrow> RaftConfigSpec" where
  "raftSpec cluster = mcc_Raft (mcs_Config (mrc_Spec cluster))"

definition getNumVotingMembers :: "MultiRaftCluster \<Rightarrow> int" where
  "getNumVotingMembers cluster =
     (case rcs_QuorumSize (raftSpec cluster) of None \<Rightarrow> getNumReplicas cluster | Some n \<Rightarrow> n)"

definition getNumNonVotingMembers :: "MultiRaftCluster \<Rightarrow> int" where
  "getNumNonVotingMembers cluster =
     (case rcs_ReadReplicas (raftSpec cluster) of None \<Rightarrow> 0 | Some n \<Rightarrow> n)"

definition getNumMembers :: "MultiRaftCluster \<Rightarrow> int" where
  "getNumMembers cluster = int64 (getNumVotingMembers cluster + getNumNonVotingMembers cluster)"

section \<open>Names\<close>

definition getResourceName :: "string \<Rightarrow> string \<Rightarrow> string" where
  "getResourceName name resource = name @ ''-'' @ resource"

definition getHeadlessServiceName :: "string \<Rightarrow> string" where
  "getHeadlessServiceName cluster = getResourceName cluster headlessServiceSuffix"

text \<open>
  The cluster domain comes from the environment, or from the canonical name the resolver
  returns for the API server's service; \<open>stripPrefix\<close> and \<open>stripSuffix\<close> are
  \<^verbatim>\<open>strings.TrimPrefix\<close> and \<^verbatim>\<open>strings.TrimSuffix\<close>.
\<close>

definition stripPrefix :: "string \<Rightarrow> string \<Rightarrow> string" where
  "stripPrefix p s = (if take (length p) s = p then drop (length p) s else s)"

definition stripSuffix :: "string \<Rightarrow> string \<Rightarrow> string" where
  "stripSuffix x s =
     (if length x \<le> length s \<and> drop (length s - length x) s = x
      then take (length s - length x) s else s)"

definition getClusterDomain :: "string \<Rightarrow> (string \<Rightarrow> string option) \<Rightarrow> string" where
  "getClusterDomain env lookupCNAME =
     (if env = ''''
      then (let apiSvc = ''kubernetes.default.svc'' in
            case lookupCNAME apiSvc of
              None \<Rightarrow> ''cluster.local''
            | Some cname \<Rightarrow> stripSuffix ''.'' (stripPrefix (apiSvc @ ''.'') cname))
      else env)"

definition getPodDNSName :: "string \<Rightarrow> string \<Rightarrow> string \<Rightarrow> string \<Rightarrow> string" where
  "getPodDNSName domain namespace cluster name =
     name @ ''.'' @ getHeadlessServiceName cluster @ ''.'' @ namespace @ ''.svc.'' @ domain"

definition podOrdinal :: "MultiRaftCluster \<Rightarrow> int \<Rightarrow> int \<Rightarrow> int" where
  "podOrdinal cluster groupID memberID =
     int64 (int64 (getNumMembers cluster * groupID) + int64 (memberID - 1))
       smod getNumReplicas cluster"

definition numberedName :: "string \<Rightarrow> int \<Rightarrow> string" where
  "numberedName name n = name @ ''-'' @ itoa n"

definition getPodName :: "MultiRaftCluster \<Rightarrow> int \<Rightarrow> int \<Rightarrow> string" where
  "getPodName cluster groupID memberID =
     numberedName (om_Name (mrc_Meta cluster)) (podOrdinal cluster groupID memberID)"

definition groupName :: "MultiRaftCluster \<Rightarrow> int \<Rightarrow> NamespacedName" where
  "groupName cluster groupID =
     \<lparr>nn_Namespace = om_Namespace (mrc_Meta cluster),
      nn_Name = numberedName (om_Name (mrc_Meta cluster)) groupID\<rparr>"

definition memberName :: "RaftGroup \<Rightarrow> int \<Rightarrow> NamespacedName" where
  "memberName grp memberID =
     \<lparr>nn_Namespace = om_Namespace (rg_Meta grp),
      nn_Name = numberedName (om_Name (rg_Meta grp)) memberID\<rparr>"

section \<open>Labels and annotations\<close>

text \<open>Copying a map entry by entry into an empty one gives the same map.\<close>

definition newClusterLabels :: "ConsensusStore \<Rightarrow> stringMap" where
  "newClusterLabels store =
     (om_Labels (cst_Meta store))
       (storeKey \<mapsto> om_Name (cst_Meta store), multiRaftStoreKey \<mapsto> om_Name (cst_Meta store))"

definition newGroupLabels :: "MultiRaftCluster \<Rightarrow> int \<Rightarrow> stringMap" where
  "newGroupLabels cluster partitionID =
     (om_Labels (mrc_Meta cluster))
       (multiRaftClusterKey \<mapsto> om_Name (mrc_Meta cluster), raftPartitionKey \<mapsto> itoa partitionID)"

definition newMemberLabels :: "RaftGroup \<Rightarrow> int \<Rightarrow> stringMap" where
  "newMemberLabels grp memberID =
     (om_Labels (rg_Meta grp))
       (raftGroupKey \<mapsto> om_Name (rg_Meta grp), raftMemberKey \<mapsto> itoa memberID)"

definition newClusterAnnotations :: "ConsensusStore \<Rightarrow> stringMap" where
  "newClusterAnnotations store =
     (om_Annotations (cst_Meta store))
       (storeKey \<mapsto> om_Name (cst_Meta store), multiRaftStoreKey \<mapsto> om_Name (cst_Meta store))"

definition newGroupAnnotations :: "MultiRaftCluster \<Rightarrow> int \<Rightarrow> stringMap" where
  "newGroupAnnotations cluster partitionID =
     (om_Labels (mrc_Meta cluster))
       (multiRaftClusterKey \<mapsto> om_Name (mrc_Meta cluster), raftPartitionKey \<mapsto> itoa partitionID)"

definition newMemberAnnotations :: "RaftGroup \<Rightarrow> int \<Rightarrow> stringMap" where
  "newMemberAnnotations grp memberID =
     (om_Labels (rg_Meta grp))
       (raftGroupKey \<mapsto> om_Name (rg_Meta grp), raftMemberKey \<mapsto> itoa memberID)"

section \<open>Images\<close>

definition getDefaultImage :: "string \<Rightarrow> string" where
  "getDefaultImage env = (if env = '''' then defaultImage else env)"

definition getImage :: "string \<Rightarrow> MultiRaftCluster \<Rightarrow> string" where
  "getImage env cluster =
     (if mcs_Image (mrc_Spec cluster) \<noteq> '''' then mcs_Image (mrc_Spec cluster)
      else getDefaultImage env)"

section \<open>Placement\<close>

lemma getNumReplicas_nonzero: "getNumReplicas cluster \<noteq> 0"
  by (simp add: getNumReplicas_def)

text \<open>
  The specs the arithmetic is exact for: \<^verbatim>\<open>int32\<close> sizes that are not negative, as the
  resource's fields are typed, and at least one member.
\<close>

definition sizes_ok :: "MultiRaftCluster \<Rightarrow> bool" where
  "sizes_ok c \<longleftrightarrow> 0 < getNumReplicas c \<and> getNumReplicas c < 2 ^ 31 \<and>
     0 \<le> getNumVotingMembers c \<and> getNumVotingMembers c < 2 ^ 31 \<and>
     0 \<le> getNumNonVotingMembers c \<and> getNumNonVotingMembers c < 2 ^ 31 \<and>
     0 < getNumGroups c \<and> getNumGroups c < 2 ^ 31"

lemma getNumMembers_exact:
  "sizes_ok c \<Longrightarrow> getNumMembers c = getNumVotingMembers c + getNumNonVotingMembers c \<and>
     0 \<le> getNumMembers c \<and> getNumMembers c < 2 ^ 32"
  by (simp add: sizes_ok_def getNumMembers_def int64_id in_int64_def)

text \<open>\<open>slot\<close> numbers all members of all groups, group by group.\<close>

definition slot :: "MultiRaftCluster \<Rightarrow> int \<Rightarrow> int \<Rightarrow> int" where
  "slot c g m = getNumMembers c * g + (m - 1)"

lemma podOrdinal_slot:
  assumes "sizes_ok c" and "1 \<le> g" "g \<le> getNumGroups c" and "1 \<le> m" "m \<le> getNumMembers c"
  shows "podOrdinal c g m = slot c g m mod getNumReplicas c" and "0 \<le> slot c g m"
proof -
  have nm: "0 \<le> getNumMembers c" "getNumMembers c < 2 ^ 32"
    using getNumMembers_exact [OF assms(1)] by simp_all
  have g: "0 \<le> g" "g < 2 ^ 31" and r: "0 < getNumReplicas c"
    using assms(1-3) by (simp_all add: sizes_ok_def)
  have "getNumMembers c * g \<le> 2 ^ 32 * 2 ^ 31"
    using nm g by (intro mult_mono) simp_all
  moreover have "getNumMembers c * g < 2 ^ 32 * 2 ^ 31" if "0 < getNumMembers c"
    using nm g that by (intro mult_strict_mono) simp_all
  moreover have "0 < getNumMembers c" using assms(4,5) by simp
  ultimately have p: "0 \<le> getNumMembers c * g" "getNumMembers c * g < 2 ^ 63"
    using nm g by simp_all
  have "getNumMembers c * g + (m - 1) < 2 ^ 63"
  proof -
    have "getNumMembers c * g \<le> (2 ^ 32 - 1) * (2 ^ 31 - 1)"
      using nm g by (intro mult_mono) simp_all
    then show ?thesis using nm assms(5) by simp
  qed
  with p nm assms(4,5) have "podOrdinal c g m = slot c g m smod getNumReplicas c"
    by (simp add: podOrdinal_def slot_def int64_id in_int64_def)
  moreover show s: "0 \<le> slot c g m" using p assms(4) by (simp add: slot_def)
  ultimately show "podOrdinal c g m = slot c g m mod getNumReplicas c"
    using r by (cases "slot c g m = 0") (simp_all add: signed_modulo_int_def signed_divide_int_def
        minus_mult_div_eq_mod mult.commute)
qed

section \<open>Names are unique\<close>

lemma numberedName_inject:
  assumes "0 \<le> i" and "0 \<le> j"
  shows "numberedName a i = numberedName b j \<longleftrightarrow> a = b \<and> i = j"
proof
  assume "numberedName a i = numberedName b j"
  then have "a @ CHR ''-'' # itoa i = b @ CHR ''-'' # itoa j" by (simp add: numberedName_def)
  from dash_suffix_inject [OF this itoa_no_dash itoa_no_dash] assms
  show "a = b \<and> i = j" by (simp add: itoa_inject)
qed simp

section \<open>How many members a pod gets\<close>

lemma int_div_less_iff:
  fixes x n r :: int
  assumes "0 < r"
  shows "x div r < n \<longleftrightarrow> x < n * r"
proof
  assume "x div r < n"
  then have "(x div r + 1) * r \<le> n * r" using assms by (intro mult_right_mono) simp_all
  moreover have "x < (x div r + 1) * r"
    using div_mult_mod_eq [of x r] pos_mod_bound [OF assms, of x] unfolding distrib_right by linarith
  ultimately show "x < n * r" by simp
next
  assume less: "x < n * r"
  show "x div r < n"
  proof (rule ccontr)
    assume "\<not> x div r < n"
    then have "n * r \<le> x div r * r" using assms by (intro mult_right_mono) simp_all
    also have "\<dots> \<le> x" using div_mult_mod_eq [of x r] pos_mod_sign [OF assms, of x] by linarith
    finally show False using less by simp
  qed
qed

lemma ceil_div_diff:
  fixes x l r :: int
  assumes "0 < r" and "0 \<le> l"
  shows "l div r \<le> (x + l) div r - x div r" and "(x + l) div r - x div r \<le> (l + r - 1) div r"
proof -
  have "x div r + l div r \<le> (x + l) div r"
    using assms(1) div_add1_eq [of x l r] by (simp add: pos_imp_zdiv_nonneg_iff)
  then show "l div r \<le> (x + l) div r - x div r" by simp
  have "(x + l) div r * r \<le> x + l" "x < x div r * r + r"
    using assms(1) by (metis mult.commute pos_mod_sign minus_mod_eq_mult_div diff_ge_0_iff_ge
        le_add_same_cancel2 mod_mult_div_eq, metis add.commute add_less_cancel_left div_mult_mod_eq pos_mod_bound)
  then have "((x + l) div r - x div r) * r \<le> l + r - 1" by (simp add: left_diff_distrib)
  then show "(x + l) div r - x div r \<le> (l + r - 1) div r"
    using assms(1) by (metis div_mult_self_is_m mult.commute zdiv_mono1 less_irrefl nonzero_mult_div_cancel_right)
qed

text \<open>The numbers of an interval that leave a given remainder.\<close>

lemma card_residue:
  fixes a l r i :: int
  assumes "0 < r" and "0 \<le> l" and "0 \<le> i" "i < r"
  shows "int (card {s \<in> {a..<a + l}. s mod r = i}) =
    (a + l - i + r - 1) div r - (a - i + r - 1) div r"
proof -
  let ?q = "\<lambda>x. (x - i + r - 1) div r"
  have key: "x \<le> r * q + i \<longleftrightarrow> ?q x \<le> q" for x q
  proof -
    have "?q x \<le> q \<longleftrightarrow> ?q x < q + 1" by simp
    also have "\<dots> \<longleftrightarrow> x - i + r - 1 < (q + 1) * r"
      by (rule int_div_less_iff [OF assms(1)])
    also have "\<dots> \<longleftrightarrow> x \<le> r * q + i"
      unfolding distrib_right mult.commute [of q r] by linarith
    finally show ?thesis by simp
  qed
  have "{s \<in> {a..<a + l}. s mod r = i} = (\<lambda>q. r * q + i) ` {?q a..<?q (a + l)}"
  proof (intro set_eqI iffI)
    fix s assume s: "s \<in> {s \<in> {a..<a + l}. s mod r = i}"
    then have "s = r * (s div r) + i" by (metis (mono_tags) div_mult_mod_eq mem_Collect_eq mult.commute)
    moreover from this s have "s div r \<in> {?q a..<?q (a + l)}"
      using key [of a "s div r"] key [of "a + l" "s div r"] by auto
    ultimately show "s \<in> (\<lambda>q. r * q + i) ` {?q a..<?q (a + l)}" by blast
  next
    fix s assume "s \<in> (\<lambda>q. r * q + i) ` {?q a..<?q (a + l)}"
    then obtain q where q: "s = r * q + i" "?q a \<le> q" "q < ?q (a + l)"
      unfolding image_iff Bex_def atLeastLessThan_iff by blast
    then have "a \<le> s" "\<not> a + l \<le> s"
      using key [of a q] key [of "a + l" q] by (simp_all add: not_le)
    moreover have "s mod r = i" using q(1) assms by simp
    ultimately show "s \<in> {s \<in> {a..<a + l}. s mod r = i}" by simp
  qed
  moreover have "inj_on (\<lambda>q. r * q + i) {?q a..<?q (a + l)}"
    using assms(1) by (simp add: inj_on_def)
  moreover have "?q a \<le> ?q (a + l)" using assms by (intro zdiv_mono1) simp_all
  ultimately show ?thesis by (simp add: card_image)
qed

definition podMembers :: "MultiRaftCluster \<Rightarrow> string \<Rightarrow> (int \<times> int) set" where
  "podMembers c pod =
     {(g, m) \<in> {1..getNumGroups c} \<times> {1..getNumMembers c}. getPodName c g m = pod}"

lemma getPodName_ordinal:
  assumes "sizes_ok c" and "g \<in> {1..getNumGroups c}" and "m \<in> {1..getNumMembers c}"
    and "0 \<le> i"
  shows "getPodName c g m = numberedName (om_Name (mrc_Meta c)) i \<longleftrightarrow>
    slot c g m mod getNumReplicas c = i"
proof -
  have "podOrdinal c g m = slot c g m mod getNumReplicas c"
    using podOrdinal_slot(1) [OF assms(1)] assms(2,3) by simp
  moreover have "0 \<le> slot c g m mod getNumReplicas c"
    using assms(1) by (simp add: sizes_ok_def)
  ultimately show ?thesis using assms(4) by (simp add: getPodName_def numberedName_inject)
qed

text \<open>The slots of all members are one interval, each taken once.\<close>

lemma slots_bij:
  assumes "0 \<le> M" and "0 \<le> G"
  shows "bij_betw (\<lambda>(g, m). M * g + (m - 1)) ({1..G} \<times> {1..M}) {M..<M + M * (G :: int)}"
proof (rule bij_betw_byWitness [where f' = "\<lambda>s. (s div M, s mod M + 1)"])
  show "\<forall>a \<in> {1..G} \<times> {1..M}. (\<lambda>s. (s div M, s mod M + 1)) ((\<lambda>(g, m). M * g + (m - 1)) a) = a"
    by (auto simp: div_add1_eq)
  show "\<forall>s \<in> {M..<M + M * G}. (\<lambda>(g, m). M * g + (m - 1)) (s div M, s mod M + 1) = s"
    by simp
  have "M * g + (m - 1) < M + M * G" if "g \<le> G" "m \<le> M" for g m
  proof -
    have "M * g \<le> M * G" using that assms by (simp add: mult_left_mono)
    then show ?thesis using that by simp
  qed
  moreover have "M \<le> M * g + (m - 1)" if "1 \<le> g" "1 \<le> m" for g m
  proof -
    have "M * 1 \<le> M * g" using that assms by (intro mult_left_mono) simp_all
    then show ?thesis using that by simp
  qed
  ultimately show "(\<lambda>(g, m). M * g + (m - 1)) ` ({1..G} \<times> {1..M}) \<subseteq> {M..<M + M * G}"
    by auto
  show "(\<lambda>s. (s div M, s mod M + 1)) ` {M..<M + M * G} \<subseteq> {1..G} \<times> {1..M}"
  proof clarify
    fix s assume s: "s \<in> {M..<M + M * G}"
    then have M: "0 < M" using assms by (cases "M = 0") auto
    have "s < (G + 1) * M" using s by (simp add: algebra_simps)
    then have "s div M < G + 1" using int_div_less_iff [OF M] by blast
    moreover have "1 \<le> s div M" using s M by (simp add: pos_imp_zdiv_pos_iff int_one_le_iff_zero_less)
    ultimately show "s div M \<in> {1..G} \<and> s mod M + 1 \<in> {1..M}"
      using pos_mod_bound [OF M, of s] pos_mod_sign [OF M, of s] by auto
  qed
qed

lemma bij_betw_restrict:
  "bij_betw f A B \<Longrightarrow> bij_betw f {x \<in> A. f x mod r = i} {y \<in> B. y mod r = (i :: int)}"
  by (fastforce simp: bij_betw_def inj_on_def)

lemma card_podMembers:
  assumes "sizes_ok c" and "0 \<le> i" "i < getNumReplicas c"
  shows "card (podMembers c (numberedName (om_Name (mrc_Meta c)) i)) =
    card {s \<in> {getNumMembers c..<getNumMembers c + getNumMembers c * getNumGroups c}.
      s mod getNumReplicas c = i}"
proof -
  let ?M = "getNumMembers c" and ?G = "getNumGroups c"
  have b: "bij_betw (\<lambda>(g, m). ?M * g + (m - 1)) ({1..?G} \<times> {1..?M}) {?M..<?M + ?M * ?G}"
    by (rule slots_bij) (use assms(1) getNumMembers_exact [OF assms(1)] in \<open>simp_all add: sizes_ok_def\<close>)
  have "podMembers c (numberedName (om_Name (mrc_Meta c)) i) =
      {x \<in> {1..?G} \<times> {1..?M}. (\<lambda>(g, m). ?M * g + (m - 1)) x mod getNumReplicas c = i}"
    using getPodName_ordinal [OF assms(1) _ _ assms(2)] by (auto simp: podMembers_def slot_def)
  moreover have "bij_betw (\<lambda>(g, m). ?M * g + (m - 1))
      {x \<in> {1..?G} \<times> {1..?M}. (\<lambda>(g, m). ?M * g + (m - 1)) x mod getNumReplicas c = i}
      {s \<in> {?M..<?M + ?M * ?G}. s mod getNumReplicas c = i}"
    by (rule bij_betw_restrict [OF b])
  ultimately show ?thesis by (simp add: bij_betw_same_card)
qed

text \<open>With enough replicas, the members of a group do not share pods.\<close>

lemma members_get_own_pods:
  assumes "sizes_ok c" and "g \<in> {1..getNumGroups c}" and le: "getNumMembers c \<le> getNumReplicas c"
    and m': "m' \<in> {1..getNumMembers c}" and m: "m \<in> {1..getNumMembers c}" and "m' \<noteq> m"
  shows "getPodName c g m' \<noteq> getPodName c g m"
proof
  let ?r = "getNumReplicas c" and ?i = "slot c g m mod getNumReplicas c"
  have r: "0 < ?r" using assms(1) by (simp add: sizes_ok_def)
  then have i: "0 \<le> ?i" by simp
  assume "getPodName c g m' = getPodName c g m"
  then have "slot c g m' mod ?r = ?i"
    using getPodName_ordinal [OF assms(1,2) m' i] getPodName_ordinal [OF assms(1,2) m i] by simp
  then have "?r dvd slot c g m' - slot c g m" by (simp add: mod_eq_dvd_iff)
  then have "?r dvd m' - m" by (simp add: slot_def)
  moreover have "\<bar>m' - m\<bar> < ?r" "m' - m \<noteq> 0" using le m' m assms(6) by auto
  ultimately show False using dvd_imp_le_int [of "m' - m" ?r] r by simp
qed

section \<open>Properties\<close>

text \<open>
  C25. Every member gets a pod that exists, and the members of a group get different pods
  as long as there are no more members than replicas: for specs with \<^verbatim>\<open>int32\<close> sizes, the pod
  of a member is one of the stateful set's, whose ordinals run from zero below the number
  of replicas.
\<close>

theorem members_spread_over_pods:
  assumes "sizes_ok c" and "g \<in> {1..getNumGroups c}" and "m \<in> {1..getNumMembers c}"
  shows "(\<exists>i. 0 \<le> i \<and> i < getNumReplicas c \<and>
      getPodName c g m = numberedName (om_Name (mrc_Meta c)) i) \<and>
    (getNumMembers c \<le> getNumReplicas c \<longrightarrow>
      (\<forall>m' \<in> {1..getNumMembers c}. m' \<noteq> m \<longrightarrow> getPodName c g m' \<noteq> getPodName c g m))"
proof -
  let ?r = "getNumReplicas c" and ?i = "slot c g m mod getNumReplicas c"
  have r: "0 < ?r" using assms(1) by (simp add: sizes_ok_def)
  have i: "0 \<le> ?i" "?i < ?r" using r by simp_all
  have here: "getPodName c g m = numberedName (om_Name (mrc_Meta c)) ?i"
    using getPodName_ordinal [OF assms i(1)] by simp
  with i members_get_own_pods [OF assms(1,2) _ _ assms(3)] show ?thesis by blast
qed

text \<open>A cluster of three replicas with two groups of two voting members and a read replica.\<close>

definition sampleCluster :: MultiRaftCluster where
  "sampleCluster = \<lparr>mrc_Meta = newMeta ''ns'' ''raft'' Map.empty Map.empty,
     mrc_Spec = \<lparr>mcs_Replicas = 3, mcs_Groups = 2, mcs_Image = [], mcs_ImagePullPolicy = [],
       mcs_ImagePullSecrets = [], mcs_SecurityContext = None, mcs_VolumeClaimTemplate = None,
       mcs_Config = \<lparr>mcc_Server = \<lparr>msc_ReadBufferSize = None, msc_WriteBufferSize = None,
           msc_MaxRecvMsgSize = None, msc_MaxSendMsgSize = None, msc_NumStreamWorkers = None,
           msc_MaxConcurrentStreams = None\<rparr>,
         mcc_Raft = \<lparr>rcs_QuorumSize = Some 2, rcs_ReadReplicas = Some 1,
           rcs_HeartbeatPeriod = None, rcs_ElectionTimeout = None,
           rcs_SnapshotEntryThreshold = None, rcs_CompactionRetainEntries = None\<rparr>,
         mcc_Logging = \<lparr>lg_Loggers = Map.empty, lg_Sinks = Map.empty\<rparr>\<rparr>\<rparr>,
     mrc_Status = \<lparr>mst_State = [], mst_Partitions = None\<rparr>\<rparr>"

lemma sampleCluster_sizes:
  "sizes_ok sampleCluster" "getNumGroups sampleCluster = 2" "getNumMembers sampleCluster = 3"
  "getNumReplicas sampleCluster = 3"
  by (simp_all add: sizes_ok_def sampleCluster_def getNumGroups_def getNumMembers_def
      getNumReplicas_def getNumVotingMembers_def getNumNonVotingMembers_def raftSpec_def int64_def)

theorem members_spread_over_pods_witness:
  "getPodName sampleCluster 2 3 \<noteq> getPodName sampleCluster 2 1"
  using members_spread_over_pods [of sampleCluster 2 1] sampleCluster_sizes by simp

text \<open>
  C24. The members of all groups are spread evenly: with \<open>n\<close> members in all, every pod gets
  between the floor and the ceiling of \<open>n\<close> divided by the number of replicas, whatever the
  sizes; so two pods never differ by more than one member.
\<close>

theorem placement_is_balanced:
  assumes "sizes_ok c" and "0 \<le> i" "i < getNumReplicas c"
  shows "getNumMembers c * getNumGroups c div getNumReplicas c
      \<le> int (card (podMembers c (numberedName (om_Name (mrc_Meta c)) i))) \<and>
    int (card (podMembers c (numberedName (om_Name (mrc_Meta c)) i)))
      \<le> (getNumMembers c * getNumGroups c + getNumReplicas c - 1) div getNumReplicas c"
proof -
  let ?r = "getNumReplicas c" and ?l = "getNumMembers c * getNumGroups c"
  have r: "0 < ?r" and l: "0 \<le> ?l"
    using assms(1) getNumMembers_exact [OF assms(1)] by (simp_all add: sizes_ok_def)
  have "int (card (podMembers c (numberedName (om_Name (mrc_Meta c)) i))) =
      (getNumMembers c + ?l - i + ?r - 1) div ?r - (getNumMembers c - i + ?r - 1) div ?r"
    using card_podMembers [OF assms] card_residue [OF r l assms(2,3)] by simp
  moreover have "getNumMembers c + ?l - i + ?r - 1 = (getNumMembers c - i + ?r - 1) + ?l" by simp
  ultimately show ?thesis using ceil_div_diff [OF r l] by metis
qed

theorem placement_is_balanced_witness:
  "card (podMembers sampleCluster (numberedName (om_Name (mrc_Meta sampleCluster)) 1)) = 2"
  using placement_is_balanced [OF sampleCluster_sizes(1), of 1] sampleCluster_sizes by simp

text \<open>
  Names identify members: the names of two members are equal only if cluster name,
  group and member number are, for all non-negative numbers and any cluster names, dashes
  included.
\<close>

theorem member_names_unique:
  assumes "nn_Name (groupName c g) = om_Name (rg_Meta grp)"
    and "nn_Name (groupName c' g') = om_Name (rg_Meta grp')"
    and "0 \<le> g" "0 \<le> g'" "0 \<le> m" "0 \<le> m'"
    and "nn_Name (memberName grp m) = nn_Name (memberName grp' m')"
  shows "om_Name (mrc_Meta c) = om_Name (mrc_Meta c') \<and> g = g' \<and> m = m'"
proof -
  have "om_Name (rg_Meta grp) = om_Name (rg_Meta grp') \<and> m = m'"
    using assms(5-7) by (simp add: memberName_def numberedName_inject)
  moreover from this have "numberedName (om_Name (mrc_Meta c)) g = numberedName (om_Name (mrc_Meta c')) g'"
    using assms(1,2) by (simp add: groupName_def)
  ultimately show ?thesis using assms(3,4) by (simp add: numberedName_inject)
qed

lemma itoa_1: "itoa 1 = ''1''"
  by code_simp

theorem member_names_unique_witness:
  "nn_Name (memberName \<lparr>rg_Meta = newMeta ''ns'' ''raft-1'' Map.empty Map.empty,
      rg_Spec = raftSpec sampleCluster, rg_Status = zeroGroupStatus\<rparr> 12) \<noteq>
   nn_Name (memberName \<lparr>rg_Meta = newMeta ''ns'' ''raft-1'' Map.empty Map.empty,
      rg_Spec = raftSpec sampleCluster, rg_Status = zeroGroupStatus\<rparr> 2)"
proof
  let ?g = "\<lparr>rg_Meta = newMeta ''ns'' ''raft-1'' Map.empty Map.empty,
      rg_Spec = raftSpec sampleCluster, rg_Status = zeroGroupStatus\<rparr>"
  have n: "nn_Name (groupName sampleCluster 1) = om_Name (rg_Meta ?g)"
    by (simp add: groupName_def numberedName_def sampleCluster_def newMeta_def itoa_1)
  assume "nn_Name (memberName ?g 12) = nn_Name (memberName ?g 2)"
  from member_names_unique [OF n n _ _ _ _ this] show False by simp
qed

text \<open>
  A group with more members than the cluster has replicas puts two of its members on
  one pod, although the node runs at most one member of a group.
\<close>

lemma oversized_group_shares_a_pod:
  assumes "sizes_ok c" and "g \<in> {1..getNumGroups c}" and "getNumReplicas c < getNumMembers c"
  shows "\<exists>m \<in> {1..getNumMembers c}. \<exists>m' \<in> {1..getNumMembers c}. m \<noteq> m' \<and>
    getPodName c g m = getPodName c g m'"
proof -
  let ?r = "getNumReplicas c"
  have r: "0 < ?r" using assms(1) by (simp add: sizes_ok_def)
  have m: "1 \<in> {1..getNumMembers c}" "1 + ?r \<in> {1..getNumMembers c}" using r assms(3) by auto
  have "slot c g (1 + ?r) mod ?r = slot c g 1 mod ?r"
    by (simp add: slot_def)
  moreover have "0 \<le> slot c g 1 mod ?r" using r by simp
  ultimately have "getPodName c g 1 = getPodName c g (1 + ?r)"
    using getPodName_ordinal [OF assms(1,2) m(1)] getPodName_ordinal [OF assms(1,2) m(2)] by metis
  with m r show ?thesis by (intro bexI [of _ 1] bexI [of _ "1 + ?r"]) simp_all
qed

definition smallCluster :: MultiRaftCluster where
  "smallCluster = sampleCluster\<lparr>mrc_Spec := (mrc_Spec sampleCluster)\<lparr>mcs_Replicas := 2\<rparr>\<rparr>"

lemma smallCluster_sizes:
  "sizes_ok smallCluster" "getNumGroups smallCluster = 2" "getNumMembers smallCluster = 3"
  "getNumReplicas smallCluster = 2"
  by (simp_all add: smallCluster_def sizes_ok_def sampleCluster_def getNumGroups_def getNumMembers_def
      getNumReplicas_def getNumVotingMembers_def getNumNonVotingMembers_def raftSpec_def int64_def)

theorem oversized_group_shares_a_pod_witness:
  "\<exists>m \<in> {1..3}. \<exists>m' \<in> {1..3}. m \<noteq> m' \<and>
     getPodName smallCluster 1 m = getPodName smallCluster 1 m'"
  using oversized_group_shares_a_pod [of smallCluster 1] smallCluster_sizes by simp

end
