(* ===== verification/ClusterReconcile.thy ===== *)
theory ClusterReconcile
  imports ClusterNaming ProtoMessages
begin

text \<open>
  The cluster controller (\<^verbatim>\<open>controller/pkg/controller/consensus/v1beta1/cluster.go\<close>, lines
  121-849): from a \<^verbatim>\<open>MultiRaftCluster\<close> it creates the configuration, the stateful set and the
  services, then the groups and members one call at a time, bootstraps the members whose
  container is new, and collects the partitions' status. The Kubernetes client, the
  serialisers, the owner references and the members' gRPC endpoint are parameters; a Go
  pointer a function fills in is a value it returns.
\<close>

section \<open>The objects it creates\<close>

record ConfigMap =
  cm_Meta :: ObjectMeta
  cm_Data :: stringMap

datatype Volume =
    ConfigMapVolume string string
  | EmptyDirVolume string

record Probe =
  prb_Port :: int
  prb_InitialDelaySeconds :: int
  prb_TimeoutSeconds :: int
  prb_FailureThreshold :: int

record Container =
  ctr_Name :: string
  ctr_Image :: string
  ctr_ImagePullPolicy :: string
  ctr_Ports :: "(string \<times> int) list"
  ctr_Command :: "string list"
  ctr_ReadinessProbe :: Probe
  ctr_LivenessProbe :: Probe
  ctr_SecurityContext :: "SecurityContext option"
  ctr_VolumeMounts :: "(string \<times> string) list"

record PodTemplate =
  pt_Labels :: stringMap
  pt_Annotations :: stringMap
  pt_Container :: Container
  pt_AntiAffinityWeight :: int
  pt_AntiAffinityLabels :: stringMap
  pt_AntiAffinityNamespaces :: "string list"
  pt_AntiAffinityTopologyKey :: string
  pt_ImagePullSecrets :: "string list"
  pt_Volumes :: "Volume list"

record StatefulSet =
  set_Meta :: ObjectMeta
  set_ServiceName :: string
  set_Replicas :: int
  set_MatchLabels :: stringMap
  set_UpdateStrategy :: string
  set_PodManagementPolicy :: string
  set_Template :: PodTemplate
  set_VolumeClaimTemplates :: "PersistentVolumeClaim list"

record Service =
  svc_Meta :: ObjectMeta
  svc_Ports :: "(string \<times> int) list"
  svc_PublishNotReadyAddresses :: bool
  svc_ClusterIP :: string
  svc_Selector :: stringMap

section \<open>The environment\<close>

text \<open>
  \<open>k_Bootstrap\<close> dials an address, makes the call and closes the connection; an error of
  either is returned alike. \<open>k_domain\<close> is what \<^verbatim>\<open>getClusterDomain\<close> returns, \<open>k_image\<close> the
  image's environment variable.
\<close>

record ('w, 't) clusterEnv =
  k_Clusters :: "('w, MultiRaftCluster) objectClient"
  k_Groups :: "('w, RaftGroup) objectClient"
  k_Members :: "('w, 't RaftMember) objectClient"
  k_Pods :: "('w, Pod) objectClient"
  k_ConfigMaps :: "('w, ConfigMap) objectClient"
  k_StatefulSets :: "('w, StatefulSet) objectClient"
  k_Services :: "('w, Service) objectClient"
  k_SetControllerReference :: "ObjectMeta \<Rightarrow> ObjectMeta \<Rightarrow> k8sError + ObjectMeta"
  k_SetOwnerReference :: "ObjectMeta \<Rightarrow> ObjectMeta \<Rightarrow> k8sError + ObjectMeta"
  k_MarshalLogging :: "LoggingConfig \<Rightarrow> k8sError + string"
  k_MarshalConfig :: "NodeConfig \<Rightarrow> k8sError + string"
  k_Bootstrap :: "string \<Rightarrow> BootstrapRequest \<Rightarrow> ('w, k8sError + unit) state"
  k_Event :: "ObjectMeta \<Rightarrow> string \<Rightarrow> string \<Rightarrow> ('w, unit) state"
  k_domain :: string
  k_image :: string

abbreviation ok :: "'a \<Rightarrow> ('w, k8sError + 'a) state" where
  "ok x \<equiv> ret (Inr x)"

abbreviation fails :: "k8sError \<Rightarrow> ('w, k8sError + 'a) state" where
  "fails err \<equiv> ret (Inl err)"

text \<open>A value or an error, as the first step of a sequence of calls.\<close>

abbreviation check :: "k8sError + 'a \<Rightarrow> ('w, k8sError + 'a) state" where
  "check r \<equiv> ret r"

text \<open>The shared shape of the resources that are created once and never updated.\<close>

definition getOrAdd :: "('w, 'o) objectClient \<Rightarrow> NamespacedName \<Rightarrow> ('w, k8sError + unit) state \<Rightarrow>
    ('w, k8sError + unit) state" where
  "getOrAdd client name add = do {
     r \<leftarrow> cl_Get client name;
     (case r of
        Inr _ \<Rightarrow> ok ()
      | Inl err \<Rightarrow> if IsNotFound err then add else fails err)
   }"

definition clusterKey :: "MultiRaftCluster \<Rightarrow> NamespacedName" where
  "clusterKey cluster = metaKey (mrc_Meta cluster)"

definition ownedMeta :: "MultiRaftCluster \<Rightarrow> string \<Rightarrow> ObjectMeta" where
  "ownedMeta cluster name =
     newMeta (om_Namespace (mrc_Meta cluster)) name
       (om_Labels (mrc_Meta cluster)) (om_Annotations (mrc_Meta cluster))"

section \<open>The configuration\<close>

definition newNodeConfig :: "MultiRaftCluster \<Rightarrow> NodeConfig" where
  "newNodeConfig cluster =
     (let server = mcc_Server (mcs_Config (mrc_Spec cluster)); raft = raftSpec cluster in
      \<lparr>nc_Server =
         \<lparr>sc_ReadBufferSize = msc_ReadBufferSize server,
          sc_WriteBufferSize = msc_WriteBufferSize server,
          sc_MaxRecvMsgSize = map_option int64 (msc_MaxRecvMsgSize server),
          sc_MaxSendMsgSize = map_option int64 (msc_MaxSendMsgSize server),
          sc_NumStreamWorkers = msc_NumStreamWorkers server,
          sc_MaxConcurrentStreams = msc_MaxConcurrentStreams server\<rparr>,
       nc_Raft =
         \<lparr>nrc_HeartbeatPeriod = rcs_HeartbeatPeriod raft,
          nrc_ElectionTimeout = rcs_ElectionTimeout raft,
          nrc_SnapshotEntryThreshold = map_option word_of_int (rcs_SnapshotEntryThreshold raft),
          nrc_CompactionRetainEntries = map_option word_of_int (rcs_CompactionRetainEntries raft),
          nrc_DataDir = None\<rparr>\<rparr>)"

definition raftConfigFile :: string where "raftConfigFile = ''raft.yaml''"
definition loggingConfigFile :: string where "loggingConfigFile = ''logging.yaml''"
definition configPath :: string where "configPath = ''/etc/atomix''"
definition dataPath :: string where "dataPath = ''/var/lib/atomix''"
definition configVolume :: string where "configVolume = ''config''"
definition dataVolume :: string where "dataVolume = ''data''"

definition addConfigMap :: "('w, 't) clusterEnv \<Rightarrow> MultiRaftCluster \<Rightarrow> ('w, k8sError + unit) state" where
  "addConfigMap env cluster =
     bindE (check (k_MarshalLogging env (mcc_Logging (mcs_Config (mrc_Spec cluster))))) (\<lambda>logging.
     bindE (check (k_MarshalConfig env (newNodeConfig cluster))) (\<lambda>raft.
     bindE (check (k_SetControllerReference env (mrc_Meta cluster)
              (ownedMeta cluster (om_Name (mrc_Meta cluster))))) (\<lambda>meta.
     bindE (cl_Create (k_ConfigMaps env)
              \<lparr>cm_Meta = meta, cm_Data = [raftConfigFile \<mapsto> raft, loggingConfigFile \<mapsto> logging]\<rparr>) (\<lambda>_.
     ok ()))))"

definition reconcileConfigMap :: "('w, 't) clusterEnv \<Rightarrow> MultiRaftCluster \<Rightarrow> ('w, k8sError + unit) state" where
  "reconcileConfigMap env cluster =
     getOrAdd (k_ConfigMaps env) (clusterKey cluster) (addConfigMap env cluster)"

section \<open>The stateful set\<close>

text \<open>
  The host a node gives to Raft: the shell puts the pod's ordinal for \<^verbatim>\<open>$ordinal\<close>, which
  is an argument here.
\<close>

definition raftHost :: "string \<Rightarrow> MultiRaftCluster \<Rightarrow> string \<Rightarrow> string" where
  "raftHost domain cluster ordinal =
     om_Name (mrc_Meta cluster) @ ''-'' @ ordinal @ ''.'' @
     getHeadlessServiceName (om_Name (mrc_Meta cluster)) @ ''.'' @
     om_Namespace (mrc_Meta cluster) @ ''.svc.'' @ domain"

definition newline :: string where "newline = [char_of (10 :: nat)]"

definition nodeCommand :: "string \<Rightarrow> MultiRaftCluster \<Rightarrow> string" where
  "nodeCommand domain cluster =
     ''set -ex'' @ newline @
     ''[[ `hostname` =~ -([0-9]+)$ ]] || exit 1'' @ newline @
     ''ordinal=${BASH_REMATCH[1]}'' @ newline @
     ''atomix-consensus-node --config '' @ configPath @ ''/'' @ raftConfigFile @
     '' --api-port '' @ itoa apiPort @
     '' --raft-host '' @ raftHost domain cluster ''$ordinal'' @
     '' --raft-port '' @ itoa protocolPort"

text \<open>
  A claim template without a name is given one in the cluster object itself, which the
  template of the set then copies; the cluster as changed is the second result.
\<close>

definition dataClaim :: "MultiRaftCluster \<Rightarrow>
    string \<times> PersistentVolumeClaim list \<times> Volume list \<times> MultiRaftCluster" where
  "dataClaim cluster =
     (case mcs_VolumeClaimTemplate (mrc_Spec cluster) of
        None \<Rightarrow> (dataVolume, [], [EmptyDirVolume dataVolume], cluster)
      | Some pvc \<Rightarrow>
          (if pvc_Name pvc = ''''
           then (let pvc' = pvc\<lparr>pvc_Name := dataVolume\<rparr> in
                 (dataVolume, [pvc'], [],
                  cluster\<lparr>mrc_Spec := (mrc_Spec cluster)\<lparr>mcs_VolumeClaimTemplate := Some pvc'\<rparr>\<rparr>))
           else (pvc_Name pvc, [pvc], [], cluster)))"

definition newContainer :: "('w, 't) clusterEnv \<Rightarrow> MultiRaftCluster \<Rightarrow> string \<Rightarrow> Container" where
  "newContainer env cluster dataVolumeName =
     \<lparr>ctr_Name = nodeContainerName,
      ctr_Image = getImage (k_image env) cluster,
      ctr_ImagePullPolicy = mcs_ImagePullPolicy (mrc_Spec cluster),
      ctr_Ports = [(''api'', apiPort), (''protocol'', protocolPort)],
      ctr_Command = [''bash'', ''-c'', nodeCommand (k_domain env) cluster],
      ctr_ReadinessProbe = \<lparr>prb_Port = probePort, prb_InitialDelaySeconds = 5,
        prb_TimeoutSeconds = 10, prb_FailureThreshold = 12\<rparr>,
      ctr_LivenessProbe = \<lparr>prb_Port = probePort, prb_InitialDelaySeconds = 60,
        prb_TimeoutSeconds = 10, prb_FailureThreshold = 0\<rparr>,
      ctr_SecurityContext = mcs_SecurityContext (mrc_Spec cluster),
      ctr_VolumeMounts = [(dataVolumeName, dataPath), (configVolume, configPath)]\<rparr>"

definition newStatefulSet :: "('w, 't) clusterEnv \<Rightarrow> MultiRaftCluster \<Rightarrow> StatefulSet" where
  "newStatefulSet env cluster =
     (let (dataVolumeName, claims, volumes, _) = dataClaim cluster;
          labels = om_Labels (mrc_Meta cluster)
      in \<lparr>set_Meta = ownedMeta cluster (om_Name (mrc_Meta cluster)),
          set_ServiceName = getHeadlessServiceName (om_Name (mrc_Meta cluster)),
          set_Replicas = signed_take_bit 31 (getNumReplicas cluster),
          set_MatchLabels = labels,
          set_UpdateStrategy = ''RollingUpdate'',
          set_PodManagementPolicy = ''Parallel'',
          set_Template =
            \<lparr>pt_Labels = labels,
             pt_Annotations = om_Annotations (mrc_Meta cluster),
             pt_Container = newContainer env cluster dataVolumeName,
             pt_AntiAffinityWeight = 1,
             pt_AntiAffinityLabels = labels,
             pt_AntiAffinityNamespaces = [om_Namespace (mrc_Meta cluster)],
             pt_AntiAffinityTopologyKey = ''kubernetes.io/hostname'',
             pt_ImagePullSecrets = mcs_ImagePullSecrets (mrc_Spec cluster),
             pt_Volumes = ConfigMapVolume configVolume (om_Name (mrc_Meta cluster)) # volumes\<rparr>,
          set_VolumeClaimTemplates = claims\<rparr>)"

definition addStatefulSet :: "('w, 't) clusterEnv \<Rightarrow> MultiRaftCluster \<Rightarrow> ('w, k8sError + unit) state" where
  "addStatefulSet env cluster =
     bindE (check (k_SetControllerReference env (mrc_Meta cluster)
              (set_Meta (newStatefulSet env cluster)))) (\<lambda>meta.
     bindE (cl_Create (k_StatefulSets env) (newStatefulSet env cluster\<lparr>set_Meta := meta\<rparr>)) (\<lambda>_.
     ok ()))"

definition reconcileStatefulSet :: "('w, 't) clusterEnv \<Rightarrow> MultiRaftCluster \<Rightarrow> ('w, k8sError + MultiRaftCluster) state" where
  "reconcileStatefulSet env cluster = do {
     r \<leftarrow> cl_Get (k_StatefulSets env) (clusterKey cluster);
     (case r of
        Inr _ \<Rightarrow> ok cluster
      | Inl err \<Rightarrow>
          if IsNotFound err
          then bindE (addStatefulSet env cluster) (\<lambda>_. ok (snd (snd (snd (dataClaim cluster)))))
          else fails err)
   }"

section \<open>The services\<close>

definition newService :: "MultiRaftCluster \<Rightarrow> Service" where
  "newService cluster =
     \<lparr>svc_Meta = ownedMeta cluster (om_Name (mrc_Meta cluster)),
      svc_Ports = [(''api'', apiPort), (''protocol'', protocolPort)],
      svc_PublishNotReadyAddresses = False, svc_ClusterIP = '''',
      svc_Selector = om_Labels (mrc_Meta cluster)\<rparr>"

definition newHeadlessService :: "MultiRaftCluster \<Rightarrow> Service" where
  "newHeadlessService cluster =
     \<lparr>svc_Meta = ownedMeta cluster (getHeadlessServiceName (om_Name (mrc_Meta cluster))),
      svc_Ports = [(''api'', apiPort), (''protocol'', protocolPort)],
      svc_PublishNotReadyAddresses = True, svc_ClusterIP = ''None'',
      svc_Selector = om_Labels (mrc_Meta cluster)\<rparr>"

definition createService :: "('w, 't) clusterEnv \<Rightarrow> MultiRaftCluster \<Rightarrow> Service \<Rightarrow> ('w, k8sError + unit) state" where
  "createService env cluster service =
     bindE (check (k_SetControllerReference env (mrc_Meta cluster) (svc_Meta service))) (\<lambda>meta.
     bindE (cl_Create (k_Services env) (service\<lparr>svc_Meta := meta\<rparr>)) (\<lambda>_. ok ()))"

definition addService :: "('w, 't) clusterEnv \<Rightarrow> MultiRaftCluster \<Rightarrow> ('w, k8sError + unit) state" where
  "addService env cluster = createService env cluster (newService cluster)"

definition addHeadlessService :: "('w, 't) clusterEnv \<Rightarrow> MultiRaftCluster \<Rightarrow> ('w, k8sError + unit) state" where
  "addHeadlessService env cluster = createService env cluster (newHeadlessService cluster)"

definition reconcileService :: "('w, 't) clusterEnv \<Rightarrow> MultiRaftCluster \<Rightarrow> ('w, k8sError + unit) state" where
  "reconcileService env cluster =
     getOrAdd (k_Services env) (clusterKey cluster) (addService env cluster)"

definition reconcileHeadlessService :: "('w, 't) clusterEnv \<Rightarrow> MultiRaftCluster \<Rightarrow> ('w, k8sError + unit) state" where
  "reconcileHeadlessService env cluster =
     getOrAdd (k_Services env)
       \<lparr>nn_Namespace = om_Namespace (mrc_Meta cluster),
        nn_Name = getHeadlessServiceName (om_Name (mrc_Meta cluster))\<rparr>
       (addHeadlessService env cluster)"

section \<open>Members\<close>

definition memberType :: "MultiRaftCluster \<Rightarrow> int \<Rightarrow> string" where
  "memberType cluster memberID =
     (if memberID \<le> getNumVotingMembers cluster then RaftVotingMember
      else if memberID \<le> getNumMembers cluster then RaftObserver
      else RaftWitness)"

definition newMember :: "MultiRaftCluster \<Rightarrow> RaftGroup \<Rightarrow> int \<Rightarrow> int \<Rightarrow> 't RaftMember" where
  "newMember cluster grp groupID memberID =
     \<lparr>rm_Meta = newMeta (nn_Namespace (memberName grp memberID)) (nn_Name (memberName grp memberID))
        (newMemberLabels grp memberID) (newMemberAnnotations grp memberID),
      rm_Spec = \<lparr>rms_Pod = getPodName cluster groupID memberID, rms_Type = memberType cluster memberID\<rparr>,
      rm_Status = zeroMemberStatus\<rparr>"

definition addMember :: "('w, 't) clusterEnv \<Rightarrow> MultiRaftCluster \<Rightarrow> RaftGroup \<Rightarrow> int \<Rightarrow> int \<Rightarrow>
    ('w, k8sError + 't RaftMember) state" where
  "addMember env cluster grp groupID memberID =
     (let member = newMember cluster grp groupID memberID in
      bindE (check (k_SetControllerReference env (mrc_Meta cluster) (rm_Meta member))) (\<lambda>meta.
      bindE (check (k_SetOwnerReference env (rg_Meta grp) meta)) (\<lambda>meta'.
      cl_Create (k_Members env) (member\<lparr>rm_Meta := meta'\<rparr>))))"

fun containerVersion :: "ContainerStatus list \<Rightarrow> int" where
  "containerVersion [] = 0"
| "containerVersion (c # cs) =
     (if cs_Name c = nodeContainerName then signed_take_bit 31 (cs_RestartCount c + 1)
      else containerVersion cs)"

definition memberRole :: "string \<Rightarrow> MemberRole" where
  "memberRole t =
     (if t = RaftVotingMember then MemberRole_MEMBER
      else if t = RaftObserver then MemberRole_OBSERVER
      else if t = RaftWitness then MemberRole_WITNESS
      else MemberRole_UNKNOWN)"

definition groupMemberConfigs :: "string \<Rightarrow> MultiRaftCluster \<Rightarrow> int \<Rightarrow> MemberConfig list" where
  "groupMemberConfigs domain cluster groupID =
     map (\<lambda>i. \<lparr>mc_MemberID = word_of_int (i + 1),
            mc_Host = getPodDNSName domain (om_Namespace (mrc_Meta cluster)) (om_Name (mrc_Meta cluster))
              (getPodName cluster groupID (i + 1)),
            mc_Port = word_of_int protocolPort\<rparr>)
       [0..getNumMembers cluster - 1]"

definition bootstrapRequest :: "string \<Rightarrow> MultiRaftCluster \<Rightarrow> string \<Rightarrow> int \<Rightarrow> int \<Rightarrow> BootstrapRequest" where
  "bootstrapRequest domain cluster type groupID memberID =
     \<lparr>br_Group = \<lparr>gc_GroupID = word_of_int groupID, gc_MemberID = word_of_int memberID,
        gc_Role = memberRole type, gc_Members = groupMemberConfigs domain cluster groupID\<rparr>\<rparr>"

definition updatePodRef :: "('w, 't) clusterEnv \<Rightarrow> 't RaftMember \<Rightarrow> Pod \<Rightarrow>
    ('w, k8sError + 't RaftMember) state" where
  "updatePodRef env member pod =
     cl_StatusUpdate (k_Members env)
       (member\<lparr>rm_Status := (rm_Status member)\<lparr>
          ms_PodRef := Some \<lparr>or_APIVersion = pod_APIVersion pod, or_Kind = pod_Kind pod,
            or_Namespace = om_Namespace (pod_Meta pod), or_Name = om_Name (pod_Meta pod),
            or_UID = om_UID (pod_Meta pod)\<rparr>,
          ms_Version := None\<rparr>\<rparr>)"

definition markNotReady :: "('w, 't) clusterEnv \<Rightarrow> 't RaftMember \<Rightarrow> ('w, k8sError + 't RaftMember) state" where
  "markNotReady env member =
     bindE (cl_StatusUpdate (k_Members env)
              (member\<lparr>rm_Status := (rm_Status member)\<lparr>ms_State := RaftMemberNotReady\<rparr>\<rparr>)) (\<lambda>member'. do {
       _ \<leftarrow> k_Event env (rm_Meta member') ''StateChanged''
              (''State changed to '' @ ms_State (rm_Status member'));
       ok member'
     })"

definition bootstrapMember :: "('w, 't) clusterEnv \<Rightarrow> MultiRaftCluster \<Rightarrow> 't RaftMember \<Rightarrow> Pod \<Rightarrow>
    int \<Rightarrow> int \<Rightarrow> int \<Rightarrow> ('w, k8sError + 't RaftMember) state" where
  "bootstrapMember env cluster member pod version groupID memberID =
     bindE (k_Bootstrap env (pod_IP pod @ '':'' @ itoa apiPort)
              (bootstrapRequest (k_domain env) cluster (rms_Type (rm_Spec member)) groupID memberID)) (\<lambda>_.
     cl_StatusUpdate (k_Members env)
       (member\<lparr>rm_Status := (rm_Status member)\<lparr>ms_Version := Some version\<rparr>\<rparr>))"

text \<open>
  The two guards of the reconciliation of a member: its pod was replaced, or its container
  was started more often than the recorded version says.
\<close>

definition bootstrap_due :: "'t RaftMember \<Rightarrow> Pod \<Rightarrow> bool" where
  "bootstrap_due m pod \<longleftrightarrow>
     (case ms_Version (rm_Status m) of None \<Rightarrow> True
      | Some v \<Rightarrow> v < containerVersion (pod_ContainerStatuses pod))"

definition wrong_pod :: "'t RaftMember \<Rightarrow> Pod \<Rightarrow> bool" where
  "wrong_pod m pod \<longleftrightarrow> map_option or_UID (ms_PodRef (rm_Status m)) \<noteq> Some (om_UID (pod_Meta pod))"

text \<open>The second component tells whether anything was written, which ends the reconciliation.\<close>

definition reconcileMember :: "('w, 't) clusterEnv \<Rightarrow> MultiRaftCluster \<Rightarrow> RaftGroup \<Rightarrow> int \<Rightarrow> int \<Rightarrow>
    ('w, k8sError + ('t RaftMember \<times> bool)) state" where
  "reconcileMember env cluster grp groupID memberID = do {
     r \<leftarrow> cl_Get (k_Members env) (memberName grp memberID);
     (case r of
        Inl err \<Rightarrow>
          if IsNotFound err
          then bindE (addMember env cluster grp groupID memberID) (\<lambda>member. ok (member, True))
          else fails err
      | Inr member \<Rightarrow>
          bindE (cl_Get (k_Pods env)
              \<lparr>nn_Namespace = om_Namespace (rm_Meta member), nn_Name = rms_Pod (rm_Spec member)\<rparr>) (\<lambda>pod.
          if wrong_pod member pod
          then bindE (updatePodRef env member pod) (\<lambda>member'. ok (member', True))
          else if bootstrap_due member pod
          then (if ms_State (rm_Status member) \<noteq> RaftMemberNotReady
                then bindE (markNotReady env member) (\<lambda>member'. ok (member', True))
                else bindE (bootstrapMember env cluster member pod
                              (containerVersion (pod_ContainerStatuses pod)) groupID memberID)
                       (\<lambda>member'. ok (member', True)))
          else ok (member, False)))
   }"

section \<open>Groups\<close>

text \<open>The loops return no state as soon as something was written.\<close>

fun reconcileMemberList :: "('w, 't) clusterEnv \<Rightarrow> MultiRaftCluster \<Rightarrow> RaftGroup \<Rightarrow> int \<Rightarrow> int list \<Rightarrow>
    string \<Rightarrow> ('w, k8sError + string option) state" where
  "reconcileMemberList env cluster grp groupID [] st = ok (Some st)"
| "reconcileMemberList env cluster grp groupID (memberID # ms) st =
     bindE (reconcileMember env cluster grp groupID memberID) (\<lambda>(member, updated).
       if updated then ok None
       else reconcileMemberList env cluster grp groupID ms
              (if ms_State (rm_Status member) = RaftMemberNotReady then RaftGroupNotReady else st))"

definition reconcileMembers :: "('w, 't) clusterEnv \<Rightarrow> MultiRaftCluster \<Rightarrow> RaftGroup \<Rightarrow> int \<Rightarrow>
    ('w, k8sError + bool) state" where
  "reconcileMembers env cluster grp groupID =
     bindE (reconcileMemberList env cluster grp groupID [1..getNumMembers cluster] RaftGroupReady) (\<lambda>r.
       (case r of
          None \<Rightarrow> ok True
        | Some st \<Rightarrow>
            if gs_State (rg_Status grp) \<noteq> st
            then bindE (cl_StatusUpdate (k_Groups env)
                   (grp\<lparr>rg_Status := (rg_Status grp)\<lparr>gs_State := st\<rparr>\<rparr>)) (\<lambda>_. ok True)
            else ok False))"

definition newGroup :: "MultiRaftCluster \<Rightarrow> int \<Rightarrow> RaftGroup" where
  "newGroup cluster groupID =
     \<lparr>rg_Meta = newMeta (nn_Namespace (groupName cluster groupID)) (nn_Name (groupName cluster groupID))
        (newGroupLabels cluster groupID) (newGroupAnnotations cluster groupID),
      rg_Spec = raftSpec cluster, rg_Status = zeroGroupStatus\<rparr>"

definition reconcileGroup :: "('w, 't) clusterEnv \<Rightarrow> MultiRaftCluster \<Rightarrow> int \<Rightarrow>
    ('w, k8sError + (RaftGroup \<times> bool)) state" where
  "reconcileGroup env cluster groupID = do {
     r \<leftarrow> cl_Get (k_Groups env) (groupName cluster groupID);
     (case r of
        Inl err \<Rightarrow>
          if IsNotFound err
          then bindE (check (k_SetControllerReference env (mrc_Meta cluster)
                        (rg_Meta (newGroup cluster groupID)))) (\<lambda>meta.
               bindE (cl_Create (k_Groups env) (newGroup cluster groupID\<lparr>rg_Meta := meta\<rparr>)) (\<lambda>grp.
               ok (grp, True)))
          else fails err
      | Inr grp \<Rightarrow>
          bindE (reconcileMembers env cluster grp groupID) (\<lambda>updated. ok (grp, updated)))
   }"

fun reconcileGroupList :: "('w, 't) clusterEnv \<Rightarrow> MultiRaftCluster \<Rightarrow> int list \<Rightarrow> string \<Rightarrow>
    ('w, k8sError + string option) state" where
  "reconcileGroupList env cluster [] st = ok (Some st)"
| "reconcileGroupList env cluster (groupID # gs) st =
     bindE (reconcileGroup env cluster groupID) (\<lambda>(grp, updated).
       if updated then ok None
       else reconcileGroupList env cluster gs
              (if gs_State (rg_Status grp) = RaftGroupNotReady then MultiRaftClusterNotReady else st))"

definition reconcileGroups :: "('w, 't) clusterEnv \<Rightarrow> MultiRaftCluster \<Rightarrow> ('w, k8sError + bool) state" where
  "reconcileGroups env cluster =
     bindE (reconcileGroupList env cluster [1..getNumGroups cluster] MultiRaftClusterReady) (\<lambda>r.
       (case r of
          None \<Rightarrow> ok True
        | Some st \<Rightarrow>
            if mst_State (mrc_Status cluster) \<noteq> st
            then bindE (cl_StatusUpdate (k_Clusters env)
                   (cluster\<lparr>mrc_Status := (mrc_Status cluster)\<lparr>mst_State := st\<rparr>\<rparr>)) (\<lambda>_. ok True)
            else ok False))"

section \<open>The partitions' status\<close>

definition isPartitionStatusEqual :: "RaftPartitionStatus \<Rightarrow> RaftPartitionStatus \<Rightarrow> bool" where
  "isPartitionStatusEqual p q \<longleftrightarrow>
     (if ps_PartitionID p \<noteq> ps_PartitionID q then False
      else if ps_Leader p = None \<and> ps_Leader q \<noteq> None then False
      else if ps_Leader p \<noteq> None \<and> ps_Leader q = None then False
      else if ps_Leader p \<noteq> None \<and> ps_Leader q \<noteq> None \<and> the (ps_Leader p) \<noteq> the (ps_Leader q) then False
      else if length (ps_Followers p) \<noteq> length (ps_Followers q) then False
      else list_all (\<lambda>f. f \<in> set (ps_Followers q)) (ps_Followers p))"

definition isPartitionStatusesEqual :: "RaftPartitionStatus list \<Rightarrow> RaftPartitionStatus list \<Rightarrow> bool" where
  "isPartitionStatusesEqual ps qs \<longleftrightarrow>
     (if length ps \<noteq> length qs then False
      else list_all (\<lambda>p. list_all (\<lambda>q.
             \<not> (ps_PartitionID p = ps_PartitionID q \<and> \<not> isPartitionStatusEqual p q)) qs) ps)"

definition memberAddress :: "('w, 't) clusterEnv \<Rightarrow> MultiRaftCluster \<Rightarrow> RaftGroup \<Rightarrow> string \<Rightarrow>
    ('w, k8sError + string) state" where
  "memberAddress env cluster grp name =
     bindE (cl_Get (k_Members env) \<lparr>nn_Namespace = om_Namespace (rg_Meta grp), nn_Name = name\<rparr>) (\<lambda>member.
       ok (getPodDNSName (k_domain env) (om_Namespace (mrc_Meta cluster)) (om_Name (mrc_Meta cluster))
             (rms_Pod (rm_Spec member)) @ '':'' @ itoa apiPort))"

fun memberAddresses :: "('w, 't) clusterEnv \<Rightarrow> MultiRaftCluster \<Rightarrow> RaftGroup \<Rightarrow> string list \<Rightarrow>
    ('w, k8sError + string list) state" where
  "memberAddresses env cluster grp [] = ok []"
| "memberAddresses env cluster grp (name # names) =
     bindE (memberAddress env cluster grp name) (\<lambda>a.
     bindE (memberAddresses env cluster grp names) (\<lambda>as. ok (a # as)))"

definition getPartitionStatus :: "('w, 't) clusterEnv \<Rightarrow> MultiRaftCluster \<Rightarrow> int \<Rightarrow>
    ('w, k8sError + RaftPartitionStatus) state" where
  "getPartitionStatus env cluster groupID =
     bindE (cl_Get (k_Groups env) (groupName cluster groupID)) (\<lambda>grp.
     bindE (case gs_Leader (rg_Status grp) of
              None \<Rightarrow> ok None
            | Some name \<Rightarrow> bindE (memberAddress env cluster grp name) (\<lambda>a. ok (Some a))) (\<lambda>leader.
     bindE (memberAddresses env cluster grp (gs_Followers (rg_Status grp))) (\<lambda>followers.
     ok \<lparr>ps_PartitionID = signed_take_bit 31 groupID, ps_Leader = leader, ps_Followers = followers\<rparr>)))"

fun getPartitionStatusList :: "('w, 't) clusterEnv \<Rightarrow> MultiRaftCluster \<Rightarrow> int list \<Rightarrow>
    ('w, k8sError + RaftPartitionStatus list) state" where
  "getPartitionStatusList env cluster [] = ok []"
| "getPartitionStatusList env cluster (groupID # gs) =
     bindE (getPartitionStatus env cluster groupID) (\<lambda>p.
     bindE (getPartitionStatusList env cluster gs) (\<lambda>ps. ok (p # ps)))"

definition getPartitionStatuses :: "('w, 't) clusterEnv \<Rightarrow> MultiRaftCluster \<Rightarrow>
    ('w, k8sError + RaftPartitionStatus list) state" where
  "getPartitionStatuses env cluster = getPartitionStatusList env cluster [1..getNumGroups cluster]"

text \<open>A nil slice has length zero and no elements.\<close>

definition statusPartitions :: "MultiRaftClusterStatus \<Rightarrow> RaftPartitionStatus list" where
  "statusPartitions st = (case mst_Partitions st of None \<Rightarrow> [] | Some ps \<Rightarrow> ps)"

definition reconcileStatus :: "('w, 't) clusterEnv \<Rightarrow> MultiRaftCluster \<Rightarrow> ('w, k8sError + bool) state" where
  "reconcileStatus env cluster =
     bindE (getPartitionStatuses env cluster) (\<lambda>partitions.
       if \<not> isPartitionStatusesEqual (statusPartitions (mrc_Status cluster)) partitions
       then bindE (cl_StatusUpdate (k_Clusters env)
              (cluster\<lparr>mrc_Status := (mrc_Status cluster)\<lparr>mst_Partitions := Some partitions\<rparr>\<rparr>))
              (\<lambda>_. ok True)
       else ok False)"

section \<open>The reconciliation\<close>

definition cluster_Reconcile :: "('w, 't) clusterEnv \<Rightarrow> NamespacedName \<Rightarrow>
    ('w, k8sError + reconcileResult) state" where
  "cluster_Reconcile env request = do {
     r \<leftarrow> cl_Get (k_Clusters env) request;
     (case r of
        Inl err \<Rightarrow> if IsNotFound err then ok noRequeue else fails err
      | Inr cluster \<Rightarrow>
          bindE (reconcileConfigMap env cluster) (\<lambda>_.
          bindE (reconcileStatefulSet env cluster) (\<lambda>cluster'.
          bindE (reconcileService env cluster') (\<lambda>_.
          bindE (reconcileHeadlessService env cluster') (\<lambda>_.
          bindE (reconcileGroups env cluster') (\<lambda>updated.
          if updated then ok noRequeue
          else bindE (reconcileStatus env cluster') (\<lambda>_. ok noRequeue)))))))
   }"

text \<open>Which clusters a change of a pod is reported to (the map function of the pod watch).\<close>

definition podRequests :: "ObjectMeta \<Rightarrow> NamespacedName list" where
  "podRequests m =
     (case om_Annotations m multiRaftClusterKey of
        None \<Rightarrow> []
      | Some clusterName \<Rightarrow> [\<lparr>nn_Namespace = om_Namespace m, nn_Name = clusterName\<rparr>])"

section \<open>A member settles\<close>

text \<open>
  The laws \<open>reconcileMember\<close> relies on, for the stores of members and pods: reads and
  status updates behave as documented, an update of a member leaves the pods alone, events
  are recorded elsewhere, and the bootstrap call succeeds.
\<close>

definition member_laws :: "('w, 't) clusterEnv \<Rightarrow> ('w \<Rightarrow> NamespacedName \<rightharpoonup> 't RaftMember) \<Rightarrow>
    ('w \<Rightarrow> NamespacedName \<rightharpoonup> Pod) \<Rightarrow> bool" where
  "member_laws env members pods \<longleftrightarrow>
     get_law members (k_Members env) \<and> get_law pods (k_Pods env) \<and>
     (\<forall>m w. members w (metaKey (rm_Meta m)) \<noteq> None \<longrightarrow>
        (\<exists>w'. run_state (cl_StatusUpdate (k_Members env) m) w = (Inr m, w') \<and>
           members w' = (members w)(metaKey (rm_Meta m) \<mapsto> m) \<and> pods w' = pods w)) \<and>
     (\<forall>m r x w. members (snd (run_state (k_Event env m r x) w)) = members w \<and>
        pods (snd (run_state (k_Event env m r x) w)) = pods w) \<and>
     (\<forall>a r w. \<exists>w'. run_state (k_Bootstrap env a r) w = (Inr (), w') \<and>
        members w' = members w \<and> pods w' = pods w)"

text \<open>How far a member is from settled: its pod, its state, its container.\<close>

definition member_rank :: "'t RaftMember \<Rightarrow> Pod \<Rightarrow> nat" where
  "member_rank m pod =
     (if wrong_pod m pod then 3
      else if \<not> bootstrap_due m pod then 0
      else if ms_State (rm_Status m) \<noteq> RaftMemberNotReady then 2 else 1)"

definition member_settled :: "('w \<Rightarrow> NamespacedName \<rightharpoonup> 't RaftMember) \<Rightarrow> ('w \<Rightarrow> NamespacedName \<rightharpoonup> Pod) \<Rightarrow>
    NamespacedName \<Rightarrow> Pod \<Rightarrow> nat \<Rightarrow> 'w \<Rightarrow> bool" where
  "member_settled members pods n pod k w \<longleftrightarrow>
     (\<exists>m. members w n = Some m \<and> metaKey (rm_Meta m) = n \<and>
        pods w \<lparr>nn_Namespace = om_Namespace (rm_Meta m), nn_Name = rms_Pod (rm_Spec m)\<rparr> = Some pod \<and>
        member_rank m pod \<le> k)"

lemma run_reconcileMember:
  assumes laws: "member_laws env members pods"
    and m: "members w (memberName grp i) = Some m"
    and pod: "pods w \<lparr>nn_Namespace = om_Namespace (rm_Meta m), nn_Name = rms_Pod (rm_Spec m)\<rparr> = Some pod"
  shows "run_state (reconcileMember env cluster grp g i) w =
    (if wrong_pod m pod
     then run_state (bindE (updatePodRef env m pod) (\<lambda>m'. ok (m', True))) w
     else if bootstrap_due m pod
     then (if ms_State (rm_Status m) \<noteq> RaftMemberNotReady
           then run_state (bindE (markNotReady env m) (\<lambda>m'. ok (m', True))) w
           else run_state (bindE (bootstrapMember env cluster m pod
                  (containerVersion (pod_ContainerStatuses pod)) g i) (\<lambda>m'. ok (m', True))) w)
     else (Inr (m, False), w))"
proof -
  have "run_state (cl_Get (k_Members env) (memberName grp i)) w = (Inr m, w)"
    using laws m by (simp add: member_laws_def run_Get [where view = members])
  moreover have "run_state (cl_Get (k_Pods env)
      \<lparr>nn_Namespace = om_Namespace (rm_Meta m), nn_Name = rms_Pod (rm_Spec m)\<rparr>) w = (Inr pod, w)"
    using laws pod by (simp add: member_laws_def run_Get [where view = pods])
  ultimately show ?thesis
    by (simp add: reconcileMember_def run_bindE)
qed

lemma run_member_update:
  assumes "member_laws env members pods" and "members w (metaKey (rm_Meta m)) \<noteq> None"
  obtains w' where "run_state (cl_StatusUpdate (k_Members env) m) w = (Inr m, w')"
    and "members w' = (members w)(metaKey (rm_Meta m) \<mapsto> m)" and "pods w' = pods w"
  using assms unfolding member_laws_def by blast

lemma reconcileMember_progress:
  assumes laws: "member_laws env members pods"
    and st: "member_settled members pods (memberName grp i) pod (Suc k) w"
  shows "member_settled members pods (memberName grp i) pod k
    (snd (run_state (reconcileMember env cluster grp g i) w))"
proof -
  obtain m where m: "members w (memberName grp i) = Some m" "metaKey (rm_Meta m) = memberName grp i"
      "pods w \<lparr>nn_Namespace = om_Namespace (rm_Meta m), nn_Name = rms_Pod (rm_Spec m)\<rparr> = Some pod"
      "member_rank m pod \<le> Suc k"
    using st by (auto simp: member_settled_def)
  note run = run_reconcileMember [OF laws m(1,3)]
  have settled: "member_settled members pods (memberName grp i) pod k w'"
    if "members w' (memberName grp i) = Some (m\<lparr>rm_Status := s\<rparr>)" "pods w' = pods w"
      "member_rank (m\<lparr>rm_Status := s\<rparr>) pod \<le> k" for w' s
    using that m by (auto simp: member_settled_def)
  have upd: "\<exists>w'. run_state (cl_StatusUpdate (k_Members env) (m\<lparr>rm_Status := s\<rparr>)) w0 =
        (Inr (m\<lparr>rm_Status := s\<rparr>), w') \<and>
      members w' (memberName grp i) = Some (m\<lparr>rm_Status := s\<rparr>) \<and> pods w' = pods w"
    if "members w0 = members w" "pods w0 = pods w" for s w0
    using run_member_update [OF laws, of w0 "m\<lparr>rm_Status := s\<rparr>"] that m(1,2)
    by (metis (no_types, lifting) RaftMember.select_convs(1) RaftMember.surjective
        RaftMember.update_convs(3) fun_upd_same option.distinct(1))
  consider (pod) "wrong_pod m pod" | (state) "\<not> wrong_pod m pod" "bootstrap_due m pod"
      "ms_State (rm_Status m) \<noteq> RaftMemberNotReady"
    | (boot) "\<not> wrong_pod m pod" "bootstrap_due m pod" "ms_State (rm_Status m) = RaftMemberNotReady"
    | (none) "\<not> wrong_pod m pod" "\<not> bootstrap_due m pod"
    by blast
  then show ?thesis
  proof cases
    case pod
    then have "3 \<le> Suc k" using m(4) by (simp add: member_rank_def)
    let ?s = "(rm_Status m)\<lparr>ms_PodRef := Some \<lparr>or_APIVersion = pod_APIVersion pod,
      or_Kind = pod_Kind pod, or_Namespace = om_Namespace (pod_Meta pod),
      or_Name = om_Name (pod_Meta pod), or_UID = om_UID (pod_Meta pod)\<rparr>, ms_Version := None\<rparr>"
    have r: "member_rank (m\<lparr>rm_Status := ?s\<rparr>) pod \<le> k"
      using \<open>3 \<le> Suc k\<close> by (simp add: member_rank_def wrong_pod_def)
    obtain w' where "run_state (cl_StatusUpdate (k_Members env) (m\<lparr>rm_Status := ?s\<rparr>)) w =
        (Inr (m\<lparr>rm_Status := ?s\<rparr>), w')" "members w' (memberName grp i) = Some (m\<lparr>rm_Status := ?s\<rparr>)"
        "pods w' = pods w"
      using upd [OF refl refl] by blast
    with pod settled [OF _ _ r] show ?thesis
      by (simp add: run run_bindE updatePodRef_def)
  next
    case state
    then have "2 \<le> Suc k" using m(4) by (simp add: member_rank_def)
    moreover have "wrong_pod (m\<lparr>rm_Status := (rm_Status m)\<lparr>ms_State := x\<rparr>\<rparr>) pod = wrong_pod m pod" for x
      by (simp add: wrong_pod_def)
    ultimately have r: "member_rank (m\<lparr>rm_Status := (rm_Status m)\<lparr>ms_State := RaftMemberNotReady\<rparr>\<rparr>) pod \<le> k"
      using state by (simp add: member_rank_def)
    obtain w' where w': "run_state (cl_StatusUpdate (k_Members env)
        (m\<lparr>rm_Status := (rm_Status m)\<lparr>ms_State := RaftMemberNotReady\<rparr>\<rparr>)) w =
        (Inr (m\<lparr>rm_Status := (rm_Status m)\<lparr>ms_State := RaftMemberNotReady\<rparr>\<rparr>), w')"
      "members w' (memberName grp i) = Some (m\<lparr>rm_Status := (rm_Status m)\<lparr>ms_State := RaftMemberNotReady\<rparr>\<rparr>)"
      "pods w' = pods w"
      using upd [OF refl refl] by blast
    have ev: "members (snd (run_state (k_Event env a b c) w')) = members w'"
      "pods (snd (run_state (k_Event env a b c) w')) = pods w'" for a b c
      using laws unfolding member_laws_def by blast+
    show ?thesis
      using state w'(1) by (simp add: run run_bindE markNotReady_def split_beta)
        (rule settled [OF _ _ r], simp_all add: ev w'(2,3))
  next
    case boot
    then have "1 \<le> Suc k" using m(4) by (simp add: member_rank_def)
    let ?s = "(rm_Status m)\<lparr>ms_Version := Some (containerVersion (pod_ContainerStatuses pod))\<rparr>"
    have r: "member_rank (m\<lparr>rm_Status := ?s\<rparr>) pod \<le> k"
      using boot by (simp add: member_rank_def bootstrap_due_def wrong_pod_def)
    obtain w1 where w1: "run_state (k_Bootstrap env (pod_IP pod @ '':'' @ itoa apiPort)
          (bootstrapRequest (k_domain env) cluster (rms_Type (rm_Spec m)) g i)) w = (Inr (), w1)"
        "members w1 = members w" "pods w1 = pods w"
      using laws unfolding member_laws_def by blast
    obtain w' where "run_state (cl_StatusUpdate (k_Members env) (m\<lparr>rm_Status := ?s\<rparr>)) w1 =
        (Inr (m\<lparr>rm_Status := ?s\<rparr>), w')" "members w' (memberName grp i) = Some (m\<lparr>rm_Status := ?s\<rparr>)"
        "pods w' = pods w"
      using upd [OF w1(2,3)] by blast
    with boot w1(1) settled [OF _ _ r] show ?thesis
      by (simp add: run run_bindE bootstrapMember_def)
  next
    case none
    then have "member_rank m pod = 0" by (simp add: member_rank_def)
    with none m show ?thesis by (auto simp: run member_settled_def)
  qed
qed

section \<open>Properties\<close>

text \<open>
  A member settles: from any state of an existing member whose pod exists, three
  reconciliations are enough to record the pod, mark the member as not ready and
  bootstrap it on its current container; from then on a reconciliation writes nothing and
  reports the member as up to date with its pod and its container.
\<close>

theorem member_settles:
  assumes laws: "member_laws env members pods"
    and "members w (memberName grp i) = Some m" and "metaKey (rm_Meta m) = memberName grp i"
    and "pods w \<lparr>nn_Namespace = om_Namespace (rm_Meta m), nn_Name = rms_Pod (rm_Spec m)\<rparr> = Some pod"
    and "3 \<le> k"
  shows "\<exists>m'. run_state (reconcileMember env cluster grp g i)
      (((\<lambda>w. snd (run_state (reconcileMember env cluster grp g i) w)) ^^ k) w) =
    (Inr (m', False), ((\<lambda>w. snd (run_state (reconcileMember env cluster grp g i) w)) ^^ k) w) \<and>
    map_option or_UID (ms_PodRef (rm_Status m')) = Some (om_UID (pod_Meta pod)) \<and>
    (\<exists>v. ms_Version (rm_Status m') = Some v \<and> containerVersion (pod_ContainerStatuses pod) \<le> v)"
proof -
  let ?step = "\<lambda>w. snd (run_state (reconcileMember env cluster grp g i) w)"
  let ?n = "memberName grp i"
  have "member_settled members pods ?n pod 3 w"
    using assms(2-4) by (auto simp: member_settled_def member_rank_def)
  then have "member_settled members pods ?n pod (3 - j) ((?step ^^ j) w)" for j
  proof (induction j)
    case (Suc j)
    then have "member_settled members pods ?n pod (Suc (3 - Suc j)) ((?step ^^ j) w)"
      by (auto simp: member_settled_def)
    from reconcileMember_progress [OF laws this] show ?case by simp
  qed simp
  from this [of k] assms(5) obtain m' where m': "members ((?step ^^ k) w) ?n = Some m'"
      "pods ((?step ^^ k) w) \<lparr>nn_Namespace = om_Namespace (rm_Meta m'), nn_Name = rms_Pod (rm_Spec m')\<rparr> = Some pod"
      "member_rank m' pod = 0"
    by (auto simp: member_settled_def)
  then have "\<not> wrong_pod m' pod" "\<not> bootstrap_due m' pod"
    by (auto simp: member_rank_def split: if_splits)
  with run_reconcileMember [OF laws m'(1,2)] show ?thesis
    by (auto simp: wrong_pod_def bootstrap_due_def not_less split: option.splits)
qed

text \<open>A world of members and pods, and a client that serves it.\<close>

type_synonym memberWorld = "(NamespacedName \<rightharpoonup> nat RaftMember) \<times> (NamespacedName \<rightharpoonup> Pod)"

definition readOnly :: "('w \<Rightarrow> NamespacedName \<rightharpoonup> 'o) \<Rightarrow> ('w, 'o) objectClient" where
  "readOnly view = \<lparr>cl_Get = (\<lambda>n. State (\<lambda>w.
       (case view w n of Some o' \<Rightarrow> (Inr o', w) | None \<Rightarrow> (Inl NotFound, w)))),
     cl_Create = (\<lambda>_. fails (OtherError '''')), cl_Update = (\<lambda>_. fails (OtherError '''')),
     cl_StatusUpdate = (\<lambda>_. fails (OtherError ''''))\<rparr>"

definition memberWorldEnv :: "(memberWorld, nat) clusterEnv" where
  "memberWorldEnv =
     \<lparr>k_Clusters = readOnly (\<lambda>_ _. None), k_Groups = readOnly (\<lambda>_ _. None),
      k_Members = (readOnly fst)\<lparr>cl_StatusUpdate := (\<lambda>m. State (\<lambda>(ms, ps).
        if ms (metaKey (rm_Meta m)) = None then (Inl NotFound, (ms, ps))
        else (Inr m, (ms(metaKey (rm_Meta m) \<mapsto> m), ps))))\<rparr>,
      k_Pods = readOnly snd, k_ConfigMaps = readOnly (\<lambda>_ _. None),
      k_StatefulSets = readOnly (\<lambda>_ _. None), k_Services = readOnly (\<lambda>_ _. None),
      k_SetControllerReference = (\<lambda>_ m. Inr m), k_SetOwnerReference = (\<lambda>_ m. Inr m),
      k_MarshalLogging = (\<lambda>_. Inr ''''), k_MarshalConfig = (\<lambda>_. Inr ''''),
      k_Bootstrap = (\<lambda>_ _. ok ()), k_Event = (\<lambda>_ _ _. ret ()),
      k_domain = ''cluster.local'', k_image = ''''\<rparr>"

lemma get_law_readOnly: "get_law view (readOnly view)"
  by (simp add: get_law_def readOnly_def)

lemma memberWorld_laws: "member_laws memberWorldEnv fst snd"
proof -
  have "get_law (fst :: memberWorld \<Rightarrow> _) (k_Members memberWorldEnv)"
    and "get_law (snd :: memberWorld \<Rightarrow> _) (k_Pods memberWorldEnv)"
    by (simp_all add: get_law_def memberWorldEnv_def readOnly_def)
  then show ?thesis by (auto simp: member_laws_def memberWorldEnv_def)
qed

definition sampleGroupObject :: RaftGroup where
  "sampleGroupObject = newGroup sampleCluster 1"

definition samplePod :: Pod where
  "samplePod = \<lparr>pod_APIVersion = ''v1'', pod_Kind = ''Pod'',
     pod_Meta = (newMeta ''ns'' ''raft-0'' Map.empty Map.empty)\<lparr>om_UID := ''u1''\<rparr>,
     pod_IP = ''10.0.0.1'', pod_ContainerStatuses = [\<lparr>cs_Name = nodeContainerName, cs_RestartCount = 2\<rparr>]\<rparr>"

definition sampleMember :: "nat RaftMember" where
  "sampleMember = newMember sampleCluster sampleGroupObject 1 1"

definition sampleWorld :: memberWorld where
  "sampleWorld = ([memberName sampleGroupObject 1 \<mapsto> sampleMember],
     [\<lparr>nn_Namespace = om_Namespace (rm_Meta sampleMember), nn_Name = rms_Pod (rm_Spec sampleMember)\<rparr>
        \<mapsto> samplePod])"

theorem member_settles_witness:
  "\<exists>m'. fst (run_state (reconcileMember memberWorldEnv sampleCluster sampleGroupObject 1 1)
      (((\<lambda>w. snd (run_state (reconcileMember memberWorldEnv sampleCluster sampleGroupObject 1 1) w)) ^^ 3)
         sampleWorld)) = Inr (m', False) \<and>
    map_option or_UID (ms_PodRef (rm_Status m')) = Some ''u1''"
proof -
  have m: "fst sampleWorld (memberName sampleGroupObject 1) = Some sampleMember"
    and pod: "snd sampleWorld \<lparr>nn_Namespace = om_Namespace (rm_Meta sampleMember),
      nn_Name = rms_Pod (rm_Spec sampleMember)\<rparr> = Some samplePod"
    and key: "metaKey (rm_Meta sampleMember) = memberName sampleGroupObject 1"
    by (simp_all add: sampleWorld_def sampleMember_def newMember_def metaKey_def newMeta_def)
  from member_settles [OF memberWorld_laws m key pod order_refl, of sampleCluster 1]
  show ?thesis by (auto simp: samplePod_def)
qed

lemma isPartitionStatusEqual_iff:
  assumes "distinct (ps_Followers p)" and "distinct (ps_Followers q)"
  shows "isPartitionStatusEqual p q \<longleftrightarrow> ps_PartitionID p = ps_PartitionID q \<and>
    ps_Leader p = ps_Leader q \<and> set (ps_Followers p) = set (ps_Followers q)"
proof -
  have "length (ps_Followers p) = length (ps_Followers q) \<and> set (ps_Followers p) \<subseteq> set (ps_Followers q) \<longleftrightarrow>
      set (ps_Followers p) = set (ps_Followers q)"
    using assms card_subset_eq [of "set (ps_Followers q)" "set (ps_Followers p)"]
    by (auto simp: distinct_card [symmetric])
  moreover have "list_all (\<lambda>f. f \<in> set (ps_Followers q)) (ps_Followers p) \<longleftrightarrow>
      set (ps_Followers p) \<subseteq> set (ps_Followers q)"
    by (auto simp: list_all_iff)
  ultimately show ?thesis
    by (cases "ps_Leader p"; cases "ps_Leader q") (auto simp: isPartitionStatusEqual_def)
qed

text \<open>
  The comparison of two partition statuses decides what it is meant to: for statuses
  of the same partitions, each listed once and each with distinct followers, as
  \<^verbatim>\<open>getPartitionStatuses\<close> builds them, it holds exactly if every partition has the same
  leader and the same set of followers.
\<close>
theorem partition_statuses_compared:
  assumes "map ps_PartitionID ps = map ps_PartitionID qs" and "distinct (map ps_PartitionID ps)"
    and "\<forall>p \<in> set ps \<union> set qs. distinct (ps_Followers p)"
  shows "isPartitionStatusesEqual ps qs \<longleftrightarrow>
    list_all2 (\<lambda>p q. ps_Leader p = ps_Leader q \<and> set (ps_Followers p) = set (ps_Followers q)) ps qs"
proof -
  have len: "length ps = length qs" using assms(1) by (metis length_map)
  have id_iff: "ps_PartitionID (ps ! i) = ps_PartitionID (qs ! j) \<longleftrightarrow> i = j"
    if "i < length ps" "j < length ps" for i j
  proof -
    have "ps_PartitionID (qs ! j) = ps_PartitionID (ps ! j)"
      using assms(1) that len by (metis nth_map)
    then show ?thesis using assms(2) that by (simp add: distinct_conv_nth) metis
  qed
  have "isPartitionStatusesEqual ps qs \<longleftrightarrow>
      (\<forall>i < length ps. \<forall>j < length ps. ps_PartitionID (ps ! i) = ps_PartitionID (qs ! j) \<longrightarrow>
         isPartitionStatusEqual (ps ! i) (qs ! j))"
    using len by (simp add: isPartitionStatusesEqual_def list_all_length)
  also have "\<dots> \<longleftrightarrow> (\<forall>i < length ps. isPartitionStatusEqual (ps ! i) (qs ! i))"
    using id_iff by blast
  also have "\<dots> \<longleftrightarrow> (\<forall>i < length ps. ps_Leader (ps ! i) = ps_Leader (qs ! i) \<and>
      set (ps_Followers (ps ! i)) = set (ps_Followers (qs ! i)))"
    using assms(3) len id_iff by (simp add: isPartitionStatusEqual_iff)
  finally show ?thesis using len by (simp add: list_all2_conv_all_nth)
qed

theorem partition_statuses_compared_witness:
  "isPartitionStatusesEqual
     [\<lparr>ps_PartitionID = 1, ps_Leader = None, ps_Followers = [''a'', ''b'']\<rparr>]
     [\<lparr>ps_PartitionID = 1, ps_Leader = None, ps_Followers = [''b'', ''a'']\<rparr>]"
  using partition_statuses_compared
    [of "[\<lparr>ps_PartitionID = 1, ps_Leader = None, ps_Followers = [''a'', ''b'']\<rparr>]"
        "[\<lparr>ps_PartitionID = 1, ps_Leader = None, ps_Followers = [''b'', ''a'']\<rparr>]"]
  by (simp add: insert_commute)

text \<open>
  No change of a pod reaches the cluster controller: the pods of the stateful set get
  the cluster's annotations, the annotations of a cluster made from a store never hold the
  key the pod watch looks for unless the store's own do, and so the watch enqueues
  nothing for them.
\<close>

lemma pod_changes_enqueue_nothing:
  assumes "om_Annotations (cst_Meta store) multiRaftClusterKey = None"
    and "om_Annotations (mrc_Meta cluster) = newClusterAnnotations store"
    and "om_Annotations pod = pt_Annotations (set_Template (newStatefulSet env cluster))"
  shows "podRequests pod = []"
proof -
  have "om_Annotations pod multiRaftClusterKey = newClusterAnnotations store multiRaftClusterKey"
    using assms(2,3) by (simp add: newStatefulSet_def split_beta Let_def)
  also have "\<dots> = None"
    using assms(1) by (simp add: newClusterAnnotations_def label_keys)
  finally show ?thesis by (simp add: podRequests_def)
qed

definition sampleStore :: ConsensusStore where
  "sampleStore = \<lparr>cst_Meta = newMeta ''ns'' ''raft'' Map.empty Map.empty,
     cst_Spec = mrc_Spec sampleCluster, cst_State = ''''\<rparr>"

theorem pod_changes_enqueue_nothing_witness:
  "podRequests (newMeta ''ns'' ''raft-0'' Map.empty (newClusterAnnotations sampleStore)) = []"
proof -
  let ?c = "sampleCluster\<lparr>mrc_Meta := newMeta ''ns'' ''raft'' Map.empty (newClusterAnnotations sampleStore)\<rparr>"
  show ?thesis
    by (rule pod_changes_enqueue_nothing [of sampleStore ?c _ memberWorldEnv])
      (simp_all add: sampleStore_def newMeta_def newStatefulSet_def split_beta Let_def)
qed

end
