(* ===== verification/EventMessages.thy ===== *)
theory EventMessages
  imports ProtoMessages
begin

text \<open>
  The event messages of \<^verbatim>\<open>protocol.pb.go\<close>, which a node streams to its watchers. The
  generated code repeats itself: messages with the same fields have the same code but for
  the message's name in error strings, so each shape is modelled once and every message
  of that shape names its own \<^verbatim>\<open>Unmarshal\<close>. The \<^verbatim>\<open>oneof\<close> of \<^verbatim>\<open>Event\<close> is a datatype
  with the constructors of the Go wrapper types.
\<close>

section \<open>MemberEvent and ConnectionInfo\<close>

record MemberEvent =
  me_GroupID :: GroupID
  me_MemberID :: MemberID

definition zeroMemberEvent :: MemberEvent where
  "zeroMemberEvent = \<lparr>me_GroupID = 0, me_MemberID = 0\<rparr>"

definition MemberEvent_Size :: "MemberEvent \<Rightarrow> nat" where
  "MemberEvent_Size m =
     (if me_GroupID m \<noteq> 0 then 1 + sovProtocol (ucast (me_GroupID m)) else 0) +
     (if me_MemberID m \<noteq> 0 then 1 + sovProtocol (ucast (me_MemberID m)) else 0)"

definition MemberEvent_MarshalToSizedBuffer :: "MemberEvent \<Rightarrow> writer" where
  "MemberEvent_MarshalToSizedBuffer m =
     wSeq (wWhen (me_MemberID m \<noteq> 0) (wSeq (wVarint (ucast (me_MemberID m))) (wByte 0x10)))
     (wWhen (me_GroupID m \<noteq> 0) (wSeq (wVarint (ucast (me_GroupID m))) (wByte 0x8)))"

definition MemberEvent_fields :: "MemberEvent fields" where
  "MemberEvent_fields n =
     (if n = 1 then Some (Varint32Field ''GroupID'' (\<lambda>v m. m\<lparr>me_GroupID := v\<rparr>))
      else if n = 2 then Some (Varint32Field ''MemberID'' (\<lambda>v m. m\<lparr>me_MemberID := v\<rparr>))
      else None)"

definition MemberEvent_Unmarshal :: "byte list \<Rightarrow> MemberEvent \<Rightarrow> wireError + MemberEvent" where
  "MemberEvent_Unmarshal dAtA m = unmarshal ''MemberEvent'' MemberEvent_fields dAtA m"

definition MemberEvent_bytes :: "MemberEvent \<Rightarrow> byte list" where
  "MemberEvent_bytes m =
     (if me_GroupID m \<noteq> 0 then 0x8 # varint (ucast (me_GroupID m)) else []) @
     (if me_MemberID m \<noteq> 0 then 0x10 # varint (ucast (me_MemberID m)) else [])"

lemma MemberEvent_field_eqs:
  "MemberEvent_fields 1 = Some (Varint32Field ''GroupID'' (\<lambda>v m. m\<lparr>me_GroupID := v\<rparr>))"
  "MemberEvent_fields 2 = Some (Varint32Field ''MemberID'' (\<lambda>v m. m\<lparr>me_MemberID := v\<rparr>))"
  by (simp_all add: MemberEvent_fields_def)

lemma MemberEvent_emits: "emits (MemberEvent_MarshalToSizedBuffer m) (MemberEvent_bytes m)"
  unfolding MemberEvent_MarshalToSizedBuffer_def
  by (rule emitsI, (rule emits_rules)+) (simp add: MemberEvent_bytes_def)

lemma MemberEvent_sizes: "MemberEvent_Size m = length (MemberEvent_bytes m)"
  by (simp add: MemberEvent_bytes_def MemberEvent_Size_def length_varint Let_def)

lemma MemberEvent_decodes: "decodes MemberEvent_fields (MemberEvent_bytes m) zeroMemberEvent m"
  unfolding MemberEvent_bytes_def
  by (rule decodesI, (rule decodes_append
        decodes_uint32_when [where fs = MemberEvent_fields, OF tags(1) MemberEvent_field_eqs(1)]
        decodes_uint32_when [where fs = MemberEvent_fields, OF tags(2) MemberEvent_field_eqs(2)]
        | simp add: zeroMemberEvent_def)+)

interpretation MemberEvent: message_codec MemberEvent_fields
  MemberEvent_Size MemberEvent_MarshalToSizedBuffer MemberEvent_bytes zeroMemberEvent
  by (unfold_locales, rule MemberEvent_emits, rule MemberEvent_sizes, rule MemberEvent_decodes)

record ConnectionInfo =
  ci_Address :: string
  ci_Snapshot :: bool

definition zeroConnectionInfo :: ConnectionInfo where
  "zeroConnectionInfo = \<lparr>ci_Address = [], ci_Snapshot = False\<rparr>"

definition ConnectionInfo_Size :: "ConnectionInfo \<Rightarrow> nat" where
  "ConnectionInfo_Size m =
     (let l = length (ci_Address m) in if 0 < l then 1 + l + sovProtocol (of_nat l) else 0) +
     (if ci_Snapshot m then 2 else 0)"

definition ConnectionInfo_MarshalToSizedBuffer :: "ConnectionInfo \<Rightarrow> writer" where
  "ConnectionInfo_MarshalToSizedBuffer m =
     wSeq (wWhen (ci_Snapshot m) (wSeq (wByte (if ci_Snapshot m then 1 else 0)) (wByte 0x10)))
     (wWhen (0 < length (ci_Address m))
      (wSeq (wCopy (stringBytes (ci_Address m))) (wSeq (wVarint (of_nat (length (ci_Address m)))) (wByte 0xa))))"

definition ConnectionInfo_fields :: "ConnectionInfo fields" where
  "ConnectionInfo_fields n =
     (if n = 1 then Some (LenField ''Address'' (\<lambda>bs m. Inr (m\<lparr>ci_Address := bytesString bs\<rparr>)))
      else if n = 2 then Some (VarintField ''Snapshot'' (\<lambda>v m. m\<lparr>ci_Snapshot := (v \<noteq> 0)\<rparr>))
      else None)"

definition ConnectionInfo_Unmarshal :: "byte list \<Rightarrow> ConnectionInfo \<Rightarrow> wireError + ConnectionInfo" where
  "ConnectionInfo_Unmarshal dAtA m = unmarshal ''ConnectionInfo'' ConnectionInfo_fields dAtA m"

definition ConnectionInfo_bytes :: "ConnectionInfo \<Rightarrow> byte list" where
  "ConnectionInfo_bytes m =
     (if 0 < length (stringBytes (ci_Address m))
      then 0xa # varint (of_nat (length (stringBytes (ci_Address m)))) @ stringBytes (ci_Address m) else []) @
     (if ci_Snapshot m then [0x10, 1] else [])"

lemma ConnectionInfo_field_eqs:
  "ConnectionInfo_fields 1 = Some (LenField ''Address'' (\<lambda>bs m. Inr (m\<lparr>ci_Address := bytesString bs\<rparr>)))"
  "ConnectionInfo_fields 2 = Some (VarintField ''Snapshot'' (\<lambda>v m. m\<lparr>ci_Snapshot := (v \<noteq> 0)\<rparr>))"
  by (simp_all add: ConnectionInfo_fields_def)

lemma ConnectionInfo_emits: "emits (ConnectionInfo_MarshalToSizedBuffer m) (ConnectionInfo_bytes m)"
  unfolding ConnectionInfo_MarshalToSizedBuffer_def length_stringBytes [symmetric]
  by (rule emitsI, (rule emits_rules)+) (simp add: ConnectionInfo_bytes_def)

lemma ConnectionInfo_sizes: "ConnectionInfo_Size m = length (ConnectionInfo_bytes m)"
  by (simp add: ConnectionInfo_bytes_def ConnectionInfo_Size_def length_varint Let_def)

lemma ConnectionInfo_decodes: "decodes ConnectionInfo_fields (ConnectionInfo_bytes m) zeroConnectionInfo m"
  unfolding ConnectionInfo_bytes_def
  by (rule decodesI, (rule decodes_append
        decodes_bytes_when [where fs = ConnectionInfo_fields, OF tags(4) ConnectionInfo_field_eqs(1) refl]
        decodes_bool_when [where fs = ConnectionInfo_fields, OF tags(2) ConnectionInfo_field_eqs(2)]
        | simp add: zeroConnectionInfo_def)+)

interpretation ConnectionInfo: message_codec ConnectionInfo_fields
  ConnectionInfo_Size ConnectionInfo_MarshalToSizedBuffer ConnectionInfo_bytes zeroConnectionInfo
  by (unfold_locales, rule ConnectionInfo_emits, rule ConnectionInfo_sizes, rule ConnectionInfo_decodes)

section \<open>Events about a member\<close>

text \<open>\<^verbatim>\<open>MemberReadyEvent\<close> and \<^verbatim>\<open>MembershipChangedEvent\<close>.\<close>

record PlainEvent =
  pe_MemberEvent :: MemberEvent

definition zeroPlainEvent :: PlainEvent where
  "zeroPlainEvent = \<lparr>pe_MemberEvent = zeroMemberEvent\<rparr>"

definition PlainEvent_Size :: "PlainEvent \<Rightarrow> nat" where
  "PlainEvent_Size m =
     (let l = MemberEvent_Size (pe_MemberEvent m) in 1 + l + sovProtocol (of_nat l))"

definition PlainEvent_MarshalToSizedBuffer :: "PlainEvent \<Rightarrow> writer" where
  "PlainEvent_MarshalToSizedBuffer m =
     wSeq (wNested (MemberEvent_MarshalToSizedBuffer (pe_MemberEvent m))) (wByte 0xa)"

definition PlainEvent_fields :: "PlainEvent fields" where
  "PlainEvent_fields n =
     (if n = 1 then Some (LenField ''MemberEvent''
        (embed ''MemberEvent'' MemberEvent_fields pe_MemberEvent (\<lambda>x m. m\<lparr>pe_MemberEvent := x\<rparr>)))
      else None)"

definition PlainEvent_Unmarshal :: "string \<Rightarrow> byte list \<Rightarrow> PlainEvent \<Rightarrow> wireError + PlainEvent" where
  "PlainEvent_Unmarshal msg dAtA m = unmarshal msg PlainEvent_fields dAtA m"

definition PlainEvent_bytes :: "PlainEvent \<Rightarrow> byte list" where
  "PlainEvent_bytes m =
     (0xa # varint (of_nat (length (MemberEvent_bytes (pe_MemberEvent m)))) @ MemberEvent_bytes (pe_MemberEvent m))"

lemma PlainEvent_field_eqs:
  "PlainEvent_fields 1 = Some (LenField ''MemberEvent''
        (embed ''MemberEvent'' MemberEvent_fields pe_MemberEvent (\<lambda>x m. m\<lparr>pe_MemberEvent := x\<rparr>)))"
  by (simp_all add: PlainEvent_fields_def)

lemma PlainEvent_emits: "emits (PlainEvent_MarshalToSizedBuffer m) (PlainEvent_bytes m)"
  unfolding PlainEvent_MarshalToSizedBuffer_def
  by (rule emitsI, (rule MemberEvent.nested_writes emits_rules)+) (simp add: PlainEvent_bytes_def)

lemma PlainEvent_sizes: "PlainEvent_Size m = length (PlainEvent_bytes m)"
  by (simp add: PlainEvent_bytes_def PlainEvent_Size_def length_varint Let_def MemberEvent_sizes)

lemma PlainEvent_decodes: "decodes PlainEvent_fields (PlainEvent_bytes m) zeroPlainEvent m"
  unfolding PlainEvent_bytes_def
  by (rule decodesI, (rule MemberEvent.nested_reads [where ofs = PlainEvent_fields and get = pe_MemberEvent, OF tags(4) PlainEvent_field_eqs(1)]
        | simp add: zeroPlainEvent_def)+)

interpretation PlainEvent: message_codec PlainEvent_fields
  PlainEvent_Size PlainEvent_MarshalToSizedBuffer PlainEvent_bytes zeroPlainEvent
  by (unfold_locales, rule PlainEvent_emits, rule PlainEvent_sizes, rule PlainEvent_decodes)

text \<open>\<^verbatim>\<open>LeaderUpdatedEvent\<close>.\<close>

record LeaderUpdatedEvent =
  lu_MemberEvent :: MemberEvent
  lu_Term :: Term
  lu_Leader :: MemberID

definition zeroLeaderUpdatedEvent :: LeaderUpdatedEvent where
  "zeroLeaderUpdatedEvent = \<lparr>lu_MemberEvent = zeroMemberEvent, lu_Term = 0, lu_Leader = 0\<rparr>"

definition LeaderUpdatedEvent_Size :: "LeaderUpdatedEvent \<Rightarrow> nat" where
  "LeaderUpdatedEvent_Size m =
     (let l = MemberEvent_Size (lu_MemberEvent m) in 1 + l + sovProtocol (of_nat l)) +
     (if lu_Term m \<noteq> 0 then 1 + sovProtocol (lu_Term m) else 0) +
     (if lu_Leader m \<noteq> 0 then 1 + sovProtocol (ucast (lu_Leader m)) else 0)"

definition LeaderUpdatedEvent_MarshalToSizedBuffer :: "LeaderUpdatedEvent \<Rightarrow> writer" where
  "LeaderUpdatedEvent_MarshalToSizedBuffer m =
     wSeq (wWhen (lu_Leader m \<noteq> 0) (wSeq (wVarint (ucast (lu_Leader m))) (wByte 0x18)))
     (wSeq (wWhen (lu_Term m \<noteq> 0) (wSeq (wVarint (lu_Term m)) (wByte 0x10)))
     (wSeq (wNested (MemberEvent_MarshalToSizedBuffer (lu_MemberEvent m))) (wByte 0xa)))"

definition LeaderUpdatedEvent_fields :: "LeaderUpdatedEvent fields" where
  "LeaderUpdatedEvent_fields n =
     (if n = 1 then Some (LenField ''MemberEvent''
        (embed ''MemberEvent'' MemberEvent_fields lu_MemberEvent (\<lambda>x m. m\<lparr>lu_MemberEvent := x\<rparr>)))
      else if n = 2 then Some (VarintField ''Term'' (\<lambda>v m. m\<lparr>lu_Term := v\<rparr>))
      else if n = 3 then Some (Varint32Field ''Leader'' (\<lambda>v m. m\<lparr>lu_Leader := v\<rparr>))
      else None)"

definition LeaderUpdatedEvent_Unmarshal :: "byte list \<Rightarrow> LeaderUpdatedEvent \<Rightarrow> wireError + LeaderUpdatedEvent" where
  "LeaderUpdatedEvent_Unmarshal dAtA m = unmarshal ''LeaderUpdatedEvent'' LeaderUpdatedEvent_fields dAtA m"

definition LeaderUpdatedEvent_bytes :: "LeaderUpdatedEvent \<Rightarrow> byte list" where
  "LeaderUpdatedEvent_bytes m =
     (0xa # varint (of_nat (length (MemberEvent_bytes (lu_MemberEvent m)))) @ MemberEvent_bytes (lu_MemberEvent m)) @
     (if lu_Term m \<noteq> 0 then 0x10 # varint (lu_Term m) else []) @
     (if lu_Leader m \<noteq> 0 then 0x18 # varint (ucast (lu_Leader m)) else [])"

lemma LeaderUpdatedEvent_field_eqs:
  "LeaderUpdatedEvent_fields 1 = Some (LenField ''MemberEvent''
        (embed ''MemberEvent'' MemberEvent_fields lu_MemberEvent (\<lambda>x m. m\<lparr>lu_MemberEvent := x\<rparr>)))"
  "LeaderUpdatedEvent_fields 2 = Some (VarintField ''Term'' (\<lambda>v m. m\<lparr>lu_Term := v\<rparr>))"
  "LeaderUpdatedEvent_fields 3 = Some (Varint32Field ''Leader'' (\<lambda>v m. m\<lparr>lu_Leader := v\<rparr>))"
  by (simp_all add: LeaderUpdatedEvent_fields_def)

lemma LeaderUpdatedEvent_emits: "emits (LeaderUpdatedEvent_MarshalToSizedBuffer m) (LeaderUpdatedEvent_bytes m)"
  unfolding LeaderUpdatedEvent_MarshalToSizedBuffer_def
  by (rule emitsI, (rule MemberEvent.nested_writes emits_rules)+) (simp add: LeaderUpdatedEvent_bytes_def)

lemma LeaderUpdatedEvent_sizes: "LeaderUpdatedEvent_Size m = length (LeaderUpdatedEvent_bytes m)"
  by (simp add: LeaderUpdatedEvent_bytes_def LeaderUpdatedEvent_Size_def length_varint Let_def MemberEvent_sizes)

lemma LeaderUpdatedEvent_decodes: "decodes LeaderUpdatedEvent_fields (LeaderUpdatedEvent_bytes m) zeroLeaderUpdatedEvent m"
  unfolding LeaderUpdatedEvent_bytes_def
  by (rule decodesI, (rule decodes_append
        MemberEvent.nested_reads [where ofs = LeaderUpdatedEvent_fields and get = lu_MemberEvent, OF tags(4) LeaderUpdatedEvent_field_eqs(1)]
        decodes_uint_when [where fs = LeaderUpdatedEvent_fields, OF tags(2) LeaderUpdatedEvent_field_eqs(2)]
        decodes_uint32_when [where fs = LeaderUpdatedEvent_fields, OF tags(3) LeaderUpdatedEvent_field_eqs(3)]
        | simp add: zeroLeaderUpdatedEvent_def)+)

interpretation LeaderUpdatedEvent: message_codec LeaderUpdatedEvent_fields
  LeaderUpdatedEvent_Size LeaderUpdatedEvent_MarshalToSizedBuffer LeaderUpdatedEvent_bytes zeroLeaderUpdatedEvent
  by (unfold_locales, rule LeaderUpdatedEvent_emits, rule LeaderUpdatedEvent_sizes, rule LeaderUpdatedEvent_decodes)

text \<open>The four snapshot transfer events; the peer is \<^verbatim>\<open>To\<close> when sending, \<^verbatim>\<open>From\<close> when receiving.\<close>

record SendSnapshotEvent =
  ss_MemberEvent :: MemberEvent
  ss_Index :: Index
  ss_To :: MemberID

definition zeroSendSnapshotEvent :: SendSnapshotEvent where
  "zeroSendSnapshotEvent = \<lparr>ss_MemberEvent = zeroMemberEvent, ss_Index = 0, ss_To = 0\<rparr>"

definition SendSnapshotEvent_Size :: "SendSnapshotEvent \<Rightarrow> nat" where
  "SendSnapshotEvent_Size m =
     (let l = MemberEvent_Size (ss_MemberEvent m) in 1 + l + sovProtocol (of_nat l)) +
     (if ss_Index m \<noteq> 0 then 1 + sovProtocol (ss_Index m) else 0) +
     (if ss_To m \<noteq> 0 then 1 + sovProtocol (ucast (ss_To m)) else 0)"

definition SendSnapshotEvent_MarshalToSizedBuffer :: "SendSnapshotEvent \<Rightarrow> writer" where
  "SendSnapshotEvent_MarshalToSizedBuffer m =
     wSeq (wWhen (ss_To m \<noteq> 0) (wSeq (wVarint (ucast (ss_To m))) (wByte 0x18)))
     (wSeq (wWhen (ss_Index m \<noteq> 0) (wSeq (wVarint (ss_Index m)) (wByte 0x10)))
     (wSeq (wNested (MemberEvent_MarshalToSizedBuffer (ss_MemberEvent m))) (wByte 0xa)))"

definition SendSnapshotEvent_fields :: "SendSnapshotEvent fields" where
  "SendSnapshotEvent_fields n =
     (if n = 1 then Some (LenField ''MemberEvent''
        (embed ''MemberEvent'' MemberEvent_fields ss_MemberEvent (\<lambda>x m. m\<lparr>ss_MemberEvent := x\<rparr>)))
      else if n = 2 then Some (VarintField ''Index'' (\<lambda>v m. m\<lparr>ss_Index := v\<rparr>))
      else if n = 3 then Some (Varint32Field ''To'' (\<lambda>v m. m\<lparr>ss_To := v\<rparr>))
      else None)"

definition SendSnapshotEvent_Unmarshal :: "string \<Rightarrow> byte list \<Rightarrow> SendSnapshotEvent \<Rightarrow> wireError + SendSnapshotEvent" where
  "SendSnapshotEvent_Unmarshal msg dAtA m = unmarshal msg SendSnapshotEvent_fields dAtA m"

definition SendSnapshotEvent_bytes :: "SendSnapshotEvent \<Rightarrow> byte list" where
  "SendSnapshotEvent_bytes m =
     (0xa # varint (of_nat (length (MemberEvent_bytes (ss_MemberEvent m)))) @ MemberEvent_bytes (ss_MemberEvent m)) @
     (if ss_Index m \<noteq> 0 then 0x10 # varint (ss_Index m) else []) @
     (if ss_To m \<noteq> 0 then 0x18 # varint (ucast (ss_To m)) else [])"

lemma SendSnapshotEvent_field_eqs:
  "SendSnapshotEvent_fields 1 = Some (LenField ''MemberEvent''
        (embed ''MemberEvent'' MemberEvent_fields ss_MemberEvent (\<lambda>x m. m\<lparr>ss_MemberEvent := x\<rparr>)))"
  "SendSnapshotEvent_fields 2 = Some (VarintField ''Index'' (\<lambda>v m. m\<lparr>ss_Index := v\<rparr>))"
  "SendSnapshotEvent_fields 3 = Some (Varint32Field ''To'' (\<lambda>v m. m\<lparr>ss_To := v\<rparr>))"
  by (simp_all add: SendSnapshotEvent_fields_def)

lemma SendSnapshotEvent_emits: "emits (SendSnapshotEvent_MarshalToSizedBuffer m) (SendSnapshotEvent_bytes m)"
  unfolding SendSnapshotEvent_MarshalToSizedBuffer_def
  by (rule emitsI, (rule MemberEvent.nested_writes emits_rules)+) (simp add: SendSnapshotEvent_bytes_def)

lemma SendSnapshotEvent_sizes: "SendSnapshotEvent_Size m = length (SendSnapshotEvent_bytes m)"
  by (simp add: SendSnapshotEvent_bytes_def SendSnapshotEvent_Size_def length_varint Let_def MemberEvent_sizes)

lemma SendSnapshotEvent_decodes: "decodes SendSnapshotEvent_fields (SendSnapshotEvent_bytes m) zeroSendSnapshotEvent m"
  unfolding SendSnapshotEvent_bytes_def
  by (rule decodesI, (rule decodes_append
        MemberEvent.nested_reads [where ofs = SendSnapshotEvent_fields and get = ss_MemberEvent, OF tags(4) SendSnapshotEvent_field_eqs(1)]
        decodes_uint_when [where fs = SendSnapshotEvent_fields, OF tags(2) SendSnapshotEvent_field_eqs(2)]
        decodes_uint32_when [where fs = SendSnapshotEvent_fields, OF tags(3) SendSnapshotEvent_field_eqs(3)]
        | simp add: zeroSendSnapshotEvent_def)+)

interpretation SendSnapshotEvent: message_codec SendSnapshotEvent_fields
  SendSnapshotEvent_Size SendSnapshotEvent_MarshalToSizedBuffer SendSnapshotEvent_bytes zeroSendSnapshotEvent
  by (unfold_locales, rule SendSnapshotEvent_emits, rule SendSnapshotEvent_sizes, rule SendSnapshotEvent_decodes)

record SnapshotReceivedEvent =
  sr_MemberEvent :: MemberEvent
  sr_Index :: Index
  sr_From :: MemberID

definition zeroSnapshotReceivedEvent :: SnapshotReceivedEvent where
  "zeroSnapshotReceivedEvent = \<lparr>sr_MemberEvent = zeroMemberEvent, sr_Index = 0, sr_From = 0\<rparr>"

definition SnapshotReceivedEvent_Size :: "SnapshotReceivedEvent \<Rightarrow> nat" where
  "SnapshotReceivedEvent_Size m =
     (let l = MemberEvent_Size (sr_MemberEvent m) in 1 + l + sovProtocol (of_nat l)) +
     (if sr_Index m \<noteq> 0 then 1 + sovProtocol (sr_Index m) else 0) +
     (if sr_From m \<noteq> 0 then 1 + sovProtocol (ucast (sr_From m)) else 0)"

definition SnapshotReceivedEvent_MarshalToSizedBuffer :: "SnapshotReceivedEvent \<Rightarrow> writer" where
  "SnapshotReceivedEvent_MarshalToSizedBuffer m =
     wSeq (wWhen (sr_From m \<noteq> 0) (wSeq (wVarint (ucast (sr_From m))) (wByte 0x18)))
     (wSeq (wWhen (sr_Index m \<noteq> 0) (wSeq (wVarint (sr_Index m)) (wByte 0x10)))
     (wSeq (wNested (MemberEvent_MarshalToSizedBuffer (sr_MemberEvent m))) (wByte 0xa)))"

definition SnapshotReceivedEvent_fields :: "SnapshotReceivedEvent fields" where
  "SnapshotReceivedEvent_fields n =
     (if n = 1 then Some (LenField ''MemberEvent''
        (embed ''MemberEvent'' MemberEvent_fields sr_MemberEvent (\<lambda>x m. m\<lparr>sr_MemberEvent := x\<rparr>)))
      else if n = 2 then Some (VarintField ''Index'' (\<lambda>v m. m\<lparr>sr_Index := v\<rparr>))
      else if n = 3 then Some (Varint32Field ''From'' (\<lambda>v m. m\<lparr>sr_From := v\<rparr>))
      else None)"

definition SnapshotReceivedEvent_Unmarshal :: "byte list \<Rightarrow> SnapshotReceivedEvent \<Rightarrow> wireError + SnapshotReceivedEvent" where
  "SnapshotReceivedEvent_Unmarshal dAtA m = unmarshal ''SnapshotReceivedEvent'' SnapshotReceivedEvent_fields dAtA m"

definition SnapshotReceivedEvent_bytes :: "SnapshotReceivedEvent \<Rightarrow> byte list" where
  "SnapshotReceivedEvent_bytes m =
     (0xa # varint (of_nat (length (MemberEvent_bytes (sr_MemberEvent m)))) @ MemberEvent_bytes (sr_MemberEvent m)) @
     (if sr_Index m \<noteq> 0 then 0x10 # varint (sr_Index m) else []) @
     (if sr_From m \<noteq> 0 then 0x18 # varint (ucast (sr_From m)) else [])"

lemma SnapshotReceivedEvent_field_eqs:
  "SnapshotReceivedEvent_fields 1 = Some (LenField ''MemberEvent''
        (embed ''MemberEvent'' MemberEvent_fields sr_MemberEvent (\<lambda>x m. m\<lparr>sr_MemberEvent := x\<rparr>)))"
  "SnapshotReceivedEvent_fields 2 = Some (VarintField ''Index'' (\<lambda>v m. m\<lparr>sr_Index := v\<rparr>))"
  "SnapshotReceivedEvent_fields 3 = Some (Varint32Field ''From'' (\<lambda>v m. m\<lparr>sr_From := v\<rparr>))"
  by (simp_all add: SnapshotReceivedEvent_fields_def)

lemma SnapshotReceivedEvent_emits: "emits (SnapshotReceivedEvent_MarshalToSizedBuffer m) (SnapshotReceivedEvent_bytes m)"
  unfolding SnapshotReceivedEvent_MarshalToSizedBuffer_def
  by (rule emitsI, (rule MemberEvent.nested_writes emits_rules)+) (simp add: SnapshotReceivedEvent_bytes_def)

lemma SnapshotReceivedEvent_sizes: "SnapshotReceivedEvent_Size m = length (SnapshotReceivedEvent_bytes m)"
  by (simp add: SnapshotReceivedEvent_bytes_def SnapshotReceivedEvent_Size_def length_varint Let_def MemberEvent_sizes)

lemma SnapshotReceivedEvent_decodes: "decodes SnapshotReceivedEvent_fields (SnapshotReceivedEvent_bytes m) zeroSnapshotReceivedEvent m"
  unfolding SnapshotReceivedEvent_bytes_def
  by (rule decodesI, (rule decodes_append
        MemberEvent.nested_reads [where ofs = SnapshotReceivedEvent_fields and get = sr_MemberEvent, OF tags(4) SnapshotReceivedEvent_field_eqs(1)]
        decodes_uint_when [where fs = SnapshotReceivedEvent_fields, OF tags(2) SnapshotReceivedEvent_field_eqs(2)]
        decodes_uint32_when [where fs = SnapshotReceivedEvent_fields, OF tags(3) SnapshotReceivedEvent_field_eqs(3)]
        | simp add: zeroSnapshotReceivedEvent_def)+)

interpretation SnapshotReceivedEvent: message_codec SnapshotReceivedEvent_fields
  SnapshotReceivedEvent_Size SnapshotReceivedEvent_MarshalToSizedBuffer SnapshotReceivedEvent_bytes zeroSnapshotReceivedEvent
  by (unfold_locales, rule SnapshotReceivedEvent_emits, rule SnapshotReceivedEvent_sizes, rule SnapshotReceivedEvent_decodes)

text \<open>The six events that carry a member and a log index.\<close>

record IndexEvent =
  ie_MemberEvent :: MemberEvent
  ie_Index :: Index

definition zeroIndexEvent :: IndexEvent where
  "zeroIndexEvent = \<lparr>ie_MemberEvent = zeroMemberEvent, ie_Index = 0\<rparr>"

definition IndexEvent_Size :: "IndexEvent \<Rightarrow> nat" where
  "IndexEvent_Size m =
     (let l = MemberEvent_Size (ie_MemberEvent m) in 1 + l + sovProtocol (of_nat l)) +
     (if ie_Index m \<noteq> 0 then 1 + sovProtocol (ie_Index m) else 0)"

definition IndexEvent_MarshalToSizedBuffer :: "IndexEvent \<Rightarrow> writer" where
  "IndexEvent_MarshalToSizedBuffer m =
     wSeq (wWhen (ie_Index m \<noteq> 0) (wSeq (wVarint (ie_Index m)) (wByte 0x10)))
     (wSeq (wNested (MemberEvent_MarshalToSizedBuffer (ie_MemberEvent m))) (wByte 0xa))"

definition IndexEvent_fields :: "IndexEvent fields" where
  "IndexEvent_fields n =
     (if n = 1 then Some (LenField ''MemberEvent''
        (embed ''MemberEvent'' MemberEvent_fields ie_MemberEvent (\<lambda>x m. m\<lparr>ie_MemberEvent := x\<rparr>)))
      else if n = 2 then Some (VarintField ''Index'' (\<lambda>v m. m\<lparr>ie_Index := v\<rparr>))
      else None)"

definition IndexEvent_Unmarshal :: "string \<Rightarrow> byte list \<Rightarrow> IndexEvent \<Rightarrow> wireError + IndexEvent" where
  "IndexEvent_Unmarshal msg dAtA m = unmarshal msg IndexEvent_fields dAtA m"

definition IndexEvent_bytes :: "IndexEvent \<Rightarrow> byte list" where
  "IndexEvent_bytes m =
     (0xa # varint (of_nat (length (MemberEvent_bytes (ie_MemberEvent m)))) @ MemberEvent_bytes (ie_MemberEvent m)) @
     (if ie_Index m \<noteq> 0 then 0x10 # varint (ie_Index m) else [])"

lemma IndexEvent_field_eqs:
  "IndexEvent_fields 1 = Some (LenField ''MemberEvent''
        (embed ''MemberEvent'' MemberEvent_fields ie_MemberEvent (\<lambda>x m. m\<lparr>ie_MemberEvent := x\<rparr>)))"
  "IndexEvent_fields 2 = Some (VarintField ''Index'' (\<lambda>v m. m\<lparr>ie_Index := v\<rparr>))"
  by (simp_all add: IndexEvent_fields_def)

lemma IndexEvent_emits: "emits (IndexEvent_MarshalToSizedBuffer m) (IndexEvent_bytes m)"
  unfolding IndexEvent_MarshalToSizedBuffer_def
  by (rule emitsI, (rule MemberEvent.nested_writes emits_rules)+) (simp add: IndexEvent_bytes_def)

lemma IndexEvent_sizes: "IndexEvent_Size m = length (IndexEvent_bytes m)"
  by (simp add: IndexEvent_bytes_def IndexEvent_Size_def length_varint Let_def MemberEvent_sizes)

lemma IndexEvent_decodes: "decodes IndexEvent_fields (IndexEvent_bytes m) zeroIndexEvent m"
  unfolding IndexEvent_bytes_def
  by (rule decodesI, (rule decodes_append
        MemberEvent.nested_reads [where ofs = IndexEvent_fields and get = ie_MemberEvent, OF tags(4) IndexEvent_field_eqs(1)]
        decodes_uint_when [where fs = IndexEvent_fields, OF tags(2) IndexEvent_field_eqs(2)]
        | simp add: zeroIndexEvent_def)+)

interpretation IndexEvent: message_codec IndexEvent_fields
  IndexEvent_Size IndexEvent_MarshalToSizedBuffer IndexEvent_bytes zeroIndexEvent
  by (unfold_locales, rule IndexEvent_emits, rule IndexEvent_sizes, rule IndexEvent_decodes)

section \<open>Events about a connection\<close>

record ConnectionEvent =
  ce_ConnectionInfo :: ConnectionInfo

definition zeroConnectionEvent :: ConnectionEvent where
  "zeroConnectionEvent = \<lparr>ce_ConnectionInfo = zeroConnectionInfo\<rparr>"

definition ConnectionEvent_Size :: "ConnectionEvent \<Rightarrow> nat" where
  "ConnectionEvent_Size m =
     (let l = ConnectionInfo_Size (ce_ConnectionInfo m) in 1 + l + sovProtocol (of_nat l))"

definition ConnectionEvent_MarshalToSizedBuffer :: "ConnectionEvent \<Rightarrow> writer" where
  "ConnectionEvent_MarshalToSizedBuffer m =
     wSeq (wNested (ConnectionInfo_MarshalToSizedBuffer (ce_ConnectionInfo m))) (wByte 0xa)"

definition ConnectionEvent_fields :: "ConnectionEvent fields" where
  "ConnectionEvent_fields n =
     (if n = 1 then Some (LenField ''ConnectionInfo''
        (embed ''ConnectionInfo'' ConnectionInfo_fields ce_ConnectionInfo (\<lambda>x m. m\<lparr>ce_ConnectionInfo := x\<rparr>)))
      else None)"

definition ConnectionEvent_Unmarshal :: "string \<Rightarrow> byte list \<Rightarrow> ConnectionEvent \<Rightarrow> wireError + ConnectionEvent" where
  "ConnectionEvent_Unmarshal msg dAtA m = unmarshal msg ConnectionEvent_fields dAtA m"

definition ConnectionEvent_bytes :: "ConnectionEvent \<Rightarrow> byte list" where
  "ConnectionEvent_bytes m =
     (0xa # varint (of_nat (length (ConnectionInfo_bytes (ce_ConnectionInfo m)))) @ ConnectionInfo_bytes (ce_ConnectionInfo m))"

lemma ConnectionEvent_field_eqs:
  "ConnectionEvent_fields 1 = Some (LenField ''ConnectionInfo''
        (embed ''ConnectionInfo'' ConnectionInfo_fields ce_ConnectionInfo (\<lambda>x m. m\<lparr>ce_ConnectionInfo := x\<rparr>)))"
  by (simp_all add: ConnectionEvent_fields_def)

lemma ConnectionEvent_emits: "emits (ConnectionEvent_MarshalToSizedBuffer m) (ConnectionEvent_bytes m)"
  unfolding ConnectionEvent_MarshalToSizedBuffer_def
  by (rule emitsI, (rule ConnectionInfo.nested_writes emits_rules)+) (simp add: ConnectionEvent_bytes_def)

lemma ConnectionEvent_sizes: "ConnectionEvent_Size m = length (ConnectionEvent_bytes m)"
  by (simp add: ConnectionEvent_bytes_def ConnectionEvent_Size_def length_varint Let_def ConnectionInfo_sizes)

lemma ConnectionEvent_decodes: "decodes ConnectionEvent_fields (ConnectionEvent_bytes m) zeroConnectionEvent m"
  unfolding ConnectionEvent_bytes_def
  by (rule decodesI, (rule ConnectionInfo.nested_reads [where ofs = ConnectionEvent_fields and get = ce_ConnectionInfo, OF tags(4) ConnectionEvent_field_eqs(1)]
        | simp add: zeroConnectionEvent_def)+)

interpretation ConnectionEvent: message_codec ConnectionEvent_fields
  ConnectionEvent_Size ConnectionEvent_MarshalToSizedBuffer ConnectionEvent_bytes zeroConnectionEvent
  by (unfold_locales, rule ConnectionEvent_emits, rule ConnectionEvent_sizes, rule ConnectionEvent_decodes)

section \<open>The messages by name\<close>

type_synonym MemberReadyEvent = PlainEvent
type_synonym MembershipChangedEvent = PlainEvent
type_synonym SendSnapshotStartedEvent = SendSnapshotEvent
type_synonym SendSnapshotCompletedEvent = SendSnapshotEvent
type_synonym SendSnapshotAbortedEvent = SendSnapshotEvent
type_synonym SnapshotRecoveredEvent = IndexEvent
type_synonym SnapshotCreatedEvent = IndexEvent
type_synonym SnapshotCompactedEvent = IndexEvent
type_synonym LogCompactedEvent = IndexEvent
type_synonym LogDBCompactedEvent = IndexEvent
type_synonym ConnectionEstablishedEvent = ConnectionEvent
type_synonym ConnectionFailedEvent = ConnectionEvent
type_synonym LogEvent = IndexEvent

definition MemberReadyEvent_Unmarshal :: "byte list \<Rightarrow> MemberReadyEvent \<Rightarrow> wireError + MemberReadyEvent" where
  "MemberReadyEvent_Unmarshal = PlainEvent_Unmarshal ''MemberReadyEvent''"

definition MembershipChangedEvent_Unmarshal :: "byte list \<Rightarrow> MembershipChangedEvent \<Rightarrow> wireError + MembershipChangedEvent" where
  "MembershipChangedEvent_Unmarshal = PlainEvent_Unmarshal ''MembershipChangedEvent''"

definition SendSnapshotStartedEvent_Unmarshal :: "byte list \<Rightarrow> SendSnapshotStartedEvent \<Rightarrow> wireError + SendSnapshotStartedEvent" where
  "SendSnapshotStartedEvent_Unmarshal = SendSnapshotEvent_Unmarshal ''SendSnapshotStartedEvent''"

definition SendSnapshotCompletedEvent_Unmarshal :: "byte list \<Rightarrow> SendSnapshotCompletedEvent \<Rightarrow> wireError + SendSnapshotCompletedEvent" where
  "SendSnapshotCompletedEvent_Unmarshal = SendSnapshotEvent_Unmarshal ''SendSnapshotCompletedEvent''"

definition SendSnapshotAbortedEvent_Unmarshal :: "byte list \<Rightarrow> SendSnapshotAbortedEvent \<Rightarrow> wireError + SendSnapshotAbortedEvent" where
  "SendSnapshotAbortedEvent_Unmarshal = SendSnapshotEvent_Unmarshal ''SendSnapshotAbortedEvent''"

definition SnapshotRecoveredEvent_Unmarshal :: "byte list \<Rightarrow> SnapshotRecoveredEvent \<Rightarrow> wireError + SnapshotRecoveredEvent" where
  "SnapshotRecoveredEvent_Unmarshal = IndexEvent_Unmarshal ''SnapshotRecoveredEvent''"

definition SnapshotCreatedEvent_Unmarshal :: "byte list \<Rightarrow> SnapshotCreatedEvent \<Rightarrow> wireError + SnapshotCreatedEvent" where
  "SnapshotCreatedEvent_Unmarshal = IndexEvent_Unmarshal ''SnapshotCreatedEvent''"

definition SnapshotCompactedEvent_Unmarshal :: "byte list \<Rightarrow> SnapshotCompactedEvent \<Rightarrow> wireError + SnapshotCompactedEvent" where
  "SnapshotCompactedEvent_Unmarshal = IndexEvent_Unmarshal ''SnapshotCompactedEvent''"

definition LogCompactedEvent_Unmarshal :: "byte list \<Rightarrow> LogCompactedEvent \<Rightarrow> wireError + LogCompactedEvent" where
  "LogCompactedEvent_Unmarshal = IndexEvent_Unmarshal ''LogCompactedEvent''"

definition LogDBCompactedEvent_Unmarshal :: "byte list \<Rightarrow> LogDBCompactedEvent \<Rightarrow> wireError + LogDBCompactedEvent" where
  "LogDBCompactedEvent_Unmarshal = IndexEvent_Unmarshal ''LogDBCompactedEvent''"

definition ConnectionEstablishedEvent_Unmarshal :: "byte list \<Rightarrow> ConnectionEstablishedEvent \<Rightarrow> wireError + ConnectionEstablishedEvent" where
  "ConnectionEstablishedEvent_Unmarshal = ConnectionEvent_Unmarshal ''ConnectionEstablishedEvent''"

definition ConnectionFailedEvent_Unmarshal :: "byte list \<Rightarrow> ConnectionFailedEvent \<Rightarrow> wireError + ConnectionFailedEvent" where
  "ConnectionFailedEvent_Unmarshal = ConnectionEvent_Unmarshal ''ConnectionFailedEvent''"

definition LogEvent_Unmarshal :: "byte list \<Rightarrow> LogEvent \<Rightarrow> wireError + LogEvent" where
  "LogEvent_Unmarshal = IndexEvent_Unmarshal ''LogEvent''"

section \<open>Event\<close>

datatype isEvent_Event =
    Event_MemberReady MemberReadyEvent
  | Event_LeaderUpdated LeaderUpdatedEvent
  | Event_MembershipChanged MembershipChangedEvent
  | Event_SendSnapshotStarted SendSnapshotStartedEvent
  | Event_SendSnapshotCompleted SendSnapshotCompletedEvent
  | Event_SendSnapshotAborted SendSnapshotAbortedEvent
  | Event_SnapshotReceived SnapshotReceivedEvent
  | Event_SnapshotRecovered SnapshotRecoveredEvent
  | Event_SnapshotCreated SnapshotCreatedEvent
  | Event_SnapshotCompacted SnapshotCompactedEvent
  | Event_LogCompacted LogCompactedEvent
  | Event_LogdbCompacted LogDBCompactedEvent
  | Event_ConnectionEstablished ConnectionEstablishedEvent
  | Event_ConnectionFailed ConnectionFailedEvent

record 't Event =
  ev_Timestamp :: 't
  ev_Event :: "isEvent_Event option"

text \<open>
  The library's timestamp codec (\<^verbatim>\<open>SizeOfStdTime\<close>, \<^verbatim>\<open>StdTimeMarshalTo\<close>,
  \<^verbatim>\<open>StdTimeUnmarshal\<close>) is a parameter. \<open>stdTime_at st t\<close> is what it documents for a time
  that is in the range of protobuf timestamps: it writes as many bytes as it announces and
  reads them back.
\<close>

record 't stdTime =
  st_size :: "'t \<Rightarrow> nat"
  st_marshal :: "'t \<Rightarrow> wireError + byte list"
  st_unmarshal :: "byte list \<Rightarrow> wireError + 't"

definition stdTime_at :: "'t stdTime \<Rightarrow> 't \<Rightarrow> bool" where
  "stdTime_at st t \<longleftrightarrow>
     (case st_marshal st t of
        Inl e \<Rightarrow> False
      | Inr bs \<Rightarrow> length bs = st_size st t \<and> st_unmarshal st bs = Inr t)"

definition memberSize :: "nat \<Rightarrow> nat" where
  "memberSize l = 1 + l + sovProtocol (of_nat l)"

fun payload_Size :: "isEvent_Event \<Rightarrow> nat" where
  "payload_Size (Event_MemberReady e) = memberSize (PlainEvent_Size e)"
| "payload_Size (Event_LeaderUpdated e) = memberSize (LeaderUpdatedEvent_Size e)"
| "payload_Size (Event_MembershipChanged e) = memberSize (PlainEvent_Size e)"
| "payload_Size (Event_SendSnapshotStarted e) = memberSize (SendSnapshotEvent_Size e)"
| "payload_Size (Event_SendSnapshotCompleted e) = memberSize (SendSnapshotEvent_Size e)"
| "payload_Size (Event_SendSnapshotAborted e) = memberSize (SendSnapshotEvent_Size e)"
| "payload_Size (Event_SnapshotReceived e) = memberSize (SnapshotReceivedEvent_Size e)"
| "payload_Size (Event_SnapshotRecovered e) = memberSize (IndexEvent_Size e)"
| "payload_Size (Event_SnapshotCreated e) = memberSize (IndexEvent_Size e)"
| "payload_Size (Event_SnapshotCompacted e) = memberSize (IndexEvent_Size e)"
| "payload_Size (Event_LogCompacted e) = memberSize (IndexEvent_Size e)"
| "payload_Size (Event_LogdbCompacted e) = memberSize (IndexEvent_Size e)"
| "payload_Size (Event_ConnectionEstablished e) = memberSize (ConnectionEvent_Size e)"
| "payload_Size (Event_ConnectionFailed e) = memberSize (ConnectionEvent_Size e)"

fun payload_MarshalToSizedBuffer :: "isEvent_Event \<Rightarrow> writer" where
  "payload_MarshalToSizedBuffer (Event_MemberReady e) = 
     wSeq (wNested (PlainEvent_MarshalToSizedBuffer e)) (wByte 0x12)"
| "payload_MarshalToSizedBuffer (Event_LeaderUpdated e) = 
     wSeq (wNested (LeaderUpdatedEvent_MarshalToSizedBuffer e)) (wByte 0x1a)"
| "payload_MarshalToSizedBuffer (Event_MembershipChanged e) = 
     wSeq (wNested (PlainEvent_MarshalToSizedBuffer e)) (wByte 0x22)"
| "payload_MarshalToSizedBuffer (Event_SendSnapshotStarted e) = 
     wSeq (wNested (SendSnapshotEvent_MarshalToSizedBuffer e)) (wByte 0x2a)"
| "payload_MarshalToSizedBuffer (Event_SendSnapshotCompleted e) = 
     wSeq (wNested (SendSnapshotEvent_MarshalToSizedBuffer e)) (wByte 0x32)"
| "payload_MarshalToSizedBuffer (Event_SendSnapshotAborted e) = 
     wSeq (wNested (SendSnapshotEvent_MarshalToSizedBuffer e)) (wByte 0x3a)"
| "payload_MarshalToSizedBuffer (Event_SnapshotReceived e) = 
     wSeq (wNested (SnapshotReceivedEvent_MarshalToSizedBuffer e)) (wByte 0x42)"
| "payload_MarshalToSizedBuffer (Event_SnapshotRecovered e) = 
     wSeq (wNested (IndexEvent_MarshalToSizedBuffer e)) (wByte 0x4a)"
| "payload_MarshalToSizedBuffer (Event_SnapshotCreated e) = 
     wSeq (wNested (IndexEvent_MarshalToSizedBuffer e)) (wByte 0x52)"
| "payload_MarshalToSizedBuffer (Event_SnapshotCompacted e) = 
     wSeq (wNested (IndexEvent_MarshalToSizedBuffer e)) (wByte 0x5a)"
| "payload_MarshalToSizedBuffer (Event_LogCompacted e) = 
     wSeq (wNested (IndexEvent_MarshalToSizedBuffer e)) (wByte 0x62)"
| "payload_MarshalToSizedBuffer (Event_LogdbCompacted e) = 
     wSeq (wNested (IndexEvent_MarshalToSizedBuffer e)) (wByte 0x6a)"
| "payload_MarshalToSizedBuffer (Event_ConnectionEstablished e) = 
     wSeq (wNested (ConnectionEvent_MarshalToSizedBuffer e)) (wByte 0x72)"
| "payload_MarshalToSizedBuffer (Event_ConnectionFailed e) = 
     wSeq (wNested (ConnectionEvent_MarshalToSizedBuffer e)) (wByte 0x7a)"

fun payload_bytes :: "isEvent_Event \<Rightarrow> byte list" where
  "payload_bytes (Event_MemberReady e) = 
     0x12 # varint (of_nat (length (PlainEvent_bytes e))) @ PlainEvent_bytes e"
| "payload_bytes (Event_LeaderUpdated e) = 
     0x1a # varint (of_nat (length (LeaderUpdatedEvent_bytes e))) @ LeaderUpdatedEvent_bytes e"
| "payload_bytes (Event_MembershipChanged e) = 
     0x22 # varint (of_nat (length (PlainEvent_bytes e))) @ PlainEvent_bytes e"
| "payload_bytes (Event_SendSnapshotStarted e) = 
     0x2a # varint (of_nat (length (SendSnapshotEvent_bytes e))) @ SendSnapshotEvent_bytes e"
| "payload_bytes (Event_SendSnapshotCompleted e) = 
     0x32 # varint (of_nat (length (SendSnapshotEvent_bytes e))) @ SendSnapshotEvent_bytes e"
| "payload_bytes (Event_SendSnapshotAborted e) = 
     0x3a # varint (of_nat (length (SendSnapshotEvent_bytes e))) @ SendSnapshotEvent_bytes e"
| "payload_bytes (Event_SnapshotReceived e) = 
     0x42 # varint (of_nat (length (SnapshotReceivedEvent_bytes e))) @ SnapshotReceivedEvent_bytes e"
| "payload_bytes (Event_SnapshotRecovered e) = 
     0x4a # varint (of_nat (length (IndexEvent_bytes e))) @ IndexEvent_bytes e"
| "payload_bytes (Event_SnapshotCreated e) = 
     0x52 # varint (of_nat (length (IndexEvent_bytes e))) @ IndexEvent_bytes e"
| "payload_bytes (Event_SnapshotCompacted e) = 
     0x5a # varint (of_nat (length (IndexEvent_bytes e))) @ IndexEvent_bytes e"
| "payload_bytes (Event_LogCompacted e) = 
     0x62 # varint (of_nat (length (IndexEvent_bytes e))) @ IndexEvent_bytes e"
| "payload_bytes (Event_LogdbCompacted e) = 
     0x6a # varint (of_nat (length (IndexEvent_bytes e))) @ IndexEvent_bytes e"
| "payload_bytes (Event_ConnectionEstablished e) = 
     0x72 # varint (of_nat (length (ConnectionEvent_bytes e))) @ ConnectionEvent_bytes e"
| "payload_bytes (Event_ConnectionFailed e) = 
     0x7a # varint (of_nat (length (ConnectionEvent_bytes e))) @ ConnectionEvent_bytes e"

text \<open>
  \<^verbatim>\<open>Event.MarshalTo(dAtA[i:])\<close> fills the \<open>Size\<close> bytes in front of the index; the index
  then moves by that size whatever the payload's writer returned.
\<close>

definition wExact :: "nat \<Rightarrow> writer \<Rightarrow> writer" where
  "wExact n w s = (case s of (dAtA, i) \<Rightarrow>
     (if int n \<le> i \<and> i \<le> int (length dAtA) then
        (case w (take n (drop (nat i - n) dAtA), int n) of
           Inl e \<Rightarrow> Inl e
         | Inr (sub, _) \<Rightarrow>
             Inr (take (nat i - n) dAtA @ sub @ drop (nat i) dAtA, i - int n))
      else Inl Panic))"

definition wTime :: "'t stdTime \<Rightarrow> 't \<Rightarrow> writer" where
  "wTime st t s = (case s of (dAtA, i) \<Rightarrow>
     (let j = i - int (st_size st t)
      in if 0 \<le> j \<and> j \<le> int (length dAtA) then
           (case st_marshal st t of
              Inl e \<Rightarrow> Inl (Failed e)
            | Inr bs \<Rightarrow>
                let n = length bs; dAtA' = take (nat j) dAtA @ take (length dAtA - nat j) bs @
                  drop (nat j + n) dAtA
                in encodeVarintProtocol dAtA' (i - int n) (of_nat n))
         else Inl Panic))"

definition Event_Size :: "'t stdTime \<Rightarrow> 't Event \<Rightarrow> nat" where
  "Event_Size st m =
     memberSize (st_size st (ev_Timestamp m)) +
     (case ev_Event m of None \<Rightarrow> 0 | Some e \<Rightarrow> payload_Size e)"

definition Event_MarshalToSizedBuffer :: "'t stdTime \<Rightarrow> 't Event \<Rightarrow> writer" where
  "Event_MarshalToSizedBuffer st m =
     wSeq (case ev_Event m of
             None \<Rightarrow> Inr
           | Some e \<Rightarrow> wExact (payload_Size e) (payload_MarshalToSizedBuffer e))
      (wSeq (wTime st (ev_Timestamp m)) (wByte 0xa))"

definition Event_Marshal :: "'t stdTime \<Rightarrow> 't Event \<Rightarrow> writeFailure + byte list" where
  "Event_Marshal st m = marshal (Event_Size st m) (Event_MarshalToSizedBuffer st m)"

definition Event_fields :: "'t stdTime \<Rightarrow> 't Event fields" where
  "Event_fields st n =
     (if n = 1 then Some (LenField ''Timestamp''
        (\<lambda>bs m. case st_unmarshal st bs of Inl e \<Rightarrow> Inl e | Inr t \<Rightarrow> Inr (m\<lparr>ev_Timestamp := t\<rparr>)))
      else if n = 2 then Some (LenField ''MemberReady''
        (embed ''MemberReadyEvent'' PlainEvent_fields (\<lambda>_. zeroPlainEvent)
          (\<lambda>x m. m\<lparr>ev_Event := Some (Event_MemberReady x)\<rparr>)))
      else if n = 3 then Some (LenField ''LeaderUpdated''
        (embed ''LeaderUpdatedEvent'' LeaderUpdatedEvent_fields (\<lambda>_. zeroLeaderUpdatedEvent)
          (\<lambda>x m. m\<lparr>ev_Event := Some (Event_LeaderUpdated x)\<rparr>)))
      else if n = 4 then Some (LenField ''MembershipChanged''
        (embed ''MembershipChangedEvent'' PlainEvent_fields (\<lambda>_. zeroPlainEvent)
          (\<lambda>x m. m\<lparr>ev_Event := Some (Event_MembershipChanged x)\<rparr>)))
      else if n = 5 then Some (LenField ''SendSnapshotStarted''
        (embed ''SendSnapshotStartedEvent'' SendSnapshotEvent_fields (\<lambda>_. zeroSendSnapshotEvent)
          (\<lambda>x m. m\<lparr>ev_Event := Some (Event_SendSnapshotStarted x)\<rparr>)))
      else if n = 6 then Some (LenField ''SendSnapshotCompleted''
        (embed ''SendSnapshotCompletedEvent'' SendSnapshotEvent_fields (\<lambda>_. zeroSendSnapshotEvent)
          (\<lambda>x m. m\<lparr>ev_Event := Some (Event_SendSnapshotCompleted x)\<rparr>)))
      else if n = 7 then Some (LenField ''SendSnapshotAborted''
        (embed ''SendSnapshotAbortedEvent'' SendSnapshotEvent_fields (\<lambda>_. zeroSendSnapshotEvent)
          (\<lambda>x m. m\<lparr>ev_Event := Some (Event_SendSnapshotAborted x)\<rparr>)))
      else if n = 8 then Some (LenField ''SnapshotReceived''
        (embed ''SnapshotReceivedEvent'' SnapshotReceivedEvent_fields (\<lambda>_. zeroSnapshotReceivedEvent)
          (\<lambda>x m. m\<lparr>ev_Event := Some (Event_SnapshotReceived x)\<rparr>)))
      else if n = 9 then Some (LenField ''SnapshotRecovered''
        (embed ''SnapshotRecoveredEvent'' IndexEvent_fields (\<lambda>_. zeroIndexEvent)
          (\<lambda>x m. m\<lparr>ev_Event := Some (Event_SnapshotRecovered x)\<rparr>)))
      else if n = 10 then Some (LenField ''SnapshotCreated''
        (embed ''SnapshotCreatedEvent'' IndexEvent_fields (\<lambda>_. zeroIndexEvent)
          (\<lambda>x m. m\<lparr>ev_Event := Some (Event_SnapshotCreated x)\<rparr>)))
      else if n = 11 then Some (LenField ''SnapshotCompacted''
        (embed ''SnapshotCompactedEvent'' IndexEvent_fields (\<lambda>_. zeroIndexEvent)
          (\<lambda>x m. m\<lparr>ev_Event := Some (Event_SnapshotCompacted x)\<rparr>)))
      else if n = 12 then Some (LenField ''LogCompacted''
        (embed ''LogCompactedEvent'' IndexEvent_fields (\<lambda>_. zeroIndexEvent)
          (\<lambda>x m. m\<lparr>ev_Event := Some (Event_LogCompacted x)\<rparr>)))
      else if n = 13 then Some (LenField ''LogdbCompacted''
        (embed ''LogDBCompactedEvent'' IndexEvent_fields (\<lambda>_. zeroIndexEvent)
          (\<lambda>x m. m\<lparr>ev_Event := Some (Event_LogdbCompacted x)\<rparr>)))
      else if n = 14 then Some (LenField ''ConnectionEstablished''
        (embed ''ConnectionEstablishedEvent'' ConnectionEvent_fields (\<lambda>_. zeroConnectionEvent)
          (\<lambda>x m. m\<lparr>ev_Event := Some (Event_ConnectionEstablished x)\<rparr>)))
      else if n = 15 then Some (LenField ''ConnectionFailed''
        (embed ''ConnectionFailedEvent'' ConnectionEvent_fields (\<lambda>_. zeroConnectionEvent)
          (\<lambda>x m. m\<lparr>ev_Event := Some (Event_ConnectionFailed x)\<rparr>)))
      else None)"

definition Event_Unmarshal :: "'t stdTime \<Rightarrow> byte list \<Rightarrow> 't Event \<Rightarrow> wireError + 't Event" where
  "Event_Unmarshal st dAtA m = unmarshal ''Event'' (Event_fields st) dAtA m"

lemma Event_field_eqs:
  "Event_fields st 1 = Some (LenField ''Timestamp''
     (\<lambda>bs m. case st_unmarshal st bs of Inl e \<Rightarrow> Inl e | Inr t \<Rightarrow> Inr (m\<lparr>ev_Timestamp := t\<rparr>)))"
  "Event_fields st 2 = Some (LenField ''MemberReady''
        (embed ''MemberReadyEvent'' PlainEvent_fields (\<lambda>_. zeroPlainEvent)
          (\<lambda>x m. m\<lparr>ev_Event := Some (Event_MemberReady x)\<rparr>)))"
  "Event_fields st 3 = Some (LenField ''LeaderUpdated''
        (embed ''LeaderUpdatedEvent'' LeaderUpdatedEvent_fields (\<lambda>_. zeroLeaderUpdatedEvent)
          (\<lambda>x m. m\<lparr>ev_Event := Some (Event_LeaderUpdated x)\<rparr>)))"
  "Event_fields st 4 = Some (LenField ''MembershipChanged''
        (embed ''MembershipChangedEvent'' PlainEvent_fields (\<lambda>_. zeroPlainEvent)
          (\<lambda>x m. m\<lparr>ev_Event := Some (Event_MembershipChanged x)\<rparr>)))"
  "Event_fields st 5 = Some (LenField ''SendSnapshotStarted''
        (embed ''SendSnapshotStartedEvent'' SendSnapshotEvent_fields (\<lambda>_. zeroSendSnapshotEvent)
          (\<lambda>x m. m\<lparr>ev_Event := Some (Event_SendSnapshotStarted x)\<rparr>)))"
  "Event_fields st 6 = Some (LenField ''SendSnapshotCompleted''
        (embed ''SendSnapshotCompletedEvent'' SendSnapshotEvent_fields (\<lambda>_. zeroSendSnapshotEvent)
          (\<lambda>x m. m\<lparr>ev_Event := Some (Event_SendSnapshotCompleted x)\<rparr>)))"
  "Event_fields st 7 = Some (LenField ''SendSnapshotAborted''
        (embed ''SendSnapshotAbortedEvent'' SendSnapshotEvent_fields (\<lambda>_. zeroSendSnapshotEvent)
          (\<lambda>x m. m\<lparr>ev_Event := Some (Event_SendSnapshotAborted x)\<rparr>)))"
  "Event_fields st 8 = Some (LenField ''SnapshotReceived''
        (embed ''SnapshotReceivedEvent'' SnapshotReceivedEvent_fields (\<lambda>_. zeroSnapshotReceivedEvent)
          (\<lambda>x m. m\<lparr>ev_Event := Some (Event_SnapshotReceived x)\<rparr>)))"
  "Event_fields st 9 = Some (LenField ''SnapshotRecovered''
        (embed ''SnapshotRecoveredEvent'' IndexEvent_fields (\<lambda>_. zeroIndexEvent)
          (\<lambda>x m. m\<lparr>ev_Event := Some (Event_SnapshotRecovered x)\<rparr>)))"
  "Event_fields st 10 = Some (LenField ''SnapshotCreated''
        (embed ''SnapshotCreatedEvent'' IndexEvent_fields (\<lambda>_. zeroIndexEvent)
          (\<lambda>x m. m\<lparr>ev_Event := Some (Event_SnapshotCreated x)\<rparr>)))"
  "Event_fields st 11 = Some (LenField ''SnapshotCompacted''
        (embed ''SnapshotCompactedEvent'' IndexEvent_fields (\<lambda>_. zeroIndexEvent)
          (\<lambda>x m. m\<lparr>ev_Event := Some (Event_SnapshotCompacted x)\<rparr>)))"
  "Event_fields st 12 = Some (LenField ''LogCompacted''
        (embed ''LogCompactedEvent'' IndexEvent_fields (\<lambda>_. zeroIndexEvent)
          (\<lambda>x m. m\<lparr>ev_Event := Some (Event_LogCompacted x)\<rparr>)))"
  "Event_fields st 13 = Some (LenField ''LogdbCompacted''
        (embed ''LogDBCompactedEvent'' IndexEvent_fields (\<lambda>_. zeroIndexEvent)
          (\<lambda>x m. m\<lparr>ev_Event := Some (Event_LogdbCompacted x)\<rparr>)))"
  "Event_fields st 14 = Some (LenField ''ConnectionEstablished''
        (embed ''ConnectionEstablishedEvent'' ConnectionEvent_fields (\<lambda>_. zeroConnectionEvent)
          (\<lambda>x m. m\<lparr>ev_Event := Some (Event_ConnectionEstablished x)\<rparr>)))"
  "Event_fields st 15 = Some (LenField ''ConnectionFailed''
        (embed ''ConnectionFailedEvent'' ConnectionEvent_fields (\<lambda>_. zeroConnectionEvent)
          (\<lambda>x m. m\<lparr>ev_Event := Some (Event_ConnectionFailed x)\<rparr>)))"
  by (simp_all add: Event_fields_def)

lemmas payload_nested_writes =
  ConnectionEvent.nested_writes IndexEvent.nested_writes LeaderUpdatedEvent.nested_writes PlainEvent.nested_writes SendSnapshotEvent.nested_writes SnapshotReceivedEvent.nested_writes

lemmas payload_shape_sizes =
  ConnectionEvent_sizes IndexEvent_sizes LeaderUpdatedEvent_sizes PlainEvent_sizes SendSnapshotEvent_sizes SnapshotReceivedEvent_sizes

lemma payload_emits: "emits (payload_MarshalToSizedBuffer e) (payload_bytes e)"
  by (cases e) (simp_all add: payload_nested_writes)

lemma payload_sizes: "payload_Size e = length (payload_bytes e)"
  by (cases e) (simp_all add: payload_shape_sizes memberSize_def length_varint)

lemma payload_decodes:
  "decodes (Event_fields st) (payload_bytes e) m (m\<lparr>ev_Event := Some e\<rparr>)"
proof (cases e)
qed (simp add: PlainEvent.nested_reads [where ofs = "Event_fields st", OF tags(5) Event_field_eqs(2)],
  simp add: LeaderUpdatedEvent.nested_reads [where ofs = "Event_fields st", OF tags(6) Event_field_eqs(3)],
  simp add: PlainEvent.nested_reads [where ofs = "Event_fields st", OF tags(7) Event_field_eqs(4)],
  simp add: SendSnapshotEvent.nested_reads [where ofs = "Event_fields st", OF tags(8) Event_field_eqs(5)],
  simp add: SendSnapshotEvent.nested_reads [where ofs = "Event_fields st", OF tags(9) Event_field_eqs(6)],
  simp add: SendSnapshotEvent.nested_reads [where ofs = "Event_fields st", OF tags(10) Event_field_eqs(7)],
  simp add: SnapshotReceivedEvent.nested_reads [where ofs = "Event_fields st", OF tags(11) Event_field_eqs(8)],
  simp add: IndexEvent.nested_reads [where ofs = "Event_fields st", OF tags(12) Event_field_eqs(9)],
  simp add: IndexEvent.nested_reads [where ofs = "Event_fields st", OF tags(13) Event_field_eqs(10)],
  simp add: IndexEvent.nested_reads [where ofs = "Event_fields st", OF tags(14) Event_field_eqs(11)],
  simp add: IndexEvent.nested_reads [where ofs = "Event_fields st", OF tags(15) Event_field_eqs(12)],
  simp add: IndexEvent.nested_reads [where ofs = "Event_fields st", OF tags(16) Event_field_eqs(13)],
  simp add: ConnectionEvent.nested_reads [where ofs = "Event_fields st", OF tags(17) Event_field_eqs(14)],
  simp add: ConnectionEvent.nested_reads [where ofs = "Event_fields st", OF tags(18) Event_field_eqs(15)])

lemma emits_exact:
  assumes "emits w bs" and "n = length bs"
  shows "emits (wExact n w) bs"
  unfolding emits_def
proof (intro allI impI)
  fix dAtA :: "byte list" and i
  assume i: "length bs \<le> i" "i \<le> length dAtA"
  let ?sub = "take n (drop (i - n) dAtA)"
  have "length ?sub = n" using i assms(2) by simp
  then have "w (?sub, int n) = Inr (bs, 0)"
    using emitsD [OF assms(1), of n ?sub] assms(2) by simp
  then show "wExact n w (dAtA, int i) =
      Inr (take (i - length bs) dAtA @ bs @ drop i dAtA, int (i - length bs))"
    using i assms(2) by (simp add: wExact_def)
qed

lemma emits_time:
  assumes "st_marshal st t = Inr bs" and "length bs = st_size st t"
  shows "emits (wTime st t) (varint (of_nat (length bs)) @ bs)"
  unfolding emits_def
proof (intro allI impI)
  fix dAtA :: "byte list" and i
  let ?h = "varint (of_nat (length bs))"
  assume i: "length (?h @ bs) \<le> i" "i \<le> length dAtA"
  let ?j = "i - length bs"
  let ?d = "take ?j dAtA @ bs @ drop i dAtA"
  have j: "int i - int (length bs) = int ?j" using i by simp
  have "wTime st t (dAtA, int i) = wVarint (of_nat (length bs)) (?d, int ?j)"
    using i assms(1) j unfolding wTime_def wVarint_def prod.case assms(2) [symmetric]
    by (auto simp add: Let_def j simp del: of_nat_diff)
  also have "\<dots> = Inr (take (?j - length ?h) ?d @ ?h @ drop ?j ?d, int (?j - length ?h))"
    using i by (intro emitsD [OF emits_varint]) simp_all
  finally show "wTime st t (dAtA, int i) =
      Inr (take (i - length (?h @ bs)) dAtA @ (?h @ bs) @ drop i dAtA, int (i - length (?h @ bs)))"
    using i by (simp add: diff_diff_left add.commute min_def)
qed

definition Event_bytes :: "byte list \<Rightarrow> 't Event \<Rightarrow> byte list" where
  "Event_bytes ts m =
     0xa # varint (of_nat (length ts)) @ ts @
       (case ev_Event m of None \<Rightarrow> [] | Some e \<Rightarrow> payload_bytes e)"

lemma Event_emits:
  assumes "st_marshal st (ev_Timestamp m) = Inr ts" and "length ts = st_size st (ev_Timestamp m)"
  shows "emits (Event_MarshalToSizedBuffer st m) (Event_bytes ts m)"
proof -
  have "emits (case ev_Event m of None \<Rightarrow> Inr
          | Some e \<Rightarrow> wExact (payload_Size e) (payload_MarshalToSizedBuffer e))
        (case ev_Event m of None \<Rightarrow> [] | Some e \<Rightarrow> payload_bytes e)"
    by (cases "ev_Event m")
       (simp_all add: emits_done emits_exact [OF payload_emits payload_sizes])
  from emits_seq [OF this emits_seq [OF emits_time [OF assms] emits_byte]]
  show ?thesis by (simp add: Event_MarshalToSizedBuffer_def Event_bytes_def)
qed

lemma Event_sizes:
  "length ts = st_size st (ev_Timestamp m) \<Longrightarrow> Event_Size st m = length (Event_bytes ts m)"
  by (simp add: Event_Size_def Event_bytes_def memberSize_def length_varint payload_sizes
      split: option.split)

lemma Event_decodes:
  assumes "st_unmarshal st ts = Inr (ev_Timestamp m)" and "ev_Event z = None"
  shows "decodes (Event_fields st) (Event_bytes ts m) z m"
proof -
  let ?m1 = "z\<lparr>ev_Timestamp := ev_Timestamp m\<rparr>"
  let ?p = "case ev_Event m of None \<Rightarrow> [] | Some e \<Rightarrow> payload_bytes e"
  have "decodes (Event_fields st) (0xa # varint (of_nat (length ts)) @ ts) z ?m1"
    by (rule decodes_len [where fs = "Event_fields st", OF tags(4) Event_field_eqs(1)])
       (simp add: assms(1))
  moreover have "decodes (Event_fields st) ?p ?m1 (?m1\<lparr>ev_Event := ev_Event m\<rparr>)"
  proof (cases "ev_Event m")
    case None
    moreover have "?m1\<lparr>ev_Event := None\<rparr> = ?m1" using assms(2) by (cases z) simp
    ultimately show ?thesis by (simp add: decodes_Nil)
  next
    case (Some e)
    then show ?thesis using payload_decodes [of st e ?m1] by simp
  qed
  ultimately have "decodes (Event_fields st)
      ((0xa # varint (of_nat (length ts)) @ ts) @ ?p) z (?m1\<lparr>ev_Event := ev_Event m\<rparr>)"
    by (rule decodes_append)
  moreover have "?m1\<lparr>ev_Event := ev_Event m\<rparr> = m" by simp
  ultimately show ?thesis by (simp add: Event_bytes_def)
qed

section \<open>Properties\<close>

text \<open>
  C27. An event a node streams is the event its watcher receives: for a timestamp the
  library can encode, \<^verbatim>\<open>Event.Marshal\<close> succeeds with exactly \<^verbatim>\<open>Event.Size\<close> bytes,
  and \<^verbatim>\<open>Event.Unmarshal\<close> of them into a fresh event returns the event, whichever of
  the fourteen kinds (or none) it carries.
\<close>

theorem Event_roundtrip:
  assumes "stdTime_at st (ev_Timestamp m)" and "Event_Size st m < 2 ^ 63"
  shows "\<exists>bs. Event_Marshal st m = Inr bs \<and> length bs = Event_Size st m \<and>
    Event_Unmarshal st bs \<lparr>ev_Timestamp = t0, ev_Event = None\<rparr> = Inr m"
proof -
  obtain ts where ts: "st_marshal st (ev_Timestamp m) = Inr ts"
      "length ts = st_size st (ev_Timestamp m)" "st_unmarshal st ts = Inr (ev_Timestamp m)"
    using assms(1) by (auto simp: stdTime_at_def split: sum.splits)
  note sz = Event_sizes [OF ts(2)]
  have "Event_Marshal st m = Inr (Event_bytes ts m)"
    unfolding Event_Marshal_def by (rule marshal_emits [OF Event_emits [OF ts(1,2)] sz])
  moreover have "Event_Unmarshal st (Event_bytes ts m) \<lparr>ev_Timestamp = t0, ev_Event = None\<rparr> = Inr m"
    unfolding Event_Unmarshal_def
    by (rule unmarshal_decodes [OF Event_decodes [OF ts(3)]]) (use assms(2) sz in simp_all)
  ultimately show ?thesis using sz by simp
qed

text \<open>A timestamp of one byte stands in for the library's codec in the witness.\<close>

definition sampleTime :: "byte stdTime" where
  "sampleTime = \<lparr>st_size = (\<lambda>_. 1), st_marshal = (\<lambda>t. Inr [t]),
     st_unmarshal = (\<lambda>bs. case bs of [t] \<Rightarrow> Inr t | _ \<Rightarrow> Inl (StdTimeError ''length''))\<rparr>"

definition sampleEvent :: "byte Event" where
  "sampleEvent = \<lparr>ev_Timestamp = 9, ev_Event = Some (Event_LeaderUpdated
     \<lparr>lu_MemberEvent = \<lparr>me_GroupID = 1, me_MemberID = 2\<rparr>, lu_Term = 300, lu_Leader = 2\<rparr>)\<rparr>"

theorem Event_roundtrip_witness:
  "\<exists>bs. Event_Marshal sampleTime sampleEvent = Inr bs \<and>
     Event_Unmarshal sampleTime bs \<lparr>ev_Timestamp = 0, ev_Event = None\<rparr> = Inr sampleEvent"
proof -
  have "stdTime_at sampleTime (ev_Timestamp sampleEvent)"
    by (simp add: stdTime_at_def sampleTime_def)
  moreover have "Event_Size sampleTime sampleEvent < 2 ^ 63"
    by (simp add: Event_Size_def sampleTime_def sampleEvent_def memberSize_def MemberEvent_Size_def
        LeaderUpdatedEvent_Size_def sovProtocol_rec)
  ultimately show ?thesis using Event_roundtrip [of sampleTime sampleEvent 0] by blast
qed

end
