(* ===== verification/PodWatch.thy ===== *)
theory PodWatch
  imports ClusterReconcile EventMessages
begin

text \<open>
  The pod controller (\<^verbatim>\<open>controller/pkg/controller/consensus/v1beta1/watcher.go\<close>): it keeps a
  finalizer on the pods of a store and one event stream per pod, and records what the
  nodes report in the status of members and groups. Every event is an update of a status
  that tells whether it changed anything; what such an update promises is the locale
  \<open>status_update\<close>, interpreted for each kind of event. The table of streams is a small
  state machine of its own.
\<close>

section \<open>Names\<close>

definition watchedGroupName :: "NamespacedName \<Rightarrow> GroupID \<Rightarrow> NamespacedName" where
  "watchedGroupName store g =
     \<lparr>nn_Namespace = nn_Namespace store, nn_Name = nn_Name store @ ''-'' @ itoa (uint g)\<rparr>"

definition watchedMemberRef :: "NamespacedName \<Rightarrow> GroupID \<Rightarrow> MemberID \<Rightarrow> string" where
  "watchedMemberRef store g m = nn_Name store @ ''-'' @ itoa (uint g) @ ''-'' @ itoa (uint m)"

definition watchedMemberName :: "NamespacedName \<Rightarrow> MemberEvent \<Rightarrow> NamespacedName" where
  "watchedMemberName store e =
     \<lparr>nn_Namespace = nn_Namespace store,
      nn_Name = watchedMemberRef store (me_GroupID e) (me_MemberID e)\<rparr>"

section \<open>Updates of a status\<close>

text \<open>An update returns whether it changed the status, and the status.\<close>

type_synonym 's update = "'s \<Rightarrow> bool \<times> 's"

definition memberReady :: "'t \<Rightarrow> 't RaftMemberStatus update" where
  "memberReady timestamp status =
     (if ms_State status \<noteq> RaftMemberReady
      then (True, status\<lparr>ms_State := RaftMemberReady, ms_LastUpdated := Some timestamp\<rparr>)
      else (False, status))"

definition groupMemberReady :: "string \<Rightarrow> RaftGroupStatus update" where
  "groupMemberReady mname status =
     (if gs_Leader status = Some mname then (False, status)
      else if mname \<in> set (gs_Followers status) then (False, status)
      else (True, status\<lparr>gs_Followers := gs_Followers status @ [mname]\<rparr>))"

text \<open>A leader event counts if its term is new, or names the leader of a term that had none.\<close>

definition leaderNews :: "uint64 option \<Rightarrow> string option \<Rightarrow> Term \<Rightarrow> MemberID \<Rightarrow> bool" where
  "leaderNews statusTerm statusLeader term leader \<longleftrightarrow>
     (case statusTerm of
        None \<Rightarrow> True
      | Some t \<Rightarrow> t < term \<or> (t = term \<and> statusLeader = None \<and> leader \<noteq> 0))"

definition memberLeader :: "NamespacedName \<Rightarrow> 't \<Rightarrow> LeaderUpdatedEvent \<Rightarrow> 't RaftMemberStatus update" where
  "memberLeader store timestamp e status =
     (let term = lu_Term e in
      if leaderNews (ms_Term status) (ms_Leader status) term (lu_Leader e)
      then (let leader = (if lu_Leader e = 0 then None
                  else Some (watchedMemberRef store (me_GroupID (lu_MemberEvent e)) (lu_Leader e)));
                role = (if lu_Leader e \<noteq> 0 \<and> lu_Leader e = me_MemberID (lu_MemberEvent e)
                  then RaftLeader else RaftFollower)
            in (True, status\<lparr>ms_Role := Some role, ms_Leader := leader, ms_Term := Some term,
                  ms_LastUpdated := Some timestamp\<rparr>))
      else (False, status))"

definition groupLeader :: "NamespacedName \<Rightarrow> LeaderUpdatedEvent \<Rightarrow> RaftGroupStatus update" where
  "groupLeader store e status =
     (let term = lu_Term e in
      if leaderNews (gs_Term status) (gs_Leader status) term (lu_Leader e)
      then (let leader = (if lu_Leader e \<noteq> 0
                  then Some (watchedMemberRef store (me_GroupID (lu_MemberEvent e)) (lu_Leader e))
                  else None);
                followers1 = (case gs_Leader status of
                    None \<Rightarrow> gs_Followers status
                  | Some old \<Rightarrow> if leader = None \<or> leader \<noteq> Some old
                      then gs_Followers status @ [old] else gs_Followers status);
                followers2 = filter (\<lambda>f. leader = None \<or> Some f \<noteq> leader) followers1
            in (True, status\<lparr>gs_Term := Some term, gs_Leader := leader, gs_Followers := followers2\<rparr>))
      else (False, status))"

definition noteOnly :: "'s update" where
  "noteOnly status = (True, status)"

definition memberSnapshot :: "'t \<Rightarrow> Index \<Rightarrow> 't RaftMemberStatus update" where
  "memberSnapshot timestamp index status =
     (if 0 < index \<and> (case ms_LastSnapshotIndex status of None \<Rightarrow> True | Some i \<Rightarrow> i < index)
      then (True, status\<lparr>ms_LastUpdated := Some timestamp, ms_LastSnapshotTime := Some timestamp,
              ms_LastSnapshotIndex := Some index\<rparr>)
      else (False, status))"

lemmas update_defs = memberReady_def groupMemberReady_def memberLeader_def groupLeader_def
  noteOnly_def memberSnapshot_def

section \<open>What an update promises\<close>

text \<open>
  \<open>inv\<close> is the invariant of the status. An update that reports no change made none, it
  keeps the invariant, and once made it has nothing left to do.
\<close>

locale status_update =
  fixes inv :: "'s \<Rightarrow> bool" and upd :: "'s \<Rightarrow> bool \<times> 's"
  assumes unchanged: "\<not> fst (upd s) \<Longrightarrow> snd (upd s) = s"
    and keeps: "inv s \<Longrightarrow> inv (snd (upd s))"
    and settles: "inv s \<Longrightarrow> upd (snd (upd s)) = (False, snd (upd s))"
begin

lemma again: "inv s \<Longrightarrow> snd (upd (snd (upd s))) = snd (upd s)"
  by (simp add: settles)

text \<open>An event that is delivered again, as by a replay, changes nothing more.\<close>

lemma repeat_once:
  "inv s \<Longrightarrow> 0 < n \<Longrightarrow> ((\<lambda>s. snd (upd s)) ^^ n) s = snd (upd s)"
proof (induction n)
  case (Suc n)
  then show ?case by (cases "n = 0") (simp_all add: again)
qed simp

lemma repeat_keeps: "inv s \<Longrightarrow> inv (((\<lambda>s. snd (upd s)) ^^ n) s)"
  by (induction n) (simp_all add: keeps)

end

text \<open>A group's leader is not among its followers, and no follower is listed twice.\<close>

definition group_status_ok :: "RaftGroupStatus \<Rightarrow> bool" where
  "group_status_ok s \<longleftrightarrow> distinct (gs_Followers s) \<and>
     (\<forall>l. gs_Leader s = Some l \<longrightarrow> l \<notin> set (gs_Followers s))"

lemma groupLeader_ok: "group_status_ok s \<Longrightarrow> group_status_ok (snd (groupLeader store e s))"
  by (auto simp: group_status_ok_def groupLeader_def Let_def split: option.splits)

lemma groupLeader_unchanged: "\<not> fst (groupLeader store e s) \<Longrightarrow> snd (groupLeader store e s) = s"
  by (cases "leaderNews (gs_Term s) (gs_Leader s) (lu_Term e) (lu_Leader e)")
    (simp_all add: groupLeader_def Let_def)

lemma groupLeader_settles: "groupLeader store e (snd (groupLeader store e s)) = (False, snd (groupLeader store e s))"
  by (auto simp: groupLeader_def leaderNews_def Let_def split: option.splits)

interpretation member_ready: status_update "\<lambda>_ :: 't RaftMemberStatus. True" "memberReady timestamp"
  for timestamp :: 't
  by unfold_locales (auto simp: memberReady_def)

interpretation group_ready: status_update group_status_ok "groupMemberReady n" for n
  by unfold_locales (auto simp: groupMemberReady_def group_status_ok_def)

interpretation member_leader: status_update "\<lambda>_ :: 't RaftMemberStatus. True" "memberLeader store timestamp e"
  for store and timestamp :: 't and e
  by unfold_locales (auto simp: memberLeader_def leaderNews_def Let_def split: option.splits if_splits)

interpretation group_leader: status_update group_status_ok "groupLeader store e" for store e
  by unfold_locales (simp_all add: groupLeader_unchanged groupLeader_ok groupLeader_settles)

interpretation member_snapshot: status_update "\<lambda>_ :: 't RaftMemberStatus. True" "memberSnapshot timestamp index"
  for timestamp :: 't and index
  by unfold_locales (auto simp: memberSnapshot_def split: option.splits if_splits)

section \<open>The updates of an event\<close>

fun memberUpdate :: "NamespacedName \<Rightarrow> 't \<Rightarrow> isEvent_Event \<Rightarrow>
    (MemberEvent \<times> 't RaftMemberStatus update) option" where
  "memberUpdate store t (Event_MemberReady e) = Some (pe_MemberEvent e, memberReady t)"
| "memberUpdate store t (Event_LeaderUpdated e) = Some (lu_MemberEvent e, memberLeader store t e)"
| "memberUpdate store t (Event_MembershipChanged e) = Some (pe_MemberEvent e, noteOnly)"
| "memberUpdate store t (Event_SendSnapshotStarted e) = Some (ss_MemberEvent e, noteOnly)"
| "memberUpdate store t (Event_SendSnapshotCompleted e) = Some (ss_MemberEvent e, noteOnly)"
| "memberUpdate store t (Event_SendSnapshotAborted e) = Some (ss_MemberEvent e, noteOnly)"
| "memberUpdate store t (Event_SnapshotReceived e) = Some (sr_MemberEvent e, memberSnapshot t (sr_Index e))"
| "memberUpdate store t (Event_SnapshotRecovered e) = Some (ie_MemberEvent e, memberSnapshot t (ie_Index e))"
| "memberUpdate store t (Event_SnapshotCreated e) = Some (ie_MemberEvent e, memberSnapshot t (ie_Index e))"
| "memberUpdate store t (Event_SnapshotCompacted e) = Some (ie_MemberEvent e, memberSnapshot t (ie_Index e))"
| "memberUpdate store t (Event_LogCompacted e) = Some (ie_MemberEvent e, noteOnly)"
| "memberUpdate store t (Event_LogdbCompacted e) = Some (ie_MemberEvent e, noteOnly)"
| "memberUpdate store t (Event_ConnectionEstablished e) = None"
| "memberUpdate store t (Event_ConnectionFailed e) = None"

fun groupUpdate :: "NamespacedName \<Rightarrow> isEvent_Event \<Rightarrow> (GroupID \<times> RaftGroupStatus update) option" where
  "groupUpdate store (Event_MemberReady e) =
     (let m = pe_MemberEvent e in
      Some (me_GroupID m, groupMemberReady (watchedMemberRef store (me_GroupID m) (me_MemberID m))))"
| "groupUpdate store (Event_LeaderUpdated e) =
     Some (me_GroupID (lu_MemberEvent e), groupLeader store e)"
| "groupUpdate store _ = None"

text \<open>The Kubernetes event recorded for a member or a group once its status is stored.\<close>

definition sendSnapshotNote :: "string \<Rightarrow> string \<Rightarrow> NamespacedName \<Rightarrow> SendSnapshotEvent \<Rightarrow> string \<times> string" where
  "sendSnapshotNote reason verb store e =
     (reason, verb @ '' sending snapshot at index '' @ itoa (uint (ss_Index e)) @ '' to '' @
        watchedMemberRef store (me_GroupID (ss_MemberEvent e)) (ss_To e))"

fun memberNote :: "NamespacedName \<Rightarrow> isEvent_Event \<Rightarrow> 't RaftMemberStatus \<Rightarrow> (string \<times> string) option" where
  "memberNote store (Event_MemberReady e) status = Some (''StateChanged'', ''Member is ready'')"
| "memberNote store (Event_LeaderUpdated e) status =
     (if ms_Role status = Some RaftLeader
      then Some (''ElectedLeader'', ''Elected leader for term '' @ itoa (uint (lu_Term e))) else None)"
| "memberNote store (Event_MembershipChanged e) status =
     Some (''MembershipChanged'', ''Membership changed'')"
| "memberNote store (Event_SendSnapshotStarted e) status =
     Some (sendSnapshotNote ''SendSnapshotStared'' ''Started'' store e)"
| "memberNote store (Event_SendSnapshotCompleted e) status =
     Some (sendSnapshotNote ''SendSnapshotCompleted'' ''Completed'' store e)"
| "memberNote store (Event_SendSnapshotAborted e) status =
     Some (sendSnapshotNote ''SendSnapshotAborted'' ''Aborted'' store e)"
| "memberNote store (Event_SnapshotReceived e) status =
     Some (''SnapshotReceived'', ''Snapshot received from '' @
       watchedMemberRef store (me_GroupID (sr_MemberEvent e)) (sr_From e) @
       '' at index '' @ itoa (uint (sr_Index e)))"
| "memberNote store (Event_SnapshotRecovered e) status =
     Some (''SnapshotRecovered'', ''Recovered from snapshot at index '' @ itoa (uint (ie_Index e)))"
| "memberNote store (Event_SnapshotCreated e) status =
     Some (''SnapshotCreated'', ''Created snapshot at index '' @ itoa (uint (ie_Index e)))"
| "memberNote store (Event_SnapshotCompacted e) status =
     Some (''SnapshotCompacted'', ''Compacted snapshot at index '' @ itoa (uint (ie_Index e)))"
| "memberNote store (Event_LogCompacted e) status =
     Some (''LogCompacted'', ''Compacted log at index '' @ itoa (uint (ie_Index e)))"
| "memberNote store (Event_LogdbCompacted e) status =
     Some (''LogCompacted'', ''Compacted log at index '' @ itoa (uint (ie_Index e)))"
| "memberNote store _ status = None"

fun groupNote :: "isEvent_Event \<Rightarrow> RaftGroupStatus \<Rightarrow> (string \<times> string) option" where
  "groupNote (Event_LeaderUpdated e) status =
     (case gs_Leader status of
        Some l \<Rightarrow> Some (''LeaderChanged'', l @ '' elected leader for term '' @ itoa (uint (lu_Term e)))
      | None \<Rightarrow> Some (''TermChanged'', ''Term changed to '' @ itoa (uint (lu_Term e))))"
| "groupNote _ status = None"

section \<open>Recording an event\<close>

text \<open>
  Reading, updating and storing a status, for members and groups alike: \<open>get\<close> and \<open>put\<close>
  access the status of an object. An object that is gone is ignored; any other error is
  returned, for the caller to retry.
\<close>

definition tryRecord :: "('w, 'o) objectClient \<Rightarrow> ('o \<Rightarrow> 's) \<Rightarrow> ('s \<Rightarrow> 'o \<Rightarrow> 'o) \<Rightarrow> NamespacedName \<Rightarrow>
    's update \<Rightarrow> ('o \<Rightarrow> ('w, unit) state) \<Rightarrow> ('w, k8sError + unit) state" where
  "tryRecord client get put name updater recorder = do {
     r \<leftarrow> cl_Get client name;
     (case r of
        Inl err \<Rightarrow> if IsNotFound err then ok () else fails err
      | Inr obj \<Rightarrow>
          (let (updated, status) = updater (get obj) in
           if updated
           then do {
             r' \<leftarrow> cl_StatusUpdate client (put status obj);
             (case r' of
                Inl err \<Rightarrow> if IsNotFound err then ok () else fails err
              | Inr obj' \<Rightarrow> do { _ \<leftarrow> recorder obj'; ok () })
           }
           else ok ()))
   }"

text \<open>
  \<^verbatim>\<open>backoff.Retry\<close> repeats a call until it succeeds or the default maximum elapsed time is
  over; how many attempts that leaves is an argument, and the outcome is dropped.
\<close>

fun retry :: "nat \<Rightarrow> ('w, k8sError + unit) state \<Rightarrow> ('w, unit) state" where
  "retry 0 call = ret ()"
| "retry (Suc n) call = do { r \<leftarrow> call; (case r of Inr _ \<Rightarrow> ret () | Inl _ \<Rightarrow> retry n call) }"

definition putMemberStatus :: "'t RaftMemberStatus \<Rightarrow> 't RaftMember \<Rightarrow> 't RaftMember" where
  "putMemberStatus st m = m\<lparr>rm_Status := st\<rparr>"

definition putGroupStatus :: "RaftGroupStatus \<Rightarrow> RaftGroup \<Rightarrow> RaftGroup" where
  "putGroupStatus st g = g\<lparr>rg_Status := st\<rparr>"

definition emitNote :: "('w, 't) clusterEnv \<Rightarrow> ObjectMeta \<Rightarrow> (string \<times> string) option \<Rightarrow> ('w, unit) state" where
  "emitNote env meta note =
     (case note of None \<Rightarrow> ret () | Some (reason, msg) \<Rightarrow> k_Event env meta reason msg)"

definition recordMemberEvent :: "nat \<Rightarrow> ('w, 't) clusterEnv \<Rightarrow> NamespacedName \<Rightarrow> 't \<Rightarrow> isEvent_Event \<Rightarrow>
    ('w, unit) state" where
  "recordMemberEvent attempts env store timestamp event =
     (case memberUpdate store timestamp event of
        None \<Rightarrow> ret ()
      | Some (me, updater) \<Rightarrow>
          retry attempts (tryRecord (k_Members env) rm_Status putMemberStatus
            (watchedMemberName store me) updater
            (\<lambda>m. emitNote env (rm_Meta m) (memberNote store event (rm_Status m)))))"

definition recordGroupEvent :: "nat \<Rightarrow> ('w, 't) clusterEnv \<Rightarrow> NamespacedName \<Rightarrow> isEvent_Event \<Rightarrow>
    ('w, unit) state" where
  "recordGroupEvent attempts env store event =
     (case groupUpdate store event of
        None \<Rightarrow> ret ()
      | Some (g, updater) \<Rightarrow>
          retry attempts (tryRecord (k_Groups env) rg_Status putGroupStatus
            (watchedGroupName store g) updater
            (\<lambda>grp. emitNote env (rg_Meta grp) (groupNote event (rg_Status grp)))))"

definition handleEvent :: "nat \<Rightarrow> ('w, 't) clusterEnv \<Rightarrow> NamespacedName \<Rightarrow> 't Event \<Rightarrow> ('w, unit) state" where
  "handleEvent attempts env store event =
     (case ev_Event event of
        None \<Rightarrow> ret ()
      | Some e \<Rightarrow> do {
          _ \<leftarrow> recordMemberEvent attempts env store (ev_Timestamp event) e;
          recordGroupEvent attempts env store e
        })"

text \<open>
  The receiving loop on what the stream returns: it ends when the stream is complete or
  cancelled, and goes on after any other error. The result tells whether it has ended.
\<close>

datatype 't received = Received "'t Event" | StreamComplete | StreamCanceled | StreamError string

fun watchLoop :: "nat \<Rightarrow> ('w, 't) clusterEnv \<Rightarrow> NamespacedName \<Rightarrow> 't received list \<Rightarrow> ('w, bool) state" where
  "watchLoop attempts env store [] = ret False"
| "watchLoop attempts env store (StreamComplete # rs) = ret True"
| "watchLoop attempts env store (StreamCanceled # rs) = ret True"
| "watchLoop attempts env store (StreamError err # rs) = watchLoop attempts env store rs"
| "watchLoop attempts env store (Received event # rs) =
     do { _ \<leftarrow> handleEvent attempts env store event; watchLoop attempts env store rs }"

section \<open>The table of streams\<close>

text \<open>
  Goroutines are numbered as they start. A watch does nothing if the address has an entry;
  otherwise it enters the cancel function of a new goroutine, which removes the entry of
  its address when it ends. A goroutine ends once it is cancelled, or by itself when its
  stream completes, is cancelled or cannot be opened.
\<close>

record watchTable =
  wt_watchers :: "string \<rightharpoonup> nat"
  wt_next :: nat
  wt_address :: "nat \<Rightarrow> string"
  wt_running :: "nat \<Rightarrow> bool"
  wt_cancelled :: "nat \<Rightarrow> bool"

definition newWatchTable :: watchTable where
  "newWatchTable = \<lparr>wt_watchers = Map.empty, wt_next = 0, wt_address = (\<lambda>_. []),
     wt_running = (\<lambda>_. False), wt_cancelled = (\<lambda>_. False)\<rparr>"

definition watch :: "string \<Rightarrow> watchTable \<Rightarrow> watchTable" where
  "watch address t =
     (case wt_watchers t address of
        Some _ \<Rightarrow> t
      | None \<Rightarrow> (let g = wt_next t in
          t\<lparr>wt_watchers := (wt_watchers t)(address \<mapsto> g), wt_next := g + 1,
            wt_address := (wt_address t)(g := address), wt_running := (wt_running t)(g := True)\<rparr>))"

definition unwatch :: "string \<Rightarrow> watchTable \<Rightarrow> watchTable" where
  "unwatch address t =
     (case wt_watchers t address of
        None \<Rightarrow> t
      | Some g \<Rightarrow> t\<lparr>wt_cancelled := (wt_cancelled t)(g := True)\<rparr>)"

definition endWatch :: "nat \<Rightarrow> watchTable \<Rightarrow> watchTable" where
  "endWatch g t =
     t\<lparr>wt_watchers := (wt_watchers t)(wt_address t g := None), wt_running := (wt_running t)(g := False)\<rparr>"

datatype watchAction = DoWatch string | DoUnwatch string | DoEndWatch nat

fun watchAct :: "watchAction \<Rightarrow> watchTable \<Rightarrow> watchTable option" where
  "watchAct (DoWatch a) t = Some (watch a t)"
| "watchAct (DoUnwatch a) t = Some (unwatch a t)"
| "watchAct (DoEndWatch g) t = (if wt_running t g then Some (endWatch g t) else None)"

fun watchActs :: "watchAction list \<Rightarrow> watchTable \<Rightarrow> watchTable option" where
  "watchActs [] t = Some t"
| "watchActs (a # as) t = (case watchAct a t of Some t' \<Rightarrow> watchActs as t' | None \<Rightarrow> None)"

section \<open>Reconciling a pod\<close>

definition hasFinalizer :: "string list \<Rightarrow> string \<Rightarrow> bool" where
  "hasFinalizer finalizers name \<longleftrightarrow> list_ex (\<lambda>f. f = name) finalizers"

definition addFinalizer :: "string list \<Rightarrow> string \<Rightarrow> string list" where
  "addFinalizer finalizers name = finalizers @ [name]"

definition removeFinalizer :: "string list \<Rightarrow> string \<Rightarrow> string list" where
  "removeFinalizer finalizers name = filter (\<lambda>f. f \<noteq> name) finalizers"

definition podAddress :: "string \<Rightarrow> Pod \<Rightarrow> string \<Rightarrow> string" where
  "podAddress domain pod store =
     getPodDNSName domain (om_Namespace (pod_Meta pod)) store (om_Name (pod_Meta pod)) @ '':'' @ itoa apiPort"

definition setFinalizers :: "Pod \<Rightarrow> string list \<Rightarrow> Pod" where
  "setFinalizers pod fs = pod\<lparr>pod_Meta := (pod_Meta pod)\<lparr>om_Finalizers := fs\<rparr>\<rparr>"

text \<open>The controller runs on the world and its own table.\<close>

definition inWorld :: "('w, 'a) state \<Rightarrow> ('w \<times> watchTable, 'a) state" where
  "inWorld c = State (\<lambda>(w, t). let (r, w') = run_state c w in (r, (w', t)))"

definition onTable :: "(watchTable \<Rightarrow> watchTable) \<Rightarrow> ('w \<times> watchTable, k8sError + unit) state" where
  "onTable f = State (\<lambda>(w, t). (Inr (), (w, f t)))"

definition reconcileCreate :: "('w, Pod) objectClient \<Rightarrow> string \<Rightarrow> Pod \<Rightarrow> ('w \<times> watchTable, k8sError + unit) state" where
  "reconcileCreate pods domain pod =
     (case om_Annotations (pod_Meta pod) multiRaftStoreKey of
        None \<Rightarrow> ok ()
      | Some store \<Rightarrow>
          (let finalizers = om_Finalizers (pod_Meta pod) in
           if \<not> hasFinalizer finalizers multiRaftPodFinalizer
           then bindE (inWorld (cl_Update pods
                  (setFinalizers pod (addFinalizer finalizers multiRaftPodFinalizer)))) (\<lambda>_. ok ())
           else onTable (watch (podAddress domain pod store))))"

definition reconcileDelete :: "('w, Pod) objectClient \<Rightarrow> string \<Rightarrow> Pod \<Rightarrow> ('w \<times> watchTable, k8sError + unit) state" where
  "reconcileDelete pods domain pod =
     (case om_Annotations (pod_Meta pod) multiRaftStoreKey of
        None \<Rightarrow> ok ()
      | Some store \<Rightarrow>
          (let finalizers = om_Finalizers (pod_Meta pod) in
           if \<not> hasFinalizer finalizers multiRaftPodFinalizer then ok ()
           else bindE (onTable (unwatch (podAddress domain pod store))) (\<lambda>_.
                bindE (inWorld (cl_Update pods
                  (setFinalizers pod (removeFinalizer finalizers multiRaftPodFinalizer)))) (\<lambda>_. ok ()))))"

definition pod_Reconcile :: "('w, Pod) objectClient \<Rightarrow> string \<Rightarrow> NamespacedName \<Rightarrow>
    ('w \<times> watchTable, k8sError + reconcileResult) state" where
  "pod_Reconcile pods domain request = do {
     r \<leftarrow> inWorld (cl_Get pods request);
     (case r of
        Inl err \<Rightarrow> if IsNotFound err then ok noRequeue else fails err
      | Inr pod \<Rightarrow>
          bindE (if om_DeletionTimestamp (pod_Meta pod) \<noteq> None
                 then reconcileDelete pods domain pod
                 else reconcileCreate pods domain pod) (\<lambda>_. ok noRequeue))
   }"

lemmas table_defs = watch_def unwatch_def endWatch_def newWatchTable_def

section \<open>How the statuses evolve\<close>

definition memberStep :: "NamespacedName \<Rightarrow> 't Event \<Rightarrow> 't RaftMemberStatus \<Rightarrow> 't RaftMemberStatus" where
  "memberStep store event s =
     (case ev_Event event of
        None \<Rightarrow> s
      | Some e \<Rightarrow> (case memberUpdate store (ev_Timestamp event) e of
            None \<Rightarrow> s
          | Some (me, upd) \<Rightarrow> snd (upd s)))"

definition groupStep :: "NamespacedName \<Rightarrow> isEvent_Event \<Rightarrow> RaftGroupStatus \<Rightarrow> RaftGroupStatus" where
  "groupStep store e s =
     (case groupUpdate store e of None \<Rightarrow> s | Some (g, upd) \<Rightarrow> snd (upd s))"

definition knownMembers :: "RaftGroupStatus \<Rightarrow> string set" where
  "knownMembers s = set (gs_Followers s) \<union> set_option (gs_Leader s)"

lemma groupLeader_known:
  "knownMembers s \<subseteq> knownMembers (snd (groupLeader store e s))"
  by (auto simp: knownMembers_def groupLeader_def Let_def split: option.splits if_splits)

lemma groupStep_ok: "group_status_ok s \<Longrightarrow> group_status_ok (groupStep store e s)"
  using group_ready.keeps group_leader.keeps
  by (cases "(store, e)" rule: groupUpdate.cases) (simp_all add: groupStep_def Let_def)

lemma groupStep_known: "knownMembers s \<subseteq> knownMembers (groupStep store e s)"
proof (cases "(store, e)" rule: groupUpdate.cases)
  case (1 store' e')
  then show ?thesis
    by (auto simp: groupStep_def Let_def groupMemberReady_def knownMembers_def)
qed (auto simp: groupStep_def dest: set_mp [OF groupLeader_known])

text \<open>Leader events, oldest first.\<close>

definition foldLeaders :: "NamespacedName \<Rightarrow> LeaderUpdatedEvent list \<Rightarrow> RaftGroupStatus \<Rightarrow> RaftGroupStatus" where
  "foldLeaders store es s = fold (\<lambda>e s. snd (groupLeader store e s)) es s"

text \<open>
  The specification: the newest term any event names, and the leader some event of that
  term names, if one does.
\<close>

definition leader_spec :: "NamespacedName \<Rightarrow> LeaderUpdatedEvent set \<Rightarrow> RaftGroupStatus \<Rightarrow> bool" where
  "leader_spec store E s \<longleftrightarrow>
     (if E = {} then gs_Term s = None \<and> gs_Leader s = None
      else \<exists>t. gs_Term s = Some t \<and> (\<forall>e \<in> E. lu_Term e \<le> t) \<and> (\<exists>e \<in> E. lu_Term e = t) \<and>
        (\<forall>e \<in> E. lu_Term e = t \<longrightarrow> lu_Leader e \<noteq> 0 \<longrightarrow>
           gs_Leader s = Some (watchedMemberRef store (me_GroupID (lu_MemberEvent e)) (lu_Leader e))) \<and>
        ((\<forall>e \<in> E. lu_Term e = t \<longrightarrow> lu_Leader e = 0) \<longrightarrow> gs_Leader s = None))"

definition one_leader :: "LeaderUpdatedEvent set \<Rightarrow> bool" where
  "one_leader E \<longleftrightarrow> (\<forall>e \<in> E. \<forall>e' \<in> E.
     me_GroupID (lu_MemberEvent e) = me_GroupID (lu_MemberEvent e') \<and>
     (lu_Term e = lu_Term e' \<longrightarrow> lu_Leader e \<noteq> 0 \<longrightarrow> lu_Leader e' \<noteq> 0 \<longrightarrow> lu_Leader e = lu_Leader e'))"

lemma leader_spec_step:
  assumes spec: "leader_spec store E s" and one: "one_leader (insert e E)"
  shows "leader_spec store (insert e E) (snd (groupLeader store e s))"
proof (cases "E = {}")
  case True
  then show ?thesis
    using spec by (simp add: leader_spec_def groupLeader_def leaderNews_def Let_def)
next
  case False
  then obtain t where t: "gs_Term s = Some t" "\<forall>e \<in> E. lu_Term e \<le> t" "\<exists>e \<in> E. lu_Term e = t"
      "\<forall>e \<in> E. lu_Term e = t \<longrightarrow> lu_Leader e \<noteq> 0 \<longrightarrow>
           gs_Leader s = Some (watchedMemberRef store (me_GroupID (lu_MemberEvent e)) (lu_Leader e))"
      "(\<forall>e \<in> E. lu_Term e = t \<longrightarrow> lu_Leader e = 0) \<longrightarrow> gs_Leader s = None"
    using spec by (auto simp: leader_spec_def)
  let ?ref = "\<lambda>e. Some (watchedMemberRef store (me_GroupID (lu_MemberEvent e)) (lu_Leader e))"
  consider (newer) "t < lu_Term e" | (elected) "lu_Term e = t" "gs_Leader s = None" "lu_Leader e \<noteq> 0"
    | (stale) "\<not> leaderNews (gs_Term s) (gs_Leader s) (lu_Term e) (lu_Leader e)"
    by (auto simp: leaderNews_def t(1))
  then show ?thesis
  proof cases
    case newer
    then have "\<forall>e' \<in> E. lu_Term e' < lu_Term e" using t(2) by auto
    with newer t(1) show ?thesis
      by (auto simp: leader_spec_def groupLeader_def leaderNews_def Let_def less_imp_le)
  next
    case elected
    then have "\<forall>e' \<in> E. lu_Term e' = t \<longrightarrow> lu_Leader e' = 0" using t(4) by fastforce
    with elected t(1,2) show ?thesis
      by (auto simp: leader_spec_def groupLeader_def leaderNews_def Let_def)
  next
    case stale
    then have same: "snd (groupLeader store e s) = s" by (simp add: groupLeader_def)
    from stale have le: "lu_Term e \<le> t"
      and lead: "lu_Term e = t \<Longrightarrow> lu_Leader e \<noteq> 0 \<Longrightarrow> gs_Leader s \<noteq> None"
      by (auto simp: leaderNews_def t(1))
    have "gs_Leader s = ?ref e" if h: "lu_Term e = t" "lu_Leader e \<noteq> 0"
    proof -
      obtain e' where e': "e' \<in> E" "lu_Term e' = t" "lu_Leader e' \<noteq> 0"
        using lead [OF h] t(5) by metis
      with one h have "lu_Leader e' = lu_Leader e"
        "me_GroupID (lu_MemberEvent e') = me_GroupID (lu_MemberEvent e)"
        unfolding one_leader_def by (metis insertI1 insertI2)+
      with t(4) e' show ?thesis by auto
    qed
    with t le show ?thesis unfolding same by (auto simp: leader_spec_def)
  qed
qed

lemma one_leader_subset: "one_leader E \<Longrightarrow> F \<subseteq> E \<Longrightarrow> one_leader F"
  unfolding one_leader_def by blast

lemma foldLeaders_spec:
  assumes "leader_spec store E s" and "one_leader (set es \<union> E)"
  shows "leader_spec store (set es \<union> E) (foldLeaders store es s)"
  using assms
proof (induction es arbitrary: E s)
  case Nil
  then show ?case by (simp add: foldLeaders_def)
next
  case (Cons e es)
  have "leader_spec store (insert e E) (snd (groupLeader store e s))"
    by (rule leader_spec_step [OF Cons.prems(1)]) (rule one_leader_subset [OF Cons.prems(2)], auto)
  from Cons.IH [OF this] Cons.prems(2) show ?case by (simp add: foldLeaders_def)
qed

lemma leader_spec_unique:
  assumes "leader_spec store E s" and "leader_spec store E s'"
  shows "gs_Term s = gs_Term s' \<and> gs_Leader s = gs_Leader s'"
proof (cases "E = {}")
  case True
  then show ?thesis using assms by (simp add: leader_spec_def)
next
  case False
  then obtain t t' where t: "gs_Term s = Some t" "\<forall>e \<in> E. lu_Term e \<le> t" "\<exists>e \<in> E. lu_Term e = t"
    "gs_Term s' = Some t'" "\<forall>e \<in> E. lu_Term e \<le> t'" "\<exists>e \<in> E. lu_Term e = t'"
    using assms by (auto simp: leader_spec_def)
  then have eq: "t = t'" by (metis order_antisym)
  show ?thesis
  proof (cases "\<exists>e \<in> E. lu_Term e = t \<and> lu_Leader e \<noteq> 0")
    case True
    with assms False t eq show ?thesis by (auto simp: leader_spec_def)
  next
    case False
    with assms \<open>E \<noteq> {}\<close> t eq show ?thesis by (auto simp: leader_spec_def)
  qed
qed

section \<open>Properties\<close>

text \<open>
  C17. Whatever the nodes report, in whatever order, a group's status stays sound: its
  leader is never listed as a follower, no follower is listed twice, and no member that
  was ever the leader or a follower is lost.
\<close>

theorem group_status_stays_sound:
  assumes "group_status_ok s"
  shows "group_status_ok (fold (groupStep store) es s) \<and>
    knownMembers s \<subseteq> knownMembers (fold (groupStep store) es s)"
  using assms
proof (induction es arbitrary: s)
  case (Cons e es)
  from Cons.IH [OF groupStep_ok [OF Cons.prems]] groupStep_known [of s store e]
  show ?case by fastforce
qed simp

definition sampleLeaderEvent :: "Term \<Rightarrow> MemberID \<Rightarrow> LeaderUpdatedEvent" where
  "sampleLeaderEvent t l = \<lparr>lu_MemberEvent = \<lparr>me_GroupID = 1, me_MemberID = 1\<rparr>, lu_Term = t, lu_Leader = l\<rparr>"

theorem group_status_stays_sound_witness:
  "group_status_ok (fold (groupStep \<lparr>nn_Namespace = ''ns'', nn_Name = ''raft''\<rparr>)
     [Event_LeaderUpdated (sampleLeaderEvent 1 1), Event_LeaderUpdated (sampleLeaderEvent 2 2),
      Event_MemberReady \<lparr>pe_MemberEvent = \<lparr>me_GroupID = 1, me_MemberID = 2\<rparr>\<rparr>] zeroGroupStatus)"
proof -
  have "group_status_ok zeroGroupStatus" by (simp add: group_status_ok_def zeroGroupStatus_def)
  from group_status_stays_sound [OF this] show ?thesis by blast
qed

text \<open>
  C16. The recorded leader does not depend on the order in which the members' streams
  deliver their events: under Raft's election safety (a term has one leader), from the
  empty status, a group ends with the newest term any event names and the leader of that
  term if any event names it; so two orders of the same events, or two sets of repeated
  events, give the same term and leader.
\<close>

theorem leader_order_irrelevant:
  assumes "one_leader (set es)" and "set es = set es'"
  shows "leader_spec store (set es) (foldLeaders store es zeroGroupStatus) \<and>
    gs_Term (foldLeaders store es zeroGroupStatus) = gs_Term (foldLeaders store es' zeroGroupStatus) \<and>
    gs_Leader (foldLeaders store es zeroGroupStatus) = gs_Leader (foldLeaders store es' zeroGroupStatus)"
proof -
  have zero: "leader_spec store {} zeroGroupStatus"
    by (simp add: leader_spec_def zeroGroupStatus_def)
  have s: "leader_spec store (set es) (foldLeaders store es zeroGroupStatus)"
    and s': "leader_spec store (set es) (foldLeaders store es' zeroGroupStatus)"
    using foldLeaders_spec [OF zero, of es] foldLeaders_spec [OF zero, of es'] assms by simp_all
  from leader_spec_unique [OF s s'] s show ?thesis by blast
qed

theorem leader_order_irrelevant_witness:
  "gs_Leader (foldLeaders \<lparr>nn_Namespace = ''ns'', nn_Name = ''raft''\<rparr>
      [sampleLeaderEvent 2 0, sampleLeaderEvent 1 1, sampleLeaderEvent 2 3] zeroGroupStatus) =
   gs_Leader (foldLeaders \<lparr>nn_Namespace = ''ns'', nn_Name = ''raft''\<rparr>
      [sampleLeaderEvent 2 3, sampleLeaderEvent 2 0, sampleLeaderEvent 1 1] zeroGroupStatus)"
proof -
  have one: "one_leader (set [sampleLeaderEvent 2 0, sampleLeaderEvent 1 1, sampleLeaderEvent 2 3])"
    by (simp add: one_leader_def sampleLeaderEvent_def)
  have perm: "set [sampleLeaderEvent 2 0, sampleLeaderEvent 1 1, sampleLeaderEvent 2 3] =
      set [sampleLeaderEvent 2 3, sampleLeaderEvent 2 0, sampleLeaderEvent 1 1]"
    by auto
  from leader_order_irrelevant [OF one perm] show ?thesis by blast
qed

lemma funpow_same: "((\<lambda>s. s) ^^ n) x = x"
  by (induction n) simp_all

text \<open>
  A delivered event can be delivered again, as the replay of a new stream does:
  recording any event any number of times leaves the member's and the group's status as
  recording it once.
\<close>
theorem replays_are_harmless:
  assumes "0 < n" and "group_status_ok gs"
  shows "(memberStep store event ^^ n) ms = memberStep store event ms \<and>
    (groupStep store e ^^ n) gs = groupStep store e gs"
proof -
  have noted: "((\<lambda>s. snd (noteOnly s)) ^^ n) ms = snd (noteOnly ms)"
    by (induction n) (simp_all add: noteOnly_def)
  note once = member_ready.repeat_once [OF _ assms(1)] member_leader.repeat_once [OF _ assms(1)]
    member_snapshot.repeat_once [OF _ assms(1)] noted funpow_same
  have "(memberStep store event ^^ n) ms = memberStep store event ms"
  proof (cases "ev_Event event")
    case None
    then have "memberStep store event = (\<lambda>s. s)" by (simp add: memberStep_def fun_eq_iff)
    then show ?thesis by (simp add: funpow_same)
  next
    case (Some x)
    then have step: "memberStep store event = (\<lambda>s. case memberUpdate store (ev_Timestamp event) x of
        None \<Rightarrow> s | Some (me, upd) \<Rightarrow> snd (upd s))"
      by (simp add: memberStep_def fun_eq_iff)
    show ?thesis unfolding step by (cases x) (simp_all add: once)
  qed
  moreover have "(groupStep store e ^^ n) gs = groupStep store e gs"
  proof (cases "groupUpdate store e")
    case None
    then have "groupStep store e = (\<lambda>s. s)" by (simp add: groupStep_def fun_eq_iff)
    then show ?thesis by (simp add: funpow_same)
  next
    case (Some gu)
    then have "groupStep store e = (\<lambda>s. snd (snd gu s))"
      by (simp add: groupStep_def fun_eq_iff split_beta)
    with Some show ?thesis
      using group_ready.repeat_once [OF assms(2,1)] group_leader.repeat_once [OF assms(2,1)]
      by (cases e) (auto simp: Let_def)
  qed
  ultimately show ?thesis by blast
qed

theorem replays_are_harmless_witness:
  "(groupStep \<lparr>nn_Namespace = ''ns'', nn_Name = ''raft''\<rparr> (Event_LeaderUpdated (sampleLeaderEvent 4 2)) ^^ 3)
      zeroGroupStatus =
   groupStep \<lparr>nn_Namespace = ''ns'', nn_Name = ''raft''\<rparr> (Event_LeaderUpdated (sampleLeaderEvent 4 2))
      zeroGroupStatus"
proof -
  have "group_status_ok zeroGroupStatus" by (simp add: group_status_ok_def zeroGroupStatus_def)
  then show ?thesis by (rule replays_are_harmless [OF zero_less_numeral, THEN conjunct2])
qed

fun opt_le :: "uint64 option \<Rightarrow> uint64 option \<Rightarrow> bool" where
  "opt_le None y = True"
| "opt_le (Some x) None = False"
| "opt_le (Some x) (Some y) = (x \<le> y)"

lemma opt_le_refl: "opt_le x x" by (cases x) simp_all

lemma opt_le_trans: "opt_le x y \<Longrightarrow> opt_le y z \<Longrightarrow> opt_le x z"
  by (cases x; cases y; cases z) auto

lemma memberStep_grows:
  "opt_le (ms_Term s) (ms_Term (memberStep store event s)) \<and>
   opt_le (ms_LastSnapshotIndex s) (ms_LastSnapshotIndex (memberStep store event s))"
proof -
  have l: "opt_le (ms_Term s) (ms_Term (snd (memberLeader store t e s)))"
    "ms_LastSnapshotIndex (snd (memberLeader store t e s)) = ms_LastSnapshotIndex s" for t e
    by (auto simp: memberLeader_def leaderNews_def Let_def opt_le_refl split: option.splits)
  have x: "opt_le (ms_LastSnapshotIndex s) (ms_LastSnapshotIndex (snd (memberSnapshot t i s)))"
    "ms_Term (snd (memberSnapshot t i s)) = ms_Term s" for t i
    by (auto simp: memberSnapshot_def opt_le_refl split: option.splits)
  show ?thesis
  proof (cases "ev_Event event")
    case None
    then show ?thesis by (simp add: memberStep_def opt_le_refl)
  next
    case (Some ev)
    then show ?thesis
      by (cases ev) (simp_all add: memberStep_def opt_le_refl l x memberReady_def noteOnly_def)
  qed
qed

text \<open>
  What a member's status says never goes back: over any sequence of events, the
  recorded term and the index of the last snapshot only grow.
\<close>
theorem member_status_never_goes_back:
  "opt_le (ms_Term s) (ms_Term (fold (memberStep store) es s)) \<and>
   opt_le (ms_LastSnapshotIndex s) (ms_LastSnapshotIndex (fold (memberStep store) es s))"
proof (induction es arbitrary: s)
  case Nil
  show ?case by (simp add: opt_le_refl)
next
  case (Cons e es)
  from Cons.IH [of "memberStep store e s"] memberStep_grows [of s store e]
  show ?case by (auto intro: opt_le_trans)
qed

definition table_ok :: "watchTable \<Rightarrow> bool" where
  "table_ok t \<longleftrightarrow> (\<forall>a g. wt_watchers t a = Some g \<longleftrightarrow> wt_running t g \<and> wt_address t g = a) \<and>
     (\<forall>g. wt_running t g \<longrightarrow> g < wt_next t)"

lemma watchAct_ok:
  assumes "table_ok t" and "watchAct act t = Some t'"
  shows "table_ok t'"
proof -
  have own: "wt_watchers t (wt_address t g) = Some g" if "wt_running t g" for g
    using assms(1) that by (simp add: table_ok_def)
  have other: "g' = g" if "wt_running t g" "wt_running t g'" "wt_address t g' = wt_address t g" for g g'
    using own [OF that(1)] own [OF that(2)] that(3) by simp
  show ?thesis
  proof (cases act)
    case (DoWatch a)
    show ?thesis
    proof (cases "wt_watchers t a")
      case None
      then have "wt_address t g \<noteq> a" if "wt_running t g" for g using own [OF that] by auto
      with DoWatch None assms show ?thesis
        by (auto simp: table_ok_def watch_def Let_def less_Suc_eq split: if_splits)
    qed (use DoWatch assms in \<open>simp add: watch_def\<close>)
  next
    case (DoUnwatch a)
    then show ?thesis
      using assms by (auto simp: table_ok_def unwatch_def split: option.splits)
  next
    case (DoEndWatch g)
    then show ?thesis
      using assms other by (auto simp: table_ok_def endWatch_def split: if_splits dest: other)
  qed
qed

lemma watchActs_ok: "watchActs acts t = Some t' \<Longrightarrow> table_ok t \<Longrightarrow> table_ok t'"
  by (induction acts arbitrary: t) (auto split: option.splits dest: watchAct_ok)

text \<open>
  C32. There is at most one stream per pod: in any run of watches, cancellations and
  ending goroutines, an address has an entry exactly if one goroutine is running for it,
  and that goroutine is the one entered; so an ending goroutine only ever removes itself.
\<close>
theorem one_stream_per_pod:
  assumes "watchActs acts newWatchTable = Some t"
  shows "(\<forall>a g. wt_watchers t a = Some g \<longleftrightarrow> wt_running t g \<and> wt_address t g = a) \<and>
    (\<forall>g g'. wt_running t g \<longrightarrow> wt_running t g' \<longrightarrow> wt_address t g = wt_address t g' \<longrightarrow> g = g')"
proof -
  have "table_ok newWatchTable" by (simp add: table_ok_def newWatchTable_def)
  with assms have "table_ok t" by (rule watchActs_ok)
  then show ?thesis unfolding table_ok_def by (metis option.inject)
qed

theorem one_stream_per_pod_witness:
  "\<exists>t. watchActs [DoWatch ''a'', DoWatch ''b'', DoUnwatch ''a'', DoEndWatch 0, DoWatch ''a''] newWatchTable =
      Some t \<and> wt_running t 2 \<and> wt_watchers t ''a'' = Some 2"
proof -
  let ?as = "[DoWatch ''a'', DoWatch ''b'', DoUnwatch ''a'', DoEndWatch 0, DoWatch ''a'']"
  obtain t where t: "watchActs ?as newWatchTable = Some t" "wt_watchers t ''a'' = Some 2"
    by (simp add: table_defs)
  from one_stream_per_pod [OF t(1)] t show ?thesis by blast
qed

text \<open>
  A pod can be left without a stream: if it is deleted and created again under its
  name before the cancelled goroutine has ended, the new watch finds the old entry and does
  nothing, and when the goroutine ends nothing watches the pod, although its last request
  was to watch it and nothing was cancelled since.
\<close>

theorem recreated_pod_is_not_watched:
  "\<exists>t t'. watchActs [DoWatch ''a'', DoUnwatch ''a''] newWatchTable = Some t \<and>
     watchActs [DoWatch ''a'', DoEndWatch 0] t = Some t' \<and>
     wt_watchers t' ''a'' = None \<and> (\<forall>g. \<not> wt_running t' g)"
  by (simp add: table_defs)

lemma watchLoop_errors:
  "run_state (watchLoop attempts env store (map StreamError errs)) w = (False, w)"
  by (induction errs) simp_all

text \<open>
  An error of the stream never ends the watch: whatever number of errors other than a
  cancellation the stream returns, the loop goes on, records nothing and keeps the entry
  that would let a new stream be opened.
\<close>
theorem broken_stream_loops_forever:
  "run_state (watchLoop attempts env store (map StreamError errs)) w = (False, w)"
  by (rule watchLoop_errors)

text \<open>
  C33. The watcher and the cluster controller mean the same objects: for the groups and
  members the controller creates for a cluster with the store's name, the names built from
  an event's 32-bit numbers are the names the controller gave.
\<close>

theorem watcher_names_agree:
  assumes "om_Name (mrc_Meta c) = nn_Name store" and "om_Namespace (mrc_Meta c) = nn_Namespace store"
    and "0 \<le> g" "g < 2 ^ 32" "0 \<le> m" "m < 2 ^ 32"
  shows "watchedGroupName store (word_of_int g) = groupName c g \<and>
    watchedMemberName store \<lparr>me_GroupID = word_of_int g, me_MemberID = word_of_int m\<rparr> =
      metaKey (rm_Meta (newMember c (newGroup c g) g m))"
proof -
  have "uint (word_of_int g :: 32 word) = g" "uint (word_of_int m :: 32 word) = m"
    using assms(3-6) by (simp_all add: uint_word_of_int)
  with assms(1,2) show ?thesis
    by (simp add: watchedGroupName_def watchedMemberName_def watchedMemberRef_def groupName_def
        newMember_def memberName_def newGroup_def newMeta_def metaKey_def numberedName_def)
qed

theorem watcher_names_agree_witness:
  "watchedMemberName \<lparr>nn_Namespace = ''ns'', nn_Name = ''raft''\<rparr> \<lparr>me_GroupID = 2, me_MemberID = 3\<rparr> =
     metaKey (rm_Meta (newMember sampleCluster (newGroup sampleCluster 2) 2 3 :: nat RaftMember))"
proof -
  have "om_Name (mrc_Meta sampleCluster) = nn_Name \<lparr>nn_Namespace = ''ns'', nn_Name = ''raft''\<rparr>"
    "om_Namespace (mrc_Meta sampleCluster) = nn_Namespace \<lparr>nn_Namespace = ''ns'', nn_Name = ''raft''\<rparr>"
    by (simp_all add: sampleCluster_def newMeta_def)
  from watcher_names_agree [where 'a = nat, OF this, of 2 3] show ?thesis by simp
qed

end
