(* ===== verification/RecordRetry.thy ===== *)
theory RecordRetry
  imports PodWatch
begin

text \<open>
  Recording over an API server that fails (\<^verbatim>\<open>recordMemberEvent\<close>, \<^verbatim>\<open>recordGroupEvent\<close> and the
  attempts they repeat, \<^verbatim>\<open>controller/pkg/controller/consensus/v1beta1/watcher.go\<close>): a read or a
  write may return an error, and a write that returns an error may still have been stored.
  The reads that succeed are current here and nobody else writes in between; stale reads and
  concurrent writers are the theory \<open>Recording\<close>.
\<close>

section \<open>An unreliable client\<close>

text \<open>
  \<open>view\<close> reads the stored objects of one kind from the world and \<open>rest\<close> whatever else is of
  interest; \<open>fuel\<close> counts the errors still to come. A status update keeps all of the stored
  object but its status (\<open>keep\<close>).
\<close>

definition statusWritten :: "('o \<Rightarrow> NamespacedName) \<Rightarrow> ('o \<Rightarrow> 'o \<Rightarrow> 'o) \<Rightarrow> 'o \<Rightarrow>
    (NamespacedName \<rightharpoonup> 'o) \<Rightarrow> (NamespacedName \<rightharpoonup> 'o)" where
  "statusWritten key keep obj objs =
     (case objs (key obj) of None \<Rightarrow> objs | Some old \<Rightarrow> objs(key obj \<mapsto> keep obj old))"

definition unreliable :: "('w \<Rightarrow> NamespacedName \<rightharpoonup> 'o) \<Rightarrow> ('w \<Rightarrow> 'r) \<Rightarrow> ('w \<Rightarrow> nat) \<Rightarrow> ('o \<Rightarrow> NamespacedName) \<Rightarrow>
    ('o \<Rightarrow> 'o \<Rightarrow> 'o) \<Rightarrow> ('w, 'o) objectClient \<Rightarrow> bool" where
  "unreliable view rest fuel key keep client \<longleftrightarrow>
     (\<forall>n w. \<exists>r w'. run_state (cl_Get client n) w = (r, w') \<and> view w' = view w \<and> rest w' = rest w \<and>
        (r = (case view w n of None \<Rightarrow> Inl NotFound | Some obj \<Rightarrow> Inr obj) \<and> fuel w' \<le> fuel w \<or>
         (\<exists>err. r = Inl (OtherError err)) \<and> fuel w' < fuel w)) \<and>
     (\<forall>obj w. \<exists>r w'. run_state (cl_StatusUpdate client obj) w = (r, w') \<and> rest w' = rest w \<and>
        (r = map_sum id (keep obj) (case view w (key obj) of None \<Rightarrow> Inl NotFound | Some old \<Rightarrow> Inr old) \<and>
           view w' = statusWritten key keep obj (view w) \<and> fuel w' \<le> fuel w \<or>
         (\<exists>err. r = Inl (OtherError err)) \<and>
           (view w' = view w \<or> view w' = statusWritten key keep obj (view w)) \<and> fuel w' < fuel w))"

lemma run_Get_unreliable:
  assumes "unreliable view rest fuel key keep client"
  obtains (answer) w' where "run_state (cl_Get client n) w =
      ((case view w n of None \<Rightarrow> Inl NotFound | Some obj \<Rightarrow> Inr obj), w')"
    "view w' = view w" "rest w' = rest w" "fuel w' \<le> fuel w"
  | (error) err w' where "run_state (cl_Get client n) w = (Inl (OtherError err), w')"
    "view w' = view w" "rest w' = rest w" "fuel w' < fuel w"
  using assms unfolding unreliable_def by metis

lemma run_StatusUpdate_unreliable:
  assumes "unreliable view rest fuel key keep client" and "view w (key obj) = Some old"
  obtains (answer) w' where "run_state (cl_StatusUpdate client obj) w = (Inr (keep obj old), w')"
    "view w' = (view w)(key obj \<mapsto> keep obj old)" "rest w' = rest w" "fuel w' \<le> fuel w"
  | (error) err w' where "run_state (cl_StatusUpdate client obj) w = (Inl (OtherError err), w')"
    "view w' = view w \<or> view w' = (view w)(key obj \<mapsto> keep obj old)" "rest w' = rest w" "fuel w' < fuel w"
proof -
  have written: "statusWritten key keep obj (view w) = (view w)(key obj \<mapsto> keep obj old)"
    by (simp add: statusWritten_def assms(2))
  from assms(1) [unfolded unreliable_def, THEN conjunct2, rule_format, of obj w]
  show thesis using that unfolding written assms(2) by (simp) metis
qed

section \<open>One attempt and its repetition\<close>

definition applied :: "('o \<Rightarrow> 's) \<Rightarrow> ('s \<Rightarrow> 'o \<Rightarrow> 'o) \<Rightarrow> 's update \<Rightarrow> NamespacedName \<Rightarrow>
    (NamespacedName \<rightharpoonup> 'o) \<Rightarrow> (NamespacedName \<rightharpoonup> 'o)" where
  "applied get put upd name objs =
     (case objs name of None \<Rightarrow> objs | Some obj \<Rightarrow> objs(name \<mapsto> put (snd (upd (get obj))) obj))"

text \<open>What the recording of a kind of object needs of the accesses and of the update.\<close>

definition records_ok :: "('o \<Rightarrow> 's) \<Rightarrow> ('s \<Rightarrow> 'o \<Rightarrow> 'o) \<Rightarrow> ('o \<Rightarrow> NamespacedName) \<Rightarrow> ('o \<Rightarrow> 'o \<Rightarrow> 'o) \<Rightarrow>
    's update \<Rightarrow> bool" where
  "records_ok get put key keep upd \<longleftrightarrow>
     (\<forall>obj s. key (put s obj) = key obj \<and> get (put s obj) = s \<and> keep (put s obj) obj = put s obj) \<and>
     (\<forall>obj s s'. put s (put s' obj) = put s obj) \<and> (\<forall>obj. put (get obj) obj = obj) \<and>
     (\<forall>s. \<not> fst (upd s) \<longrightarrow> snd (upd s) = s) \<and> (\<forall>s. snd (upd (snd (upd s))) = snd (upd s))"

definition under_own_names :: "('o \<Rightarrow> NamespacedName) \<Rightarrow> (NamespacedName \<rightharpoonup> 'o) \<Rightarrow> bool" where
  "under_own_names key objs \<longleftrightarrow> (\<forall>n obj. objs n = Some obj \<longrightarrow> key obj = n)"

lemma applied_twice:
  assumes "records_ok get put key keep upd"
  shows "applied get put upd name (applied get put upd name objs) = applied get put upd name objs"
  using assms by (cases "objs name") (simp_all add: applied_def records_ok_def)

lemma applied_names:
  assumes "records_ok get put key keep upd" and "under_own_names key objs"
  shows "under_own_names key (applied get put upd name objs)"
  using assms by (auto simp: applied_def records_ok_def under_own_names_def split: option.splits)

definition quiet_recorder :: "('w \<Rightarrow> 'v) \<Rightarrow> ('w \<Rightarrow> 'r) \<Rightarrow> ('w \<Rightarrow> nat) \<Rightarrow> ('o \<Rightarrow> ('w, unit) state) \<Rightarrow> bool" where
  "quiet_recorder view rest fuel recorder \<longleftrightarrow>
     (\<forall>obj w. view (snd (run_state (recorder obj) w)) = view w \<and>
        rest (snd (run_state (recorder obj) w)) = rest w \<and>
        fuel (snd (run_state (recorder obj) w)) \<le> fuel w)"

lemma tryRecord_unreliable:
  assumes client: "unreliable view rest fuel key keep client"
    and ok: "records_ok get put key keep upd" and names: "under_own_names key (view w)"
    and quiet: "quiet_recorder view rest fuel recorder"
  obtains (stored) w' where "run_state (tryRecord client get put name upd recorder) w = (Inr (), w')"
    "view w' = applied get put upd name (view w)" "rest w' = rest w" "fuel w' \<le> fuel w"
  | (failed) err w' where "run_state (tryRecord client get put name upd recorder) w = (Inl err, w')"
    "view w' = view w \<or> view w' = applied get put upd name (view w)" "rest w' = rest w" "fuel w' < fuel w"
proof (cases rule: run_Get_unreliable [OF client, where n = name and w = w])
  case (2 err w')
  then show thesis using failed [of "OtherError err" w'] by (simp add: tryRecord_def IsNotFound_def)
next
  case (1 w1)
  note get = 1
  show thesis
  proof (cases "view w name")
    case None
    with get show thesis using stored [of w1] by (simp add: tryRecord_def applied_def IsNotFound_def)
  next
    case (Some obj)
    obtain b s where upd: "upd (get obj) = (b, s)" by fastforce
    show thesis
    proof (cases b)
      case False
      with ok upd have "put s obj = obj" unfolding records_ok_def by (metis fst_conv snd_conv)
      with False get upd Some show thesis
        using stored [of w1] by (simp add: tryRecord_def applied_def fun_upd_idem)
    next
      case True
      have put: "key (put s obj) = name" "keep (put s obj) obj = put s obj"
        using ok names Some unfolding records_ok_def under_own_names_def by metis+
      have here: "view w1 (key (put s obj)) = Some obj" using get(2) Some put(1) by simp
      have goal: "applied get put upd name (view w) = (view w)(name \<mapsto> put s obj)"
        by (simp add: applied_def Some upd)
      show thesis
      proof (cases rule: run_StatusUpdate_unreliable [OF client, where w = w1 and obj = "put s obj" and old = obj, OF here])
        case (1 w2)
        note answer = 1
        let ?w3 = "snd (run_state (recorder (put s obj)) w2)"
        have "view ?w3 = view w2" "rest ?w3 = rest w2" "fuel ?w3 \<le> fuel w2"
          using quiet unfolding quiet_recorder_def by blast+
        with answer get put goal show thesis
          using stored [of ?w3] True upd Some by (simp add: tryRecord_def split_beta)
      next
        case (2 err w2)
        note error = 2
        with get put goal show thesis
          using failed [of "OtherError err" w2] True upd Some by (simp add: tryRecord_def IsNotFound_def)
      qed
    qed
  qed
qed

lemma retry_unreliable:
  assumes client: "unreliable view rest fuel key keep client"
    and ok: "records_ok get put key keep upd" and quiet: "quiet_recorder view rest fuel recorder"
  shows "under_own_names key (view w) \<Longrightarrow> fuel w < attempts \<Longrightarrow>
    (let w' = snd (run_state (retry attempts (tryRecord client get put name upd recorder)) w)
     in view w' = applied get put upd name (view w) \<and> rest w' = rest w \<and> fuel w' \<le> fuel w)"
proof (induction attempts arbitrary: w)
  case (Suc n)
  show ?case
  proof (cases rule: tryRecord_unreliable [OF client ok Suc.prems(1) quiet, where name = name])
    case (1 w')
    then show ?thesis by simp
  next
    case (2 err w')
    note failed = 2
    have "under_own_names key (view w')"
      using failed(2) Suc.prems(1) applied_names [OF ok Suc.prems(1)] by auto
    moreover have "fuel w' < n" using failed(4) Suc.prems(2) by simp
    moreover have "applied get put upd name (view w') = applied get put upd name (view w)"
      using failed(2) applied_twice [OF ok] by metis
    ultimately show ?thesis using Suc.IH [of w'] failed by (simp add: Let_def)
  qed
qed simp

text \<open>An update that reports no change is not sent, whatever sending it would do.\<close>

lemma tryRecord_no_news:
  assumes client: "unreliable view rest fuel key keep client"
    and none: "\<And>obj. view w name = Some obj \<Longrightarrow> \<not> fst (upd (get obj))"
  shows "run_state (tryRecord (client\<lparr>cl_StatusUpdate := su\<rparr>) get put name upd recorder) w =
      run_state (tryRecord client get put name upd recorder) w"
    and "view (snd (run_state (tryRecord client get put name upd recorder) w)) = view w"
proof -
  have "run_state (tryRecord (client\<lparr>cl_StatusUpdate := su\<rparr>) get put name upd recorder) w =
      run_state (tryRecord client get put name upd recorder) w \<and>
    view (snd (run_state (tryRecord client get put name upd recorder) w)) = view w"
  proof (cases rule: run_Get_unreliable [OF client, where n = name and w = w])
    case (2 err w')
    then show ?thesis by (simp add: tryRecord_def IsNotFound_def)
  next
    case (1 w1)
    note answer = 1
    show ?thesis
    proof (cases "view w name")
      case None
      with answer show ?thesis by (simp add: tryRecord_def IsNotFound_def)
    next
      case (Some obj)
      with none answer show ?thesis by (cases "upd (get obj)") (simp add: tryRecord_def)
    qed
  qed
  then show "run_state (tryRecord (client\<lparr>cl_StatusUpdate := su\<rparr>) get put name upd recorder) w =
      run_state (tryRecord client get put name upd recorder) w"
    and "view (snd (run_state (tryRecord client get put name upd recorder) w)) = view w" by blast+
qed

lemma retry_no_news:
  assumes client: "unreliable view rest fuel key keep client"
  shows "(\<And>obj. view w name = Some obj \<Longrightarrow> \<not> fst (upd (get obj))) \<Longrightarrow>
    run_state (retry attempts (tryRecord (client\<lparr>cl_StatusUpdate := su\<rparr>) get put name upd recorder)) w =
      run_state (retry attempts (tryRecord client get put name upd recorder)) w"
proof (induction attempts arbitrary: w)
  case (Suc n)
  note same = tryRecord_no_news [OF client, where w = w and name = name and upd = upd and get = get, OF Suc.prems]
  obtain r w' where run: "run_state (tryRecord client get put name upd recorder) w = (r, w')" by fastforce
  with same(2) [of put recorder] have "view w' = view w" by simp
  with Suc.IH [of w'] Suc.prems same(1) [of su put recorder] run show ?case by (cases r) simp_all
qed simp

section \<open>The updates of the events\<close>

definition memberTarget :: "NamespacedName \<Rightarrow> 't Event \<Rightarrow> NamespacedName option" where
  "memberTarget store event =
     (case ev_Event event of
        None \<Rightarrow> None
      | Some e \<Rightarrow> map_option (\<lambda>(me, _). watchedMemberName store me) (memberUpdate store (ev_Timestamp event) e))"

definition groupTarget :: "NamespacedName \<Rightarrow> 't Event \<Rightarrow> NamespacedName option" where
  "groupTarget store event =
     (case ev_Event event of
        None \<Rightarrow> None
      | Some e \<Rightarrow> map_option (\<lambda>(g, _). watchedGroupName store g) (groupUpdate store e))"

text \<open>Whether an event is news to a status.\<close>

definition memberNews :: "NamespacedName \<Rightarrow> 't Event \<Rightarrow> 't RaftMemberStatus \<Rightarrow> bool" where
  "memberNews store event s =
     (case ev_Event event of
        None \<Rightarrow> False
      | Some e \<Rightarrow> (case memberUpdate store (ev_Timestamp event) e of
            None \<Rightarrow> False | Some (me, upd) \<Rightarrow> fst (upd s)))"

definition groupNews :: "NamespacedName \<Rightarrow> 't Event \<Rightarrow> RaftGroupStatus \<Rightarrow> bool" where
  "groupNews store event s =
     (case ev_Event event of
        None \<Rightarrow> False
      | Some e \<Rightarrow> (case groupUpdate store e of None \<Rightarrow> False | Some (g, upd) \<Rightarrow> fst (upd s)))"

definition keepMember :: "'t RaftMember \<Rightarrow> 't RaftMember \<Rightarrow> 't RaftMember" where
  "keepMember m old = old\<lparr>rm_Status := rm_Status m\<rparr>"

definition keepGroup :: "RaftGroup \<Rightarrow> RaftGroup \<Rightarrow> RaftGroup" where
  "keepGroup g old = old\<lparr>rg_Status := rg_Status g\<rparr>"

lemma memberUpdate_settles:
  assumes "memberUpdate store t e = Some (me, upd)"
  shows "(\<not> fst (upd s) \<longrightarrow> snd (upd s) = s) \<and> snd (upd (snd (upd s))) = snd (upd s)"
  using assms member_ready.unchanged member_ready.again member_leader.unchanged member_leader.again
    member_snapshot.unchanged member_snapshot.again
  by (cases "(store, t, e)" rule: memberUpdate.cases) (auto simp: noteOnly_def)

lemma groupUpdate_settles:
  assumes "groupUpdate store e = Some (g, upd)"
  shows "(\<not> fst (upd s) \<longrightarrow> snd (upd s) = s) \<and> snd (upd (snd (upd s))) = snd (upd s)"
proof -
  have "snd (groupMemberReady m (snd (groupMemberReady m s))) = snd (groupMemberReady m s)" for m
    by (simp add: groupMemberReady_def)
  with assms group_ready.unchanged group_leader.unchanged groupLeader_settles [THEN arg_cong, of snd] show ?thesis
    by (cases "(store, e)" rule: groupUpdate.cases) (auto simp: Let_def)
qed

lemma member_records_ok:
  assumes "memberUpdate store t e = Some (me, upd)"
  shows "records_ok rm_Status putMemberStatus (metaKey \<circ> rm_Meta) keepMember upd"
  using memberUpdate_settles [OF assms] by (simp add: records_ok_def putMemberStatus_def keepMember_def)

lemma group_records_ok:
  assumes "groupUpdate store e = Some (g, upd)"
  shows "records_ok rg_Status putGroupStatus (metaKey \<circ> rg_Meta) keepGroup upd"
  using groupUpdate_settles [OF assms] by (simp add: records_ok_def putGroupStatus_def keepGroup_def)

section \<open>An event is recorded once\<close>

text \<open>
  The API server: reads and status updates of members and groups may fail, and an event
  that is emitted leaves both alone.
\<close>

definition unreliable_api :: "('w, 't) clusterEnv \<Rightarrow> ('w \<Rightarrow> NamespacedName \<rightharpoonup> 't RaftMember) \<Rightarrow>
    ('w \<Rightarrow> NamespacedName \<rightharpoonup> RaftGroup) \<Rightarrow> ('w \<Rightarrow> nat) \<Rightarrow> bool" where
  "unreliable_api env members groups fuel \<longleftrightarrow>
     unreliable members groups fuel (metaKey \<circ> rm_Meta) keepMember (k_Members env) \<and>
     unreliable groups members fuel (metaKey \<circ> rg_Meta) keepGroup (k_Groups env) \<and>
     (\<forall>meta reason msg w. let w' = snd (run_state (k_Event env meta reason msg) w) in
        members w' = members w \<and> groups w' = groups w \<and> fuel w' \<le> fuel w)"

definition recordedMembers :: "NamespacedName \<Rightarrow> 't Event \<Rightarrow> (NamespacedName \<rightharpoonup> 't RaftMember) \<Rightarrow>
    (NamespacedName \<rightharpoonup> 't RaftMember)" where
  "recordedMembers store event members n =
     (if memberTarget store event = Some n
      then map_option (\<lambda>m. m\<lparr>rm_Status := memberStep store event (rm_Status m)\<rparr>) (members n)
      else members n)"

definition recordedGroups :: "NamespacedName \<Rightarrow> 't Event \<Rightarrow> (NamespacedName \<rightharpoonup> RaftGroup) \<Rightarrow>
    (NamespacedName \<rightharpoonup> RaftGroup)" where
  "recordedGroups store event groups n =
     (if groupTarget store event = Some n
      then map_option (\<lambda>g. g\<lparr>rg_Status := (case ev_Event event of
             None \<Rightarrow> rg_Status g | Some e \<Rightarrow> groupStep store e (rg_Status g))\<rparr>) (groups n)
      else groups n)"

lemma emitNote_quiet:
  assumes "unreliable_api env members groups fuel"
  shows "quiet_recorder members groups fuel (\<lambda>x. emitNote env (meta x) (note x))"
    and "quiet_recorder groups members fuel (\<lambda>x. emitNote env (meta x) (note x))"
  using assms by (auto simp: quiet_recorder_def emitNote_def unreliable_api_def Let_def split: option.split)

lemma recordMemberEvent_unreliable:
  assumes api: "unreliable_api env members groups fuel" and budget: "fuel w < attempts"
    and names: "under_own_names (metaKey \<circ> rm_Meta) (members w)" and ev: "ev_Event event = Some e"
  shows "let w' = snd (run_state (recordMemberEvent attempts env store (ev_Timestamp event) e) w)
    in members w' = recordedMembers store event (members w) \<and> groups w' = groups w \<and> fuel w' \<le> fuel w"
proof (cases "memberUpdate store (ev_Timestamp event) e")
  case None
  then show ?thesis
    by (simp add: recordMemberEvent_def recordedMembers_def memberTarget_def ev fun_eq_iff)
next
  case (Some mu)
  obtain me upd where mu: "mu = (me, upd)" by fastforce
  have goal: "applied rm_Status putMemberStatus upd (watchedMemberName store me) (members w) =
      recordedMembers store event (members w)"
    by (auto simp: applied_def recordedMembers_def memberTarget_def memberStep_def ev Some mu
        putMemberStatus_def fun_eq_iff split: option.split)
  have client: "unreliable members groups fuel (metaKey \<circ> rm_Meta) keepMember (k_Members env)"
    using api by (simp add: unreliable_api_def)
  show ?thesis
    unfolding goal [symmetric] recordMemberEvent_def Some mu option.case prod.case
    by (rule retry_unreliable [OF client member_records_ok [OF Some [unfolded mu]] emitNote_quiet(1) [OF api] names budget])
qed

lemma recordGroupEvent_unreliable:
  assumes api: "unreliable_api env members groups fuel" and budget: "fuel w < attempts"
    and names: "under_own_names (metaKey \<circ> rg_Meta) (groups w)" and ev: "ev_Event event = Some e"
  shows "let w' = snd (run_state (recordGroupEvent attempts env store e) w)
    in groups w' = recordedGroups store event (groups w) \<and> members w' = members w \<and> fuel w' \<le> fuel w"
proof (cases "groupUpdate store e")
  case None
  then show ?thesis
    by (simp add: recordGroupEvent_def recordedGroups_def groupTarget_def ev fun_eq_iff)
next
  case (Some gu)
  obtain g upd where gu: "gu = (g, upd)" by fastforce
  have goal: "applied rg_Status putGroupStatus upd (watchedGroupName store g) (groups w) =
      recordedGroups store event (groups w)"
    by (auto simp: applied_def recordedGroups_def groupTarget_def groupStep_def ev Some gu
        putGroupStatus_def fun_eq_iff split: option.split)
  have client: "unreliable groups members fuel (metaKey \<circ> rg_Meta) keepGroup (k_Groups env)"
    using api by (simp add: unreliable_api_def)
  show ?thesis
    unfolding goal [symmetric] recordGroupEvent_def Some gu option.case prod.case
    by (rule retry_unreliable [OF client group_records_ok [OF Some [unfolded gu]] emitNote_quiet(2) [OF api] names budget])
qed

lemma emitNote_env: "emitNote (env\<lparr>k_Members := ms, k_Groups := gs\<rparr>) = emitNote env"
  by (simp add: fun_eq_iff emitNote_def split: option.split)

lemma recordMemberEvent_no_news:
  assumes api: "unreliable_api env members groups fuel" and ev: "ev_Event event = Some e"
    and none: "\<And>n m. memberTarget store event = Some n \<Longrightarrow> members w n = Some m \<Longrightarrow>
      \<not> memberNews store event (rm_Status m)"
  shows "run_state (recordMemberEvent attempts
      (env\<lparr>k_Members := (k_Members env)\<lparr>cl_StatusUpdate := su\<rparr>, k_Groups := gs\<rparr>) store (ev_Timestamp event) e) w =
    run_state (recordMemberEvent attempts env store (ev_Timestamp event) e) w"
proof (cases "memberUpdate store (ev_Timestamp event) e")
  case (Some mu)
  obtain me upd where mu: "mu = (me, upd)" by fastforce
  have "\<not> fst (upd (rm_Status m))" if "members w (watchedMemberName store me) = Some m" for m
    using none [OF _ that] by (simp add: memberTarget_def memberNews_def ev Some mu)
  note none' = this
  have client: "unreliable members groups fuel (metaKey \<circ> rm_Meta) keepMember (k_Members env)"
    using api by (simp add: unreliable_api_def)
  from retry_no_news [where get = rm_Status and view = members and name = "watchedMemberName store me" and upd = upd and w = w, OF client none']
  show ?thesis by (simp add: recordMemberEvent_def Some mu emitNote_env)
qed (simp add: recordMemberEvent_def)

lemma recordGroupEvent_no_news:
  assumes api: "unreliable_api env members groups fuel" and ev: "ev_Event event = Some e"
    and none: "\<And>n g. groupTarget store event = Some n \<Longrightarrow> groups w n = Some g \<Longrightarrow>
      \<not> groupNews store event (rg_Status g)"
  shows "run_state (recordGroupEvent attempts
      (env\<lparr>k_Members := ms, k_Groups := (k_Groups env)\<lparr>cl_StatusUpdate := su\<rparr>\<rparr>) store e) w =
    run_state (recordGroupEvent attempts env store e) w"
proof (cases "groupUpdate store e")
  case (Some gu)
  obtain i upd where gu: "gu = (i, upd)" by fastforce
  have "\<not> fst (upd (rg_Status g))" if "groups w (watchedGroupName store i) = Some g" for g
    using none [OF _ that] by (simp add: groupTarget_def groupNews_def ev Some gu)
  note none' = this
  have client: "unreliable groups members fuel (metaKey \<circ> rg_Meta) keepGroup (k_Groups env)"
    using api by (simp add: unreliable_api_def)
  from retry_no_news [where get = rg_Status and view = groups and name = "watchedGroupName store i" and upd = upd and w = w, OF client none']
  show ?thesis by (simp add: recordGroupEvent_def Some gu emitNote_env)
qed (simp add: recordGroupEvent_def)

section \<open>Properties\<close>

text \<open>
  C34. An event is recorded once, over a server that fails. If fewer requests fail than the
  backoff leaves attempts, then whatever the failures are (reads, writes, and writes that
  were stored although their answer was an error), when \<^verbatim>\<open>handleEvent\<close> returns, the event's
  member and its group have exactly the status one application of the event gives, and no
  other object has changed; an object that does not exist is not created. An event that is
  no news to the two statuses writes nothing: the run is the same whatever a status update
  would do.
\<close>

theorem event_is_recorded_once:
  fixes env :: "('w, 't) clusterEnv"
  assumes "unreliable_api env members groups fuel" and "fuel w < attempts"
    and "under_own_names (metaKey \<circ> rm_Meta) (members w)" and "under_own_names (metaKey \<circ> rg_Meta) (groups w)"
  shows "(let w' = snd (run_state (handleEvent attempts env store event) w) in
      members w' = recordedMembers store event (members w) \<and> groups w' = recordedGroups store event (groups w)) \<and>
    ((\<forall>n m. memberTarget store event = Some n \<longrightarrow> members w n = Some m \<longrightarrow> \<not> memberNews store event (rm_Status m)) \<longrightarrow>
     (\<forall>n g. groupTarget store event = Some n \<longrightarrow> groups w n = Some g \<longrightarrow> \<not> groupNews store event (rg_Status g)) \<longrightarrow>
     (\<forall>su su'. run_state (handleEvent attempts
          (env\<lparr>k_Members := (k_Members env)\<lparr>cl_StatusUpdate := su\<rparr>,
               k_Groups := (k_Groups env)\<lparr>cl_StatusUpdate := su'\<rparr>\<rparr>) store event) w =
        run_state (handleEvent attempts env store event) w))"
proof (cases "ev_Event event")
  case None
  then show ?thesis
    by (simp add: handleEvent_def recordedMembers_def recordedGroups_def memberTarget_def groupTarget_def fun_eq_iff)
next
  case (Some e)
  obtain u w1 where run: "run_state (recordMemberEvent attempts env store (ev_Timestamp event) e) w = (u, w1)"
    by (metis prod.exhaust)
  have m: "members w1 = recordedMembers store event (members w)" "groups w1 = groups w" "fuel w1 < attempts"
    using recordMemberEvent_unreliable [OF assms(1-3) Some, of store] assms(2) by (simp_all add: run)
  have g: "let w' = snd (run_state (recordGroupEvent attempts env store e) w1)
    in groups w' = recordedGroups store event (groups w) \<and> members w' = members w1 \<and> fuel w' \<le> fuel w1"
    using recordGroupEvent_unreliable [OF assms(1) m(3) _ Some, of store] assms(4) by (simp add: m(2))
  have split: "run_state (handleEvent attempts env' store event) w =
      (let (_, w') = run_state (recordMemberEvent attempts env' store (ev_Timestamp event) e) w
       in run_state (recordGroupEvent attempts env' store e) w')" for env' :: "('w, 't) clusterEnv"
    by (simp add: handleEvent_def Some split_beta)
  have "run_state (handleEvent attempts (env\<lparr>k_Members := (k_Members env)\<lparr>cl_StatusUpdate := su\<rparr>,
               k_Groups := (k_Groups env)\<lparr>cl_StatusUpdate := su'\<rparr>\<rparr>) store event) w =
      run_state (handleEvent attempts env store event) w"
    if "\<forall>n m. memberTarget store event = Some n \<longrightarrow> members w n = Some m \<longrightarrow> \<not> memberNews store event (rm_Status m)"
      and "\<forall>n g. groupTarget store event = Some n \<longrightarrow> groups w n = Some g \<longrightarrow> \<not> groupNews store event (rg_Status g)"
    for su su'
  proof -
    have "run_state (recordMemberEvent attempts (env\<lparr>k_Members := (k_Members env)\<lparr>cl_StatusUpdate := su\<rparr>,
               k_Groups := (k_Groups env)\<lparr>cl_StatusUpdate := su'\<rparr>\<rparr>) store (ev_Timestamp event) e) w = (u, w1)"
      unfolding run [symmetric] by (rule recordMemberEvent_no_news [OF assms(1) Some]) (use that in blast)
    moreover have "run_state (recordGroupEvent attempts (env\<lparr>k_Members := (k_Members env)\<lparr>cl_StatusUpdate := su\<rparr>,
               k_Groups := (k_Groups env)\<lparr>cl_StatusUpdate := su'\<rparr>\<rparr>) store e) w1 =
        run_state (recordGroupEvent attempts env store e) w1"
      by (rule recordGroupEvent_no_news [OF assms(1) Some]) (use that m(2) in simp)
    ultimately show ?thesis unfolding split run by simp
  qed
  with m(1) g show ?thesis by (simp add: split run Let_def)
qed

text \<open>
  A server whose next requests fail, as many as the number in the world says; a failing
  status update is stored all the same.
\<close>

type_synonym flakyWorld = "(NamespacedName \<rightharpoonup> nat RaftMember) \<times> (NamespacedName \<rightharpoonup> RaftGroup) \<times> nat"

definition flakyClient :: "(flakyWorld \<Rightarrow> NamespacedName \<rightharpoonup> 'o) \<Rightarrow>
    (((NamespacedName \<rightharpoonup> 'o) \<Rightarrow> (NamespacedName \<rightharpoonup> 'o)) \<Rightarrow> flakyWorld \<Rightarrow> flakyWorld) \<Rightarrow>
    ('o \<Rightarrow> NamespacedName) \<Rightarrow> ('o \<Rightarrow> 'o \<Rightarrow> 'o) \<Rightarrow> (flakyWorld, 'o) objectClient" where
  "flakyClient view over key keep =
     \<lparr>cl_Get = (\<lambda>n. State (\<lambda>w. if 0 < snd (snd w) then (Inl (OtherError ''timeout''), apsnd (apsnd (\<lambda>f. f - 1)) w)
         else (case view w n of None \<Rightarrow> Inl NotFound | Some obj \<Rightarrow> Inr obj, w))),
      cl_Create = (\<lambda>_. fails (OtherError '''')), cl_Update = (\<lambda>_. fails (OtherError '''')),
      cl_StatusUpdate = (\<lambda>obj. State (\<lambda>w. let w' = over (statusWritten key keep obj) w in
         if 0 < snd (snd w) then (Inl (OtherError ''timeout''), apsnd (apsnd (\<lambda>f. f - 1)) w')
         else (map_sum id (keep obj) (case view w (key obj) of None \<Rightarrow> Inl NotFound | Some old \<Rightarrow> Inr old), w')))\<rparr>"

definition flakyEnv :: "(flakyWorld, nat) clusterEnv" where
  "flakyEnv =
     \<lparr>k_Clusters = readOnly (\<lambda>_ _. None),
      k_Groups = flakyClient (fst \<circ> snd) (\<lambda>f. apsnd (apfst f)) (metaKey \<circ> rg_Meta) keepGroup,
      k_Members = flakyClient fst apfst (metaKey \<circ> rm_Meta) keepMember,
      k_Pods = readOnly (\<lambda>_ _. None), k_ConfigMaps = readOnly (\<lambda>_ _. None),
      k_StatefulSets = readOnly (\<lambda>_ _. None), k_Services = readOnly (\<lambda>_ _. None),
      k_SetControllerReference = (\<lambda>_ m. Inr m), k_SetOwnerReference = (\<lambda>_ m. Inr m),
      k_MarshalLogging = (\<lambda>_. Inr ''''), k_MarshalConfig = (\<lambda>_. Inr ''''),
      k_Bootstrap = (\<lambda>_ _. ok ()), k_Event = (\<lambda>_ _ _. ret ()),
      k_domain = ''cluster.local'', k_image = ''''\<rparr>"

lemma flaky_api: "unreliable_api flakyEnv fst (fst \<circ> snd) (snd \<circ> snd)"
  by (auto simp: unreliable_api_def unreliable_def flakyEnv_def flakyClient_def Let_def)

text \<open>Member 1 of group 1 reports that it is ready; two requests fail, the backoff leaves three.\<close>

definition flakyWorld0 :: flakyWorld where
  "flakyWorld0 = (fst sampleWorld, [groupName sampleCluster 1 \<mapsto> sampleGroupObject], 2)"

definition readyStore :: NamespacedName where
  "readyStore = \<lparr>nn_Namespace = ''ns'', nn_Name = ''raft''\<rparr>"

definition readyEvent :: "nat Event" where
  "readyEvent = \<lparr>ev_Timestamp = 7, ev_Event = Some (Event_MemberReady \<lparr>pe_MemberEvent = \<lparr>me_GroupID = 1, me_MemberID = 1\<rparr>\<rparr>)\<rparr>"

lemma readyEvent_targets:
  "memberTarget readyStore readyEvent = Some (memberName sampleGroupObject 1)"
  "groupTarget readyStore readyEvent = Some (groupName sampleCluster 1)"
  by (simp_all add: memberTarget_def groupTarget_def readyEvent_def readyStore_def watchedMemberName_def
      watchedMemberRef_def watchedGroupName_def memberName_def groupName_def sampleGroupObject_def newGroup_def
      newMeta_def numberedName_def sampleCluster_def Let_def)

theorem event_is_recorded_once_witness:
  "let w' = snd (run_state (handleEvent 3 flakyEnv readyStore readyEvent) flakyWorld0) in
   fst w' (memberName sampleGroupObject 1) =
     Some (sampleMember\<lparr>rm_Status := zeroMemberStatus\<lparr>ms_State := RaftMemberReady, ms_LastUpdated := Some 7\<rparr>\<rparr>) \<and>
   map_option (gs_Followers \<circ> rg_Status) (fst (snd w') (groupName sampleCluster 1)) = Some [''raft-1-1'']"
proof -
  have "rm_Status sampleMember = zeroMemberStatus"
    by (simp add: sampleMember_def newMember_def)
  then have status: "memberStep readyStore readyEvent (rm_Status sampleMember) =
      zeroMemberStatus\<lparr>ms_State := RaftMemberReady, ms_LastUpdated := Some 7\<rparr>"
    by (simp add: memberStep_def readyEvent_def memberReady_def zeroMemberStatus_def RaftMemberReady_def)
  have key: "metaKey (rm_Meta sampleMember) = memberName sampleGroupObject 1"
    by (simp add: sampleMember_def newMember_def metaKey_def newMeta_def)
  have gkey: "metaKey (rg_Meta sampleGroupObject) = groupName sampleCluster 1"
    by (simp add: sampleGroupObject_def newGroup_def metaKey_def newMeta_def groupName_def)
  have names: "under_own_names (metaKey \<circ> rm_Meta) (fst flakyWorld0)"
    "under_own_names (metaKey \<circ> rg_Meta) ((fst \<circ> snd) flakyWorld0)"
    using key gkey by (simp_all add: under_own_names_def flakyWorld0_def sampleWorld_def)
  have budget: "(snd \<circ> snd) flakyWorld0 < 3" by (simp add: flakyWorld0_def)
  have group: "groupStep readyStore (Event_MemberReady \<lparr>pe_MemberEvent = \<lparr>me_GroupID = 1, me_MemberID = 1\<rparr>\<rparr>)
      (rg_Status sampleGroupObject) = zeroGroupStatus\<lparr>gs_Followers := [''raft-1-1'']\<rparr>"
    by (simp add: groupStep_def groupMemberReady_def sampleGroupObject_def newGroup_def zeroGroupStatus_def
        watchedMemberRef_def readyStore_def itoa_def digits.simps [of "Suc 0"] digit_def Let_def char_of_def bit_0)
  have ev: "ev_Event readyEvent = Some (Event_MemberReady \<lparr>pe_MemberEvent = \<lparr>me_GroupID = 1, me_MemberID = 1\<rparr>\<rparr>)"
    by (simp add: readyEvent_def)
  have here: "fst flakyWorld0 (memberName sampleGroupObject 1) = Some sampleMember"
    "fst (snd flakyWorld0) (groupName sampleCluster 1) = Some sampleGroupObject"
    by (simp_all add: flakyWorld0_def sampleWorld_def)
  from event_is_recorded_once [OF flaky_api budget names, of readyStore readyEvent, THEN conjunct1]
  show ?thesis
    using group status
    by (simp add: Let_def recordedMembers_def recordedGroups_def readyEvent_targets here ev)
qed

end
