(* ===== verification/Recording.thy ===== *)
theory Recording
  imports PodWatch "HOL-Library.Sublist"
begin

text \<open>
  Many goroutines record events in one object at the same time (\<^verbatim>\<open>tryRecordMemberEvent\<close> and
  \<^verbatim>\<open>tryRecordGroupEvent\<close> of \<^verbatim>\<open>controller/pkg/controller/consensus/v1beta1/watcher.go\<close>, repeated by
  \<^verbatim>\<open>backoff.Retry\<close>): every pod of a cluster has a stream of its own, and the cluster controller writes
  the same statuses. The calls on the API server are single steps here, a read may return an old
  version (the client reads from a cache), and a write of anything but the current version is
  refused. The locale \<open>recorder\<close> is what an update has to promise for its decision on an old
  version to stay right.
\<close>

section \<open>Events to record\<close>

text \<open>The update an event of a stream makes to the status of one group: none if it is not about it.\<close>

definition groupEventUpdate :: "NamespacedName \<Rightarrow> GroupID \<Rightarrow> isEvent_Event \<Rightarrow> RaftGroupStatus update" where
  "groupEventUpdate store g e s =
     (case groupUpdate store e of
        None \<Rightarrow> (False, s)
      | Some (g', updater) \<Rightarrow> if g' = g then updater s else (False, s))"

text \<open>What the watcher of a stream records in the status of one group.\<close>

definition groupRecord :: "NamespacedName \<Rightarrow> GroupID \<Rightarrow> 't Event \<Rightarrow> RaftGroupStatus \<Rightarrow> RaftGroupStatus" where
  "groupRecord store g event s =
     (case ev_Event event of
        None \<Rightarrow> s
      | Some e \<Rightarrow> snd (groupEventUpdate store g e s))"

text \<open>The cluster controller writes nothing but the state of a group.\<close>

definition setsState :: "(RaftGroupStatus \<Rightarrow> RaftGroupStatus) \<Rightarrow> bool" where
  "setsState f \<longleftrightarrow> (\<exists>st. f = (\<lambda>s. s\<lparr>gs_State := st\<rparr>))"

section \<open>Steps\<close>

text \<open>
  The versions of the status stored so far, newest first; the events each goroutine received and
  those it has still to record; what it read last, with the number of the version; who wrote what,
  oldest first; the events a goroutine gave up.
\<close>

datatype 's recorderPC = RIdle | RRead nat 's

datatype ('e, 's) recorded = Recorded nat 'e | Unheard nat 'e | Reconciled "'s \<Rightarrow> 's"

record ('e, 's) recording =
  rc_versions :: "'s list"
  rc_received :: "nat \<Rightarrow> 'e list"
  rc_queue :: "nat \<Rightarrow> 'e list"
  rc_pc :: "nat \<Rightarrow> 's recorderPC"
  rc_log :: "('e, 's) recorded list"
  rc_lost :: "nat \<Rightarrow> 'e set"

definition recording_init :: "'s \<Rightarrow> ('e, 's) recording" where
  "recording_init s = \<lparr>rc_versions = [s], rc_received = (\<lambda>_. []), rc_queue = (\<lambda>_. []),
     rc_pc = (\<lambda>_. RIdle), rc_log = [], rc_lost = (\<lambda>_. {})\<rparr>"

definition status_now :: "('e, 's) recording \<Rightarrow> 's" where
  "status_now r = hd (rc_versions r)"

text \<open>
  \<open>get\<close> is \<^verbatim>\<open>client.Get\<close>, from a cache that may lag behind. \<open>skip\<close> is an updater that returns
  false. \<open>put\<close> is a \<^verbatim>\<open>Status().Update\<close> that succeeds, \<open>put_unheard\<close> one whose answer is lost, and
  \<open>failed\<close> any other error of either call, a refused version included: both are retried. \<open>give_up\<close>
  is the end of \<^verbatim>\<open>backoff.Retry\<close>, whose error is dropped. \<open>other\<close> is the cluster controller.
\<close>

inductive recording_step :: "('e \<Rightarrow> 's update) \<Rightarrow> (('s \<Rightarrow> 's) \<Rightarrow> bool) \<Rightarrow> ('e, 's) recording \<Rightarrow>
    ('e, 's) recording \<Rightarrow> bool" for upd :: "'e \<Rightarrow> 's update" and writes :: "('s \<Rightarrow> 's) \<Rightarrow> bool" where
  receive: "recording_step upd writes r
    (r\<lparr>rc_received := (rc_received r)(i := rc_received r i @ [e]), rc_queue := (rc_queue r)(i := rc_queue r i @ [e])\<rparr>)"
| get: "rc_pc r i = RIdle \<Longrightarrow> rc_queue r i \<noteq> [] \<Longrightarrow> k < length (rc_versions r) \<Longrightarrow>
    recording_step upd writes r
      (r\<lparr>rc_pc := (rc_pc r)(i := RRead (length (rc_versions r) - k) (rc_versions r ! k))\<rparr>)"
| skip: "rc_pc r i = RRead v s \<Longrightarrow> rc_queue r i = e # q \<Longrightarrow> upd e s = (False, s') \<Longrightarrow>
    recording_step upd writes r
      (r\<lparr>rc_pc := (rc_pc r)(i := RIdle), rc_queue := (rc_queue r)(i := q), rc_log := rc_log r @ [Recorded i e]\<rparr>)"
| put: "rc_pc r i = RRead v s \<Longrightarrow> rc_queue r i = e # q \<Longrightarrow> upd e s = (True, s') \<Longrightarrow> v = length (rc_versions r) \<Longrightarrow>
    recording_step upd writes r
      (r\<lparr>rc_versions := s' # rc_versions r, rc_pc := (rc_pc r)(i := RIdle), rc_queue := (rc_queue r)(i := q),
         rc_log := rc_log r @ [Recorded i e]\<rparr>)"
| put_unheard: "rc_pc r i = RRead v s \<Longrightarrow> rc_queue r i = e # q \<Longrightarrow> upd e s = (True, s') \<Longrightarrow> v = length (rc_versions r) \<Longrightarrow>
    recording_step upd writes r
      (r\<lparr>rc_versions := s' # rc_versions r, rc_pc := (rc_pc r)(i := RIdle), rc_log := rc_log r @ [Unheard i e]\<rparr>)"
| failed: "rc_pc r i = RRead v s \<Longrightarrow> recording_step upd writes r (r\<lparr>rc_pc := (rc_pc r)(i := RIdle)\<rparr>)"
| give_up: "rc_pc r i = RIdle \<Longrightarrow> rc_queue r i = e # q \<Longrightarrow>
    recording_step upd writes r
      (r\<lparr>rc_queue := (rc_queue r)(i := q), rc_lost := (rc_lost r)(i := insert e (rc_lost r i))\<rparr>)"
| other: "writes f \<Longrightarrow>
    recording_step upd writes r
      (r\<lparr>rc_versions := f (status_now r) # rc_versions r, rc_log := rc_log r @ [Reconciled f]\<rparr>)"

inductive recording_reachable :: "('e \<Rightarrow> 's update) \<Rightarrow> (('s \<Rightarrow> 's) \<Rightarrow> bool) \<Rightarrow> 's \<Rightarrow> ('e, 's) recording \<Rightarrow> bool"
  for upd :: "'e \<Rightarrow> 's update" and writes :: "('s \<Rightarrow> 's) \<Rightarrow> bool" and s0 :: 's where
  recording_start: "recording_reachable upd writes s0 (recording_init s0)"
| recording_next: "recording_reachable upd writes s0 r \<Longrightarrow> recording_step upd writes r r' \<Longrightarrow>
    recording_reachable upd writes s0 r'"

text \<open>The same writes one after the other.\<close>

fun applyRecorded :: "('e \<Rightarrow> 's update) \<Rightarrow> ('e, 's) recorded \<Rightarrow> 's \<Rightarrow> 's" where
  "applyRecorded upd (Recorded i e) s = snd (upd e s)"
| "applyRecorded upd (Unheard i e) s = snd (upd e s)"
| "applyRecorded upd (Reconciled f) s = f s"

text \<open>The events a goroutine was done with, in its order, and all that were written for it.\<close>

fun recordedBy :: "nat \<Rightarrow> ('e, 's) recorded list \<Rightarrow> 'e list" where
  "recordedBy i [] = []"
| "recordedBy i (Recorded j e # log) = (if j = i then e # recordedBy i log else recordedBy i log)"
| "recordedBy i (w # log) = recordedBy i log"

definition loggedBy :: "nat \<Rightarrow> ('e, 's) recorded list \<Rightarrow> 'e set" where
  "loggedBy i log = {e. Recorded i e \<in> set log \<or> Unheard i e \<in> set log}"

lemma recordedBy_snoc:
  "recordedBy i (log @ [w]) = recordedBy i log @ recordedBy i [w]"
  by (induction i log rule: recordedBy.induct) simp_all

lemma set_recordedBy: "set (recordedBy i log) = {e. Recorded i e \<in> set log}"
  by (induction i log rule: recordedBy.induct) auto

section \<open>Invariants\<close>

text \<open>
  Every version read is one that was stored, the newest under the newest number; what an event finds
  nothing to do in, it finds nothing to do in now.
\<close>

definition versions_ok :: "('e \<Rightarrow> 's update) \<Rightarrow> ('e, 's) recording \<Rightarrow> bool" where
  "versions_ok upd r \<longleftrightarrow> rc_versions r \<noteq> [] \<and>
     (\<forall>i v s. rc_pc r i = RRead v s \<longrightarrow> s \<in> set (rc_versions r) \<and> v \<le> length (rc_versions r) \<and>
        (v = length (rc_versions r) \<longrightarrow> s = status_now r)) \<and>
     (\<forall>s \<in> set (rc_versions r). \<forall>e. \<not> fst (upd e s) \<longrightarrow> \<not> fst (upd e (status_now r)))"

text \<open>
  The status is what the writes make of the first one when they are done one after the other, each
  event at the moment its goroutine was done with it.
\<close>

definition serial :: "('e \<Rightarrow> 's update) \<Rightarrow> 's \<Rightarrow> ('e, 's) recording \<Rightarrow> bool" where
  "serial upd s0 r \<longleftrightarrow> status_now r = fold (applyRecorded upd) (rc_log r) s0"

section \<open>What an update promises to concurrent writers\<close>

text \<open>
  An update that finds nothing to do changes nothing, and whatever the others write meanwhile, it
  would still find nothing to do.
\<close>

locale recorder =
  fixes upd :: "'e \<Rightarrow> 's update" and writes :: "('s \<Rightarrow> 's) \<Rightarrow> bool"
  assumes unchanged: "\<not> fst (upd e s) \<Longrightarrow> snd (upd e s) = s"
    and stays: "\<not> fst (upd e s) \<Longrightarrow> \<not> fst (upd e (snd (upd e' s)))"
    and stays_other: "writes f \<Longrightarrow> \<not> fst (upd e s) \<Longrightarrow> \<not> fst (upd e (f s))"
begin

lemma versions_okD:
  assumes "versions_ok upd r"
  shows "rc_versions r \<noteq> []"
    and "rc_pc r i = RRead v s \<Longrightarrow> s \<in> set (rc_versions r) \<and> v \<le> length (rc_versions r)"
    and "rc_pc r i = RRead (length (rc_versions r)) s \<Longrightarrow> s = status_now r"
    and "s \<in> set (rc_versions r) \<Longrightarrow> \<not> fst (upd e s) \<Longrightarrow> \<not> fst (upd e (status_now r))"
  using assms unfolding versions_ok_def by blast+

lemma versions_okI:
  assumes "rc_versions r \<noteq> []"
    and "\<And>i v s. rc_pc r i = RRead v s \<Longrightarrow> s \<in> set (rc_versions r) \<and> v \<le> length (rc_versions r)"
    and "\<And>i s. rc_pc r i = RRead (length (rc_versions r)) s \<Longrightarrow> s = status_now r"
    and "\<And>s e. s \<in> set (rc_versions r) \<Longrightarrow> \<not> fst (upd e s) \<Longrightarrow> \<not> fst (upd e (status_now r))"
  shows "versions_ok upd r"
  unfolding versions_ok_def using assms by blast

text \<open>A new version that keeps quiet who was quiet; the readers have older ones, or go idle.\<close>

lemma versions_ok_write:
  assumes ok: "versions_ok upd r" and vs: "rc_versions r' = s' # rc_versions r"
    and pc: "\<And>i v s. rc_pc r' i = RRead v s \<Longrightarrow> rc_pc r i = RRead v s"
    and quiet: "\<And>e. \<not> fst (upd e (status_now r)) \<Longrightarrow> \<not> fst (upd e s')"
  shows "versions_ok upd r'"
proof (rule versions_okI)
  show "rc_versions r' \<noteq> []" by (simp add: vs)
  fix i v s
  show "s \<in> set (rc_versions r') \<and> v \<le> length (rc_versions r')" if "rc_pc r' i = RRead v s"
    using versions_okD(2) [OF ok pc [OF that]] by (simp add: vs)
  show "s = status_now r'" if "rc_pc r' i = RRead (length (rc_versions r')) s"
    using versions_okD(2) [OF ok pc [OF that]] by (simp add: vs)
  show "\<not> fst (upd e (status_now r'))" if "s \<in> set (rc_versions r')" "\<not> fst (upd e s)" for e
    using that quiet versions_okD(4) [OF ok] by (auto simp: vs status_now_def)
qed

lemma versions_ok_read:
  assumes ok: "versions_ok upd r" and vs: "rc_versions r' = rc_versions r"
    and pc: "\<And>i v s. rc_pc r' i = RRead v s \<Longrightarrow> rc_pc r i = RRead v s \<or>
      (\<exists>k < length (rc_versions r). v = length (rc_versions r) - k \<and> s = rc_versions r ! k)"
  shows "versions_ok upd r'"
proof (rule versions_okI)
  show "rc_versions r' \<noteq> []" using versions_okD(1) [OF ok] by (simp add: vs)
  fix i v s
  show "s \<in> set (rc_versions r') \<and> v \<le> length (rc_versions r')" if "rc_pc r' i = RRead v s"
    using pc [OF that] versions_okD(2) [OF ok] by (auto simp: vs)
  show "s = status_now r'" if at: "rc_pc r' i = RRead (length (rc_versions r')) s"
    using pc [OF at]
  proof
    assume "rc_pc r i = RRead (length (rc_versions r')) s"
    then show ?thesis using versions_okD(3) [OF ok] by (simp add: vs status_now_def)
  next
    assume "\<exists>k < length (rc_versions r). length (rc_versions r') = length (rc_versions r) - k \<and> s = rc_versions r ! k"
    then obtain k where k: "k < length (rc_versions r)" "length (rc_versions r) = length (rc_versions r) - k"
        "s = rc_versions r ! k"
      by (auto simp: vs)
    then have "k = 0" by linarith
    with k versions_okD(1) [OF ok] show ?thesis by (simp add: vs status_now_def hd_conv_nth)
  qed
  show "\<not> fst (upd e (status_now r'))" if "s \<in> set (rc_versions r')" "\<not> fst (upd e s)" for e
    using that versions_okD(4) [OF ok] by (auto simp: vs status_now_def)
qed

lemma versions_ok_step:
  assumes "recording_step upd writes r r'" and ok: "versions_ok upd r"
  shows "versions_ok upd r'"
  using assms(1)
proof cases
  case (receive i e)
  show ?thesis by (rule versions_ok_read [OF ok]) (simp_all add: receive)
next
  case (get i k)
  show ?thesis by (rule versions_ok_read [OF ok]) (use get in \<open>auto split: if_splits\<close>)
next
  case (skip i v s e q s')
  show ?thesis by (rule versions_ok_read [OF ok]) (auto simp: skip split: if_splits)
next
  case (put i v s e q s')
  have "s = status_now r" using versions_okD(3) [OF ok] put by simp
  then have "\<not> fst (upd e' s')" if "\<not> fst (upd e' (status_now r))" for e'
    using stays [OF that, of e] put by simp
  then show ?thesis by (intro versions_ok_write [OF ok, where s' = s']) (auto simp: put split: if_splits)
next
  case (put_unheard i v s e q s')
  have "s = status_now r" using versions_okD(3) [OF ok] put_unheard by simp
  then have "\<not> fst (upd e' s')" if "\<not> fst (upd e' (status_now r))" for e'
    using stays [OF that, of e] put_unheard by simp
  then show ?thesis by (intro versions_ok_write [OF ok, where s' = s']) (auto simp: put_unheard split: if_splits)
next
  case (failed i v s)
  show ?thesis by (rule versions_ok_read [OF ok]) (auto simp: failed split: if_splits)
next
  case (give_up i e q)
  show ?thesis by (rule versions_ok_read [OF ok]) (simp_all add: give_up)
next
  case (other f)
  show ?thesis
    by (rule versions_ok_write [OF ok, where s' = "f (status_now r)"]) (simp_all add: other stays_other)
qed

lemma serial_step:
  assumes "recording_step upd writes r r'" and ok: "versions_ok upd r" and "serial upd s0 r"
  shows "serial upd s0 r'"
  using assms(1)
proof cases
  case (skip i v s e q s')
  have "\<not> fst (upd e s)" by (simp add: skip)
  then have "\<not> fst (upd e (status_now r))" using versions_okD(2,4) [OF ok] skip(2) by blast
  then have "snd (upd e (status_now r)) = status_now r" by (rule unchanged)
  with assms(3) show ?thesis by (simp add: serial_def status_now_def skip)
next
  case (put i v s e q s')
  have "s = status_now r" using versions_okD(3) [OF ok] put by simp
  with assms(3) put show ?thesis by (simp add: serial_def status_now_def)
next
  case (put_unheard i v s e q s')
  have "s = status_now r" using versions_okD(3) [OF ok] put_unheard by simp
  with assms(3) put_unheard show ?thesis by (simp add: serial_def status_now_def)
qed (use assms(3) in \<open>simp_all add: serial_def status_now_def\<close>)

lemma reachable_serial: "recording_reachable upd writes s0 r \<Longrightarrow> versions_ok upd r \<and> serial upd s0 r"
proof (induction rule: recording_reachable.induct)
  case recording_start
  show ?case by (simp add: versions_ok_def serial_def recording_init_def status_now_def)
next
  case (recording_next r r')
  then show ?case using versions_ok_step serial_step by blast
qed

end

text \<open>
  A stream is recorded in its order, and no event is lost on the way: it is recorded, still to be
  recorded, or was given up. What is written early was received.
\<close>

definition accounts :: "('e, 's) recording \<Rightarrow> nat \<Rightarrow> 'e list \<Rightarrow> bool" where
  "accounts r i finished \<longleftrightarrow> rc_received r i = finished @ rc_queue r i \<and>
     subseq (recordedBy i (rc_log r)) finished \<and>
     set finished = set (recordedBy i (rc_log r)) \<union> rc_lost r i"

lemma accounts_done:
  assumes "accounts r i finished" and "rc_queue r j = e # q" and "rc_received r' = rc_received r"
    and "rc_queue r' = (rc_queue r)(j := q)" and "rc_log r' = rc_log r @ [Recorded j e]" and "rc_lost r' = rc_lost r"
  shows "accounts r' i (if j = i then finished @ [e] else finished)"
proof (cases "j = i")
  case True
  with assms show ?thesis by (simp add: accounts_def recordedBy_snoc subseq_append')
next
  case False
  with assms show ?thesis by (simp add: accounts_def recordedBy_snoc)
qed

lemma accounts_lost:
  assumes "accounts r i finished" and "rc_queue r j = e # q" and "rc_received r' = rc_received r"
    and "rc_queue r' = (rc_queue r)(j := q)" and "rc_log r' = rc_log r"
    and "rc_lost r' = (rc_lost r)(j := insert e (rc_lost r j))"
  shows "accounts r' i (if j = i then finished @ [e] else finished)"
proof (cases "j = i")
  case True
  have "subseq (recordedBy i (rc_log r)) (finished @ [e])"
    using assms(1) by (simp add: accounts_def subseq_rev_drop_many list_emb_append2)
  with True assms show ?thesis by (simp add: accounts_def)
next
  case False
  with assms show ?thesis by (simp add: accounts_def)
qed

lemma recording_step_accounts:
  assumes "recording_step upd writes r r'" and "accounts r i finished"
  shows "\<exists>finished'. accounts r' i finished'"
  using assms(1)
proof cases
  case (skip j v s e q s')
  show ?thesis by (rule exI, rule accounts_done [OF assms(2) skip(3)]) (simp_all add: skip(1))
next
  case (put j v s e q s')
  show ?thesis by (rule exI, rule accounts_done [OF assms(2) put(3)]) (simp_all add: put(1))
next
  case (give_up j e q)
  show ?thesis by (rule exI, rule accounts_lost [OF assms(2) give_up(3)]) (simp_all add: give_up(1))
qed (use assms(2) in \<open>auto simp: accounts_def recordedBy_snoc\<close>)

lemma recording_step_early:
  assumes "recording_step upd writes r r'" and "set (rc_queue r i) \<subseteq> set (rc_received r i)"
    and "loggedBy i (rc_log r) \<subseteq> set (rc_received r i)"
  shows "loggedBy i (rc_log r') \<subseteq> set (rc_received r' i)"
  using assms by cases (auto simp: loggedBy_def)

lemma recording_accounts:
  "recording_reachable upd writes s0 r \<Longrightarrow>
   (\<exists>finished. accounts r i finished) \<and> loggedBy i (rc_log r) \<subseteq> set (rc_received r i)"
proof (induction rule: recording_reachable.induct)
  case recording_start
  show ?case by (simp add: recording_init_def loggedBy_def accounts_def)
next
  case (recording_next r r')
  then obtain finished where f: "accounts r i finished" by blast
  then have "set (rc_queue r i) \<subseteq> set (rc_received r i)" by (auto simp: accounts_def)
  with recording_step_accounts [OF recording_next.hyps(2) f] recording_step_early [OF recording_next.hyps(2)]
  show ?case using recording_next.IH by blast
qed

section \<open>The recorders of a group\<close>

lemma groupMemberReady_stays:
  "\<not> fst (groupMemberReady m s) \<longleftrightarrow> m \<in> knownMembers s"
  by (auto simp: groupMemberReady_def knownMembers_def)

lemma groupLeader_stays:
  assumes "\<not> leaderNews (gs_Term s) (gs_Leader s) t l"
  shows "\<not> leaderNews (gs_Term (snd (groupLeader store e s))) (gs_Leader (snd (groupLeader store e s))) t l"
  using assms by (auto simp: groupLeader_def leaderNews_def Let_def split: option.splits)

lemma groupLeader_news: "fst (groupLeader store e s) \<longleftrightarrow> leaderNews (gs_Term s) (gs_Leader s) (lu_Term e) (lu_Leader e)"
  by (simp add: groupLeader_def Let_def)

text \<open>Which updates an event of a stream can make to a group.\<close>

lemma groupEventUpdate_cases:
  obtains (ready) n m where "e = Event_MemberReady n" "groupEventUpdate store g e = groupMemberReady m"
  | (leader) l where "e = Event_LeaderUpdated l" "me_GroupID (lu_MemberEvent l) = g"
      "groupEventUpdate store g e = groupLeader store l"
  | (nothing) "groupEventUpdate store g e = (\<lambda>s. (False, s))" "\<And>l. e = Event_LeaderUpdated l \<Longrightarrow> me_GroupID (lu_MemberEvent l) \<noteq> g"
proof (cases e)
  case (Event_MemberReady n)
  show ?thesis
  proof (cases "me_GroupID (pe_MemberEvent n) = g")
    case True
    show ?thesis by (rule ready [OF Event_MemberReady, of "watchedMemberRef store g (me_MemberID (pe_MemberEvent n))"]) (simp add: Event_MemberReady True groupEventUpdate_def Let_def fun_eq_iff)
  next
    case False
    show ?thesis by (rule nothing) (simp_all add: Event_MemberReady False groupEventUpdate_def Let_def fun_eq_iff)
  qed
next
  case (Event_LeaderUpdated l)
  show ?thesis
  proof (cases "me_GroupID (lu_MemberEvent l) = g")
    case True
    show ?thesis by (rule leader [OF Event_LeaderUpdated True]) (simp add: Event_LeaderUpdated True groupEventUpdate_def fun_eq_iff)
  next
    case False
    show ?thesis by (rule nothing) (simp_all add: Event_LeaderUpdated False groupEventUpdate_def fun_eq_iff)
  qed
qed (auto intro!: nothing simp: groupEventUpdate_def fun_eq_iff)

lemma groupEventUpdate_known: "knownMembers s \<subseteq> knownMembers (snd (groupEventUpdate store g e s))"
proof (rule groupEventUpdate_cases [of e store g])
  fix l assume "groupEventUpdate store g e = groupLeader store l"
  then show ?thesis using groupLeader_known by simp
qed (auto simp: groupMemberReady_def knownMembers_def)

lemma groupEventUpdate_news:
  assumes "\<not> leaderNews (gs_Term s) (gs_Leader s) t l"
  shows "\<not> leaderNews (gs_Term (snd (groupEventUpdate store g e s))) (gs_Leader (snd (groupEventUpdate store g e s))) t l"
  by (rule groupEventUpdate_cases [of e store g])
    (use assms groupLeader_stays in \<open>auto simp: groupMemberReady_def\<close>)

lemma groupEventUpdate_ok: "group_status_ok s \<Longrightarrow> group_status_ok (snd (groupEventUpdate store g e s))"
  by (rule groupEventUpdate_cases [of e store g]) (simp_all add: group_ready.keeps group_leader.keeps)

interpretation group_recorder: recorder "groupEventUpdate store g" setsState for store g
proof
  fix e e' s and f :: "RaftGroupStatus \<Rightarrow> RaftGroupStatus"
  show "snd (groupEventUpdate store g e s) = s" if "\<not> fst (groupEventUpdate store g e s)"
    using that by (rule_tac groupEventUpdate_cases [of e store g])
      (auto simp: group_ready.unchanged group_leader.unchanged)
  show "\<not> fst (groupEventUpdate store g e (snd (groupEventUpdate store g e' s)))"
    if "\<not> fst (groupEventUpdate store g e s)"
    using that groupEventUpdate_known [of s store g e'] groupEventUpdate_news [of s _ _ store g e']
    by (rule_tac groupEventUpdate_cases [of e store g]) (auto simp: groupMemberReady_stays groupLeader_news)
  show "\<not> fst (groupEventUpdate store g e (f s))" if "setsState f" "\<not> fst (groupEventUpdate store g e s)"
    using that by (rule_tac groupEventUpdate_cases [of e store g])
      (auto simp: groupMemberReady_stays groupLeader_news setsState_def knownMembers_def)
qed

section \<open>Leaders\<close>

definition leadersOf :: "GroupID \<Rightarrow> isEvent_Event set \<Rightarrow> LeaderUpdatedEvent set" where
  "leadersOf g E = {l. Event_LeaderUpdated l \<in> E \<and> me_GroupID (lu_MemberEvent l) = g}"

definition logged :: "('e, 's) recorded list \<Rightarrow> 'e set" where
  "logged log = (\<Union>i. loggedBy i log)"

lemma logged_snoc:
  "logged (log @ [Recorded i e]) = insert e (logged log)" "logged (log @ [Unheard i e]) = insert e (logged log)"
  "logged (log @ [Reconciled f]) = logged log"
  by (auto simp: logged_def loggedBy_def)

lemma leadersOf_insert:
  "leadersOf g (insert e E) = (case e of
     Event_LeaderUpdated l \<Rightarrow> if me_GroupID (lu_MemberEvent l) = g then insert l (leadersOf g E) else leadersOf g E
   | _ \<Rightarrow> leadersOf g E)"
  by (cases e) (auto simp: leadersOf_def)

lemma leader_spec_fields:
  "leader_spec store E s \<Longrightarrow> gs_Term s' = gs_Term s \<Longrightarrow> gs_Leader s' = gs_Leader s \<Longrightarrow> leader_spec store E s'"
  by (simp add: leader_spec_def)

lemma leader_spec_event:
  assumes "leader_spec store (leadersOf g E) s" and "one_leader (leadersOf g (insert e E))"
  shows "leader_spec store (leadersOf g (insert e E)) (snd (groupEventUpdate store g e s))"
proof (rule groupEventUpdate_cases [of e store g])
  fix n m assume e: "e = Event_MemberReady n" and u: "groupEventUpdate store g e = groupMemberReady m"
  have "leadersOf g (insert e E) = leadersOf g E" by (simp add: e leadersOf_insert)
  with assms(1) u show ?thesis by (auto simp: groupMemberReady_def elim!: leader_spec_fields)
next
  fix l assume "e = Event_LeaderUpdated l" "me_GroupID (lu_MemberEvent l) = g"
    "groupEventUpdate store g e = groupLeader store l"
  with leader_spec_step [OF assms(1), of l] assms(2) show ?thesis by (simp add: leadersOf_insert)
next
  assume n: "groupEventUpdate store g e = (\<lambda>s. (False, s))"
    "\<And>l. e = Event_LeaderUpdated l \<Longrightarrow> me_GroupID (lu_MemberEvent l) \<noteq> g"
  then have "leadersOf g (insert e E) = leadersOf g E" by (auto simp: leadersOf_def)
  with assms(1) n(1) show ?thesis by simp
qed

lemma log_leader_spec:
  assumes "one_leader (leadersOf g (logged log))" and "leader_spec store {} s0"
    and "\<And>f. Reconciled f \<in> set log \<Longrightarrow> setsState f"
  shows "leader_spec store (leadersOf g (logged log))
    (fold (applyRecorded (groupEventUpdate store g)) log s0)"
  using assms(1,3)
proof (induction log rule: rev_induct)
  case Nil
  then show ?case using assms(2) by (simp add: logged_def loggedBy_def leadersOf_def)
next
  case (snoc w log)
  have "logged log \<subseteq> logged (log @ [w])" by (cases w) (auto simp: logged_snoc)
  then have "leadersOf g (logged log) \<subseteq> leadersOf g (logged (log @ [w]))" by (auto simp: leadersOf_def)
  with snoc have IH: "leader_spec store (leadersOf g (logged log))
      (fold (applyRecorded (groupEventUpdate store g)) log s0)"
    using one_leader_subset by fastforce
  show ?case
  proof (cases w)
    case (Recorded i e)
    with leader_spec_event [OF IH, of e] snoc.prems(1) show ?thesis by (simp add: logged_snoc)
  next
    case (Unheard i e)
    with leader_spec_event [OF IH, of e] snoc.prems(1) show ?thesis by (simp add: logged_snoc)
  next
    case (Reconciled f)
    then have "setsState f" using snoc.prems(2) by simp
    with IH show ?thesis by (auto simp: Reconciled logged_snoc setsState_def elim!: leader_spec_fields)
  qed
qed

lemma log_writes:
  "recording_reachable upd writes s0 r \<Longrightarrow> Reconciled f \<in> set (rc_log r) \<Longrightarrow> writes f"
proof (induction rule: recording_reachable.induct)
  case (recording_next r r')
  from recording_next.hyps(2) recording_next.prems recording_next.IH show ?case by cases auto
qed (simp add: recording_init_def)

text \<open>What the streams of a group end in, once everything they delivered is recorded.\<close>

lemma recorded_leaders:
  assumes "recording_reachable (groupEventUpdate store g) setsState s0 r" and "leader_spec store {} s0"
    and "one_leader (leadersOf g (\<Union>i. set (rc_received r i)))"
    and "\<And>i. rc_queue r i = [] \<and> rc_lost r i = {}"
  shows "leader_spec store (leadersOf g (\<Union>i. set (rc_received r i))) (status_now r)"
proof -
  have "set (rc_received r i) = loggedBy i (rc_log r)" for i
  proof -
    obtain finished where "accounts r i finished" and early: "loggedBy i (rc_log r) \<subseteq> set (rc_received r i)"
      using recording_accounts [OF assms(1)] by blast
    then have "set (rc_received r i) = set (recordedBy i (rc_log r))"
      using assms(4) [of i] by (simp add: accounts_def)
    with early show ?thesis by (auto simp: set_recordedBy loggedBy_def)
  qed
  then have all: "(\<Union>i. set (rc_received r i)) = logged (rc_log r)" by (simp add: logged_def)
  have "leader_spec store (leadersOf g (logged (rc_log r)))
      (fold (applyRecorded (groupEventUpdate store g)) (rc_log r) s0)"
    by (rule log_leader_spec [OF _ assms(2) log_writes [OF assms(1)]]) (use assms(3) all in simp)
  with group_recorder.reachable_serial [OF assms(1)] all show ?thesis by (simp add: serial_def)
qed

section \<open>The code takes these steps\<close>

text \<open>
  A client of one object that numbers its versions. An attempt of \<open>tryRecord\<close> that nobody disturbs is a
  \<open>get\<close> followed by a \<open>skip\<close> or a \<open>put\<close>.
\<close>

definition versionedClient :: "('s list, nat \<times> 's) objectClient" where
  "versionedClient =
     \<lparr>cl_Get = (\<lambda>_. State (\<lambda>vs. (Inr (length vs, hd vs), vs))),
      cl_Create = (\<lambda>x. State (\<lambda>vs. (Inr x, vs))), cl_Update = (\<lambda>x. State (\<lambda>vs. (Inr x, vs))),
      cl_StatusUpdate = (\<lambda>(v, s). State (\<lambda>vs.
        if v = length vs then (Inr (Suc v, s), s # vs) else (Inl (OtherError ''Conflict''), vs)))\<rparr>"

lemma tryRecord_takes_steps:
  assumes "rc_pc r i = RIdle" and "rc_queue r i = e # q" and "rc_versions r \<noteq> []"
  shows "\<exists>r1 r2. recording_step upd writes r r1 \<and> recording_step upd writes r1 r2 \<and> rc_queue r2 = (rc_queue r)(i := q) \<and>
    run_state (tryRecord versionedClient snd (\<lambda>s x. (fst x, s)) name (upd e) (\<lambda>_. ret ())) (rc_versions r) =
      (Inr (), rc_versions r2)"
proof -
  let ?r1 = "r\<lparr>rc_pc := (rc_pc r)(i := RRead (length (rc_versions r)) (hd (rc_versions r)))\<rparr>"
  have s1: "recording_step upd writes r ?r1"
    using recording_step.get [of r i 0] assms by (simp add: hd_conv_nth)
  obtain b s' where u: "upd e (hd (rc_versions r)) = (b, s')" by fastforce
  let ?r2 = "(if b then ?r1\<lparr>rc_versions := s' # rc_versions ?r1\<rparr> else ?r1)\<lparr>rc_pc := (rc_pc ?r1)(i := RIdle),
      rc_queue := (rc_queue ?r1)(i := q), rc_log := rc_log ?r1 @ [Recorded i e]\<rparr>"
  have "recording_step upd writes ?r1 ?r2"
  proof (cases b)
    case True
    have "recording_step upd writes ?r1 (?r1\<lparr>rc_versions := s' # rc_versions ?r1, rc_pc := (rc_pc ?r1)(i := RIdle),
        rc_queue := (rc_queue ?r1)(i := q), rc_log := rc_log ?r1 @ [Recorded i e]\<rparr>)"
      by (rule recording_step.put) (use assms(2) u True in simp_all)
    with True show ?thesis by simp
  next
    case False
    have "recording_step upd writes ?r1 (?r1\<lparr>rc_pc := (rc_pc ?r1)(i := RIdle),
        rc_queue := (rc_queue ?r1)(i := q), rc_log := rc_log ?r1 @ [Recorded i e]\<rparr>)"
      by (rule recording_step.skip) (use assms(2) u False in simp_all)
    with False show ?thesis by simp
  qed
  with s1 show ?thesis
    by (intro exI [of _ ?r1] exI [of _ ?r2]) (simp add: u tryRecord_def versionedClient_def)
qed

section \<open>Properties\<close>

text \<open>
  C12. Recording is serializable: however the streams of the pods and the cluster controller
  interleave, with reads from a stale cache, refused writes and answers that get lost, the status of a
  group is always what its recorded events and the controller's writes make of it one after the other;
  every stream is recorded in its order, each of its events is recorded, still to come or was given up
  after failures, and the status stays sound.
\<close>

theorem recordings_are_serial:
  assumes "recording_reachable (groupEventUpdate store g) setsState s0 r" and "group_status_ok s0"
  shows "status_now r = fold (applyRecorded (groupEventUpdate store g)) (rc_log r) s0 \<and>
    (\<exists>finished. rc_received r i = finished @ rc_queue r i \<and> subseq (recordedBy i (rc_log r)) finished \<and>
       set finished = set (recordedBy i (rc_log r)) \<union> rc_lost r i) \<and>
    group_status_ok (status_now r)"
proof -
  have now: "status_now r = fold (applyRecorded (groupEventUpdate store g)) (rc_log r) s0"
    using group_recorder.reachable_serial [OF assms(1)] by (simp add: serial_def)
  have "group_status_ok (fold (applyRecorded (groupEventUpdate store g)) log s0)"
    if "\<And>f. Reconciled f \<in> set log \<Longrightarrow> setsState f" for log :: "(isEvent_Event, RaftGroupStatus) recorded list"
    using that
  proof (induction log rule: rev_induct)
    case (snoc w log)
    then have IH: "group_status_ok (fold (applyRecorded (groupEventUpdate store g)) log s0)" by simp
    show ?case
    proof (cases w)
      case (Reconciled f)
      then have "setsState f" using snoc.prems by simp
      with IH show ?thesis by (auto simp: Reconciled setsState_def group_status_ok_def)
    qed (use groupEventUpdate_ok [OF IH] in simp_all)
  qed (simp add: assms(2))
  then have "group_status_ok (status_now r)" using log_writes [OF assms(1)] by (simp add: now)
  with now recording_accounts [OF assms(1), of i] show ?thesis by (auto simp: accounts_def)
qed

text \<open>
  A run: two pods report leaders of different terms. The second reads a version before the first one's
  write, is refused, reads again and finds nothing to do.
\<close>

definition runRecording :: "RaftGroupStatus list \<Rightarrow> isEvent_Event list \<Rightarrow> isEvent_Event list \<Rightarrow> isEvent_Event list \<Rightarrow>
    isEvent_Event list \<Rightarrow> RaftGroupStatus recorderPC \<Rightarrow> RaftGroupStatus recorderPC \<Rightarrow>
    (isEvent_Event, RaftGroupStatus) recorded list \<Rightarrow> (isEvent_Event, RaftGroupStatus) recording" where
  "runRecording vs es0 es1 q0 q1 p0 p1 log =
     \<lparr>rc_versions = vs, rc_received = (\<lambda>_. [])(0 := es0, 1 := es1), rc_queue = (\<lambda>_. [])(0 := q0, 1 := q1),
      rc_pc = (\<lambda>_. RIdle)(0 := p0, 1 := p1), rc_log = log, rc_lost = (\<lambda>_. {})\<rparr>"

definition recordingStore :: NamespacedName where
  "recordingStore = \<lparr>nn_Namespace = ''ns'', nn_Name = ''raft''\<rparr>"

abbreviation runReachable :: "(isEvent_Event, RaftGroupStatus) recording \<Rightarrow> bool" where
  "runReachable \<equiv> recording_reachable (groupEventUpdate recordingStore 1) setsState zeroGroupStatus"

definition newerEvent :: isEvent_Event where
  "newerEvent = Event_LeaderUpdated (sampleLeaderEvent 2 3)"

definition olderEvent :: isEvent_Event where
  "olderEvent = Event_LeaderUpdated (sampleLeaderEvent 1 1)"

definition newerStatus :: RaftGroupStatus where
  "newerStatus = snd (groupEventUpdate recordingStore 1 newerEvent zeroGroupStatus)"

lemma run_updates:
  "groupEventUpdate recordingStore 1 newerEvent zeroGroupStatus = (True, newerStatus)"
  "groupEventUpdate recordingStore 1 olderEvent newerStatus = (False, newerStatus)"
  by (simp_all add: newerStatus_def groupEventUpdate_def newerEvent_def olderEvent_def sampleLeaderEvent_def
      groupLeader_def leaderNews_def zeroGroupStatus_def Let_def)

lemma run_received:
  "runReachable (runRecording [zeroGroupStatus] [newerEvent] [olderEvent] [newerEvent] [olderEvent] RIdle RIdle [])"
proof -
  have init: "recording_init zeroGroupStatus = runRecording [zeroGroupStatus] [] [] [] [] RIdle RIdle []"
    by (simp add: recording_init_def runRecording_def fun_eq_iff)
  have s1: "recording_step (groupEventUpdate recordingStore 1) setsState (runRecording [zeroGroupStatus] [] [] [] [] RIdle RIdle [])
      (runRecording [zeroGroupStatus] [newerEvent] [] [newerEvent] [] RIdle RIdle [])"
    using receive [of _ _ "runRecording [zeroGroupStatus] [] [] [] [] RIdle RIdle []" 0 newerEvent]
    by (simp add: runRecording_def fun_upd_twist)
  have s2: "recording_step (groupEventUpdate recordingStore 1) setsState
      (runRecording [zeroGroupStatus] [newerEvent] [] [newerEvent] [] RIdle RIdle [])
      (runRecording [zeroGroupStatus] [newerEvent] [olderEvent] [newerEvent] [olderEvent] RIdle RIdle [])"
    using receive [of _ _ "runRecording [zeroGroupStatus] [newerEvent] [] [newerEvent] [] RIdle RIdle []" 1 olderEvent]
    by (simp add: runRecording_def fun_upd_twist)
  show ?thesis
    by (rule recording_next [OF recording_next [OF recording_start s1 [folded init]] s2])
qed

lemma run_raced:
  "runReachable (runRecording [newerStatus, zeroGroupStatus] [newerEvent] [olderEvent] [] [olderEvent] RIdle
     (RRead 1 zeroGroupStatus) [Recorded 0 newerEvent])"
proof -
  let ?z = zeroGroupStatus and ?r = "\<lambda>q0. runRecording [zeroGroupStatus] [newerEvent] [olderEvent] q0 [olderEvent]"
  let ?step = "recording_step (groupEventUpdate recordingStore 1) setsState"
  have s1: "?step (?r [newerEvent] RIdle RIdle []) (?r [newerEvent] (RRead 1 ?z) RIdle [])"
    using get [of "?r [newerEvent] RIdle RIdle []" 0 0 "groupEventUpdate recordingStore 1" setsState]
    by (simp add: runRecording_def fun_upd_twist)
  have s2: "?step (?r [newerEvent] (RRead 1 ?z) RIdle []) (?r [newerEvent] (RRead 1 ?z) (RRead 1 ?z) [])"
    using get [of "?r [newerEvent] (RRead 1 ?z) RIdle []" 1 0 "groupEventUpdate recordingStore 1" setsState]
    by (simp add: runRecording_def fun_upd_twist)
  have s3: "?step (?r [newerEvent] (RRead 1 ?z) (RRead 1 ?z) [])
      (runRecording [newerStatus, ?z] [newerEvent] [olderEvent] [] [olderEvent] RIdle (RRead 1 ?z) [Recorded 0 newerEvent])"
    using put [of "?r [newerEvent] (RRead 1 ?z) (RRead 1 ?z) []" 0 1 ?z newerEvent "[]" "groupEventUpdate recordingStore 1"
        newerStatus setsState] run_updates(1)
    by (simp add: runRecording_def fun_upd_twist)
  show ?thesis by (rule recording_next [OF recording_next [OF recording_next [OF run_received s1] s2] s3])
qed

lemma run_recorded:
  "runReachable (runRecording [newerStatus, zeroGroupStatus] [newerEvent] [olderEvent] [] [] RIdle RIdle
     [Recorded 0 newerEvent, Recorded 1 olderEvent])"
proof -
  let ?z = zeroGroupStatus and ?r = "\<lambda>q1 p1 log. runRecording [newerStatus, zeroGroupStatus] [newerEvent] [olderEvent] [] q1 RIdle p1 log"
  let ?step = "recording_step (groupEventUpdate recordingStore 1) setsState" and ?log = "[Recorded 0 newerEvent]"
  have s1: "?step (?r [olderEvent] (RRead 1 ?z) ?log) (?r [olderEvent] RIdle ?log)"
    using failed [of "?r [olderEvent] (RRead 1 ?z) ?log" 1 1 ?z "groupEventUpdate recordingStore 1" setsState]
    by (simp add: runRecording_def fun_upd_twist)
  have s2: "?step (?r [olderEvent] RIdle ?log) (?r [olderEvent] (RRead 2 newerStatus) ?log)"
    using get [of "?r [olderEvent] RIdle ?log" 1 0 "groupEventUpdate recordingStore 1" setsState]
    by (simp add: runRecording_def fun_upd_twist numeral_2_eq_2)
  have s3: "?step (?r [olderEvent] (RRead 2 newerStatus) ?log) (?r [] RIdle (?log @ [Recorded 1 olderEvent]))"
    using skip [of "?r [olderEvent] (RRead 2 newerStatus) ?log" 1 2 newerStatus olderEvent "[]" "groupEventUpdate recordingStore 1"
        newerStatus setsState] run_updates(2)
    by (simp add: runRecording_def fun_upd_twist)
  show ?thesis using recording_next [OF recording_next [OF recording_next [OF run_raced s1] s2] s3] by simp
qed

theorem recordings_are_serial_witness:
  "newerStatus = fold (applyRecorded (groupEventUpdate recordingStore 1))
     [Recorded 0 newerEvent, Recorded 1 olderEvent] zeroGroupStatus \<and> group_status_ok newerStatus"
proof -
  have "group_status_ok zeroGroupStatus" by (simp add: group_status_ok_def zeroGroupStatus_def)
  from recordings_are_serial [OF run_recorded this] show ?thesis
    by (simp add: status_now_def runRecording_def)
qed

section \<open>Members\<close>

text \<open>
  The status of a member has a writer that takes back what an event recorded: the cluster controller
  marks a member as not ready before it bootstraps it again (\<open>markNotReady\<close>). So an update of a member
  does not promise what \<open>recorder\<close> asks for.
\<close>

definition memberEventUpdate :: "NamespacedName \<Rightarrow> 't \<Rightarrow> isEvent_Event \<Rightarrow> 't RaftMemberStatus update" where
  "memberEventUpdate store timestamp e s =
     (case memberUpdate store timestamp e of None \<Rightarrow> (False, s) | Some (_, updater) \<Rightarrow> updater s)"

definition marksNotReady :: "('t RaftMemberStatus \<Rightarrow> 't RaftMemberStatus) \<Rightarrow> bool" where
  "marksNotReady f \<longleftrightarrow> f = (\<lambda>s. s\<lparr>ms_State := RaftMemberNotReady\<rparr>)"

text \<open>
  The event that a member is ready can be missed: it arrives after the member was marked as not ready,
  the cached status still says ready, and so nothing is written. The member stays not ready although
  its event was recorded without an error.
\<close>

theorem ready_can_be_missed:
  fixes timestamp :: 't and s :: "'t RaftMemberStatus" and e :: PlainEvent
  assumes "ms_State s = RaftMemberReady"
  shows "\<exists>r. recording_reachable (memberEventUpdate store timestamp) marksNotReady s r \<and>
    rc_received r 0 = [Event_MemberReady e] \<and> rc_queue r 0 = [] \<and> rc_lost r 0 = {} \<and>
    rc_log r = [Reconciled (\<lambda>s. s\<lparr>ms_State := RaftMemberNotReady\<rparr>), Recorded 0 (Event_MemberReady e)] \<and>
    ms_State (status_now r) = RaftMemberNotReady"
proof -
  let ?step = "recording_step (memberEventUpdate store timestamp) marksNotReady" and ?e = "Event_MemberReady e"
  let ?f = "\<lambda>s :: 't RaftMemberStatus. s\<lparr>ms_State := RaftMemberNotReady\<rparr>"
  let ?r = "\<lambda>vs es q pc log. recording_init s\<lparr>rc_versions := vs, rc_received := (\<lambda>_. [])(0 := es),
    rc_queue := (\<lambda>_. [])(0 := q), rc_pc := (\<lambda>_. RIdle)(0 := pc), rc_log := log\<rparr>"
  have s1: "?step (recording_init s) (?r [?f s, s] [] [] RIdle [Reconciled ?f])"
    using other [of marksNotReady ?f _ "recording_init s"]
    by (simp add: marksNotReady_def recording_init_def status_now_def fun_upd_idem)
  have s2: "?step (?r [?f s, s] [] [] RIdle [Reconciled ?f]) (?r [?f s, s] [?e] [?e] RIdle [Reconciled ?f])"
    using receive [of _ _ "?r [?f s, s] [] [] RIdle [Reconciled ?f]" 0 ?e] by (simp add: recording_init_def)
  have s3: "?step (?r [?f s, s] [?e] [?e] RIdle [Reconciled ?f]) (?r [?f s, s] [?e] [?e] (RRead 1 s) [Reconciled ?f])"
    using get [of "?r [?f s, s] [?e] [?e] RIdle [Reconciled ?f]" 0 1] by (simp add: recording_init_def)
  have "memberEventUpdate store timestamp ?e s = (False, s)"
    using assms by (simp add: memberEventUpdate_def memberReady_def)
  then have s4: "?step (?r [?f s, s] [?e] [?e] (RRead 1 s) [Reconciled ?f])
      (?r [?f s, s] [?e] [] RIdle [Reconciled ?f, Recorded 0 ?e])"
    using skip [of "?r [?f s, s] [?e] [?e] (RRead 1 s) [Reconciled ?f]" 0 1 s ?e "[]"] by (simp add: recording_init_def)
  have "recording_reachable (memberEventUpdate store timestamp) marksNotReady s
      (?r [?f s, s] [?e] [] RIdle [Reconciled ?f, Recorded 0 ?e])"
    by (rule recording_next [OF recording_next [OF recording_next [OF recording_next [OF recording_start s1] s2] s3] s4])
  then show ?thesis
    by (intro exI conjI) (assumption, simp_all add: status_now_def recording_init_def)
qed

end
