(* ===== verification/NodeEvents.thy ===== *)
theory NodeEvents
  imports EventMessages
begin

text \<open>
  The listener that turns dragonboat's notifications into events of the API
  (\<^verbatim>\<open>node/pkg/consensus/events.go\<close>). The notification types are those of dragonboat's
  \<^verbatim>\<open>raftio\<close> package; only the fields the code reads are listed. Each callback builds one
  event, stamped with the time it is called at, and publishes it; two callbacks do
  nothing.
\<close>

section \<open>Notifications\<close>

record LeaderInfo =
  li_ClusterID :: uint64
  li_NodeID :: uint64
  li_Term :: uint64
  li_LeaderID :: uint64

record NodeInfo =
  ni_ClusterID :: uint64
  ni_NodeID :: uint64

record RaftConnectionInfo =
  rci_Address :: string
  rci_SnapshotConnection :: bool

record SnapshotInfo =
  si_ClusterID :: uint64
  si_NodeID :: uint64
  si_From :: uint64
  si_Index :: uint64

record EntryInfo =
  ei_ClusterID :: uint64
  ei_NodeID :: uint64
  ei_Index :: uint64

datatype notification =
    LeaderUpdated LeaderInfo
  | NodeHostShuttingDown
  | NodeUnloaded NodeInfo
  | NodeReady NodeInfo
  | MembershipChanged NodeInfo
  | ConnectionEstablished RaftConnectionInfo
  | ConnectionFailed RaftConnectionInfo
  | SendSnapshotStarted SnapshotInfo
  | SendSnapshotCompleted SnapshotInfo
  | SendSnapshotAborted SnapshotInfo
  | SnapshotReceived SnapshotInfo
  | SnapshotRecovered SnapshotInfo
  | SnapshotCreated SnapshotInfo
  | SnapshotCompacted SnapshotInfo
  | LogCompacted EntryInfo
  | LogDBCompacted EntryInfo

section \<open>The event of a notification\<close>

text \<open>
  The identifiers are 64 bits wide in dragonboat and 32 in the API; the conversions
  \<^verbatim>\<open>GroupID(..)\<close> and \<^verbatim>\<open>MemberID(..)\<close> truncate.
\<close>

definition memberEvent :: "uint64 \<Rightarrow> uint64 \<Rightarrow> MemberEvent" where
  "memberEvent clusterID nodeID = \<lparr>me_GroupID = ucast clusterID, me_MemberID = ucast nodeID\<rparr>"

definition connectionEvent :: "RaftConnectionInfo \<Rightarrow> ConnectionEvent" where
  "connectionEvent info =
     \<lparr>ce_ConnectionInfo = \<lparr>ci_Address = rci_Address info, ci_Snapshot = rci_SnapshotConnection info\<rparr>\<rparr>"

definition sendSnapshotEvent :: "SnapshotInfo \<Rightarrow> SendSnapshotEvent" where
  "sendSnapshotEvent info =
     \<lparr>ss_MemberEvent = memberEvent (si_ClusterID info) (si_NodeID info),
      ss_Index = si_Index info, ss_To = ucast (si_NodeID info)\<rparr>"

definition snapshotIndexEvent :: "SnapshotInfo \<Rightarrow> IndexEvent" where
  "snapshotIndexEvent info =
     \<lparr>ie_MemberEvent = memberEvent (si_ClusterID info) (si_NodeID info), ie_Index = si_Index info\<rparr>"

definition entryIndexEvent :: "EntryInfo \<Rightarrow> IndexEvent" where
  "entryIndexEvent info =
     \<lparr>ie_MemberEvent = memberEvent (ei_ClusterID info) (ei_NodeID info), ie_Index = ei_Index info\<rparr>"

fun notificationEvent :: "notification \<Rightarrow> isEvent_Event option" where
  "notificationEvent (LeaderUpdated info) = Some (Event_LeaderUpdated
     \<lparr>lu_MemberEvent = memberEvent (li_ClusterID info) (li_NodeID info),
      lu_Term = li_Term info, lu_Leader = ucast (li_LeaderID info)\<rparr>)"
| "notificationEvent NodeHostShuttingDown = None"
| "notificationEvent (NodeUnloaded info) = None"
| "notificationEvent (NodeReady info) = Some (Event_MemberReady
     \<lparr>pe_MemberEvent = memberEvent (ni_ClusterID info) (ni_NodeID info)\<rparr>)"
| "notificationEvent (MembershipChanged info) = Some (Event_MembershipChanged
     \<lparr>pe_MemberEvent = memberEvent (ni_ClusterID info) (ni_NodeID info)\<rparr>)"
| "notificationEvent (ConnectionEstablished info) =
     Some (Event_ConnectionEstablished (connectionEvent info))"
| "notificationEvent (ConnectionFailed info) =
     Some (Event_ConnectionFailed (connectionEvent info))"
| "notificationEvent (SendSnapshotStarted info) =
     Some (Event_SendSnapshotStarted (sendSnapshotEvent info))"
| "notificationEvent (SendSnapshotCompleted info) =
     Some (Event_SendSnapshotCompleted (sendSnapshotEvent info))"
| "notificationEvent (SendSnapshotAborted info) =
     Some (Event_SendSnapshotAborted (sendSnapshotEvent info))"
| "notificationEvent (SnapshotReceived info) = Some (Event_SnapshotReceived
     \<lparr>sr_MemberEvent = memberEvent (si_ClusterID info) (si_NodeID info),
      sr_Index = si_Index info, sr_From = ucast (si_From info)\<rparr>)"
| "notificationEvent (SnapshotRecovered info) =
     Some (Event_SnapshotRecovered (snapshotIndexEvent info))"
| "notificationEvent (SnapshotCreated info) =
     Some (Event_SnapshotCreated (snapshotIndexEvent info))"
| "notificationEvent (SnapshotCompacted info) =
     Some (Event_SnapshotCompacted (snapshotIndexEvent info))"
| "notificationEvent (LogCompacted info) =
     Some (Event_LogCompacted (entryIndexEvent info))"
| "notificationEvent (LogDBCompacted info) =
     Some (Event_LogdbCompacted (entryIndexEvent info))"

definition listen :: "'t \<Rightarrow> notification \<Rightarrow> 't Event option" where
  "listen now n =
     (case notificationEvent n of
        Some e \<Rightarrow> Some \<lparr>ev_Timestamp = now, ev_Event = Some e\<rparr>
      | None \<Rightarrow> None)"

section \<open>Whose event it is\<close>

text \<open>The cluster and node a notification is about, and the member its event names.\<close>

fun notificationNode :: "notification \<Rightarrow> (uint64 \<times> uint64) option" where
  "notificationNode (LeaderUpdated info) = Some (li_ClusterID info, li_NodeID info)"
| "notificationNode (NodeReady info) = Some (ni_ClusterID info, ni_NodeID info)"
| "notificationNode (MembershipChanged info) = Some (ni_ClusterID info, ni_NodeID info)"
| "notificationNode (SendSnapshotStarted info) = Some (si_ClusterID info, si_NodeID info)"
| "notificationNode (SendSnapshotCompleted info) = Some (si_ClusterID info, si_NodeID info)"
| "notificationNode (SendSnapshotAborted info) = Some (si_ClusterID info, si_NodeID info)"
| "notificationNode (SnapshotReceived info) = Some (si_ClusterID info, si_NodeID info)"
| "notificationNode (SnapshotRecovered info) = Some (si_ClusterID info, si_NodeID info)"
| "notificationNode (SnapshotCreated info) = Some (si_ClusterID info, si_NodeID info)"
| "notificationNode (SnapshotCompacted info) = Some (si_ClusterID info, si_NodeID info)"
| "notificationNode (LogCompacted info) = Some (ei_ClusterID info, ei_NodeID info)"
| "notificationNode (LogDBCompacted info) = Some (ei_ClusterID info, ei_NodeID info)"
| "notificationNode _ = None"

fun eventMember :: "isEvent_Event \<Rightarrow> MemberEvent option" where
  "eventMember (Event_MemberReady e) = Some (pe_MemberEvent e)"
| "eventMember (Event_LeaderUpdated e) = Some (lu_MemberEvent e)"
| "eventMember (Event_MembershipChanged e) = Some (pe_MemberEvent e)"
| "eventMember (Event_SendSnapshotStarted e) = Some (ss_MemberEvent e)"
| "eventMember (Event_SendSnapshotCompleted e) = Some (ss_MemberEvent e)"
| "eventMember (Event_SendSnapshotAborted e) = Some (ss_MemberEvent e)"
| "eventMember (Event_SnapshotReceived e) = Some (sr_MemberEvent e)"
| "eventMember (Event_SnapshotRecovered e) = Some (ie_MemberEvent e)"
| "eventMember (Event_SnapshotCreated e) = Some (ie_MemberEvent e)"
| "eventMember (Event_SnapshotCompacted e) = Some (ie_MemberEvent e)"
| "eventMember (Event_LogCompacted e) = Some (ie_MemberEvent e)"
| "eventMember (Event_LogdbCompacted e) = Some (ie_MemberEvent e)"
| "eventMember (Event_ConnectionEstablished e) = None"
| "eventMember (Event_ConnectionFailed e) = None"

fun snapshotTarget :: "isEvent_Event \<Rightarrow> MemberID option" where
  "snapshotTarget (Event_SendSnapshotStarted e) = Some (ss_To e)"
| "snapshotTarget (Event_SendSnapshotCompleted e) = Some (ss_To e)"
| "snapshotTarget (Event_SendSnapshotAborted e) = Some (ss_To e)"
| "snapshotTarget _ = None"

lemma unat_ucast_32: "n < 2 ^ 32 \<Longrightarrow> unat (ucast (n :: uint64) :: 32 word) = unat n"
  by (simp add: unsigned_ucast_eq take_bit_word_eq_self word_less_nat_alt unsigned_take_bit_eq
      take_bit_nat_eq_self)

lemma notificationEvent_member:
  "notificationEvent n = Some e \<Longrightarrow> notificationNode n = Some (c, m) \<Longrightarrow>
     eventMember e = Some (memberEvent c m)"
  by (cases n) (auto simp: sendSnapshotEvent_def snapshotIndexEvent_def entryIndexEvent_def)

section \<open>Properties\<close>

text \<open>
  A notification about a node is published as an event about that node: while
  dragonboat's identifiers fit 32 bits, the event exists and its group and member are the
  notification's cluster and node, so notifications of different nodes never yield events
  that name the same member.
\<close>

theorem listen_names_the_member:
  assumes "notificationNode n = Some (c, m)" and "c < 2 ^ 32" and "m < 2 ^ 32"
  shows "\<exists>e g. listen now n = Some \<lparr>ev_Timestamp = now, ev_Event = Some e\<rparr> \<and>
    eventMember e = Some g \<and> unat (me_GroupID g) = unat c \<and> unat (me_MemberID g) = unat m"
proof -
  obtain e where e: "notificationEvent n = Some e" using assms(1) by (cases n) auto
  have "eventMember e = Some (memberEvent c m)"
    by (rule notificationEvent_member [OF e assms(1)])
  with e assms(2,3) show ?thesis by (simp add: listen_def memberEvent_def unat_ucast_32)
qed

theorem listen_names_the_member_witness:
  "\<exists>e g. listen (0 :: nat) (NodeReady \<lparr>ni_ClusterID = 7, ni_NodeID = 2\<rparr>) =
      Some \<lparr>ev_Timestamp = 0, ev_Event = Some e\<rparr> \<and>
    eventMember e = Some g \<and> unat (me_GroupID g) = 7 \<and> unat (me_MemberID g) = 2"
  using listen_names_the_member [of "NodeReady \<lparr>ni_ClusterID = 7, ni_NodeID = 2\<rparr>" 7 2 "0 :: nat"]
  by simp

text \<open>
  A snapshot is always reported as sent by a member to itself: all three callbacks fill
  both the event's member and its target from the same field of the notification and never
  read \<^verbatim>\<open>From\<close>, so two sends that differ in the sender are published alike.
\<close>

lemma send_snapshot_names_itself:
  "(\<forall>n e t. notificationEvent n = Some e \<longrightarrow> snapshotTarget e = Some t \<longrightarrow>
      map_option me_MemberID (eventMember e) = Some t) \<and>
   (\<forall>info from. \<forall>k \<in> {SendSnapshotStarted, SendSnapshotCompleted, SendSnapshotAborted}.
      notificationEvent (k (info\<lparr>si_From := from\<rparr>)) = notificationEvent (k info))"
proof -
  have "map_option me_MemberID (eventMember e) = Some t"
    if "notificationEvent n = Some e" "snapshotTarget e = Some t" for n e t
    using that by (cases n) (auto simp: sendSnapshotEvent_def memberEvent_def)
  then show ?thesis by (auto simp: sendSnapshotEvent_def)
qed

theorem send_snapshot_names_itself_witness:
  "map_option me_MemberID (eventMember (Event_SendSnapshotStarted (sendSnapshotEvent
     \<lparr>si_ClusterID = 1, si_NodeID = 3, si_From = 2, si_Index = 9\<rparr>))) = Some 3"
proof -
  let ?i = "\<lparr>si_ClusterID = 1, si_NodeID = 3, si_From = 2, si_Index = 9\<rparr>"
  have "notificationEvent (SendSnapshotStarted ?i) =
      Some (Event_SendSnapshotStarted (sendSnapshotEvent ?i))"
    and "snapshotTarget (Event_SendSnapshotStarted (sendSnapshotEvent ?i)) = Some 3"
    by (simp_all add: sendSnapshotEvent_def)
  then show ?thesis using send_snapshot_names_itself by blast
qed

end
