(* ===== verification/NodeProtocol.thy ===== *)
theory NodeProtocol
  imports StateMachine NodeEvents
begin

text \<open>
  The node's protocol object and its gRPC server (\<^verbatim>\<open>node/pkg/consensus/protocol.go\<close>,
  \<^verbatim>\<open>server.go\<close>): the partitions of this node and their stream tables, the watchers, the
  configuration of a Raft group, and the operations that start, join and stop one. A
  watcher's channel is here the list of what was sent to it; that sending can block is the
  subject of \<open>WatchHub\<close>. Go visits a map in an unspecified order: that order is an
  argument of the operations that range over one.
\<close>

section \<open>State\<close>

record ('pid, 's, 't) Protocol =
  pr_config :: NodeRaftConfig
  pr_partitions :: "'pid \<rightharpoonup> 'pid Partition"
  pr_contexts :: "'pid \<rightharpoonup> 's protocolContext"
  pr_watchers :: "int \<rightharpoonup> 't Event list"
  pr_watcherID :: int

record NodeHostConfig =
  nhc_WALDir :: string
  nhc_NodeHostDir :: string
  nhc_RTTMillisecond :: uint64
  nhc_RaftAddress :: string

definition hostPort :: "string \<Rightarrow> int \<Rightarrow> string" where
  "hostPort host port = host @ '':'' @ itoa port"

definition nodeHostConfig :: "NodeRaftConfig \<Rightarrow> Options \<Rightarrow> NodeHostConfig" where
  "nodeHostConfig config options =
     \<lparr>nhc_WALDir = GetDataDir config, nhc_NodeHostDir = GetDataDir config,
      nhc_RTTMillisecond = word_of_int (Milliseconds (GetHeartbeatPeriod config)),
      nhc_RaftAddress = hostPort (opt_Host options) (opt_Port options)\<rparr>"

text \<open>\<open>None\<close> is the panic on a NodeHost that cannot be created.\<close>

definition NewProtocol :: "(NodeHostConfig \<Rightarrow> ('w, dbError + 'host) state) \<Rightarrow> NodeRaftConfig \<Rightarrow> Option list \<Rightarrow>
    ('w, ('host \<times> ('p::len word, 's, 't) Protocol) option) state" where
  "NewProtocol newNodeHost config opts =
     (let options = applyOptions zeroOptions opts;
          protocol = \<lparr>pr_config = config, pr_partitions = Map.empty, pr_contexts = Map.empty,
            pr_watchers = Map.empty, pr_watcherID = 0\<rparr>
      in do {
        r \<leftarrow> newNodeHost (nodeHostConfig config options);
        (case r of
           Inl err \<Rightarrow> ret None
         | Inr host \<Rightarrow> ret (Some (host, protocol)))
      })"

section \<open>Events\<close>

definition publishPartition :: "isEvent_Event option \<Rightarrow> ('p::len word \<rightharpoonup> 'p word Partition) \<Rightarrow>
    ('p word \<rightharpoonup> 'p word Partition)" where
  "publishPartition event partitions =
     (case event of
        Some (Event_MemberReady e) \<Rightarrow>
          (let id = ucast (me_GroupID (pe_MemberEvent e)) in
           case partitions id of
             Some p \<Rightarrow> partitions(id \<mapsto> setReady p)
           | None \<Rightarrow> partitions)
      | Some (Event_LeaderUpdated e) \<Rightarrow>
          (let id = ucast (me_GroupID (lu_MemberEvent e)) in
           case partitions id of
             Some p \<Rightarrow> partitions(id \<mapsto> setLeader (lu_Term e) (lu_Leader e) p)
           | None \<Rightarrow> partitions)
      | _ \<Rightarrow> partitions)"

definition publish :: "'t Event \<Rightarrow> ('p::len word, 's, 't) Protocol \<Rightarrow> ('p word, 's, 't) Protocol" where
  "publish event n =
     n\<lparr>pr_partitions := publishPartition (ev_Event event) (pr_partitions n),
       pr_watchers := (\<lambda>i. map_option (\<lambda>sent. sent @ [event]) (pr_watchers n i))\<rparr>"

definition Partition_lookup :: "('p::len word, 's, 't) Protocol \<Rightarrow> 'p word \<Rightarrow> 'p word Partition option" where
  "Partition_lookup n partitionID = pr_partitions n partitionID"

definition Partitions :: "'p word list \<Rightarrow> ('p::len word, 's, 't) Protocol \<Rightarrow> 'p word Partition list" where
  "Partitions order n = List.map_filter (pr_partitions n) order"

definition replayPartition :: "'t \<Rightarrow> 'p::len word Partition \<Rightarrow> 't Event list" where
  "replayPartition zeroTime p =
     (let (term, leader) = getLeader p;
          me = \<lparr>me_GroupID = ucast (part_ID p), me_MemberID = part_memberID p\<rparr>
      in (if 0 < term
          then [\<lparr>ev_Timestamp = zeroTime, ev_Event = Some (Event_LeaderUpdated
                 \<lparr>lu_MemberEvent = me, lu_Term = term, lu_Leader = leader\<rparr>)\<rparr>]
          else []) @
         (if getReady p
          then [\<lparr>ev_Timestamp = zeroTime, ev_Event = Some (Event_MemberReady \<lparr>pe_MemberEvent = me\<rparr>)\<rparr>]
          else []))"

definition Watch :: "'t \<Rightarrow> 'p word list \<Rightarrow> ('p::len word, 's, 't) Protocol \<Rightarrow> int \<times> ('p word, 's, 't) Protocol" where
  "Watch zeroTime order n =
     (let id = int64 (pr_watcherID n + 1) in
      (id, n\<lparr>pr_watcherID := id,
             pr_watchers := (pr_watchers n)
               (id \<mapsto> concat (map (replayPartition zeroTime) (Partitions order n)))\<rparr>))"

text \<open>The goroutine \<^verbatim>\<open>Watch\<close> starts, once the watcher's context is done.\<close>

definition stopWatch :: "int \<Rightarrow> ('p::len word, 's, 't) Protocol \<Rightarrow> ('p word, 's, 't) Protocol" where
  "stopWatch wid n = n\<lparr>pr_watchers := (pr_watchers n)(wid := None)\<rparr>"

section \<open>Groups\<close>

record RaftConfig =
  rc_NodeID :: uint64
  rc_ClusterID :: uint64
  rc_ElectionRTT :: uint64
  rc_HeartbeatRTT :: uint64
  rc_CheckQuorum :: bool
  rc_SnapshotEntries :: uint64
  rc_CompactionOverhead :: uint64
  rc_IsObserver :: bool
  rc_IsWitness :: bool

text \<open>An error of dragonboat reaches the caller wrapped or as it is; Go panics on a division by zero.\<close>

datatype protocolError = DivideByZero | Wrapped atomixError | Raw dbError

definition electionRTT :: "NodeRaftConfig \<Rightarrow> protocolError + uint64" where
  "electionRTT config =
     (case nrc_ElectionTimeout config of
        None \<Rightarrow> Inr 10
      | Some timeout \<Rightarrow>
          (let heartbeat = Milliseconds (GetHeartbeatPeriod config) in
           if heartbeat = 0 then Inl DivideByZero
           else Inr (word_of_int (int64 (Milliseconds timeout sdiv heartbeat)))))"

definition getRaftConfig :: "NodeRaftConfig \<Rightarrow> GroupConfig \<Rightarrow> protocolError + RaftConfig" where
  "getRaftConfig nodeConfig config =
     (case electionRTT nodeConfig of
        Inl err \<Rightarrow> Inl err
      | Inr rtt \<Rightarrow> Inr
          \<lparr>rc_NodeID = ucast (gc_MemberID config), rc_ClusterID = ucast (gc_GroupID config),
           rc_ElectionRTT = rtt, rc_HeartbeatRTT = 1, rc_CheckQuorum = True,
           rc_SnapshotEntries = GetSnapshotEntryThreshold nodeConfig,
           rc_CompactionOverhead = GetCompactionRetainEntries nodeConfig,
           rc_IsObserver = (gc_Role config = MemberRole_OBSERVER),
           rc_IsWitness = (gc_Role config = MemberRole_WITNESS)\<rparr>)"

definition groupMembers :: "MemberConfig list \<Rightarrow> (uint64 \<rightharpoonup> string)" where
  "groupMembers members =
     foldl (\<lambda>m member. m(ucast (mc_MemberID member) \<mapsto>
         hostPort (mc_Host member) (uint (mc_Port member))))
       Map.empty members"

text \<open>
  The state machine dragonboat asks for when it starts a replica: it gets a new stream
  table, shared with a new partition that is entered under the cluster's number. \<open>sm\<close> is
  the SDK's new state machine.
\<close>

definition newPartitionMachine :: "'m \<Rightarrow> uint64 \<Rightarrow> uint64 \<Rightarrow> ('p::len word, 's, 't) Protocol \<Rightarrow>
    ('s, 'm) smState \<times> ('p word, 's, 't) Protocol" where
  "newPartitionMachine sm clusterID nodeID n =
     (let streams = newContext; partition = newPartition (ucast clusterID) (ucast nodeID) in
      (newStateMachine streams sm,
       n\<lparr>pr_partitions := (pr_partitions n)(part_ID partition \<mapsto> partition),
         pr_contexts := (pr_contexts n)(part_ID partition \<mapsto> streams)\<rparr>))"

text \<open>
  The calls of the NodeHost, on a state \<open>'w\<close> that holds the protocol: dragonboat calls the
  factory of state machines itself.
\<close>

record 'w ClusterHost =
  ch_StartCluster :: "(uint64 \<rightharpoonup> string) \<Rightarrow> bool \<Rightarrow> RaftConfig \<Rightarrow> ('w, dbError + unit) state"
  ch_StopCluster :: "uint64 \<Rightarrow> ('w, dbError + unit) state"

definition startGroup :: "bool \<Rightarrow> 'w ClusterHost \<Rightarrow> (dbError \<Rightarrow> string) \<Rightarrow> NodeRaftConfig \<Rightarrow>
    GroupConfig \<Rightarrow> ('w, protocolError + unit) state" where
  "startGroup join host Error nodeConfig config =
     (case getRaftConfig nodeConfig config of
        Inl err \<Rightarrow> ret (Inl err)
      | Inr raftConfig \<Rightarrow> do {
          r \<leftarrow> ch_StartCluster host (groupMembers (gc_Members config)) join raftConfig;
          (case r of
             Inl err \<Rightarrow>
               (if err = ErrClusterAlreadyExist then ret (Inr ())
                else ret (Inl (Wrapped (wrapError Error err))))
           | Inr _ \<Rightarrow> ret (Inr ()))
        })"

definition Bootstrap :: "'w ClusterHost \<Rightarrow> (dbError \<Rightarrow> string) \<Rightarrow> NodeRaftConfig \<Rightarrow>
    GroupConfig \<Rightarrow> ('w, protocolError + unit) state" where
  "Bootstrap = startGroup False"

definition Join :: "'w ClusterHost \<Rightarrow> (dbError \<Rightarrow> string) \<Rightarrow> NodeRaftConfig \<Rightarrow>
    GroupConfig \<Rightarrow> ('w, protocolError + unit) state" where
  "Join = startGroup True"

definition Leave :: "'w ClusterHost \<Rightarrow> GroupID \<Rightarrow> ('w, protocolError + unit) state" where
  "Leave host groupID = do {
     r \<leftarrow> ch_StopCluster host (ucast groupID);
     (case r of Inl err \<Rightarrow> ret (Inl (Raw err)) | Inr _ \<Rightarrow> ret (Inr ()))
   }"

definition Shutdown :: "('w, unit) state \<Rightarrow> ('w, protocolError + unit) state" where
  "Shutdown stop = do { _ \<leftarrow> stop; ret (Inr ()) }"

section \<open>The gRPC server\<close>

text \<open>\<open>toProto\<close> is the SDK's translation of an error to a gRPC status \<open>'g\<close>.\<close>

definition respond :: "(protocolError \<Rightarrow> 'g) \<Rightarrow> ('w, protocolError + unit) state \<Rightarrow> ('w, 'g + unit) state" where
  "respond toProto call = do {
     r \<leftarrow> call;
     (case r of Inl err \<Rightarrow> ret (Inl (toProto err)) | Inr _ \<Rightarrow> ret (Inr ()))
   }"

definition server_Bootstrap :: "'w ClusterHost \<Rightarrow> (dbError \<Rightarrow> string) \<Rightarrow> NodeRaftConfig \<Rightarrow>
    (protocolError \<Rightarrow> 'g) \<Rightarrow> BootstrapRequest \<Rightarrow> ('w, 'g + unit) state" where
  "server_Bootstrap host Error config toProto request =
     respond toProto (Bootstrap host Error config (br_Group request))"

definition server_Join :: "'w ClusterHost \<Rightarrow> (dbError \<Rightarrow> string) \<Rightarrow> NodeRaftConfig \<Rightarrow>
    (protocolError \<Rightarrow> 'g) \<Rightarrow> JoinRequest \<Rightarrow> ('w, 'g + unit) state" where
  "server_Join host Error config toProto request =
     respond toProto (Join host Error config (jr_Group request))"

definition server_Leave :: "'w ClusterHost \<Rightarrow> (protocolError \<Rightarrow> 'g) \<Rightarrow> LeaveRequest \<Rightarrow>
    ('w, 'g + unit) state" where
  "server_Leave host toProto request = respond toProto (Leave host (lr_GroupID request))"

text \<open>
  The server's \<^verbatim>\<open>Watch\<close> forwards what its channel delivers until the channel is closed
  (the list ends) or a send fails: it returns the error and what it sent.
\<close>

fun server_Watch :: "('t Event \<Rightarrow> 'e + unit) \<Rightarrow> ('e \<Rightarrow> 'g) \<Rightarrow> 't Event list \<Rightarrow> ('g + unit) \<times> 't Event list" where
  "server_Watch send toProto [] = (Inr (), [])"
| "server_Watch send toProto (event # ch) =
     (case send event of
        Inl err \<Rightarrow> (Inl (toProto err), [])
      | Inr _ \<Rightarrow> (let (r, sent) = server_Watch send toProto ch in (r, event # sent)))"

lemmas protocol_defs = publish_def publishPartition_def Watch_def stopWatch_def
  Partitions_def replayPartition_def

section \<open>What a watcher knows\<close>

text \<open>
  The specification of the event stream: a watcher that remembers, per group, the last
  leader event and whether the member became ready. \<open>partitionView\<close> is the same
  information read off the partition.
\<close>

record groupView =
  gv_term :: Term
  gv_leader :: MemberID
  gv_ready :: bool

definition zeroView :: groupView where
  "zeroView = \<lparr>gv_term = 0, gv_leader = 0, gv_ready = False\<rparr>"

fun viewEvent :: "isEvent_Event option \<Rightarrow> (GroupID \<Rightarrow> groupView) \<Rightarrow> (GroupID \<Rightarrow> groupView)" where
  "viewEvent (Some (Event_MemberReady e)) v =
     (let g = me_GroupID (pe_MemberEvent e) in v(g := (v g)\<lparr>gv_ready := True\<rparr>))"
| "viewEvent (Some (Event_LeaderUpdated e)) v =
     (let g = me_GroupID (lu_MemberEvent e) in
      v(g := (v g)\<lparr>gv_term := lu_Term e, gv_leader := lu_Leader e\<rparr>))"
| "viewEvent _ v = v"

definition viewOf :: "'t Event list \<Rightarrow> (GroupID \<Rightarrow> groupView) \<Rightarrow> (GroupID \<Rightarrow> groupView)" where
  "viewOf = fold (viewEvent \<circ> ev_Event)"

definition partitionView :: "'p::len word Partition \<Rightarrow> groupView" where
  "partitionView p = \<lparr>gv_term = loadTerm p, gv_leader = loadLeader p, gv_ready = getReady p\<rparr>"

text \<open>
  Partitions sit under their own identifier, which is a group's number, and know no leader
  before the first term.
\<close>

definition partition_ok :: "'p::len word \<Rightarrow> 'p word Partition \<Rightarrow> bool" where
  "partition_ok i p \<longleftrightarrow> part_ID p = i \<and> (\<exists>g :: GroupID. i = ucast g) \<and>
     (loadTerm p = 0 \<longrightarrow> loadLeader p = 0)"

definition partitions_ok :: "('p::len word, 's, 't) Protocol \<Rightarrow> bool" where
  "partitions_ok n \<longleftrightarrow> (\<forall>i p. pr_partitions n i = Some p \<longrightarrow> partition_ok i p)"

fun leader_event_ok :: "isEvent_Event option \<Rightarrow> bool" where
  "leader_event_ok (Some (Event_LeaderUpdated e)) \<longleftrightarrow> (lu_Term e = 0 \<longrightarrow> lu_Leader e = 0)"
| "leader_event_ok _ \<longleftrightarrow> True"

lemma ucast_group_inject:
  fixes g h :: GroupID
  assumes "32 \<le> LENGTH('p::len)"
  shows "(ucast g :: 'p word) = ucast h \<longleftrightarrow> g = h"
proof
  assume "(ucast g :: 'p word) = ucast h"
  then have "(ucast (ucast g :: 'p word) :: GroupID) = ucast (ucast h :: 'p word)" by simp
  moreover have "(ucast (ucast x :: 'p word) :: GroupID) = x" for x :: GroupID
    using assms by (simp add: ucast_down_ucast_id is_down)
  ultimately show "g = h" by simp
qed simp

lemma viewOf_replayPartition:
  assumes "partition_ok (ucast g) p" and "32 \<le> LENGTH('p::len)" and "v g = zeroView"
  shows "viewOf (replayPartition zt (p :: 'p word Partition)) v = v(g := partitionView p)"
proof -
  have "(ucast (part_ID p) :: GroupID) = g"
    using assms(1,2) by (simp add: partition_ok_def ucast_down_ucast_id is_down)
  with assms(1,3) show ?thesis
    by (auto simp: replayPartition_def viewOf_def getLeader_def partitionView_def zeroView_def
        partition_ok_def Let_def word_gt_0 fun_eq_iff)
qed

lemma viewOf_append: "viewOf (xs @ ys) v = viewOf ys (viewOf xs v)"
  by (simp add: viewOf_def)

lemma viewOf_replay:
  fixes n :: "('p::len word, 's, 't) Protocol"
  assumes wide: "32 \<le> LENGTH('p)" and "partitions_ok n" and "distinct order"
    and "\<forall>i \<in> set order. \<forall>g. i = ucast g \<longrightarrow> v g = zeroView"
    and "pr_partitions n (ucast g) = Some p" and "ucast g \<in> set order \<or> v g = partitionView p"
  shows "viewOf (concat (map (replayPartition zt) (Partitions order n))) v g = partitionView p"
  using assms(3,4,6)
proof (induction order arbitrary: v)
  case Nil
  then show ?case by (simp add: Partitions_def viewOf_def map_filter_simps)
next
  case (Cons i order)
  note inj = ucast_group_inject [OF wide]
  show ?case
  proof (cases "pr_partitions n i")
    case None
    then have "i \<noteq> ucast g" using assms(5) by auto
    with None Cons show ?thesis by (simp add: Partitions_def map_filter_simps)
  next
    case (Some q)
    then have q: "partition_ok i q" using assms(2) by (simp add: partitions_ok_def)
    then obtain h :: GroupID where h: "i = ucast h" by (auto simp: partition_ok_def)
    have v: "viewOf (replayPartition zt q) v = v(h := partitionView q)"
    proof (rule viewOf_replayPartition [OF _ wide])
      show "partition_ok (ucast h) q" using q h by simp
      show "v h = zeroView" using Cons.prems(2) h by simp
    qed
    have "viewOf (concat (map (replayPartition zt) (Partitions order n))) (v(h := partitionView q)) g =
        partitionView p"
    proof (rule Cons.IH)
      show "\<forall>j \<in> set order. \<forall>k. j = ucast k \<longrightarrow> (v(h := partitionView q)) k = zeroView"
        using Cons.prems(1,2) by (auto simp: h inj)
      show "ucast g \<in> set order \<or> (v(h := partitionView q)) g = partitionView p"
        using Cons.prems(3) Some assms(5) by (auto simp: h inj)
    qed (use Cons.prems in simp)
    with v Some show ?thesis
      by (simp add: Partitions_def map_filter_simps viewOf_append)
  qed
qed

lemma publish_partition_ok:
  "partition_ok i p \<Longrightarrow> partition_ok i (setReady p)"
  "partition_ok i p \<Longrightarrow> (t = 0 \<longrightarrow> l = 0) \<Longrightarrow> partition_ok i (setLeader t l p)"
  by (auto simp: partition_ok_def setReady_def setLeader_def storeTerm_def storeLeader_def
      loadTerm_def loadLeader_def)

lemma publish_ok:
  "partitions_ok n \<Longrightarrow> leader_event_ok (ev_Event e) \<Longrightarrow> partitions_ok (publish e n)"
  by (auto simp: partitions_ok_def publish_def publishPartition_def Let_def publish_partition_ok
      split: option.splits isEvent_Event.splits if_splits)

text \<open>Publishing an event changes the partitions the way a watcher changes its view.\<close>

lemma publish_simulates:
  assumes wide: "32 \<le> LENGTH('p::len)"
    and "\<And>p. pr_partitions n (ucast g) = Some p \<Longrightarrow> v g = partitionView p"
    and "pr_partitions (publish e n) (ucast g) = Some (q :: 'p word Partition)"
  shows "viewEvent (ev_Event e) v g = partitionView q"
proof -
  note inj = ucast_group_inject [OF wide]
  have upd: "partitionView (setReady p) = (partitionView p)\<lparr>gv_ready := True\<rparr>"
    "partitionView (setLeader t l p) = (partitionView p)\<lparr>gv_term := t, gv_leader := l\<rparr>"
    for t l and p :: "'p word Partition"
    by (simp_all add: partitionView_def go_defs)
  from assms(2,3) show ?thesis
    by (cases "(ev_Event e, v)" rule: viewEvent.cases)
      (auto simp: publish_def publishPartition_def Let_def inj upd
        split: option.splits if_splits isEvent_Event.splits)
qed

lemma fold_publish_watcher:
  "pr_watchers n i = Some q \<Longrightarrow> pr_watchers (fold publish es n) i = Some (q @ es)"
  by (induction es arbitrary: n q) (simp_all add: publish_def)

lemma fold_publish_view:
  assumes wide: "32 \<le> LENGTH('p::len)"
    and "\<And>(p :: 'p word Partition). pr_partitions n (ucast g) = Some p \<Longrightarrow> v g = partitionView p"
    and "pr_partitions (fold publish es n) (ucast g) = Some p"
  shows "viewOf es v g = partitionView p"
  using assms(2,3)
proof (induction es arbitrary: n v)
  case Nil
  then show ?case by (simp add: viewOf_def)
next
  case (Cons e es)
  have "viewOf es (viewEvent (ev_Event e) v) g = partitionView p"
  proof (rule Cons.IH)
    fix q assume "pr_partitions (publish e n) (ucast g) = Some q"
    then show "viewEvent (ev_Event e) v g = partitionView q"
      using publish_simulates [where n = n and v = v and g = g, OF wide] Cons.prems(1) by blast
  qed (use Cons.prems(2) in simp)
  then show ?case by (simp add: viewOf_def)
qed

section \<open>Properties\<close>

text \<open>
  C15. A watcher that starts at any time learns the current state of every partition and
  keeps up with it: what \<^verbatim>\<open>Watch\<close> replays, in whatever order Go visits the partitions,
  followed by any published events, amounts to exactly the term, leader and readiness the
  node holds for each of its partitions.
\<close>

theorem watcher_view_is_current:
  fixes n :: "('p::len word, 's, 't) Protocol"
  assumes "32 \<le> LENGTH('p)" and "partitions_ok n"
    and "distinct order" and "set order = dom (pr_partitions n)"
    and "Watch zt order n = (wid, n')"
  shows "\<exists>sent. pr_watchers (fold publish es n') wid = Some sent \<and>
    (\<forall>g p. pr_partitions (fold publish es n') (ucast g) = Some p \<longrightarrow>
       viewOf sent (\<lambda>_. zeroView) g = partitionView p)"
proof -
  let ?q = "concat (map (replayPartition zt) (Partitions order n))"
  have n': "pr_watchers n' wid = Some ?q" "pr_partitions n' = pr_partitions n"
    using assms(5) by (auto simp: Watch_def Let_def)
  have start: "viewOf ?q (\<lambda>_. zeroView) g = partitionView p"
    if "pr_partitions n' (ucast g) = Some p" for g p
    by (rule viewOf_replay [OF assms(1-3)]) (use that n'(2) assms(4) in auto)
  have "viewOf (?q @ es) (\<lambda>_. zeroView) g = partitionView p"
    if "pr_partitions (fold publish es n') (ucast g) = Some p" for g p
    unfolding viewOf_append by (rule fold_publish_view [OF assms(1) start that])
  with fold_publish_watcher [OF n'(1)] show ?thesis by blast
qed

definition sampleProtocol :: "(32 word, nat, nat) Protocol" where
  "sampleProtocol = \<lparr>pr_config = \<lparr>nrc_HeartbeatPeriod = None, nrc_ElectionTimeout = None,
     nrc_SnapshotEntryThreshold = None, nrc_CompactionRetainEntries = None, nrc_DataDir = None\<rparr>,
     pr_partitions = [1 \<mapsto> setLeader 3 2 (newPartition 1 1)], pr_contexts = [1 \<mapsto> newContext],
     pr_watchers = Map.empty, pr_watcherID = 0\<rparr>"

lemma sampleProtocol_ok: "partitions_ok sampleProtocol"
  by (auto simp: partitions_ok_def partition_ok_def sampleProtocol_def go_defs
      intro: exI [of _ "1 :: GroupID"])

theorem watcher_view_is_current_witness:
  "\<exists>n' sent. Watch 0 [1] sampleProtocol = (1, n') \<and>
     pr_watchers (fold publish [\<lparr>ev_Timestamp = 5, ev_Event = Some (Event_MemberReady
         \<lparr>pe_MemberEvent = \<lparr>me_GroupID = 1, me_MemberID = 1\<rparr>\<rparr>)\<rparr>] n') 1 = Some sent \<and>
     viewOf sent (\<lambda>_. zeroView) 1 = \<lparr>gv_term = 3, gv_leader = 2, gv_ready = True\<rparr>"
proof -
  let ?e = "\<lparr>ev_Timestamp = 5, ev_Event = Some (Event_MemberReady
         \<lparr>pe_MemberEvent = \<lparr>me_GroupID = 1, me_MemberID = 1\<rparr>\<rparr>)\<rparr>"
  obtain n' where w: "Watch 0 [1] sampleProtocol = (1, n')"
    by (simp add: Watch_def sampleProtocol_def Let_def int64_def)
  have dom: "set [1] = dom (pr_partitions sampleProtocol)"
    by (simp add: sampleProtocol_def)
  obtain sent where s: "pr_watchers (fold publish [?e] n') 1 = Some sent"
    and v: "\<And>g p. pr_partitions (fold publish [?e] n') (ucast g) = Some p \<Longrightarrow>
       viewOf sent (\<lambda>_. zeroView) g = partitionView p"
    using watcher_view_is_current [OF _ sampleProtocol_ok _ dom w, of "[?e]"] by auto
  have "pr_partitions n' = [1 \<mapsto> setLeader 3 2 (newPartition 1 1)]"
    using w by (auto simp: Watch_def sampleProtocol_def Let_def)
  then have "pr_partitions (fold publish [?e] n') (ucast (1 :: GroupID)) =
      Some (setReady (setLeader 3 2 (newPartition 1 1)))"
    by (simp add: publish_def publishPartition_def)
  from v [OF this] w s show ?thesis
    by (simp add: partitionView_def go_defs)
qed

section \<open>Starting groups\<close>

text \<open>
  What dragonboat documents for \<^verbatim>\<open>StartCluster\<close>: a start that succeeds leaves the cluster
  running, and a cluster that runs already is reported as such and left alone.
\<close>

definition start_law :: "('w \<Rightarrow> uint64 \<Rightarrow> bool) \<Rightarrow> 'w ClusterHost \<Rightarrow> bool" where
  "start_law running host \<longleftrightarrow>
     (\<forall>members join c w. running w (rc_ClusterID c) \<longrightarrow>
        run_state (ch_StartCluster host members join c) w = (Inl ErrClusterAlreadyExist, w)) \<and>
     (\<forall>members join c w w' u. run_state (ch_StartCluster host members join c) w = (Inr u, w') \<longrightarrow>
        running w' (rc_ClusterID c)) \<and>
     (\<forall>members join c w w'. run_state (ch_StartCluster host members join c) w =
        (Inl ErrClusterAlreadyExist, w') \<longrightarrow> running w' (rc_ClusterID c))"

lemma run_startGroup:
  "getRaftConfig nc config = Inr rc \<Longrightarrow>
   run_state (startGroup join host Error nc config) w =
     (case run_state (ch_StartCluster host (groupMembers (gc_Members config)) join rc) w of
        (Inl err, w') \<Rightarrow>
          (if err = ErrClusterAlreadyExist then Inr () else Inl (Wrapped (wrapError Error err)), w')
      | (Inr _, w') \<Rightarrow> (Inr (), w'))"
  by (simp add: startGroup_def split: prod.split sum.split)

lemma getRaftConfig_cluster:
  "getRaftConfig nc config = Inr rc \<Longrightarrow> rc_ClusterID rc = ucast (gc_GroupID config)"
  by (auto simp: getRaftConfig_def split: sum.splits)

lemma getRaftConfig_defined:
  "getRaftConfig nc config = Inr rc \<Longrightarrow> \<exists>rc'. getRaftConfig nc config' = Inr rc'"
  by (auto simp: getRaftConfig_def split: sum.splits)

lemma startGroup_running:
  assumes "start_law running host"
    and "run_state (startGroup join host Error nc config) w = (Inr (), w')"
  shows "running w' (ucast (gc_GroupID config))"
proof -
  obtain rc where rc: "getRaftConfig nc config = Inr rc"
    using assms(2) by (cases "getRaftConfig nc config") (auto simp: startGroup_def)
  obtain r where r: "run_state (ch_StartCluster host (groupMembers (gc_Members config)) join rc) w = (r, w')"
    using assms(2) by (auto simp: run_startGroup [OF rc] split: prod.splits sum.splits)
  then have "r = Inr () \<or> r = Inl ErrClusterAlreadyExist"
    using assms(2) by (auto simp: run_startGroup [OF rc] split: sum.splits if_splits)
  with r assms(1) have "running w' (rc_ClusterID rc)" unfolding start_law_def by blast
  then show ?thesis by (simp add: getRaftConfig_cluster [OF rc])
qed

lemma startGroup_again:
  assumes "start_law running host"
    and "run_state (Bootstrap host Error nc config) w = (Inr (), w') \<or>
         run_state (Join host Error nc config) w = (Inr (), w')"
    and "gc_GroupID config' = gc_GroupID config"
  shows "run_state (Bootstrap host Error nc config') w' = (Inr (), w')"
    and "run_state (Join host Error nc config') w' = (Inr (), w')"
proof -
  have running: "running w' (ucast (gc_GroupID config'))"
    using assms(2,3) startGroup_running [OF assms(1)] by (auto simp: Bootstrap_def Join_def)
  have "\<exists>rc. getRaftConfig nc config = Inr rc"
    using assms(2) by (cases "getRaftConfig nc config") (auto simp: Bootstrap_def Join_def startGroup_def)
  then obtain rc where rc: "getRaftConfig nc config' = Inr rc"
    using getRaftConfig_defined by blast
  have "run_state (ch_StartCluster host members join rc) w' = (Inl ErrClusterAlreadyExist, w')"
    for members join
    using assms(1) running unfolding start_law_def by (simp add: getRaftConfig_cluster [OF rc])
  then show "run_state (Bootstrap host Error nc config') w' = (Inr (), w')"
    and "run_state (Join host Error nc config') w' = (Inr (), w')"
    by (simp_all add: Bootstrap_def Join_def run_startGroup [OF rc])
qed

text \<open>
  C37. Bootstrapping and joining can be retried: once either has succeeded for a group, any
  further \<^verbatim>\<open>Bootstrap\<close> or \<^verbatim>\<open>Join\<close> of that group, even with other members or another
  role, succeeds and changes nothing.
\<close>

theorem start_can_be_retried:
  assumes "start_law running host"
    and "run_state (Bootstrap host Error nc config) w = (Inr (), w') \<or>
         run_state (Join host Error nc config) w = (Inr (), w')"
    and "gc_GroupID config' = gc_GroupID config"
  shows "run_state (Bootstrap host Error nc config') w' = (Inr (), w') \<and>
         run_state (Join host Error nc config') w' = (Inr (), w')"
  by (intro conjI startGroup_again [OF assms])

text \<open>A host that only remembers which clusters run.\<close>

definition listHost :: "uint64 list ClusterHost" where
  "listHost = \<lparr>ch_StartCluster = (\<lambda>_ _ c. State (\<lambda>w.
       if rc_ClusterID c \<in> set w then (Inl ErrClusterAlreadyExist, w)
       else (Inr (), rc_ClusterID c # w))),
     ch_StopCluster = (\<lambda>c. State (\<lambda>w.
       if c \<in> set w then (Inr (), removeAll c w) else (Inl ErrClusterNotFound, w)))\<rparr>"

lemma listHost_law: "start_law (\<lambda>w c. c \<in> set w) listHost"
  by (auto simp: start_law_def listHost_def split: if_splits)

definition sampleGroup :: GroupConfig where
  "sampleGroup = \<lparr>gc_GroupID = 4, gc_MemberID = 2, gc_Role = MemberRole_OBSERVER, gc_Members = []\<rparr>"

theorem start_can_be_retried_witness:
  "run_state (Bootstrap listHost (\<lambda>_. []) (pr_config sampleProtocol) sampleGroup) [] = (Inr (), [4]) \<and>
   run_state (Join listHost (\<lambda>_. []) (pr_config sampleProtocol)
      (sampleGroup\<lparr>gc_Role := MemberRole_MEMBER\<rparr>)) [4] = (Inr (), [4])"
proof -
  have b: "run_state (Bootstrap listHost (\<lambda>_. []) (pr_config sampleProtocol) sampleGroup) [] = (Inr (), [4])"
    by (simp add: Bootstrap_def startGroup_def getRaftConfig_def electionRTT_def sampleProtocol_def
        sampleGroup_def listHost_def)
  have "gc_GroupID (sampleGroup\<lparr>gc_Role := MemberRole_MEMBER\<rparr>) = gc_GroupID sampleGroup"
    by (simp add: sampleGroup_def)
  from start_can_be_retried [OF listHost_law disjI1 [OF b] this] b show ?thesis by simp
qed

section \<open>Timing\<close>

lemma unat_ucast_64 [simp]: "unat (ucast (x :: 32 word) :: 64 word) = unat x"
proof -
  have "unat x < 2 ^ 64" using unsigned_less [of x, where ?'a = nat] by simp
  then show ?thesis by (simp add: unsigned_ucast_eq take_bit_nat_eq_self)
qed

text \<open>
  The Raft configuration: with a non-negative heartbeat period, \<^verbatim>\<open>getRaftConfig\<close> panics
  (division by zero) exactly if an election timeout is set and the heartbeat period is
  shorter than a millisecond. Otherwise the election timeout in heartbeats is the largest
  number of heartbeats that fits the timeout, in whole milliseconds, the identifiers are
  the group's, and a member is never both observer and witness.
\<close>

theorem getRaftConfig_timing:
  assumes "0 \<le> GetHeartbeatPeriod nc" and "in_int64 (GetHeartbeatPeriod nc)"
    and "nrc_ElectionTimeout nc = Some timeout" and "0 \<le> timeout" and "in_int64 timeout"
  shows "(getRaftConfig nc config = Inl DivideByZero \<longleftrightarrow> GetHeartbeatPeriod nc < Millisecond) \<and>
    (Millisecond \<le> GetHeartbeatPeriod nc \<longrightarrow> (\<exists>rc. getRaftConfig nc config = Inr rc \<and>
       uint (rc_ElectionRTT rc) * Milliseconds (GetHeartbeatPeriod nc) \<le> Milliseconds timeout \<and>
       Milliseconds timeout < (uint (rc_ElectionRTT rc) + 1) * Milliseconds (GetHeartbeatPeriod nc) \<and>
       unat (rc_NodeID rc) = unat (gc_MemberID config) \<and>
       unat (rc_ClusterID rc) = unat (gc_GroupID config) \<and>
       \<not> (rc_IsObserver rc \<and> rc_IsWitness rc)))"
proof -
  let ?h = "Milliseconds (GetHeartbeatPeriod nc)" and ?t = "Milliseconds timeout"
  have h0: "0 \<le> ?h" and t0: "0 \<le> ?t" using assms(1,4) by (simp_all add: Milliseconds_nonneg)
  have h: "?h = 0 \<longleftrightarrow> GetHeartbeatPeriod nc < Millisecond"
    by (simp add: Milliseconds_0_iff [OF assms(1)] Millisecond_def)
  show ?thesis
  proof (cases "?h = 0")
    case True
    then show ?thesis using h assms(3) by (simp add: getRaftConfig_def electionRTT_def)
  next
    case False
    with h0 have pos: "0 < ?h" by simp
    have "?t sdiv ?h = ?t div ?h"
      using pos t0 by (cases "?t = 0") (simp_all add: signed_divide_int_def)
    moreover have bounds: "0 \<le> ?t div ?h" "?t div ?h \<le> ?t"
      using pos t0 using zdiv_mono2 [of ?t 1 ?h] by (simp_all add: pos_imp_zdiv_nonneg_iff)
    moreover have "?t < 2 ^ 63"
      using assms(4,5) by (simp add: Milliseconds_nonneg in_int64_def)
    ultimately have "int64 (?t sdiv ?h) = ?t div ?h"
      by (simp add: int64_id in_int64_def)
    then have rtt: "electionRTT nc = Inr (word_of_int (?t div ?h))"
      using assms(3) False by (simp add: electionRTT_def)
    have "uint (word_of_int (?t div ?h) :: uint64) = ?t div ?h"
      using bounds \<open>?t < 2 ^ 63\<close> by (simp add: uint_word_of_int)
    moreover have "?t div ?h * ?h \<le> ?t" "?t < (?t div ?h + 1) * ?h"
      using pos pos_mod_bound [OF pos, of ?t] pos_mod_sign [OF pos, of ?t]
        div_mult_mod_eq [of ?t ?h] by (simp_all add: distrib_right, linarith+)
    ultimately show ?thesis
      using False h rtt by (auto simp: getRaftConfig_def MemberRole_defs)
  qed
qed

definition timedConfig :: NodeRaftConfig where
  "timedConfig = \<lparr>nrc_HeartbeatPeriod = None, nrc_ElectionTimeout = Some 1900000000,
     nrc_SnapshotEntryThreshold = None, nrc_CompactionRetainEntries = None, nrc_DataDir = None\<rparr>"

theorem getRaftConfig_timing_witness:
  "\<exists>rc. getRaftConfig timedConfig sampleGroup = Inr rc \<and> rc_ElectionRTT rc = 9 \<and>
     unat (rc_NodeID rc) = 2 \<and> \<not> rc_IsWitness rc"
proof -
  have hb: "GetHeartbeatPeriod timedConfig = 200000000"
    by (simp add: GetHeartbeatPeriod_def timedConfig_def defaultHeartbeatPeriod_def Millisecond_def)
  have ms: "Milliseconds 200000000 = 200" "Milliseconds 1900000000 = 1900"
    by (simp_all add: Milliseconds_nonneg)
  have to: "nrc_ElectionTimeout timedConfig = Some 1900000000" by (simp add: timedConfig_def)
  obtain rc where rc: "getRaftConfig timedConfig sampleGroup = Inr rc"
      "uint (rc_ElectionRTT rc) * 200 \<le> 1900" "1900 < (uint (rc_ElectionRTT rc) + 1) * 200"
      "unat (rc_NodeID rc) = unat (gc_MemberID sampleGroup)"
    using getRaftConfig_timing [of timedConfig 1900000000 sampleGroup] to
    unfolding hb ms by (auto simp: in_int64_def Millisecond_def)
  from rc(2,3) have "uint (rc_ElectionRTT rc) = 9" by arith
  then have "rc_ElectionRTT rc = 9" by (simp add: word_uint_eq_iff)
  moreover have "\<not> rc_IsWitness rc"
    using rc(1) by (auto simp: getRaftConfig_def sampleGroup_def MemberRole_defs split: sum.splits)
  ultimately show ?thesis using rc by (simp add: sampleGroup_def)
qed

end
