(* ===== verification/WatchHub.thy ===== *)
theory WatchHub
  imports NodeProtocol
begin

text \<open>
  The concurrency of the node's event hub: \<^verbatim>\<open>publish\<close>, \<^verbatim>\<open>Watch\<close> and its closing goroutine
  (\<^verbatim>\<open>node/pkg/consensus/protocol.go\<close> 74-92 and 111-155) and the receiving loop of the gRPC
  server (\<^verbatim>\<open>server.go\<close> 71-90), which share the table of watchers, the read-write lock and
  one buffered channel per stream. Events are counted, not carried: what they say is in
  \<open>NodeProtocol\<close>. The lock is Go's: a goroutine that waits to write keeps new readers out.
  Publishers and streams are numbered; stream \<open>c\<close> owns channel \<open>c\<close>.
\<close>

section \<open>State\<close>

definition channelSize :: nat where "channelSize = 100"

datatype watchPC =
    WNew
  | WRead int
  | WWrote
  | WNumbered int
  | WLocking int
  | WReplaying int nat
  | WWatching int
  | WClosing int
  | WClosed

datatype consumerPC = Receiving | Sending | Returned

record hubState =
  hub_watcherID :: int
  hub_watchers :: "int \<rightharpoonup> nat"
  hub_buffered :: "nat \<Rightarrow> nat"
  hub_closed :: "nat \<Rightarrow> bool"
  hub_done :: "nat \<Rightarrow> bool"
  hub_watch :: "nat \<Rightarrow> watchPC"
  hub_consumer :: "nat \<Rightarrow> consumerPC"
  hub_publishing :: "nat \<Rightarrow> int set option"
  hub_panicked :: bool

definition hub_init :: hubState where
  "hub_init = \<lparr>hub_watcherID = 0, hub_watchers = Map.empty, hub_buffered = (\<lambda>_. 0),
     hub_closed = (\<lambda>_. False), hub_done = (\<lambda>_. False), hub_watch = (\<lambda>_. WNew),
     hub_consumer = (\<lambda>_. Receiving), hub_publishing = (\<lambda>_. None), hub_panicked = False\<rparr>"

text \<open>Who holds the lock, and who waits to write, can be read off the program counters.\<close>

fun wantsLock :: "watchPC \<Rightarrow> bool" where
  "wantsLock (WLocking _) = True"
| "wantsLock (WClosing _) = True"
| "wantsLock _ = False"

fun holdsLock :: "watchPC \<Rightarrow> bool" where
  "holdsLock (WReplaying _ _) = True"
| "holdsLock _ = False"

definition unread :: "hubState \<Rightarrow> bool" where
  "unread s \<longleftrightarrow> (\<forall>p. hub_publishing s p = None)"

definition unwritten :: "hubState \<Rightarrow> bool" where
  "unwritten s \<longleftrightarrow> (\<forall>c. \<not> holdsLock (hub_watch s c))"

text \<open>A send to a channel: it panics if the channel is closed, and blocks while it is full.\<close>

definition can_send :: "nat \<Rightarrow> hubState \<Rightarrow> bool" where
  "can_send c s \<longleftrightarrow> hub_closed s c \<or> hub_buffered s c < channelSize"

definition send :: "nat \<Rightarrow> hubState \<Rightarrow> hubState" where
  "send c s =
     (if hub_closed s c then s\<lparr>hub_panicked := True\<rparr>
      else s\<lparr>hub_buffered := (hub_buffered s)(c := hub_buffered s c + 1)\<rparr>)"

section \<open>Steps\<close>

inductive hub_step :: "hubState \<Rightarrow> hubState \<Rightarrow> bool" where
  publish_rlock: "hub_publishing s p = None \<Longrightarrow> unwritten s \<Longrightarrow>
    \<forall>c. \<not> wantsLock (hub_watch s c) \<Longrightarrow>
    hub_step s (s\<lparr>hub_publishing := (hub_publishing s)(p := Some (dom (hub_watchers s)))\<rparr>)"
| publish_send: "hub_publishing s p = Some R \<Longrightarrow> k \<in> R \<Longrightarrow> hub_watchers s k = Some c \<Longrightarrow>
    can_send c s \<Longrightarrow>
    hub_step s (send c s\<lparr>hub_publishing := (hub_publishing s)(p := Some (R - {k}))\<rparr>)"
| publish_unlock: "hub_publishing s p = Some {} \<Longrightarrow>
    hub_step s (s\<lparr>hub_publishing := (hub_publishing s)(p := None)\<rparr>)"
| watch_read: "hub_watch s c = WNew \<Longrightarrow>
    hub_step s (s\<lparr>hub_watch := (hub_watch s)(c := WRead (hub_watcherID s))\<rparr>)"
| watch_write: "hub_watch s c = WRead v \<Longrightarrow>
    hub_step s (s\<lparr>hub_watcherID := int64 (v + 1), hub_watch := (hub_watch s)(c := WWrote)\<rparr>)"
| watch_id: "hub_watch s c = WWrote \<Longrightarrow>
    hub_step s (s\<lparr>hub_watch := (hub_watch s)(c := WNumbered (hub_watcherID s))\<rparr>)"
| watch_wait: "hub_watch s c = WNumbered i \<Longrightarrow>
    hub_step s (s\<lparr>hub_watch := (hub_watch s)(c := WLocking i)\<rparr>)"
| watch_lock: "hub_watch s c = WLocking i \<Longrightarrow> unread s \<Longrightarrow> unwritten s \<Longrightarrow>
    hub_step s (s\<lparr>hub_watchers := (hub_watchers s)(i \<mapsto> c),
      hub_watch := (hub_watch s)(c := WReplaying i k)\<rparr>)"
| watch_replay: "hub_watch s c = WReplaying i (Suc k) \<Longrightarrow> can_send c s \<Longrightarrow>
    hub_step s (send c s\<lparr>hub_watch := (hub_watch s)(c := WReplaying i k)\<rparr>)"
| watch_unlock: "hub_watch s c = WReplaying i 0 \<Longrightarrow>
    hub_step s (s\<lparr>hub_watch := (hub_watch s)(c := WWatching i)\<rparr>)"
| watch_done: "hub_watch s c = WWatching i \<Longrightarrow> hub_done s c \<Longrightarrow>
    hub_step s (s\<lparr>hub_watch := (hub_watch s)(c := WClosing i)\<rparr>)"
| watch_close: "hub_watch s c = WClosing i \<Longrightarrow> unread s \<Longrightarrow> unwritten s \<Longrightarrow>
    hub_step s (s\<lparr>hub_panicked := (hub_panicked s \<or> hub_closed s c),
      hub_closed := (hub_closed s)(c := True),
      hub_watchers := (hub_watchers s)(i := None),
      hub_watch := (hub_watch s)(c := WClosed)\<rparr>)"
| receive: "hub_consumer s c = Receiving \<Longrightarrow> 0 < hub_buffered s c \<Longrightarrow>
    hub_step s (s\<lparr>hub_buffered := (hub_buffered s)(c := hub_buffered s c - 1),
      hub_consumer := (hub_consumer s)(c := Sending)\<rparr>)"
| sent: "hub_consumer s c = Sending \<Longrightarrow>
    hub_step s (s\<lparr>hub_consumer := (hub_consumer s)(c := Receiving)\<rparr>)"
| send_failed: "hub_consumer s c = Sending \<Longrightarrow>
    hub_step s (s\<lparr>hub_consumer := (hub_consumer s)(c := Returned), hub_done := (hub_done s)(c := True)\<rparr>)"
| receive_closed: "hub_consumer s c = Receiving \<Longrightarrow> hub_buffered s c = 0 \<Longrightarrow> hub_closed s c \<Longrightarrow>
    hub_step s (s\<lparr>hub_consumer := (hub_consumer s)(c := Returned), hub_done := (hub_done s)(c := True)\<rparr>)"
| cancel: "hub_step s (s\<lparr>hub_done := (hub_done s)(c := True)\<rparr>)"

inductive hub_reachable :: "hubState \<Rightarrow> bool" where
  hub_start: "hub_reachable hub_init"
| hub_next: "hub_reachable s \<Longrightarrow> hub_step s s' \<Longrightarrow> hub_reachable s'"

section \<open>No send on a closed channel\<close>

fun registeredAs :: "watchPC \<Rightarrow> int option" where
  "registeredAs (WReplaying i _) = Some i"
| "registeredAs (WWatching i) = Some i"
| "registeredAs (WClosing i) = Some i"
| "registeredAs _ = None"

text \<open>
  A channel is closed only by its own goroutine, which removes its entry under the same
  lock; a publisher visits entries while it holds the read lock; nobody writes then.
\<close>

definition hub_ok :: "hubState \<Rightarrow> bool" where
  "hub_ok s \<longleftrightarrow>
     \<not> hub_panicked s \<and>
     (\<forall>c. hub_closed s c \<longrightarrow> hub_watch s c = WClosed) \<and>
     (\<forall>i c. hub_watchers s i = Some c \<longrightarrow> registeredAs (hub_watch s c) = Some i) \<and>
     (\<forall>p R. hub_publishing s p = Some R \<longrightarrow> R \<subseteq> dom (hub_watchers s) \<and> unwritten s) \<and>
     (\<forall>c. hub_buffered s c \<le> channelSize)"

lemma hub_okD:
  assumes "hub_ok s"
  shows "\<not> hub_panicked s" "\<And>c. hub_closed s c \<Longrightarrow> hub_watch s c = WClosed"
    "\<And>i c. hub_watchers s i = Some c \<Longrightarrow> registeredAs (hub_watch s c) = Some i"
    "\<And>p R. hub_publishing s p = Some R \<Longrightarrow> R \<subseteq> dom (hub_watchers s) \<and> unwritten s"
    "\<And>c. hub_buffered s c \<le> channelSize"
  using assms unfolding hub_ok_def by blast+

lemma hub_ok_send:
  assumes "hub_ok s" and "hub_watchers s i = Some c \<or> holdsLock (hub_watch s c)"
  shows "\<not> hub_closed s c"
  using hub_okD(2,3) [OF assms(1)] assms(2) by fastforce

lemma send_simps [simp]:
  "\<not> hub_closed s c \<Longrightarrow> hub_panicked (send c s) = hub_panicked s"
  "hub_closed (send c s) = hub_closed s" "hub_watch (send c s) = hub_watch s"
  "hub_watchers (send c s) = hub_watchers s" "hub_publishing (send c s) = hub_publishing s"
  "hub_done (send c s) = hub_done s" "hub_consumer (send c s) = hub_consumer s"
  "hub_watcherID (send c s) = hub_watcherID s"
  by (simp_all add: send_def)

lemma send_buffered:
  "\<not> hub_closed s c \<Longrightarrow> can_send c s \<Longrightarrow> (\<And>x. hub_buffered s x \<le> channelSize) \<Longrightarrow>
     hub_buffered (send c s) x \<le> channelSize"
  by (auto simp: send_def can_send_def)

text \<open>Goroutines that keep their registration and the lock's state keep the invariant.\<close>

lemma hub_ok_watch_upd:
  assumes "hub_ok s" and "hub_watch s c = old" and "registeredAs new = registeredAs old"
    and "old \<noteq> WClosed" and "\<not> holdsLock new"
  shows "hub_ok (s\<lparr>hub_watch := (hub_watch s)(c := new)\<rparr>)"
  using assms unfolding hub_ok_def unwritten_def by auto

lemma hub_step_ok:
  assumes "hub_step s s'" and ok: "hub_ok s"
  shows "hub_ok s'"
  using assms(1)
proof cases
  case (publish_send p R k c)
  then have "\<not> hub_closed s c" using hub_ok_send [OF ok] by blast
  moreover have "x \<in> R \<Longrightarrow> hub_watchers s x \<noteq> None" for x
    using hub_okD(4) [OF ok publish_send(2)] by auto
  ultimately show ?thesis
    using publish_send ok send_buffered [OF _ publish_send(5) hub_okD(5) [OF ok]]
    unfolding hub_ok_def unwritten_def by (auto split: if_splits)
next
  case (watch_replay c i k)
  then have open': "\<not> hub_closed s c" using hub_ok_send [OF ok, of i c] by auto
  have "hub_publishing s p = None" for p
    using hub_okD(4) [OF ok, of p] watch_replay(2)
    by (cases "hub_publishing s p") (auto simp: unwritten_def dest: spec [of _ c])
  then have "unread s" by (simp add: unread_def)
  moreover have "hub_watchers s j = Some c \<Longrightarrow> j = i" for j
    using hub_okD(3) [OF ok, of j c] watch_replay(2) by simp
  ultimately show ?thesis
    using open' watch_replay ok send_buffered [OF _ watch_replay(3) hub_okD(5) [OF ok]]
    unfolding hub_ok_def unread_def by (auto split: if_splits)
next
  case (watch_lock c i k)
  then show ?thesis using ok unfolding hub_ok_def unread_def by (fastforce split: if_splits)
next
  case (watch_close c i)
  then show ?thesis using ok unfolding hub_ok_def unread_def by (fastforce split: if_splits)
next
  case (watch_write c v)
  have "hub_ok (s\<lparr>hub_watch := (hub_watch s)(c := WWrote)\<rparr>)"
    by (rule hub_ok_watch_upd [OF ok watch_write(2)]) simp_all
  then show ?thesis unfolding watch_write hub_ok_def unwritten_def by simp
next
  case (publish_rlock p)
  then show ?thesis using ok unfolding hub_ok_def unwritten_def by auto
next
  case (publish_unlock p)
  then show ?thesis using ok unfolding hub_ok_def unwritten_def by auto
next
  case (receive c)
  moreover have "hub_buffered s c - 1 \<le> channelSize" using hub_okD(5) [OF ok, of c] by simp
  ultimately show ?thesis using ok unfolding hub_ok_def unwritten_def by auto
next
  case (watch_read c)
  then show ?thesis using hub_ok_watch_upd [OF ok watch_read(2)] by simp
next
  case (watch_id c)
  then show ?thesis using hub_ok_watch_upd [OF ok watch_id(2)] by simp
next
  case (watch_wait c i)
  then show ?thesis using hub_ok_watch_upd [OF ok watch_wait(2)] by simp
next
  case (watch_unlock c i)
  then show ?thesis using hub_ok_watch_upd [OF ok watch_unlock(2)] by simp
next
  case (watch_done c i)
  then show ?thesis using hub_ok_watch_upd [OF ok watch_done(2)] by simp
qed (use ok in \<open>auto simp: hub_ok_def unwritten_def\<close>)

lemma hub_reachable_ok: "hub_reachable s \<Longrightarrow> hub_ok s"
proof (induction rule: hub_reachable.induct)
  case hub_start
  show ?case by (simp add: hub_ok_def hub_init_def)
next
  case (hub_next s s')
  then show ?case by (blast intro: hub_step_ok)
qed

section \<open>A publisher stuck behind a stream that ended\<close>

text \<open>
  The state of the deadlock: a publisher, holding the read lock, has to send to a channel
  that is full and that nobody receives from any more.
\<close>

definition stuck :: "nat \<Rightarrow> nat \<Rightarrow> int \<Rightarrow> hubState \<Rightarrow> bool" where
  "stuck p c i s \<longleftrightarrow> hub_ok s \<and> hub_publishing s p = Some {i} \<and> hub_watchers s i = Some c \<and>
     hub_buffered s c = channelSize \<and> hub_consumer s c = Returned"

lemma stuck_step:
  assumes "hub_step s s'" and st: "stuck p c i s"
  shows "stuck p c i s'"
proof -
  have ok: "hub_ok s'" using hub_step_ok [OF assms(1)] st by (simp add: stuck_def)
  have busy: "\<not> unread s" using st by (auto simp: stuck_def unread_def)
  have "\<not> hub_closed s c"
    using st hub_ok_send [of s i c] by (simp add: stuck_def)
  then have full: "\<not> can_send c s" using st by (simp add: stuck_def can_send_def)
  have unw: "unwritten s" using st hub_okD(4) [of s p "{i}"] by (simp add: stuck_def)
  from assms(1) have "hub_publishing s' p = Some {i} \<and> hub_watchers s' i = Some c \<and>
     hub_buffered s' c = channelSize \<and> hub_consumer s' c = Returned"
  proof cases
    case (publish_send q R k c')
    with full have "c' \<noteq> c" by blast
    moreover from this have "k \<noteq> i" using publish_send(4) st by (auto simp: stuck_def)
    ultimately show ?thesis
      using publish_send st by (auto simp: stuck_def send_def)
  next
    case (watch_replay c' j k)
    moreover have "\<not> holdsLock (hub_watch s c')" using unw by (simp add: unwritten_def)
    ultimately show ?thesis by simp
  qed (use st busy in \<open>auto simp: stuck_def\<close>)
  with ok show ?thesis by (simp add: stuck_def)
qed

inductive hub_steps :: "hubState \<Rightarrow> hubState \<Rightarrow> bool" where
  steps_refl: "hub_steps s s"
| steps_next: "hub_steps s s' \<Longrightarrow> hub_step s' s'' \<Longrightarrow> hub_steps s s''"

lemma stuck_steps: "hub_steps s s' \<Longrightarrow> stuck p c i s \<Longrightarrow> stuck p c i s'"
  by (induction rule: hub_steps.induct) (blast intro: stuck_step)+

lemma hub_steps_reachable: "hub_steps s s' \<Longrightarrow> hub_reachable s \<Longrightarrow> hub_reachable s'"
  by (induction rule: hub_steps.induct) (blast intro: hub_next)+

lemma hub_steps_trans: "hub_steps s' s'' \<Longrightarrow> hub_steps s s' \<Longrightarrow> hub_steps s s''"
  by (induction rule: hub_steps.induct) (blast intro: steps_next)+

text \<open>
  How the run gets there. One stream is registered; its server loop holds one event it is
  sending; the publisher fills the buffer and starts on one event more; then the send fails.
\<close>

definition hubAt :: "nat \<Rightarrow> consumerPC \<Rightarrow> int set option \<Rightarrow> hubState" where
  "hubAt b k R = hub_init\<lparr>hub_watcherID := 1, hub_watchers := [1 \<mapsto> 0],
     hub_buffered := (\<lambda>_. 0)(0 := b), hub_watch := (\<lambda>_. WNew)(0 := WWatching 1),
     hub_consumer := (\<lambda>_. Receiving)(0 := k), hub_publishing := (\<lambda>_. None)(0 := R)\<rparr>"

lemma steps_one: "hub_step s s' \<Longrightarrow> hub_steps s s'"
  by (blast intro: steps_refl steps_next)

lemma hubAt_registered: "hub_steps hub_init (hubAt 0 Receiving None)"
proof -
  let ?at = "\<lambda>i m w. hub_init\<lparr>hub_watcherID := i, hub_watchers := m, hub_watch := (hub_watch hub_init)(0 := w)\<rparr>"
  have s1: "hub_step hub_init (?at 0 Map.empty (WRead 0))"
    using watch_read [of hub_init 0] by (simp add: hub_init_def)
  have s2: "hub_step (?at 0 Map.empty (WRead 0)) (?at 1 Map.empty WWrote)"
    using watch_write [of "?at 0 Map.empty (WRead 0)" 0 0] by (simp add: hub_init_def int64_def)
  have s3: "hub_step (?at 1 Map.empty WWrote) (?at 1 Map.empty (WNumbered 1))"
    using watch_id [of "?at 1 Map.empty WWrote" 0] by (simp add: hub_init_def)
  have s3': "hub_step (?at 1 Map.empty (WNumbered 1)) (?at 1 Map.empty (WLocking 1))"
    using watch_wait [of "?at 1 Map.empty (WNumbered 1)" 0 1] by (simp add: hub_init_def)
  have s4: "hub_step (?at 1 Map.empty (WLocking 1)) (?at 1 [1 \<mapsto> 0] (WReplaying 1 0))"
    using watch_lock [of "?at 1 Map.empty (WLocking 1)" 0 1 0]
    by (simp add: hub_init_def unread_def unwritten_def)
  have s5: "hub_step (?at 1 [1 \<mapsto> 0] (WReplaying 1 0)) (?at 1 [1 \<mapsto> 0] (WWatching 1))"
    using watch_unlock [of "?at 1 [1 \<mapsto> 0] (WReplaying 1 0)" 0 1] by (simp add: hub_init_def)
  have eq: "?at 1 [1 \<mapsto> 0] (WWatching 1) = hubAt 0 Receiving None"
    by (simp add: hubAt_def hub_init_def fun_eq_iff)
  show ?thesis
    unfolding eq [symmetric] by (rule steps_next [OF _ s5], rule steps_next [OF _ s4],
      rule steps_next [OF _ s3'], rule steps_next [OF _ s3], rule steps_next [OF _ s2], rule steps_next [OF _ s1], rule steps_refl)
qed

lemma hubAt_rlock: "hub_step (hubAt b k None) (hubAt b k (Some {1}))"
proof -
  have "hub_step (hubAt b k None) ((hubAt b k None)\<lparr>hub_publishing :=
      (hub_publishing (hubAt b k None))(0 := Some (dom (hub_watchers (hubAt b k None))))\<rparr>)"
    by (rule publish_rlock) (simp_all add: hubAt_def hub_init_def unwritten_def)
  then show ?thesis by (simp add: hubAt_def hub_init_def)
qed

lemma hubAt_publish:
  assumes "b < channelSize"
  shows "hub_steps (hubAt b k None) (hubAt (Suc b) k None)"
proof -
  have s1: "hub_step (hubAt b k (Some {1})) (send 0 (hubAt b k (Some {1}))\<lparr>hub_publishing :=
      (hub_publishing (hubAt b k (Some {1})))(0 := Some ({1} - {1}))\<rparr>)"
    by (rule publish_send) (use assms in \<open>simp_all add: hubAt_def hub_init_def can_send_def\<close>)
  have eq: "send 0 (hubAt b k (Some {1}))\<lparr>hub_publishing :=
      (hub_publishing (hubAt b k (Some {1})))(0 := Some ({1} - {1}))\<rparr> = hubAt (Suc b) k (Some {})"
    by (simp add: hubAt_def hub_init_def send_def)
  have s2: "hub_step (hubAt (Suc b) k (Some {})) (hubAt (Suc b) k None)"
    using publish_unlock [of "hubAt (Suc b) k (Some {})" 0] by (simp add: hubAt_def hub_init_def)
  show ?thesis
    by (rule steps_next [OF _ s2], unfold eq [symmetric], rule steps_next [OF _ s1],
        rule steps_one [OF hubAt_rlock])
qed

lemma hubAt_fill: "b \<le> channelSize \<Longrightarrow> hub_steps (hubAt 0 k None) (hubAt b k None)"
proof (induction b)
  case 0
  show ?case by (rule steps_refl)
next
  case (Suc b)
  then show ?case using hub_steps_trans [OF hubAt_publish [of b k]] by simp
qed

lemma hubAt_receive: "hub_steps (hubAt 1 Receiving None) (hubAt 0 Sending None)"
proof -
  have "hub_step (hubAt 1 Receiving None) (hubAt 0 Sending None)"
    using receive [of "hubAt 1 Receiving None" 0] by (simp add: hubAt_def hub_init_def)
  then show ?thesis by (rule steps_one)
qed

lemma full_reachable: "hub_steps hub_init (hubAt channelSize Sending (Some {1}))"
proof -
  have "hub_steps hub_init (hubAt 1 Receiving None)"
    using hub_steps_trans [OF hubAt_publish [of 0 Receiving] hubAt_registered]
    by (simp add: channelSize_def)
  then have "hub_steps hub_init (hubAt channelSize Sending None)"
    using hub_steps_trans [OF hubAt_receive] hub_steps_trans [OF hubAt_fill] by blast
  then show ?thesis using hubAt_rlock by (rule steps_next)
qed

lemma stuck_reachable:
  "\<exists>s. hub_reachable s \<and> stuck 0 0 1 s \<and> hub_watch s 0 = WClosing 1 \<and>
     (\<forall>q. q \<noteq> 0 \<longrightarrow> hub_publishing s q = None)"
proof -
  let ?full = "hubAt channelSize Sending (Some {1})"
  let ?s = "?full\<lparr>hub_consumer := (hub_consumer ?full)(0 := Returned), hub_done := (hub_done ?full)(0 := True)\<rparr>"
  let ?c = "?s\<lparr>hub_watch := (hub_watch ?s)(0 := WClosing 1)\<rparr>"
  have "hub_reachable ?full" by (rule hub_steps_reachable [OF full_reachable hub_start])
  then have "hub_reachable ?s"
    by (rule hub_next) (rule send_failed, simp add: hubAt_def)
  then have r: "hub_reachable ?c"
    by (rule hub_next) (rule watch_done, simp_all add: hubAt_def)
  moreover have "stuck 0 0 1 ?c"
    using hub_reachable_ok [OF r] by (simp add: stuck_def hubAt_def hub_init_def)
  moreover have "hub_watch ?c 0 = WClosing 1 \<and> (\<forall>q. q \<noteq> 0 \<longrightarrow> hub_publishing ?c q = None)"
    by (simp add: hubAt_def hub_init_def)
  ultimately show ?thesis by blast
qed

text \<open>
  With the closing goroutine of the stream waiting for the lock, no reader gets in either: what
  is left to the hub are the steps that neither hold the lock nor need it.
\<close>

definition jammed :: "hubState \<Rightarrow> hubState \<Rightarrow> bool" where
  "jammed s s' \<longleftrightarrow> hub_publishing s' = hub_publishing s \<and> hub_watchers s' = hub_watchers s \<and>
     hub_closed s' = hub_closed s \<and> (\<forall>c. hub_buffered s' c \<le> hub_buffered s c) \<and>
     (\<forall>c. wantsLock (hub_watch s c) \<longrightarrow> hub_watch s' c = hub_watch s c)"

lemma jammed_step:
  assumes "hub_step s s'" and st: "stuck p c i s" and w: "wantsLock (hub_watch s c)"
    and only: "\<And>q. q \<noteq> p \<Longrightarrow> hub_publishing s q = None"
  shows "jammed s s'"
proof -
  have busy: "\<not> unread s" using st by (auto simp: stuck_def unread_def)
  have full: "\<not> can_send c s" using st hub_ok_send [of s i c] by (simp add: stuck_def can_send_def)
  have unw: "unwritten s" using st hub_okD(4) [of s p "{i}"] by (simp add: stuck_def)
  from assms(1) show ?thesis
  proof cases
    case (publish_rlock q)
    with w show ?thesis by blast
  next
    case (publish_send q R k c')
    then have "q = p" using only by fastforce
    with publish_send st full show ?thesis by (auto simp: stuck_def)
  next
    case (publish_unlock q)
    then have "q = p" using only by fastforce
    with publish_unlock st show ?thesis by (simp add: stuck_def)
  next
    case (watch_replay c' j k)
    with unw show ?thesis by (auto simp: unwritten_def dest: spec [of _ c'])
  qed (use busy in \<open>auto simp: jammed_def\<close>)
qed

lemma jammed_steps:
  assumes "hub_steps s s'" and st: "stuck p c i s" and w: "wantsLock (hub_watch s c)"
    and only: "\<And>q. q \<noteq> p \<Longrightarrow> hub_publishing s q = None"
  shows "jammed s s'"
  using assms
proof (induction rule: hub_steps.induct)
  case (steps_next s s' s'')
  have j: "jammed s s'" by (rule steps_next.IH [OF steps_next.prems])
  then have "wantsLock (hub_watch s' c)" "\<And>q. q \<noteq> p \<Longrightarrow> hub_publishing s' q = None"
    using steps_next.prems by (simp_all add: jammed_def)
  from jammed_step [OF steps_next.hyps(2) stuck_steps [OF steps_next.hyps(1) steps_next.prems(1)] this] j
  show ?case unfolding jammed_def by (auto intro: order_trans)
qed (simp add: jammed_def)

section \<open>Properties\<close>

text \<open>
  C30. The hub never panics: in any interleaving of any number of publishers, streams,
  cancellations and failing clients, no event is sent to a closed channel, no channel is
  closed twice and no channel holds more than its capacity. This holds although
  \<^verbatim>\<open>watcherID\<close> is incremented outside the lock, so that two streams can share a number.
\<close>

theorem hub_never_panics:
  assumes "hub_reachable s"
  shows "\<not> hub_panicked s \<and> (\<forall>c. hub_buffered s c \<le> channelSize) \<and>
    (\<forall>i c. hub_watchers s i = Some c \<longrightarrow> \<not> hub_closed s c)"
proof -
  have "\<not> hub_closed s c" if "hub_watchers s i = Some c" for i c
    by (rule hub_ok_send [OF hub_reachable_ok [OF assms]]) (use that in blast)
  then show ?thesis using hub_okD(1,5) [OF hub_reachable_ok [OF assms]] by blast
qed

theorem hub_never_panics_witness:
  "\<exists>s. hub_reachable s \<and> hub_buffered s 0 = 100 \<and> \<not> hub_panicked s"
proof -
  have "hub_reachable (hubAt channelSize Sending (Some {1}))"
    by (rule hub_steps_reachable [OF full_reachable hub_start])
  from this hub_never_panics [OF this] show ?thesis
    by (intro exI [of _ "hubAt channelSize Sending (Some {1})"])
      (simp add: hubAt_def channelSize_def)
qed

text \<open>
  C31. One stream whose client goes away can stop the node's event hub for good. There is a
  reachable state in which a publisher holds the read lock and still has to send to a full
  channel that nobody receives from any more, while the closing goroutine of that stream waits
  for the lock; and whatever happens from there, the set of publishers in the lock and what they
  have left to send, the registered streams and the closed channels never change again, no
  channel is ever sent another event, and whoever waits for the lock waits on. What remains
  possible is to drain other channels, to cancel streams, and to take a number and start waiting.
\<close>

theorem hub_can_stop_for_good:
  "\<exists>s. hub_reachable s \<and> hub_publishing s 0 = Some {1} \<and> hub_watchers s 1 = Some 0 \<and>
     hub_buffered s 0 = channelSize \<and> hub_consumer s 0 = Returned \<and> hub_watch s 0 = WClosing 1 \<and>
     (\<forall>s'. hub_steps s s' \<longrightarrow>
        hub_publishing s' = hub_publishing s \<and> hub_watchers s' = hub_watchers s \<and>
        hub_closed s' = hub_closed s \<and> (\<forall>c. hub_buffered s' c \<le> hub_buffered s c) \<and>
        (\<forall>c. wantsLock (hub_watch s c) \<longrightarrow> hub_watch s' c = hub_watch s c))"
proof -
  obtain s where s: "hub_reachable s" "stuck 0 0 1 s" "hub_watch s 0 = WClosing 1"
      "\<And>q. q \<noteq> 0 \<Longrightarrow> hub_publishing s q = None"
    using stuck_reachable by blast
  have "jammed s s'" if "hub_steps s s'" for s'
    by (rule jammed_steps [OF that s(2)]) (simp_all add: s)
  with s(1-3) show ?thesis unfolding jammed_def stuck_def by (intro exI [of _ s]) blast
qed

theorem hub_can_stop_for_good_witness:
  "\<exists>s. hub_reachable s \<and> hub_publishing s 0 = Some {1} \<and> hub_consumer s 0 = Returned \<and>
     hub_watch s 0 = WClosing 1"
  using hub_can_stop_for_good by blast

section \<open>Streams that share a number\<close>

text \<open>A stream that is registered no more, or never was under its number, gets no event.\<close>

definition deaf :: "nat \<Rightarrow> hubState \<Rightarrow> bool" where
  "deaf c s \<longleftrightarrow> hub_buffered s c = 0 \<and> (\<forall>i. hub_watchers s i \<noteq> Some c) \<and>
     (hub_watch s c = WClosed \<or> (\<exists>i. hub_watch s c = WWatching i \<or> hub_watch s c = WClosing i))"

lemma deaf_step:
  assumes "hub_step s s'" and "deaf c s"
  shows "deaf c s'"
  using assms(1)
proof cases
  case (publish_send p R k c')
  then have "c' \<noteq> c" using assms(2) by (auto simp: deaf_def)
  with publish_send assms(2) show ?thesis by (auto simp: deaf_def send_def)
next
  case (watch_replay c' i k)
  then have "c' \<noteq> c" using assms(2) by (auto simp: deaf_def)
  with watch_replay assms(2) show ?thesis by (auto simp: deaf_def send_def)
qed (use assms(2) in \<open>auto simp: deaf_def\<close>)

lemma deaf_steps: "hub_steps s s' \<Longrightarrow> deaf c s \<Longrightarrow> deaf c s'"
  by (induction rule: hub_steps.induct) (blast intro: deaf_step)+

definition racing :: "int \<Rightarrow> (int \<rightharpoonup> nat) \<Rightarrow> watchPC \<Rightarrow> watchPC \<Rightarrow> hubState" where
  "racing i m w0 w1 = hub_init\<lparr>hub_watcherID := i, hub_watchers := m,
     hub_watch := (\<lambda>_. WNew)(0 := w0, 1 := w1)\<rparr>"

lemmas racing_defs = racing_def hub_init_def unread_def unwritten_def int64_def fun_upd_twist

lemma racing_start: "racing 0 Map.empty WNew WNew = hub_init"
  by (auto simp: racing_def hub_init_def)

lemma racing_read:
  "hub_step (racing i m WNew w) (racing i m (WRead i) w)"
  "hub_step (racing i m w WNew) (racing i m w (WRead i))"
  using watch_read [of "racing i m WNew w" 0] watch_read [of "racing i m w WNew" 1]
  by (simp_all add: racing_defs)

lemma racing_write:
  "hub_step (racing i m (WRead 0) w) (racing 1 m WWrote w)"
  "hub_step (racing i m w (WRead 0)) (racing 1 m w WWrote)"
  using watch_write [of "racing i m (WRead 0) w" 0 0] watch_write [of "racing i m w (WRead 0)" 1 0]
  by (simp_all add: racing_defs)

lemma racing_id:
  "hub_steps (racing i m WWrote w) (racing i m (WLocking i) w)"
  "hub_steps (racing i m w WWrote) (racing i m w (WLocking i))"
proof -
  have "hub_step (racing i m WWrote w) (racing i m (WNumbered i) w)"
    "hub_step (racing i m (WNumbered i) w) (racing i m (WLocking i) w)"
    using watch_id [of "racing i m WWrote w" 0] watch_wait [of "racing i m (WNumbered i) w" 0 i]
    by (simp_all add: racing_defs)
  then show "hub_steps (racing i m WWrote w) (racing i m (WLocking i) w)"
    by (blast intro: steps_refl steps_next)
  have "hub_step (racing i m w WWrote) (racing i m w (WNumbered i))"
    "hub_step (racing i m w (WNumbered i)) (racing i m w (WLocking i))"
    using watch_id [of "racing i m w WWrote" 1] watch_wait [of "racing i m w (WNumbered i)" 1 i]
    by (simp_all add: racing_defs)
  then show "hub_steps (racing i m w WWrote) (racing i m w (WLocking i))"
    by (blast intro: steps_refl steps_next)
qed

lemma racing_register:
  "\<not> holdsLock w \<Longrightarrow> hub_steps (racing i m (WLocking j) w) (racing i (m(j \<mapsto> 0)) (WWatching j) w)"
  "\<not> holdsLock w \<Longrightarrow> hub_steps (racing i m w (WLocking j)) (racing i (m(j \<mapsto> 1)) w (WWatching j))"
proof -
  assume w: "\<not> holdsLock w"
  have "hub_step (racing i m (WLocking j) w) (racing i (m(j \<mapsto> 0)) (WReplaying j 0) w)"
    using watch_lock [of "racing i m (WLocking j) w" 0 j 0] w by (simp add: racing_defs)
  moreover have "hub_step (racing i (m(j \<mapsto> 0)) (WReplaying j 0) w) (racing i (m(j \<mapsto> 0)) (WWatching j) w)"
    using watch_unlock [of "racing i (m(j \<mapsto> 0)) (WReplaying j 0) w" 0 j] by (simp add: racing_defs)
  ultimately show "hub_steps (racing i m (WLocking j) w) (racing i (m(j \<mapsto> 0)) (WWatching j) w)"
    by (blast intro: steps_refl steps_next)
  have "hub_step (racing i m w (WLocking j)) (racing i (m(j \<mapsto> 1)) w (WReplaying j 0))"
    using watch_lock [of "racing i m w (WLocking j)" 1 j 0] w by (simp add: racing_defs)
  moreover have "hub_step (racing i (m(j \<mapsto> 1)) w (WReplaying j 0)) (racing i (m(j \<mapsto> 1)) w (WWatching j))"
    using watch_unlock [of "racing i (m(j \<mapsto> 1)) w (WReplaying j 0)" 1 j] by (simp add: racing_defs)
  ultimately show "hub_steps (racing i m w (WLocking j)) (racing i (m(j \<mapsto> 1)) w (WWatching j))"
    by (blast intro: steps_refl steps_next)
qed

lemma racing_reachable: "hub_steps hub_init (racing 1 [1 \<mapsto> 1] (WWatching 1) (WWatching 1))"
proof -
  have "hub_steps hub_init (racing 0 Map.empty (WRead 0) WNew)"
    unfolding racing_start [symmetric] by (rule steps_one [OF racing_read(1)])
  then have "hub_steps hub_init (racing 0 Map.empty (WRead 0) (WRead 0))"
    using racing_read(2) by (rule steps_next)
  then have "hub_steps hub_init (racing 1 Map.empty WWrote (WRead 0))"
    using racing_write(1) by (rule steps_next)
  then have "hub_steps hub_init (racing 1 Map.empty WWrote WWrote)"
    using racing_write(2) by (rule steps_next)
  then have "hub_steps hub_init (racing 1 Map.empty (WLocking 1) WWrote)"
    using hub_steps_trans [OF racing_id(1)] by blast
  then have "hub_steps hub_init (racing 1 Map.empty (WLocking 1) (WLocking 1))"
    using hub_steps_trans [OF racing_id(2)] by blast
  then have "hub_steps hub_init (racing 1 [1 \<mapsto> 0] (WWatching 1) (WLocking 1))"
    using hub_steps_trans [OF racing_register(1)] by simp
  then show ?thesis
    using hub_steps_trans [OF racing_register(2) [of "WWatching 1" 1 "[1 \<mapsto> 0]" 1]] by simp
qed

text \<open>
  Two streams that open at the same time can share a number, because \<^verbatim>\<open>watcherID\<close> is
  incremented and read without the lock: there is a reachable state in which a stream is
  open, its client present, and it is never sent any event, whatever happens next.
\<close>

lemma racing_watch_is_deaf:
  "\<exists>s. hub_reachable s \<and> hub_watch s 0 = WWatching 1 \<and> hub_consumer s 0 = Receiving \<and>
     \<not> hub_done s 0 \<and> (\<forall>s'. hub_steps s s' \<longrightarrow>
        hub_buffered s' 0 = 0 \<and> (\<forall>i. hub_watchers s' i \<noteq> Some 0))"
proof -
  let ?s = "racing 1 [1 \<mapsto> 1] (WWatching 1) (WWatching 1)"
  have "hub_reachable ?s" by (rule hub_steps_reachable [OF racing_reachable hub_start])
  moreover have "hub_buffered s' 0 = 0 \<and> (\<forall>i. hub_watchers s' i \<noteq> Some 0)" if "hub_steps ?s s'" for s'
  proof -
    have "deaf 0 ?s" by (simp add: deaf_def racing_def hub_init_def)
    with deaf_steps [OF that] show ?thesis by (simp add: deaf_def)
  qed
  ultimately show ?thesis by (intro exI [of _ ?s]) (simp add: racing_def hub_init_def)
qed

end
