(* ===== verification/WatchDelivery.thy ===== *)
theory WatchDelivery
  imports WatchHub
begin

text \<open>
  What the goroutines of the event hub deliver (\<^verbatim>\<open>publish\<close> and \<^verbatim>\<open>Watch\<close> of
  \<^verbatim>\<open>node/pkg/consensus/protocol.go\<close>): the transition system of \<open>WatchHub\<close> with the
  partitions, the events of the publishers and what was sent to every stream. Publishers store
  term, leader and readiness one by one while they hold the read lock, next to one another; a new
  stream is replayed to under the write lock.
\<close>

section \<open>State\<close>

text \<open>Where a publisher is: nothing to do, the lock taken, the term stored, the event being sent.\<close>

datatype 't publisherPC = PIdle | PLocked "'t Event" | PTerm "'t Event" | PSending "'t Event"

record ('pid, 's, 't) delivery =
  dl_node :: "('pid, 's, 't) Protocol"
  dl_pub :: "nat \<Rightarrow> 't publisherPC"
  dl_sent :: "nat \<Rightarrow> 't Event list"
  dl_replay :: "nat \<Rightarrow> 't Event list"

definition delivery_init :: "('p::len word, 's, 't) Protocol \<Rightarrow> ('p word, 's, 't) delivery" where
  "delivery_init n = \<lparr>dl_node = n\<lparr>pr_partitions := Map.empty\<rparr>, dl_pub = (\<lambda>_. PIdle),
     dl_sent = (\<lambda>_. []), dl_replay = (\<lambda>_. [])\<rparr>"

text \<open>The group an event is about, if the event changes the partition.\<close>

definition eventLeader :: "'t Event \<Rightarrow> (GroupID \<times> Term \<times> MemberID) option" where
  "eventLeader event =
     (case ev_Event event of
        Some (Event_LeaderUpdated e) \<Rightarrow> Some (me_GroupID (lu_MemberEvent e), lu_Term e, lu_Leader e)
      | _ \<Rightarrow> None)"

definition eventReady :: "'t Event \<Rightarrow> GroupID option" where
  "eventReady event =
     (case ev_Event event of
        Some (Event_MemberReady e) \<Rightarrow> Some (me_GroupID (pe_MemberEvent e))
      | _ \<Rightarrow> None)"

fun working :: "'t publisherPC \<Rightarrow> 't Event option" where
  "working PIdle = None"
| "working (PLocked e) = Some e"
| "working (PTerm e) = Some e"
| "working (PSending e) = Some e"

definition changePart :: "GroupID \<Rightarrow> ('p::len word Partition \<Rightarrow> 'p word Partition) \<Rightarrow> ('p word, 's, 't) Protocol \<Rightarrow>
    ('p word, 's, 't) Protocol" where
  "changePart g f n =
     n\<lparr>pr_partitions := (pr_partitions n)(ucast g := map_option f (pr_partitions n (ucast g)))\<rparr>"

text \<open>
  What the Raft library is relied on for: it reports events of members whose state machine it has
  created, the leader changes of a group one at a time, and no leader without a term.
\<close>

definition reported :: "('p::len word, 's, 't) delivery \<Rightarrow> 't Event \<Rightarrow> bool" where
  "reported d e \<longleftrightarrow> leader_event_ok (ev_Event e) \<and>
     (\<forall>g t l. eventLeader e = Some (g, t, l) \<longrightarrow> pr_partitions (dl_node d) (ucast g) \<noteq> None \<and>
        (\<forall>p e' t' l'. working (dl_pub d p) = Some e' \<longrightarrow> eventLeader e' \<noteq> Some (g, t', l'))) \<and>
     (\<forall>g. eventReady e = Some g \<longrightarrow> pr_partitions (dl_node d) (ucast g) \<noteq> None)"

section \<open>Steps\<close>

text \<open>
  The steps of \<open>WatchHub\<close> with what they deliver. \<open>other\<close> stands for those that deliver nothing:
  a stream on its way to the lock, a receiving client, a cancellation, a stream that is closed.
  \<open>start\<close> is \<^verbatim>\<open>newStateMachine\<close> entering a partition under the write lock.
\<close>

inductive delivery_step :: "'t \<Rightarrow> hubState \<Rightarrow> ('p::len word, 's, 't) delivery \<Rightarrow> hubState \<Rightarrow>
    ('p word, 's, 't) delivery \<Rightarrow> bool" for zt :: 't where
  start: "unread h \<Longrightarrow> unwritten h \<Longrightarrow> pr_partitions (dl_node d) (ucast (g :: GroupID)) = None \<Longrightarrow>
    delivery_step zt h d h
      (d\<lparr>dl_node := snd (newPartitionMachine () (ucast g) nodeID (dl_node d))\<rparr>)"
| publish_rlock: "dl_pub d p = PIdle \<Longrightarrow> reported d e \<Longrightarrow> hub_publishing h p = None \<Longrightarrow> unwritten h \<Longrightarrow>
    \<forall>c. \<not> wantsLock (hub_watch h c) \<Longrightarrow>
    delivery_step zt h d (h\<lparr>hub_publishing := (hub_publishing h)(p := Some (dom (hub_watchers h)))\<rparr>)
      (d\<lparr>dl_pub := (dl_pub d)(p := PLocked e)\<rparr>)"
| store_term: "dl_pub d p = PLocked e \<Longrightarrow> eventLeader e = Some (g, t, l) \<Longrightarrow>
    delivery_step zt h d h
      (d\<lparr>dl_node := changePart g (storeTerm t) (dl_node d), dl_pub := (dl_pub d)(p := PTerm e)\<rparr>)"
| store_leader: "dl_pub d p = PTerm e \<Longrightarrow> eventLeader e = Some (g, t, l) \<Longrightarrow>
    delivery_step zt h d h
      (d\<lparr>dl_node := changePart g (storeLeader l) (dl_node d), dl_pub := (dl_pub d)(p := PSending e)\<rparr>)"
| store_ready: "dl_pub d p = PLocked e \<Longrightarrow> eventReady e = Some g \<Longrightarrow>
    delivery_step zt h d h
      (d\<lparr>dl_node := changePart g setReady (dl_node d), dl_pub := (dl_pub d)(p := PSending e)\<rparr>)"
| store_nothing: "dl_pub d p = PLocked e \<Longrightarrow> eventLeader e = None \<Longrightarrow> eventReady e = None \<Longrightarrow>
    delivery_step zt h d h (d\<lparr>dl_pub := (dl_pub d)(p := PSending e)\<rparr>)"
| publish_send: "dl_pub d p = PSending e \<Longrightarrow> hub_publishing h p = Some R \<Longrightarrow> k \<in> R \<Longrightarrow>
    hub_watchers h k = Some c \<Longrightarrow> can_send c h \<Longrightarrow>
    delivery_step zt h d (send c h\<lparr>hub_publishing := (hub_publishing h)(p := Some (R - {k}))\<rparr>)
      (d\<lparr>dl_sent := (dl_sent d)(c := dl_sent d c @ [e])\<rparr>)"
| publish_unlock: "dl_pub d p = PSending e \<Longrightarrow> hub_publishing h p = Some {} \<Longrightarrow>
    delivery_step zt h d (h\<lparr>hub_publishing := (hub_publishing h)(p := None)\<rparr>)
      (d\<lparr>dl_pub := (dl_pub d)(p := PIdle)\<rparr>)"
| watch_lock: "hub_watch h c = WLocking i \<Longrightarrow> unread h \<Longrightarrow> unwritten h \<Longrightarrow>
    distinct order \<Longrightarrow> set order = dom (pr_partitions (dl_node d)) \<Longrightarrow>
    q = concat (map (replayPartition zt) (Partitions order (dl_node d))) \<Longrightarrow>
    delivery_step zt h d
      (h\<lparr>hub_watchers := (hub_watchers h)(i \<mapsto> c), hub_watch := (hub_watch h)(c := WReplaying i (length q))\<rparr>)
      (d\<lparr>dl_replay := (dl_replay d)(c := q)\<rparr>)"
| watch_replay: "hub_watch h c = WReplaying i (Suc k) \<Longrightarrow> dl_replay d c = e # q \<Longrightarrow> can_send c h \<Longrightarrow>
    delivery_step zt h d (send c h\<lparr>hub_watch := (hub_watch h)(c := WReplaying i k)\<rparr>)
      (d\<lparr>dl_sent := (dl_sent d)(c := dl_sent d c @ [e]), dl_replay := (dl_replay d)(c := q)\<rparr>)"
| other: "hub_step h h' \<Longrightarrow> hub_publishing h' = hub_publishing h \<Longrightarrow>
    hub_watchers h' \<subseteq>\<^sub>m hub_watchers h \<Longrightarrow> \<forall>c. hub_buffered h' c \<le> hub_buffered h c \<Longrightarrow>
    delivery_step zt h d h' d"

inductive delivery_reachable :: "'t \<Rightarrow> ('p::len word, 's, 't) Protocol \<Rightarrow> hubState \<Rightarrow> ('p word, 's, 't) delivery \<Rightarrow> bool"
  for zt :: 't and n :: "('p word, 's, 't) Protocol" where
  delivery_start: "delivery_reachable zt n hub_init (delivery_init n)"
| delivery_next: "delivery_reachable zt n h d \<Longrightarrow> delivery_step zt h d h' d' \<Longrightarrow> delivery_reachable zt n h' d'"

text \<open>Forgetting what is delivered leaves a run of the hub.\<close>

lemma delivery_step_hub:
  assumes "delivery_step zt h d h' d'"
  shows "h' = h \<or> hub_step h h'"
  using assms
proof cases
  case (publish_rlock p e)
  show ?thesis unfolding publish_rlock(1) by (rule disjI2, rule hub_step.publish_rlock [OF publish_rlock(5,6,7)])
next
  case (publish_send p e R k c)
  show ?thesis unfolding publish_send(1) by (rule disjI2, rule hub_step.publish_send [OF publish_send(4,5,6,7)])
next
  case (publish_unlock p e)
  show ?thesis unfolding publish_unlock(1) by (rule disjI2, rule hub_step.publish_unlock [OF publish_unlock(4)])
next
  case (watch_lock c i order q)
  show ?thesis unfolding watch_lock(1) by (rule disjI2, rule hub_step.watch_lock [OF watch_lock(3,4,5)])
next
  case (watch_replay c i k e q)
  show ?thesis unfolding watch_replay(1) by (rule disjI2, rule hub_step.watch_replay [OF watch_replay(3,5)])
qed simp_all

lemma delivery_reachable_hub: "delivery_reachable zt n h d \<Longrightarrow> hub_reachable h"
proof (induction rule: delivery_reachable.induct)
  case delivery_start
  show ?case by (rule hub_start)
next
  case (delivery_next h d h' d')
  from delivery_step_hub [OF delivery_next.hyps(2)] show ?case
  proof
    assume "hub_step h h'"
    with delivery_next.IH show ?thesis by (rule hub_next)
  qed (use delivery_next.IH in simp)
qed

section \<open>Publishers\<close>

lemma viewEvent_cases:
  "eventLeader e = Some (g, t, l) \<Longrightarrow> viewEvent (ev_Event e) v = v(g := (v g)\<lparr>gv_term := t, gv_leader := l\<rparr>)"
  "eventReady e = Some g \<Longrightarrow> viewEvent (ev_Event e) v = v(g := (v g)\<lparr>gv_ready := True\<rparr>)"
  "eventLeader e = None \<Longrightarrow> eventReady e = None \<Longrightarrow> viewEvent (ev_Event e) v = v"
  by (cases "(ev_Event e, v)" rule: viewEvent.cases; auto simp: eventLeader_def eventReady_def Let_def)+

lemma leader_not_ready: "eventLeader e = Some x \<Longrightarrow> eventReady e = None"
  by (auto simp: eventLeader_def eventReady_def split: option.splits isEvent_Event.splits)

text \<open>
  The publishers hold the read lock while they work, on events of partitions that exist, and no
  two of them on leader events of the same group.
\<close>

definition pubs_ok :: "hubState \<Rightarrow> ('p::len word, 's, 't) delivery \<Rightarrow> bool" where
  "pubs_ok h d \<longleftrightarrow>
     (\<forall>p. hub_publishing h p = None \<longleftrightarrow> dl_pub d p = PIdle) \<and>
     (\<forall>p e. dl_pub d p = PLocked e \<or> dl_pub d p = PTerm e \<longrightarrow> hub_publishing h p = Some (dom (hub_watchers h))) \<and>
     (\<forall>p e. dl_pub d p = PTerm e \<longrightarrow> eventLeader e \<noteq> None) \<and>
     (\<forall>p q e e' g x x'. working (dl_pub d p) = Some e \<and> working (dl_pub d q) = Some e' \<and>
        eventLeader e = Some (g, x) \<and> eventLeader e' = Some (g, x') \<longrightarrow> p = q) \<and>
     (\<forall>p e g. working (dl_pub d p) = Some e \<and> (eventReady e = Some g \<or> (\<exists>x. eventLeader e = Some (g, x))) \<longrightarrow>
        leader_event_ok (ev_Event e) \<and> pr_partitions (dl_node d) (ucast g) \<noteq> None)"

lemma pubs_okD:
  assumes "pubs_ok h d"
  shows "hub_publishing h p = None \<longleftrightarrow> dl_pub d p = PIdle"
    and "dl_pub d p = PLocked e \<or> dl_pub d p = PTerm e \<Longrightarrow> hub_publishing h p = Some (dom (hub_watchers h))"
    and "dl_pub d p = PTerm e \<Longrightarrow> eventLeader e \<noteq> None"
    and "working (dl_pub d p) = Some e \<Longrightarrow> working (dl_pub d q) = Some e' \<Longrightarrow>
      eventLeader e = Some (g, x) \<Longrightarrow> eventLeader e' = Some (g, x') \<Longrightarrow> p = q"
    and "working (dl_pub d p) = Some e \<Longrightarrow> eventLeader e = Some (g, x) \<Longrightarrow>
      leader_event_ok (ev_Event e) \<and> pr_partitions (dl_node d) (ucast g) \<noteq> None"
    and "working (dl_pub d p) = Some e \<Longrightarrow> eventReady e = Some g \<Longrightarrow> pr_partitions (dl_node d) (ucast g) \<noteq> None"
  using assms unfolding pubs_ok_def by blast+

text \<open>What the steps that deliver nothing leave alone.\<close>

fun notYet :: "watchPC \<Rightarrow> bool" where
  "notYet WNew = True"
| "notYet (WRead _) = True"
| "notYet WWrote = True"
| "notYet (WNumbered _) = True"
| "notYet (WLocking _) = True"
| "notYet _ = False"

definition quiet :: "hubState \<Rightarrow> hubState \<Rightarrow> bool" where
  "quiet h h' \<longleftrightarrow> hub_publishing h' = hub_publishing h \<and> hub_watchers h' \<subseteq>\<^sub>m hub_watchers h \<and>
     (unread h \<or> hub_watchers h' = hub_watchers h) \<and>
     (\<forall>c. (notYet (hub_watch h' c) \<longrightarrow> notYet (hub_watch h c)) \<and>
        (\<forall>i k. hub_watch h' c = WReplaying i k \<longrightarrow> hub_watch h c = WReplaying i k) \<and>
        (\<forall>i k. hub_watch h c = WReplaying i (Suc k) \<longrightarrow> hub_watch h' c = WReplaying i (Suc k)))"

lemma quietD:
  assumes "quiet h h'"
  shows "hub_publishing h' = hub_publishing h" and "hub_watchers h' \<subseteq>\<^sub>m hub_watchers h"
    and "unread h \<or> hub_watchers h' = hub_watchers h"
    and "notYet (hub_watch h' c) \<Longrightarrow> notYet (hub_watch h c)"
    and "hub_watch h' c = WReplaying i k \<Longrightarrow> hub_watch h c = WReplaying i k"
    and "hub_watch h c = WReplaying i (Suc k) \<Longrightarrow> hub_watch h' c = WReplaying i (Suc k)"
  using assms unfolding quiet_def by blast+

lemma other_quiet:
  assumes ok: "hub_ok h" and "hub_step h h'" and pub: "hub_publishing h' = hub_publishing h"
    and map: "hub_watchers h' \<subseteq>\<^sub>m hub_watchers h" and buf: "\<forall>c. hub_buffered h' c \<le> hub_buffered h c"
  shows "quiet h h'"
  using assms(2)
proof cases
  case (publish_rlock p)
  with pub show ?thesis by (auto simp: fun_eq_iff split: if_splits)
next
  case (publish_send p R k c)
  then have "hub_publishing h' p \<noteq> hub_publishing h p" by auto
  with pub show ?thesis by simp
next
  case (publish_unlock p)
  then have "hub_publishing h' p \<noteq> hub_publishing h p" by simp
  with pub show ?thesis by simp
next
  case (watch_lock c i k)
  then have "hub_watchers h i = Some c" using map by (auto simp: map_le_def)
  from hub_okD(3) [OF ok this] show ?thesis by (simp add: watch_lock)
next
  case (watch_replay c i k)
  then have "\<not> hub_closed h c" using hub_okD(2) [OF ok, of c] by auto
  then have "hub_buffered h' c = Suc (hub_buffered h c)" by (simp add: watch_replay send_def)
  with buf show ?thesis by (metis not_less_eq_eq order_refl)
qed (use map in \<open>auto simp: quiet_def\<close>)

lemma reported_pubs_ok:
  assumes "pubs_ok h d" and "dl_pub d p = PIdle" and "reported d e"
  shows "pubs_ok (h\<lparr>hub_publishing := (hub_publishing h)(p := Some (dom (hub_watchers h)))\<rparr>)
    (d\<lparr>dl_pub := (dl_pub d)(p := PLocked e)\<rparr>)"
  using assms unfolding pubs_ok_def reported_def
  by (auto split: if_splits dest: leader_not_ready)

lemma changePart_parts:
  "pr_partitions (changePart g f n) i = (if i = ucast g then map_option f (pr_partitions n i) else pr_partitions n i)"
  by (simp add: changePart_def)

lemma changePart_none: "pr_partitions (changePart g f n) i = None \<longleftrightarrow> pr_partitions n i = None"
  by (simp add: changePart_parts)

lemma pubs_ok_advance:
  assumes ok: "pubs_ok h d" and old: "working (dl_pub d p) = Some e" and new: "working new = Some e"
    and stored: "\<And>e'. new = PTerm e' \<Longrightarrow> eventLeader e' \<noteq> None \<and> hub_publishing h p = Some (dom (hub_watchers h))"
    and locked: "\<And>e'. new \<noteq> PLocked e'"
    and parts: "\<And>i. pr_partitions n i = None \<longleftrightarrow> pr_partitions (dl_node d) i = None"
  shows "pubs_ok h (d\<lparr>dl_node := n, dl_pub := (dl_pub d)(p := new)\<rparr>)"
proof -
  let ?d = "d\<lparr>dl_node := n, dl_pub := (dl_pub d)(p := new)\<rparr>"
  have w: "working (dl_pub ?d q) = working (dl_pub d q)" for q using old new by simp
  have n: "pr_partitions (dl_node ?d) i = None \<longleftrightarrow> pr_partitions (dl_node d) i = None" for i using parts by simp
  have "new \<noteq> PIdle" using new by auto
  moreover have "dl_pub d p \<noteq> PIdle" using old by auto
  ultimately show ?thesis
    using ok stored locked unfolding pubs_ok_def w n
    by (auto split: if_splits)
qed

lemma pubs_ok_quiet:
  assumes ok: "pubs_ok h d" and q: "quiet h h'"
  shows "pubs_ok h' d"
proof -
  have pub: "hub_publishing h' = hub_publishing h" using q by (simp add: quiet_def)
  have "hub_watchers h' = hub_watchers h" if "dl_pub d p = PLocked e \<or> dl_pub d p = PTerm e" for p e
    using q pubs_okD(2) [OF ok that] by (auto simp: quiet_def unread_def)
  then show ?thesis
    using ok unfolding pubs_ok_def pub by simp
qed

lemma pubs_ok_idle:
  assumes ok: "pubs_ok h d" and "unread h" and "hub_publishing h' = hub_publishing h"
    and "dl_pub d' = dl_pub d" and parts: "\<And>i. pr_partitions (dl_node d') i = None \<Longrightarrow> pr_partitions (dl_node d) i = None"
  shows "pubs_ok h' d'"
proof -
  have idle: "dl_pub d p = PIdle" for p using assms(2) pubs_okD(1) [OF ok, of p] by (simp add: unread_def)
  then show ?thesis using assms(2,3) by (simp add: pubs_ok_def assms(4) idle unread_def)
qed

lemma step_pubs_ok:
  assumes "delivery_step zt h d h' d'" and hub: "hub_ok h" and ok: "pubs_ok h d"
  shows "pubs_ok h' d'"
  using assms(1)
proof cases
  case (start g nodeID)
  show ?thesis
    by (rule pubs_ok_idle [OF ok start(3)]) (auto simp: start newPartitionMachine_def Let_def split: if_splits)
next
  case (publish_rlock p e)
  show ?thesis unfolding publish_rlock(1,2) by (rule reported_pubs_ok [OF ok publish_rlock(3,4)])
next
  case (store_term p e g t l)
  show ?thesis
    unfolding store_term(1,2)
    by (rule pubs_ok_advance [OF ok]) (use store_term pubs_okD(2) [OF ok] in \<open>auto simp: changePart_none\<close>)
next
  case (store_leader p e g t l)
  show ?thesis
    unfolding store_leader(1,2)
    by (rule pubs_ok_advance [OF ok]) (use store_leader in \<open>auto simp: changePart_none\<close>)
next
  case (store_ready p e g)
  show ?thesis
    unfolding store_ready(1,2)
    by (rule pubs_ok_advance [OF ok]) (use store_ready in \<open>auto simp: changePart_none\<close>)
next
  case (store_nothing p e)
  have "pubs_ok h (d\<lparr>dl_node := dl_node d, dl_pub := (dl_pub d)(p := PSending e)\<rparr>)"
    by (rule pubs_ok_advance [OF ok]) (use store_nothing in auto)
  then show ?thesis unfolding store_nothing(1,2) by simp
next
  case (publish_send p e R k c)
  have "\<not> hub_closed h c" by (rule hub_ok_send [OF hub]) (use publish_send(6) in blast)
  then show ?thesis
    using ok publish_send(3,4) unfolding publish_send(1,2) pubs_ok_def
    by (auto simp: send_def split: if_splits)
next
  case (publish_unlock p e)
  then show ?thesis using ok unfolding publish_unlock(1,2) pubs_ok_def by (auto split: if_splits)
next
  case (watch_lock c i order q)
  show ?thesis by (rule pubs_ok_idle [OF ok watch_lock(4)]) (simp_all add: watch_lock(1,2))
next
  case (watch_replay c i k e q)
  have "unread h"
  proof -
    have "hub_publishing h p = None" for p
      using hub_okD(4) [OF hub, of p] watch_replay(3)
      by (cases "hub_publishing h p") (auto simp: unwritten_def dest: spec [of _ c])
    then show ?thesis by (simp add: unread_def)
  qed
  then show ?thesis by (rule pubs_ok_idle [OF ok]) (simp_all add: watch_replay(1,2))
next
  case other
  show ?thesis unfolding other(1) by (rule pubs_ok_quiet [OF ok other_quiet [OF hub other(2-5)]])
qed

section \<open>What the publishers have stored\<close>

definition stores_ok :: "('p::len word, 's, 't) delivery \<Rightarrow> bool" where
  "stores_ok d \<longleftrightarrow>
     (\<forall>p e g t l pt. eventLeader e = Some (g, t, l) \<and> pr_partitions (dl_node d) (ucast g) = Some pt \<longrightarrow>
        (dl_pub d p = PTerm e \<longrightarrow> loadTerm pt = t) \<and>
        (dl_pub d p = PSending e \<longrightarrow> loadTerm pt = t \<and> loadLeader pt = l)) \<and>
     (\<forall>p e g pt. dl_pub d p = PSending e \<and> eventReady e = Some g \<and>
        pr_partitions (dl_node d) (ucast g) = Some pt \<longrightarrow> getReady pt) \<and>
     (\<forall>i pt. pr_partitions (dl_node d) i = Some pt \<longrightarrow> part_ID pt = i \<and> (\<exists>g :: GroupID. i = ucast g)) \<and>
     (\<forall>i pt. pr_partitions (dl_node d) i = Some pt \<and> loadTerm pt = 0 \<and> loadLeader pt \<noteq> 0 \<longrightarrow>
        (\<exists>p e g x. dl_pub d p = PTerm e \<and> eventLeader e = Some (g, x) \<and> i = ucast g))"

lemma stores_okD:
  assumes "stores_ok d"
  shows "dl_pub d p = PTerm e \<Longrightarrow> eventLeader e = Some (g, t, l) \<Longrightarrow>
      pr_partitions (dl_node d) (ucast g) = Some pt \<Longrightarrow> loadTerm pt = t"
    and "dl_pub d p = PSending e \<Longrightarrow> eventLeader e = Some (g, t, l) \<Longrightarrow>
      pr_partitions (dl_node d) (ucast g) = Some pt \<Longrightarrow> loadTerm pt = t \<and> loadLeader pt = l"
    and "dl_pub d p = PSending e \<Longrightarrow> eventReady e = Some g \<Longrightarrow>
      pr_partitions (dl_node d) (ucast g) = Some pt \<Longrightarrow> getReady pt"
    and "pr_partitions (dl_node d) i = Some pt \<Longrightarrow> part_ID pt = i \<and> (\<exists>g :: GroupID. i = ucast g)"
    and "pr_partitions (dl_node d) i = Some pt \<Longrightarrow> loadTerm pt = 0 \<Longrightarrow> loadLeader pt \<noteq> 0 \<Longrightarrow>
      \<exists>p e g x. dl_pub d p = PTerm e \<and> eventLeader e = Some (g, x) \<and> i = ucast g"
  using assms unfolding stores_ok_def by blast+

lemma stores_okI:
  assumes "\<And>p e g t l pt. dl_pub d p = PTerm e \<Longrightarrow> eventLeader e = Some (g, t, l) \<Longrightarrow>
      pr_partitions (dl_node d) (ucast g) = Some pt \<Longrightarrow> loadTerm pt = t"
    and "\<And>p e g t l pt. dl_pub d p = PSending e \<Longrightarrow> eventLeader e = Some (g, t, l) \<Longrightarrow>
      pr_partitions (dl_node d) (ucast g) = Some pt \<Longrightarrow> loadTerm pt = t \<and> loadLeader pt = l"
    and "\<And>p e g pt. dl_pub d p = PSending e \<Longrightarrow> eventReady e = Some g \<Longrightarrow>
      pr_partitions (dl_node d) (ucast g) = Some pt \<Longrightarrow> getReady pt"
    and "\<And>i pt. pr_partitions (dl_node d) i = Some pt \<Longrightarrow> part_ID pt = i \<and> (\<exists>g :: GroupID. i = ucast g)"
    and "\<And>i pt. pr_partitions (dl_node d) i = Some pt \<Longrightarrow> loadTerm pt = 0 \<Longrightarrow> loadLeader pt \<noteq> 0 \<Longrightarrow>
      \<exists>p e g x. dl_pub d p = PTerm e \<and> eventLeader e = Some (g, x) \<and> i = ucast g"
  shows "stores_ok d"
  unfolding stores_ok_def
  by (intro conjI allI impI; (elim conjE)?) (blast dest: assms)+

lemma stores_ok_same:
  "stores_ok d \<Longrightarrow> dl_pub d' = dl_pub d \<Longrightarrow> dl_node d' = dl_node d \<Longrightarrow> stores_ok d'"
  by (simp add: stores_ok_def)

lemma part_parts [simp]:
  "part_ID (storeTerm t pt) = part_ID pt" "part_ID (storeLeader l pt) = part_ID pt" "part_ID (setReady pt) = part_ID pt"
  "loadTerm (storeTerm t pt) = t" "loadTerm (storeLeader l pt) = loadTerm pt" "loadTerm (setReady pt) = loadTerm pt"
  "loadLeader (storeTerm t pt) = loadLeader pt" "loadLeader (storeLeader l pt) = l" "loadLeader (setReady pt) = loadLeader pt"
  "getReady (storeTerm t pt) = getReady pt" "getReady (storeLeader l pt) = getReady pt"
  by (simp_all add: go_defs)

lemma leader_ok_zero: "leader_event_ok (ev_Event e) \<Longrightarrow> eventLeader e = Some (g, 0, l) \<Longrightarrow> l = 0"
  by (cases "ev_Event e" rule: leader_event_ok.cases) (auto simp: eventLeader_def)

text \<open>
  A publisher's store in the partition of its own event: whatever other publishers have stored
  there stays.
\<close>

lemma stores_ok_change:
  fixes d :: "('p::len word, 's, 't) delivery"
  assumes wide: "32 \<le> LENGTH('p)" and ok: "stores_ok d" and pubs: "pubs_ok h d"
    and e: "working (dl_pub d p) = Some e" "eventLeader e = Some (g, t, l)"
    and new: "new = PTerm e \<and> f = storeTerm t \<or> new = PSending e \<and> f = storeLeader l \<and> dl_pub d p = PTerm e"
  shows "stores_ok (d\<lparr>dl_node := changePart g f (dl_node d), dl_pub := (dl_pub d)(p := new)\<rparr>)"
    (is "stores_ok ?d")
proof -
  note inj = ucast_group_inject [OF wide]
  have part: "\<exists>old. pr_partitions (dl_node d) i = Some old \<and> pt = (if i = ucast g then f old else old)"
    if "pr_partitions (dl_node ?d) i = Some pt" for i pt
    using that by (auto simp: changePart_parts split: if_splits)
  have part_at: "\<exists>old. pr_partitions (dl_node d) (ucast k) = Some old \<and> pt = (if k = g then f old else old)"
    if "pr_partitions (dl_node ?d) (ucast k) = Some pt" for k pt
    using part [OF that] by (simp add: inj)
  have f: "part_ID (f old) = part_ID old" "getReady (f old) = getReady old" for old :: "'p word Partition"
    using new by auto
  have other: "q = p" if "working (dl_pub d q) = Some e'" "eventLeader e' = Some (g, x)" for q e' x
    by (rule pubs_okD(4) [OF pubs that(1) e(1) that(2) e(2)])
  have zero: "l = 0" if "t = 0"
    using leader_ok_zero pubs_okD(5) [OF pubs e] e(2) that by blast
  show ?thesis
  proof (rule stores_okI)
    fix q g' t' l' pt and e' :: "'t Event"
    assume e': "eventLeader e' = Some (g', t', l')" and pt: "pr_partitions (dl_node ?d) (ucast g') = Some pt"
    obtain old where old: "pr_partitions (dl_node d) (ucast g') = Some old" "pt = (if g' = g then f old else old)"
      using part_at [OF pt] by blast
    show "loadTerm pt = t'" if q: "dl_pub ?d q = PTerm e'"
      by (cases "q = p") (use q new e' e(2) old other [of q e'] stores_okD(1) [OF ok _ e' old(1)] in auto)
    show "loadTerm pt = t' \<and> loadLeader pt = l'" if q: "dl_pub ?d q = PSending e'"
      by (cases "q = p") (use q new e' e(2) old other [of q e'] stores_okD(2) [OF ok _ e' old(1)]
          stores_okD(1) [OF ok _ e(2)] in auto)
  next
    fix q g' pt and e' :: "'t Event"
    assume q: "dl_pub ?d q = PSending e'" and r: "eventReady e' = Some g'"
      and pt: "pr_partitions (dl_node ?d) (ucast g') = Some pt"
    obtain old where old: "pr_partitions (dl_node d) (ucast g') = Some old" "pt = (if g' = g then f old else old)"
      using part_at [OF pt] by blast
    have "q \<noteq> p" using q new e(2) r by (auto dest: leader_not_ready)
    then show "getReady pt" using q stores_okD(3) [OF ok _ r old(1)] old(2) by (auto simp: f)
  next
    fix i pt
    assume "pr_partitions (dl_node ?d) i = Some pt"
    then obtain old where old: "pr_partitions (dl_node d) i = Some old" "pt = (if i = ucast g then f old else old)"
      using part by blast
    show "part_ID pt = i \<and> (\<exists>g :: GroupID. i = ucast g)" using stores_okD(4) [OF ok old(1)] old(2) by (auto simp: f)
    assume pt: "loadTerm pt = 0" "loadLeader pt \<noteq> 0"
    show "\<exists>q e' g' x. dl_pub ?d q = PTerm e' \<and> eventLeader e' = Some (g', x) \<and> i = ucast g'"
    proof (cases "i = ucast g")
      case True
      then have "new = PTerm e"
        using new pt old zero stores_okD(1) [OF ok _ e(2)] by auto
      with True e(2) show ?thesis by (intro exI [of _ p] exI [of _ e]) auto
    next
      case False
      with old pt stores_okD(5) [OF ok old(1)] obtain q e' g' x where "dl_pub d q = PTerm e'"
        "eventLeader e' = Some (g', x)" "i = ucast g'" by auto
      with False e show ?thesis by (intro exI [of _ q] exI [of _ e']) auto
    qed
  qed
qed

lemma ucast_group64: "(ucast (ucast (g :: GroupID) :: uint64) :: 'p::len word) = ucast g"
  by (rule ucast_up_ucast) (simp add: is_up)

lemma stores_ok_pub:
  fixes d :: "('p::len word, 's, 'c) delivery"
  assumes ok: "stores_ok d" and old: "\<And>e. dl_pub d p \<noteq> PTerm e"
    and new: "\<And>e. new \<noteq> PTerm e" "\<And>e. new = PSending e \<Longrightarrow> eventLeader e = None \<and> eventReady e = None"
  shows "stores_ok (d\<lparr>dl_pub := (dl_pub d)(p := new)\<rparr>)"
proof -
  have pub: "dl_pub (d\<lparr>dl_pub := (dl_pub d)(p := new)\<rparr>) q = PTerm e \<longleftrightarrow> dl_pub d q = PTerm e" for q e
    using old new(1) by auto
  have send: "dl_pub d q = PSending e" if "dl_pub (d\<lparr>dl_pub := (dl_pub d)(p := new)\<rparr>) q = PSending e"
    "eventLeader e \<noteq> None \<or> eventReady e \<noteq> None" for q e
    using that new(2) by (auto split: if_splits)
  have node: "dl_node (d\<lparr>dl_pub := (dl_pub d)(p := new)\<rparr>) = dl_node d" by simp
  show ?thesis
  proof (rule stores_okI, unfold pub node)
    fix q g t l pt and e :: "'c Event"
    assume e: "eventLeader e = Some (g, t, l)" and pt: "pr_partitions (dl_node d) (ucast g) = Some pt"
    show "loadTerm pt = t" if "dl_pub d q = PTerm e" by (rule stores_okD(1) [OF ok that e pt])
    show "loadTerm pt = t \<and> loadLeader pt = l" if "dl_pub (d\<lparr>dl_pub := (dl_pub d)(p := new)\<rparr>) q = PSending e"
      by (rule stores_okD(2) [OF ok send [OF that] e pt]) (simp add: e)
  next
    fix q e g pt
    assume "dl_pub (d\<lparr>dl_pub := (dl_pub d)(p := new)\<rparr>) q = PSending e" "eventReady e = Some g"
      "pr_partitions (dl_node d) (ucast g) = Some pt"
    then show "getReady pt" using stores_okD(3) [OF ok send] by simp
  qed (use stores_okD(4,5) [OF ok] in blast)+
qed

lemma stores_ok_ready:
  fixes d :: "('p::len word, 's, 't) delivery"
  assumes wide: "32 \<le> LENGTH('p)" and ok: "stores_ok d" and p: "dl_pub d p = PLocked e" and e: "eventReady e = Some g"
  shows "stores_ok (d\<lparr>dl_node := changePart g setReady (dl_node d), dl_pub := (dl_pub d)(p := PSending e)\<rparr>)"
    (is "stores_ok ?d")
proof -
  have part: "pr_partitions (dl_node ?d) i = Some pt \<longleftrightarrow>
      (\<exists>old. pr_partitions (dl_node d) i = Some old \<and> pt = (if i = ucast g then setReady old else old))" for i pt
    by (auto simp: changePart_parts)
  have pub: "dl_pub ?d q = PTerm e' \<longleftrightarrow> dl_pub d q = PTerm e'" for q e' using p by auto
  have send: "dl_pub ?d q = PSending e' \<longleftrightarrow> dl_pub d q = PSending e' \<or> q = p \<and> e' = e" for q e' using p by auto
  have l: "eventLeader e = None" using e leader_not_ready by (cases "eventLeader e") fastforce+
  show ?thesis
  proof (rule stores_okI, unfold pub part send)
    fix q g' t l pt and e' :: "'t Event"
    assume e': "eventLeader e' = Some (g', t, l)"
      and pt: "\<exists>old. pr_partitions (dl_node d) (ucast g') = Some old \<and> pt = (if ucast g' = (ucast g :: 'p word) then setReady old else old)"
    then obtain old where old: "pr_partitions (dl_node d) (ucast g') = Some old" "loadTerm pt = loadTerm old"
      "loadLeader pt = loadLeader old" by auto
    show "loadTerm pt = t" if "dl_pub d q = PTerm e'" using stores_okD(1) [OF ok that e' old(1)] old(2) by simp
    show "loadTerm pt = t \<and> loadLeader pt = l" if "dl_pub d q = PSending e' \<or> q = p \<and> e' = e"
      using stores_okD(2) [OF ok _ e' old(1)] that e' l old(2,3) by auto
  next
    fix q e' g' pt
    assume "dl_pub d q = PSending e' \<or> q = p \<and> e' = e" "eventReady e' = Some g'"
      "\<exists>old. pr_partitions (dl_node d) (ucast g') = Some old \<and> pt = (if ucast g' = (ucast g :: 'p word) then setReady old else old)"
    then consider "dl_pub d q = PSending e'" "eventReady e' = Some g'" "pr_partitions (dl_node d) (ucast g') = Some pt"
      | old where "pt = setReady old" using e by (auto simp: ucast_group_inject [OF wide] split: if_splits)
    then show "getReady pt"
    proof cases
      case 1
      then show ?thesis by (rule stores_okD(3) [OF ok])
    qed simp
  next
    fix i pt
    assume "\<exists>old. pr_partitions (dl_node d) i = Some old \<and> pt = (if i = ucast g then setReady old else old)"
    then obtain old where old: "pr_partitions (dl_node d) i = Some old" "part_ID pt = part_ID old"
      "loadTerm pt = loadTerm old" "loadLeader pt = loadLeader old" by auto
    show "part_ID pt = i \<and> (\<exists>g :: GroupID. i = ucast g)" using stores_okD(4) [OF ok old(1)] old(2) by simp
    assume "loadTerm pt = 0" "loadLeader pt \<noteq> 0"
    then show "\<exists>p e g x. dl_pub d p = PTerm e \<and> eventLeader e = Some (g, x) \<and> i = ucast g"
      using stores_okD(5) [OF ok old(1)] old(3,4) by simp
  qed
qed

lemma step_stores_ok:
  fixes d :: "('p::len word, 's, 't) delivery"
  assumes "delivery_step zt h d h' d'" and wide: "32 \<le> LENGTH('p)" and pubs: "pubs_ok h d" and ok: "stores_ok d"
  shows "stores_ok d'"
  using assms(1)
proof cases
  case (start g nodeID)
  have idle: "dl_pub d p = PIdle" for p using start(3) pubs_okD(1) [OF pubs, of p] by (simp add: unread_def)
  have parts: "pr_partitions (dl_node d') i = Some pt \<longleftrightarrow>
      (if i = ucast g then pt = newPartition (ucast g) (ucast nodeID) else pr_partitions (dl_node d) i = Some pt)" for i pt
    by (auto simp: start(2) newPartitionMachine_def newPartition_def Let_def ucast_group64)
  have pub: "dl_pub d' = dl_pub d" by (simp add: start(2))
  have old: "part_ID pt = i \<and> (\<exists>g :: GroupID. i = ucast g)" "\<not> (loadTerm pt = 0 \<and> loadLeader pt \<noteq> 0)"
    if "pr_partitions (dl_node d) i = Some pt" for i pt
    using stores_okD(4,5) [OF ok that] by (auto simp: idle)
  show ?thesis
    unfolding stores_ok_def pub idle
    using old by (auto simp: parts newPartition_def loadLeader_def loadTerm_def split: if_splits)
next
  case (store_term p e g t l)
  show ?thesis unfolding store_term(2)
    by (rule stores_ok_change [OF wide ok pubs _ store_term(4)]) (simp_all add: store_term(3))
next
  case (store_leader p e g t l)
  show ?thesis unfolding store_leader(2)
    by (rule stores_ok_change [OF wide ok pubs _ store_leader(4)]) (simp_all add: store_leader(3))
next
  case (store_ready p e g)
  show ?thesis unfolding store_ready(2) by (rule stores_ok_ready [OF wide ok store_ready(3,4)])
next
  case (publish_rlock p e)
  show ?thesis unfolding publish_rlock(2) by (rule stores_ok_pub [OF ok]) (simp_all add: publish_rlock(3))
next
  case (store_nothing p e)
  show ?thesis unfolding store_nothing(2)
    by (rule stores_ok_pub [OF ok]) (simp_all add: store_nothing(3), use store_nothing(4,5) in auto)
next
  case (publish_unlock p e)
  show ?thesis unfolding publish_unlock(2) by (rule stores_ok_pub [OF ok]) (simp_all add: publish_unlock(3))
qed (use stores_ok_same [OF ok] ok in simp_all)

section \<open>What a stream is replayed\<close>

definition replays_ok :: "hubState \<Rightarrow> ('p::len word, 's, 't) delivery \<Rightarrow> bool" where
  "replays_ok h d \<longleftrightarrow>
     (\<forall>c. (notYet (hub_watch h c) \<longrightarrow> dl_sent d c = [] \<and> dl_replay d c = []) \<and>
        (\<forall>i k. hub_watch h c = WReplaying i k \<longrightarrow> k = length (dl_replay d c)) \<and>
        ((\<forall>i k. hub_watch h c \<noteq> WReplaying i k) \<longrightarrow> dl_replay d c = []))"

lemma replays_ok_same:
  "replays_ok h d \<Longrightarrow> hub_watch h' = hub_watch h \<Longrightarrow> dl_sent d' = dl_sent d \<Longrightarrow> dl_replay d' = dl_replay d \<Longrightarrow>
   replays_ok h' d'"
  by (simp add: replays_ok_def)

lemma replays_ok_quiet:
  assumes ok: "replays_ok h d" and q: "quiet h h'"
  shows "replays_ok h' d"
  unfolding replays_ok_def
proof (intro allI conjI impI)
  fix c
  have at: "notYet (hub_watch h c) \<Longrightarrow> dl_sent d c = [] \<and> dl_replay d c = []"
    "\<And>i k. hub_watch h c = WReplaying i k \<Longrightarrow> length (dl_replay d c) = k"
    "\<forall>i k. hub_watch h c \<noteq> WReplaying i k \<Longrightarrow> dl_replay d c = []"
    using ok unfolding replays_ok_def by blast+
  show "dl_sent d c = []" "dl_replay d c = []" if "notYet (hub_watch h' c)"
  proof -
    have "notYet (hub_watch h c)" by (rule quietD(4) [OF q that])
    with at(1) show "dl_sent d c = []" "dl_replay d c = []" by simp_all
  qed
  show "k = length (dl_replay d c)" if "hub_watch h' c = WReplaying i k" for i k
  proof -
    have "hub_watch h c = WReplaying i k" by (rule quietD(5) [OF q that])
    from at(2) [OF this] show ?thesis by simp
  qed
  assume no: "\<forall>i k. hub_watch h' c \<noteq> WReplaying i k"
  show "dl_replay d c = []"
  proof (cases "\<exists>i k. hub_watch h c = WReplaying i k")
    case True
    then obtain i k where here: "hub_watch h c = WReplaying i k" by blast
    then have "k = 0" using no quietD(6) [OF q] by (cases k) blast+
    with at(2) [OF here] show ?thesis by simp
  qed (use at(3) in blast)
qed

lemma step_replays_ok:
  assumes "delivery_step zt h d h' d'" and hub: "hub_ok h" and ok: "replays_ok h d"
  shows "replays_ok h' d'"
  using assms(1)
proof cases
  case (publish_send p e R k c)
  then have "registeredAs (hub_watch h c) = Some k" using hub_okD(3) [OF hub] by simp
  then have "\<not> notYet (hub_watch h c)" by (cases "hub_watch h c") simp_all
  then show ?thesis using ok unfolding publish_send(1,2) by (auto simp: replays_ok_def)
next
  case (watch_lock c i order q)
  then show ?thesis using ok unfolding watch_lock(1,2) by (auto simp: replays_ok_def)
next
  case (watch_replay c i k e q)
  moreover have "Suc k = length (dl_replay d c)" using ok watch_replay(3) by (auto simp: replays_ok_def)
  ultimately show ?thesis using ok unfolding watch_replay(1,2) by (auto simp: replays_ok_def)
next
  case other
  show ?thesis unfolding other(1) by (rule replays_ok_quiet [OF ok other_quiet [OF hub other(2-5)]])
qed (simp_all add: replays_ok_same [OF ok])

section \<open>What a stream was told\<close>

definition told :: "('p::len word, 's, 't) delivery \<Rightarrow> nat \<Rightarrow> GroupID \<Rightarrow> groupView" where
  "told d c = viewOf (dl_sent d c @ dl_replay d c) (\<lambda>_. zeroView)"

text \<open>The event a publisher works on is still to be sent to the stream under a number.\<close>

definition pending :: "hubState \<Rightarrow> ('p::len word, 's, 't) delivery \<Rightarrow> int \<Rightarrow> nat \<Rightarrow> 't Event \<Rightarrow> bool" where
  "pending h d i p e \<longleftrightarrow> dl_pub d p = PLocked e \<or> dl_pub d p = PTerm e \<or>
     dl_pub d p = PSending e \<and> (\<exists>R. hub_publishing h p = Some R \<and> i \<in> R)"

definition awaits_leader :: "hubState \<Rightarrow> ('p::len word, 's, 't) delivery \<Rightarrow> int \<Rightarrow> GroupID \<Rightarrow> bool" where
  "awaits_leader h d i g \<longleftrightarrow> (\<exists>p e x. pending h d i p e \<and> eventLeader e = Some (g, x))"

definition awaits_ready :: "hubState \<Rightarrow> ('p::len word, 's, 't) delivery \<Rightarrow> int \<Rightarrow> GroupID \<Rightarrow> bool" where
  "awaits_ready h d i g \<longleftrightarrow> (\<exists>p e. pending h d i p e \<and> eventReady e = Some g)"

definition leader_told :: "groupView \<Rightarrow> 'p::len word Partition \<Rightarrow> bool" where
  "leader_told v pt \<longleftrightarrow> gv_term v = loadTerm pt \<and> gv_leader v = loadLeader pt"

definition told_ok :: "hubState \<Rightarrow> ('p::len word, 's, 't) delivery \<Rightarrow> bool" where
  "told_ok h d \<longleftrightarrow>
     (\<forall>c g. pr_partitions (dl_node d) (ucast g) = None \<longrightarrow> told d c g = zeroView) \<and>
     (\<forall>c i g pt. hub_watchers h i = Some c \<and> pr_partitions (dl_node d) (ucast g) = Some pt \<longrightarrow>
        (awaits_leader h d i g \<or> leader_told (told d c g) pt) \<and>
        (awaits_ready h d i g \<or> gv_ready (told d c g) = getReady pt))"

lemma told_okD:
  assumes "told_ok h d"
  shows "pr_partitions (dl_node d) (ucast g) = None \<Longrightarrow> told d c g = zeroView"
    and "hub_watchers h i = Some c \<Longrightarrow> pr_partitions (dl_node d) (ucast g) = Some pt \<Longrightarrow>
      awaits_leader h d i g \<or> leader_told (told d c g) pt"
    and "hub_watchers h i = Some c \<Longrightarrow> pr_partitions (dl_node d) (ucast g) = Some pt \<Longrightarrow>
      awaits_ready h d i g \<or> gv_ready (told d c g) = getReady pt"
  using assms unfolding told_ok_def by blast+

lemma told_okI:
  assumes "\<And>c g. pr_partitions (dl_node d) (ucast g) = None \<Longrightarrow> told d c g = zeroView"
    and "\<And>c i g pt. hub_watchers h i = Some c \<Longrightarrow> pr_partitions (dl_node d) (ucast g) = Some pt \<Longrightarrow>
      awaits_leader h d i g \<or> leader_told (told d c g) pt"
    and "\<And>c i g pt. hub_watchers h i = Some c \<Longrightarrow> pr_partitions (dl_node d) (ucast g) = Some pt \<Longrightarrow>
      awaits_ready h d i g \<or> gv_ready (told d c g) = getReady pt"
  shows "told_ok h d"
  unfolding told_ok_def using assms by blast

text \<open>Steps that send nothing and store nothing, and make no publisher forget a stream.\<close>

lemma told_ok_weaken:
  assumes ok: "told_ok h d" and node: "dl_node d' = dl_node d" and told: "\<And>c. told d' c = told d c"
    and map: "hub_watchers h' \<subseteq>\<^sub>m hub_watchers h"
    and pend: "\<And>i p e. pending h d i p e \<Longrightarrow> eventLeader e \<noteq> None \<or> eventReady e \<noteq> None \<Longrightarrow> pending h' d' i p e"
  shows "told_ok h' d'"
proof (rule told_okI, unfold node)
  show "told d' c g = zeroView" if "pr_partitions (dl_node d) (ucast g) = None" for c and g :: GroupID
    using told_okD(1) [OF ok that] by (simp add: told)
  fix c i pt and g :: GroupID
  assume i: "hub_watchers h' i = Some c" and pt: "pr_partitions (dl_node d) (ucast g) = Some pt"
  have "hub_watchers h i = Some c" using i map by (auto simp: map_le_def dom_def)
  note old = told_okD(2,3) [OF ok this pt]
  show "awaits_leader h' d' i g \<or> leader_told (told d' c g) pt"
    using old(1) pend unfolding told awaits_leader_def by blast
  show "awaits_ready h' d' i g \<or> gv_ready (told d' c g) = getReady pt"
    using old(2) pend unfolding told awaits_ready_def by blast
qed

text \<open>A store of a publisher whose event is still to be sent to everyone.\<close>

lemma told_ok_store:
  fixes d :: "('p::len word, 's, 't) delivery"
  assumes wide: "32 \<le> LENGTH('p)" and ok: "told_ok h d" and pubs: "pubs_ok h d"
    and old: "dl_pub d p = PLocked e \<or> dl_pub d p = PTerm e"
    and new: "new = PTerm e \<or> new = PSending e"
    and f: "(\<exists>x. eventLeader e = Some (g, x)) \<and> (\<forall>pt. getReady (f pt) = getReady pt) \<or>
      eventReady e = Some g \<and> (\<forall>pt. loadTerm (f pt) = loadTerm pt \<and> loadLeader (f pt) = loadLeader pt)"
  shows "told_ok h (d\<lparr>dl_node := changePart g f (dl_node d), dl_pub := (dl_pub d)(p := new)\<rparr>)" (is "told_ok h ?d")
proof (rule told_okI)
  have R: "hub_publishing h p = Some (dom (hub_watchers h))" using pubs_okD(2) [OF pubs old] .
  have told: "told ?d c = told d c" for c by (simp add: told_def)
  have new_pend: "pending h ?d i p e" if "hub_watchers h i = Some c" for i c
    using new R that by (auto simp: pending_def)
  have pend: "pending h ?d i q e'" if "pending h d i q e'" "hub_watchers h i = Some c" for i q e' c
  proof (cases "q = p")
    case True
    then have "e' = e" using that(1) old by (auto simp: pending_def)
    with True new_pend [OF that(2)] show ?thesis by simp
  next
    case False
    with that(1) show ?thesis by (simp add: pending_def)
  qed
  show "told ?d c h' = zeroView" if "pr_partitions (dl_node ?d) (ucast h') = None" for c and h' :: GroupID
    using told_okD(1) [OF ok] that by (simp add: told changePart_none)
  fix c i pt and h' :: GroupID
  assume i: "hub_watchers h i = Some c" and "pr_partitions (dl_node ?d) (ucast h') = Some pt"
  then obtain pt0 where pt0: "pr_partitions (dl_node d) (ucast h') = Some pt0" "pt = (if h' = g then f pt0 else pt0)"
    by (auto simp: changePart_parts ucast_group_inject [OF wide] split: if_splits)
  note was = told_okD(2,3) [OF ok i pt0(1)]
  show "awaits_leader h ?d i h' \<or> leader_told (told ?d c h') pt"
  proof (cases "h' = g \<and> (\<exists>x. eventLeader e = Some (g, x))")
    case True
    then show ?thesis using new_pend [OF i] by (auto simp: awaits_leader_def)
  next
    case False
    then have "leader_told v pt = leader_told v pt0" for v using pt0(2) f by (auto simp: leader_told_def)
    then show ?thesis using was(1) pend [OF _ i] unfolding told awaits_leader_def by blast
  qed
  show "awaits_ready h ?d i h' \<or> gv_ready (told ?d c h') = getReady pt"
  proof (cases "h' = g \<and> eventReady e = Some g")
    case True
    then show ?thesis using new_pend [OF i] by (auto simp: awaits_ready_def)
  next
    case False
    then have "getReady pt = getReady pt0" using pt0(2) f by auto
    then show ?thesis using was(2) pend [OF _ i] unfolding told awaits_ready_def by auto
  qed
qed

lemma told_ok_start:
  fixes d :: "('p::len word, 's, 't) delivery"
  assumes wide: "32 \<le> LENGTH('p)" and ok: "told_ok h d"
    and none: "pr_partitions (dl_node d) (ucast (g :: GroupID)) = None"
  shows "told_ok h (d\<lparr>dl_node := snd (newPartitionMachine () (ucast g) nodeID (dl_node d))\<rparr>)" (is "told_ok h ?d")
proof (rule told_okI)
  have told: "told ?d c = told d c" for c by (simp add: told_def)
  have awaits: "awaits_leader h ?d = awaits_leader h d" "awaits_ready h ?d = awaits_ready h d"
    by (simp_all add: fun_eq_iff awaits_leader_def awaits_ready_def pending_def)
  have parts: "pr_partitions (dl_node ?d) i = (if i = ucast g then Some (newPartition (ucast g) (ucast nodeID))
      else pr_partitions (dl_node d) i)" for i
    by (simp add: newPartitionMachine_def newPartition_def Let_def ucast_group64)
  show "told ?d c k = zeroView" if "pr_partitions (dl_node ?d) (ucast k) = None" for c and k :: GroupID
    using told_okD(1) [OF ok] that [unfolded parts] by (simp add: told split: if_splits)
  fix c i pt and k :: GroupID
  assume i: "hub_watchers h i = Some c" and pt: "pr_partitions (dl_node ?d) (ucast k) = Some pt"
  have "(awaits_leader h d i k \<or> leader_told (told d c k) pt) \<and> (awaits_ready h d i k \<or> gv_ready (told d c k) = getReady pt)"
  proof (cases "k = g")
    case True
    then have "told d c k = zeroView" "pt = newPartition (ucast g) (ucast nodeID)"
      using told_okD(1) [OF ok none] pt [unfolded parts] by simp_all
    then show ?thesis by (simp add: zeroView_def leader_told_def go_defs)
  next
    case False
    then have "pr_partitions (dl_node d) (ucast k) = Some pt"
      using pt [unfolded parts] by (simp add: ucast_group_inject [OF wide])
    then show ?thesis using told_okD(2,3) [OF ok i] by blast
  qed
  then show "awaits_leader h ?d i k \<or> leader_told (told ?d c k) pt"
    and "awaits_ready h ?d i k \<or> gv_ready (told ?d c k) = getReady pt"
    unfolding told awaits by blast+
qed

lemma viewEvent_other:
  "(\<And>x. eventLeader e \<noteq> Some (g, x)) \<Longrightarrow> gv_term (viewEvent (ev_Event e) v g) = gv_term (v g) \<and>
     gv_leader (viewEvent (ev_Event e) v g) = gv_leader (v g)"
  "eventReady e \<noteq> Some g \<Longrightarrow> gv_ready (viewEvent (ev_Event e) v g) = gv_ready (v g)"
  by (cases "(ev_Event e, v)" rule: viewEvent.cases; auto simp: eventLeader_def eventReady_def Let_def)+

lemma told_send:
  assumes "dl_replay d c = []"
  shows "told (d\<lparr>dl_sent := (dl_sent d)(c := dl_sent d c @ [e])\<rparr>) c' =
    (if c' = c then viewEvent (ev_Event e) (told d c) else told d c')"
  using assms by (simp add: told_def viewOf_def)

lemma told_ok_send:
  fixes d :: "('p::len word, 's, 't) delivery"
  assumes ok: "told_ok h d" and hub: "hub_ok h" and pubs: "pubs_ok h d" and stores: "stores_ok d"
    and replays: "replays_ok h d" and p: "dl_pub d p = PSending e" "hub_publishing h p = Some R"
    and k: "k \<in> R" "hub_watchers h k = Some c"
    and h': "hub_watchers h' = hub_watchers h" "hub_publishing h' = (hub_publishing h)(p := Some (R - {k}))"
  shows "told_ok h' (d\<lparr>dl_sent := (dl_sent d)(c := dl_sent d c @ [e])\<rparr>)" (is "told_ok h' ?d")
proof (rule told_okI)
  have "unwritten h" using hub_okD(4) [OF hub p(2)] by simp
  then have "hub_watch h c \<noteq> WReplaying i n" for i n by (auto simp: unwritten_def dest: spec [of _ c])
  then have "dl_replay d c = []" using replays by (simp add: replays_ok_def)
  note told = told_send [OF this]
  have w: "working (dl_pub d p) = Some e" using p(1) by simp
  have pend: "pending h' ?d i q e'" if "pending h d i q e'" "q \<noteq> p \<or> i \<noteq> k" for i q e'
    using that p h'(2) by (auto simp: pending_def)
  have same: "q \<noteq> p" if "pending h d i q e'" "e' \<noteq> e" for i q e'
    using that p(1) by (auto simp: pending_def)
  show "told ?d c' g = zeroView" if none: "pr_partitions (dl_node ?d) (ucast g) = None" for c' and g :: GroupID
  proof -
    have "told d c'' g = zeroView" for c'' using told_okD(1) [OF ok] none by simp
    moreover have "eventLeader e \<noteq> Some (g, x)" for x using pubs_okD(5) [OF pubs w, of g x] none by auto
    moreover have "eventReady e \<noteq> Some g" using pubs_okD(6) [OF pubs w, of g] none by auto
    ultimately show ?thesis
      using viewEvent_other [of e g "told d c"] by (cases "viewEvent (ev_Event e) (told d c) g") (auto simp: told zeroView_def)
  qed
  fix c' i pt and g :: GroupID
  assume "hub_watchers h' i = Some c'" and "pr_partitions (dl_node ?d) (ucast g) = Some pt"
  then have i: "hub_watchers h i = Some c'" and pt: "pr_partitions (dl_node d) (ucast g) = Some pt" using h' by simp_all
  have c': "c' = c \<longleftrightarrow> i = k"
    using hub_okD(3) [OF hub i] hub_okD(3) [OF hub k(2)] i k(2) by auto
  note was = told_okD(2,3) [OF ok i pt]
  show "awaits_leader h' ?d i g \<or> leader_told (told ?d c' g) pt"
  proof (cases "i = k \<and> (\<exists>x. eventLeader e = Some (g, x))")
    case True
    then obtain t l where e: "eventLeader e = Some (g, t, l)" by auto
    with True c' stores_okD(2) [OF stores p(1) e pt] show ?thesis
      by (simp add: told leader_told_def viewEvent_cases(1))
  next
    case False
    then have "leader_told (told ?d c' g) pt \<longleftrightarrow> leader_told (told d c' g) pt"
      using c' viewEvent_other(1) [of e g "told d c"] by (auto simp: told leader_told_def)
    moreover have "awaits_leader h' ?d i g" if "awaits_leader h d i g"
      using that False pend same unfolding awaits_leader_def by metis
    ultimately show ?thesis using was(1) by blast
  qed
  show "awaits_ready h' ?d i g \<or> gv_ready (told ?d c' g) = getReady pt"
  proof (cases "i = k \<and> eventReady e = Some g")
    case True
    with c' stores_okD(3) [OF stores p(1) _ pt] show ?thesis by (simp add: told viewEvent_cases(2))
  next
    case False
    then have "gv_ready (told ?d c' g) = gv_ready (told d c' g)"
      using c' viewEvent_other(2) [of e g "told d c"] by (auto simp: told)
    moreover have "awaits_ready h' ?d i g" if "awaits_ready h d i g"
      using that False pend same unfolding awaits_ready_def by metis
    ultimately show ?thesis using was(2) by auto
  qed
qed

lemma viewOf_replay_none:
  fixes n :: "('p::len word, 's, 't) Protocol"
  assumes wide: "32 \<le> LENGTH('p)" and ok: "partitions_ok n" and none: "pr_partitions n (ucast (g :: GroupID)) = None"
  shows "viewOf (concat (map (replayPartition zt) (Partitions order n))) v g = v g"
proof -
  have part: "viewOf (replayPartition zt p) v g = v g" if "p \<in> set (Partitions order n)" for p v
  proof -
    obtain i where i: "pr_partitions n i = Some p"
      using \<open>p \<in> set (Partitions order n)\<close> by (auto simp: Partitions_def map_filter_def)
    with ok obtain k :: GroupID where "part_ID p = ucast k" "i = ucast k"
      unfolding partitions_ok_def partition_ok_def by blast
    with i none have "(ucast (part_ID p) :: GroupID) \<noteq> g"
      using wide by (auto simp: ucast_down_ucast_id is_down)
    then show ?thesis by (simp add: replayPartition_def viewOf_def Let_def split_beta)
  qed
  have "viewOf (concat (map (replayPartition zt) ps)) v g = v g" if "set ps \<subseteq> set (Partitions order n)" for ps v
    using that by (induction ps arbitrary: v) (simp_all add: viewOf_append part, simp add: viewOf_def)
  then show ?thesis by blast
qed

lemma told_ok_lock:
  fixes d :: "('p::len word, 's, 't) delivery"
  assumes wide: "32 \<le> LENGTH('p)" and ok: "told_ok h d" and hub: "hub_ok h" and pubs: "pubs_ok h d"
    and stores: "stores_ok d" and replays: "replays_ok h d"
    and c: "hub_watch h c = WLocking i" and idle: "unread h"
    and order: "distinct order" "set order = dom (pr_partitions (dl_node d))"
    and q: "q = concat (map (replayPartition zt) (Partitions order (dl_node d)))"
    and h': "hub_watchers h' = (hub_watchers h)(i \<mapsto> c)" "hub_publishing h' = hub_publishing h"
  shows "told_ok h' (d\<lparr>dl_replay := (dl_replay d)(c := q)\<rparr>)" (is "told_ok h' ?d")
proof (rule told_okI)
  have none: "dl_pub d p = PIdle" for p using idle pubs_okD(1) [OF pubs, of p] by (simp add: unread_def)
  have awaits: "\<not> awaits_leader h d k g" "\<not> awaits_ready h d k g" for k g
    by (simp_all add: awaits_leader_def awaits_ready_def pending_def none)
  have "dl_sent d c = []" using replays c by (simp add: replays_ok_def)
  then have told: "told ?d c' = (if c' = c then viewOf q (\<lambda>_. zeroView) else told d c')" for c'
    by (simp add: told_def)
  have parts: "partitions_ok (dl_node d)"
    using stores_okD(4,5) [OF stores] by (auto simp: partitions_ok_def partition_ok_def none)
  show "told ?d c' g = zeroView" if "pr_partitions (dl_node ?d) (ucast g) = None" for c' and g :: GroupID
    using that told_okD(1) [OF ok] unfolding told by (simp add: q viewOf_replay_none [OF wide parts])
  fix c' j pt and g :: GroupID
  assume j: "hub_watchers h' j = Some c'" and "pr_partitions (dl_node ?d) (ucast g) = Some pt"
  then have pt: "pr_partitions (dl_node d) (ucast g) = Some pt" by simp
  have "leader_told (told ?d c' g) pt \<and> gv_ready (told ?d c' g) = getReady pt"
  proof (cases "c' = c")
    case True
    have "viewOf q (\<lambda>_. zeroView) g = partitionView pt"
      unfolding q by (rule viewOf_replay [OF wide parts order(1) _ pt]) (use order(2) pt in auto)
    with True show ?thesis by (simp add: told leader_told_def partitionView_def)
  next
    case False
    then have "hub_watchers h j = Some c'" using j h'(1) by (auto split: if_splits)
    from told_okD(2,3) [OF ok this pt] False show ?thesis by (simp add: told awaits)
  qed
  then show "awaits_leader h' ?d j g \<or> leader_told (told ?d c' g) pt"
    and "awaits_ready h' ?d j g \<or> gv_ready (told ?d c' g) = getReady pt" by simp_all
qed

lemma step_told_ok:
  fixes d :: "('p::len word, 's, 't) delivery"
  assumes "delivery_step zt h d h' d'" and wide: "32 \<le> LENGTH('p)" and hub: "hub_ok h" and pubs: "pubs_ok h d"
    and stores: "stores_ok d" and replays: "replays_ok h d" and ok: "told_ok h d"
  shows "told_ok h' d'"
  using assms(1)
proof cases
  case (start g nodeID)
  show ?thesis unfolding start(1,2) by (rule told_ok_start [OF wide ok start(5)])
next
  case (publish_rlock p e)
  show ?thesis
    by (rule told_ok_weaken [OF ok]) (use publish_rlock in \<open>auto simp: told_def pending_def\<close>)
next
  case (store_term p e g t l)
  show ?thesis unfolding store_term(1,2)
    by (rule told_ok_store [OF wide ok pubs]) (use store_term in auto)
next
  case (store_leader p e g t l)
  show ?thesis unfolding store_leader(1,2)
    by (rule told_ok_store [OF wide ok pubs]) (use store_leader in auto)
next
  case (store_ready p e g)
  show ?thesis unfolding store_ready(1,2)
    by (rule told_ok_store [OF wide ok pubs]) (use store_ready in auto)
next
  case (store_nothing p e)
  show ?thesis
    by (rule told_ok_weaken [OF ok]) (use store_nothing in \<open>auto simp: told_def pending_def\<close>)
next
  case (publish_send p e R k c)
  have open': "\<not> hub_closed h c" by (rule hub_ok_send [OF hub]) (use publish_send(6) in blast)
  show ?thesis unfolding publish_send(2)
    by (rule told_ok_send [OF ok hub pubs stores replays publish_send(3-6)])
      (simp_all add: publish_send(1))
next
  case (publish_unlock p e)
  show ?thesis
    by (rule told_ok_weaken [OF ok]) (use publish_unlock in \<open>auto simp: told_def pending_def\<close>)
next
  case (watch_lock c i order q)
  show ?thesis unfolding watch_lock(2)
    by (rule told_ok_lock [OF wide ok hub pubs stores replays watch_lock(3,4,6,7,8)]) (simp_all add: watch_lock(1))
next
  case (watch_replay c i k e q)
  show ?thesis
    by (rule told_ok_weaken [OF ok])
      (simp_all add: watch_replay(1,2) told_def pending_def, use watch_replay(4) in simp)
next
  case other
  then show ?thesis
    by (intro told_ok_weaken [OF ok]) (simp_all add: pending_def)
qed

section \<open>Properties\<close>

lemma delivery_reachable_ok:
  fixes n :: "('p::len word, 's, 't) Protocol"
  assumes "delivery_reachable zt n h d" and wide: "32 \<le> LENGTH('p)"
  shows "hub_ok h \<and> pubs_ok h d \<and> stores_ok d \<and> replays_ok h d \<and> told_ok h d"
  using assms(1)
proof (induction rule: delivery_reachable.induct)
  case delivery_start
  have "hub_ok hub_init" by (rule hub_reachable_ok [OF hub_start])
  then show ?case
    by (simp add: pubs_ok_def stores_ok_def replays_ok_def told_ok_def hub_init_def delivery_init_def told_def viewOf_def)
next
  case (delivery_next h d h' d')
  then have ok: "hub_ok h" "pubs_ok h d" "stores_ok d" "replays_ok h d" "told_ok h d" by blast+
  have "hub_ok h'"
    by (rule hub_reachable_ok [OF delivery_reachable_hub])
      (rule delivery_reachable.delivery_next [OF delivery_next.hyps])
  with step_pubs_ok [OF delivery_next.hyps(2) ok(1,2)]
    step_stores_ok [OF delivery_next.hyps(2) wide ok(2,3)]
    step_replays_ok [OF delivery_next.hyps(2) ok(1,4)]
    step_told_ok [OF delivery_next.hyps(2) wide ok]
  show ?case by blast
qed

text \<open>
  C14. Watching is sound under concurrency: whatever publishers, streams and clients do at the same
  time, at any moment a stream that is registered and has been replayed to has been sent, for every
  partition of the node, events that amount to the partition's term, leader and readiness, unless a
  publisher still holds an event about that partition's leader or readiness that it has not yet sent
  to this stream. So nothing is lost between the replay and the first event, no replay shows a
  half-stored leader, and once no publisher works all streams agree with the node.
\<close>

theorem streams_agree_with_the_node:
  fixes n :: "('p::len word, 's, 't) Protocol"
  assumes "32 \<le> LENGTH('p)" and "delivery_reachable zt n h d"
    and "hub_watchers h i = Some c" and "dl_replay d c = []"
    and "pr_partitions (dl_node d) (ucast g) = Some p"
    and "\<not> awaits_leader h d i g" and "\<not> awaits_ready h d i g"
  shows "viewOf (dl_sent d c) (\<lambda>_. zeroView) g = partitionView p"
proof -
  have "told_ok h d" using delivery_reachable_ok [OF assms(2,1)] by blast
  from told_okD(2,3) [OF this assms(3,5)] assms(4,6,7) show ?thesis
    by (cases "viewOf (dl_sent d c) (\<lambda>_. zeroView) g")
      (simp add: told_def leader_told_def partitionView_def)
qed

text \<open>A run: a member starts, a leader is published, and a stream opens and is replayed to.\<close>

definition runEvent :: "nat Event" where
  "runEvent = \<lparr>ev_Timestamp = 5, ev_Event = Some (Event_LeaderUpdated
     \<lparr>lu_MemberEvent = \<lparr>me_GroupID = 1, me_MemberID = 1\<rparr>, lu_Term = 3, lu_Leader = 2\<rparr>)\<rparr>"

definition runHub :: "int \<Rightarrow> (int \<rightharpoonup> nat) \<Rightarrow> nat \<Rightarrow> watchPC \<Rightarrow> int set option \<Rightarrow> hubState" where
  "runHub i m b w R = hub_init\<lparr>hub_watcherID := i, hub_watchers := m, hub_buffered := (\<lambda>_. 0)(0 := b),
     hub_watch := (\<lambda>_. WNew)(0 := w), hub_publishing := (\<lambda>_. None)(0 := R)\<rparr>"

definition runNode :: "(32 word Partition \<Rightarrow> 32 word Partition) \<Rightarrow> nat publisherPC \<Rightarrow> nat Event list \<Rightarrow> nat Event list \<Rightarrow>
    (32 word, nat, nat) delivery" where
  "runNode f pc sent replay =
     \<lparr>dl_node = sampleProtocol\<lparr>pr_partitions := [1 \<mapsto> f (newPartition 1 1)],
        pr_contexts := (pr_contexts sampleProtocol)(1 \<mapsto> newContext)\<rparr>,
      dl_pub = (\<lambda>_. PIdle)(0 := pc), dl_sent = (\<lambda>_. [])(0 := sent), dl_replay = (\<lambda>_. [])(0 := replay)\<rparr>"

lemmas run_defs = runHub_def hub_init_def unread_def unwritten_def

lemma run_eventLeader: "eventLeader runEvent = Some (1, 3, 2)"
  by (simp add: eventLeader_def runEvent_def)

lemma run_started: "delivery_reachable (0 :: nat) sampleProtocol (runHub 0 Map.empty 0 WNew None) (runNode (\<lambda>p. p) PIdle [] [])"
proof -
  let ?d = "delivery_init sampleProtocol :: (32 word, nat, nat) delivery"
  have hub: "hub_init = runHub 0 Map.empty 0 WNew None" by (auto simp: runHub_def hub_init_def)
  have "delivery_step (0 :: nat) hub_init ?d hub_init
      (?d\<lparr>dl_node := snd (newPartitionMachine () (ucast (1 :: GroupID)) 1 (dl_node ?d))\<rparr>)"
    by (rule delivery_step.start) (simp_all add: unread_def unwritten_def hub_init_def delivery_init_def)
  moreover have "?d\<lparr>dl_node := snd (newPartitionMachine () (ucast (1 :: GroupID)) 1 (dl_node ?d))\<rparr> = runNode (\<lambda>p. p) PIdle [] []"
    by (simp add: runNode_def delivery_init_def newPartitionMachine_def Let_def newPartition_def fun_upd_idem)
  ultimately show ?thesis
    using delivery_next [OF delivery_start, of 0 sampleProtocol] unfolding hub by metis
qed

lemma run_published:
  "delivery_reachable (0 :: nat) sampleProtocol (runHub 0 Map.empty 0 WNew None) (runNode (setLeader 3 2) PIdle [] [])"
proof -
  let ?h = "\<lambda>R. runHub 0 Map.empty 0 WNew R"
  have s1: "delivery_step 0 (?h None) (runNode (\<lambda>p. p) PIdle [] []) (?h (Some {})) (runNode (\<lambda>p. p) (PLocked runEvent) [] [])"
    using publish_rlock [of "runNode (\<lambda>p. p) PIdle [] []" 0 runEvent "?h None" 0]
    by (simp add: runNode_def reported_def run_eventLeader run_defs leader_not_ready [OF run_eventLeader] delivery_init_def)
      (simp add: runEvent_def)
  have s2: "delivery_step 0 (?h (Some {})) (runNode (\<lambda>p. p) (PLocked runEvent) [] []) (?h (Some {})) (runNode (storeTerm 3) (PTerm runEvent) [] [])"
    using store_term [of "runNode (\<lambda>p. p) (PLocked runEvent) [] []" 0 runEvent 1 3 2 0 "?h (Some {})"]
    by (simp add: runNode_def run_eventLeader changePart_def sampleProtocol_def)
  have s3: "delivery_step 0 (?h (Some {})) (runNode (storeTerm 3) (PTerm runEvent) [] []) (?h (Some {})) (runNode (setLeader 3 2) (PSending runEvent) [] [])"
    using store_leader [of "runNode (storeTerm 3) (PTerm runEvent) [] []" 0 runEvent 1 3 2 0 "?h (Some {})"]
    by (simp add: runNode_def run_eventLeader changePart_def setLeader_def sampleProtocol_def)
  have s4: "delivery_step 0 (?h (Some {})) (runNode (setLeader 3 2) (PSending runEvent) [] []) (?h None) (runNode (setLeader 3 2) PIdle [] [])"
    using publish_unlock [of "runNode (setLeader 3 2) (PSending runEvent) [] []" 0 runEvent "?h (Some {})" 0]
    by (simp add: runNode_def run_defs)
  show ?thesis by (rule delivery_next [OF _ s4], rule delivery_next [OF _ s3], rule delivery_next [OF _ s2],
      rule delivery_next [OF _ s1], rule run_started)
qed

definition runReplay :: "nat Event" where
  "runReplay = runEvent\<lparr>ev_Timestamp := 0\<rparr>"

lemma run_streamed:
  "delivery_reachable (0 :: nat) sampleProtocol (runHub 1 [1 \<mapsto> 0] 1 (WReplaying 1 0) None)
     (runNode (setLeader 3 2) PIdle [runReplay] [])"
proof -
  let ?d = "runNode (setLeader 3 2) PIdle [] []" and ?h = "\<lambda>i. runHub i Map.empty 0"
  have s1: "delivery_step 0 (?h 0 WNew None) ?d (?h 0 (WRead 0) None) ?d"
    by (rule other) (use watch_read [of "?h 0 WNew None" 0] in \<open>simp_all add: run_defs\<close>)
  have s2: "delivery_step 0 (?h 0 (WRead 0) None) ?d (?h 1 WWrote None) ?d"
    by (rule other) (use watch_write [of "?h 0 (WRead 0) None" 0 0] in \<open>simp_all add: run_defs int64_def\<close>)
  have s3: "delivery_step 0 (?h 1 WWrote None) ?d (?h 1 (WNumbered 1) None) ?d"
    by (rule other) (use watch_id [of "?h 1 WWrote None" 0] in \<open>simp_all add: run_defs\<close>)
  have s3': "delivery_step 0 (?h 1 (WNumbered 1) None) ?d (?h 1 (WLocking 1) None) ?d"
    by (rule other) (use watch_wait [of "?h 1 (WNumbered 1) None" 0 1] in \<open>simp_all add: run_defs\<close>)
  have s4: "delivery_step 0 (?h 1 (WLocking 1) None) ?d (runHub 1 [1 \<mapsto> 0] 0 (WReplaying 1 1) None)
      (runNode (setLeader 3 2) PIdle [] [runReplay])"
    using watch_lock [of "?h 1 (WLocking 1) None" 0 1 "[1]" ?d "[runReplay]" 0]
    by (simp add: run_defs runNode_def Partitions_def map_filter_simps replayPartition_def runReplay_def runEvent_def go_defs)
  have s5: "delivery_step 0 (runHub 1 [1 \<mapsto> 0] 0 (WReplaying 1 1) None) (runNode (setLeader 3 2) PIdle [] [runReplay])
      (runHub 1 [1 \<mapsto> 0] 1 (WReplaying 1 0) None) (runNode (setLeader 3 2) PIdle [runReplay] [])"
    using watch_replay [of "runHub 1 [1 \<mapsto> 0] 0 (WReplaying 1 1) None" 0 1 0
        "runNode (setLeader 3 2) PIdle [] [runReplay]" runReplay "[]" 0]
    by (simp add: run_defs runNode_def can_send_def channelSize_def send_def)
  show ?thesis by (rule delivery_next [OF _ s5], rule delivery_next [OF _ s4], rule delivery_next [OF _ s3'],
      rule delivery_next [OF _ s3], rule delivery_next [OF _ s2], rule delivery_next [OF _ s1], rule run_published)
qed

theorem streams_agree_with_the_node_witness:
  "\<exists>h d. delivery_reachable (0 :: nat) sampleProtocol h d \<and> hub_watchers h 1 = Some 0 \<and>
     viewOf (dl_sent d 0) (\<lambda>_. zeroView) 1 = \<lparr>gv_term = 3, gv_leader = 2, gv_ready = False\<rparr>"
proof -
  let ?h = "runHub 1 [1 \<mapsto> 0] 1 (WReplaying 1 0) None" and ?d = "runNode (setLeader 3 2) PIdle [runReplay] []"
  have none: "\<not> awaits_leader ?h ?d 1 1" "\<not> awaits_ready ?h ?d 1 1"
    by (simp_all add: awaits_leader_def awaits_ready_def pending_def runNode_def)
  have "viewOf (dl_sent ?d 0) (\<lambda>_. zeroView) 1 = partitionView (setLeader 3 2 (newPartition 1 1 :: 32 word Partition))"
    by (rule streams_agree_with_the_node [OF _ run_streamed _ _ _ none])
      (simp_all add: runHub_def runNode_def)
  then show ?thesis
    using run_streamed by (intro exI [of _ ?h] exI [of _ ?d]) (simp add: runHub_def partitionView_def go_defs)
qed

end
