(* ===== verification/NodesToStatus.thy ===== *)
theory NodesToStatus
  imports Recording WatchDelivery
begin

text \<open>
  From the partitions of all nodes to the status of a group: the hubs of the nodes (\<open>WatchDelivery\<close>,
  \<^verbatim>\<open>node/pkg/consensus/protocol.go\<close>), the streams, and the goroutines of the controller that record them
  (\<open>Recording\<close>, \<^verbatim>\<open>watcher.go\<close>), all running at the same time. A stream that ends and is opened again only adds to what was received.
\<close>

section \<open>What a stream delivers\<close>

text \<open>A stream delivers the events in the order they were sent; an empty one is ignored.\<close>

definition streamEvents :: "'t Event list \<Rightarrow> isEvent_Event list" where
  "streamEvents es = List.map_filter ev_Event es"

lemma set_streamEvents: "set (streamEvents es) = {x. \<exists>e \<in> set es. ev_Event e = Some x}"
  by (force simp: streamEvents_def List.map_filter_def image_iff)

text \<open>The term and leader a stream amounts to were named by one of its events.\<close>

lemma view_was_told:
  assumes "0 < gv_term (viewOf es (\<lambda>_. zeroView) g)"
  shows "\<exists>l \<in> leadersOf g (set (streamEvents es)). lu_Term l = gv_term (viewOf es (\<lambda>_. zeroView) g) \<and>
    lu_Leader l = gv_leader (viewOf es (\<lambda>_. zeroView) g)"
  using assms
proof (induction es rule: rev_induct)
  case Nil
  then show ?case by (simp add: viewOf_def zeroView_def)
next
  case (snoc e es)
  let ?v = "viewOf es (\<lambda>_. zeroView)"
  have view: "viewOf (es @ [e]) (\<lambda>_. zeroView) = viewEvent (ev_Event e) ?v" by (simp add: viewOf_def)
  have mono: "leadersOf g (set (streamEvents es)) \<subseteq> leadersOf g (set (streamEvents (es @ [e])))"
    by (auto simp: leadersOf_def set_streamEvents)
  show ?case
  proof (cases "\<exists>l. ev_Event e = Some (Event_LeaderUpdated l) \<and> me_GroupID (lu_MemberEvent l) = g")
    case True
    then obtain l where l: "ev_Event e = Some (Event_LeaderUpdated l)" "me_GroupID (lu_MemberEvent l) = g" by blast
    then have "l \<in> leadersOf g (set (streamEvents (es @ [e])))" by (auto simp: leadersOf_def set_streamEvents)
    with l show ?thesis unfolding view by (auto simp: Let_def)
  next
    case False
    then have "gv_term (viewEvent (ev_Event e) ?v g) = gv_term (?v g)" "gv_leader (viewEvent (ev_Event e) ?v g) = gv_leader (?v g)"
      by (cases "(ev_Event e, ?v)" rule: viewEvent.cases; auto simp: Let_def)+
    with snoc mono show ?thesis unfolding view by (metis subsetD)
  qed
qed

section \<open>Properties\<close>

text \<open>
  C11. A group's status follows all nodes that run the group. Every pod has a node whose publishers,
  streams and clients run concurrently, and a stream of its own to the controller; the streams are
  recorded concurrently, next to the cluster controller. Once all that the streams delivered is
  recorded, and no leader event is still to be sent to them, the group's status has a term that is at
  least the term of every node's partition and that a node reported, and whenever a node of that term
  knows the leader, the status names its member. Raft's election safety is the one assumption on what
  the nodes report: a term has at most one leader.
\<close>

theorem status_follows_every_node:
  fixes d :: "nat \<Rightarrow> ('p::len word, 's, 't) delivery"
  assumes "32 \<le> LENGTH('p)"
    and nodes: "\<And>j. j \<in> J \<Longrightarrow> delivery_reachable (zt j) (n j) (h j) (d j) \<and> hub_watchers (h j) (i j) = Some (c j) \<and>
      dl_replay (d j) (c j) = [] \<and> \<not> awaits_leader (h j) (d j) (i j) g"
    and streams: "\<And>j. j \<in> J \<Longrightarrow> set (streamEvents (dl_sent (d j) (c j))) \<subseteq> set (rc_received r j)"
    and recording: "recording_reachable (groupEventUpdate store g) setsState zeroGroupStatus r"
    and recorded: "\<And>j. rc_queue r j = [] \<and> rc_lost r j = {}"
    and election: "one_leader (leadersOf g (\<Union>j. set (rc_received r j)))"
    and "j \<in> J" and "pr_partitions (dl_node (d j)) (ucast g) = Some p" and "0 < loadTerm p"
  shows "\<exists>t. gs_Term (status_now r) = Some t \<and> loadTerm p \<le> t \<and>
    (\<exists>k. \<exists>l \<in> leadersOf g (set (rc_received r k)). lu_Term l = t) \<and>
    (loadTerm p = t \<and> loadLeader p \<noteq> 0 \<longrightarrow> gs_Leader (status_now r) = Some (watchedMemberRef store g (loadLeader p)))"
proof -
  let ?E = "leadersOf g (\<Union>j. set (rc_received r j))"
  have "leader_spec store {} zeroGroupStatus" by (simp add: leader_spec_def zeroGroupStatus_def)
  from recorded_leaders [OF recording this election recorded]
  have spec: "leader_spec store ?E (status_now r)" .
  have "told_ok (h j) (d j)" using delivery_reachable_ok [of "zt j" "n j" "h j" "d j"] nodes [OF assms(7)] assms(1) by blast
  then have told: "leader_told (viewOf (dl_sent (d j) (c j)) (\<lambda>_. zeroView) g) p"
    using told_okD(2) [of "h j" "d j" "i j" "c j" g p] nodes [OF assms(7)] assms(8) by (simp add: told_def)
  then have view: "gv_term (viewOf (dl_sent (d j) (c j)) (\<lambda>_. zeroView) g) = loadTerm p"
      "gv_leader (viewOf (dl_sent (d j) (c j)) (\<lambda>_. zeroView) g) = loadLeader p"
    by (simp_all add: leader_told_def)
  obtain l where l: "l \<in> leadersOf g (set (rc_received r j))" "lu_Term l = loadTerm p" "lu_Leader l = loadLeader p"
    using view_was_told [where es = "dl_sent (d j) (c j)" and g = g] assms(9)
      streams [OF assms(7)]
    unfolding view by (auto simp: leadersOf_def)
  then have lE: "l \<in> ?E" by (auto simp: leadersOf_def)
  with spec obtain t where t: "gs_Term (status_now r) = Some t" "\<forall>e \<in> ?E. lu_Term e \<le> t" "\<exists>e \<in> ?E. lu_Term e = t"
      "\<forall>e \<in> ?E. lu_Term e = t \<longrightarrow> lu_Leader e \<noteq> 0 \<longrightarrow>
         gs_Leader (status_now r) = Some (watchedMemberRef store (me_GroupID (lu_MemberEvent e)) (lu_Leader e))"
    by (auto simp: leader_spec_def split: if_splits)
  have "\<exists>k. \<exists>l \<in> leadersOf g (set (rc_received r k)). lu_Term l = t"
    using t(3) by (auto simp: leadersOf_def)
  moreover have "me_GroupID (lu_MemberEvent l) = g" using l(1) by (simp add: leadersOf_def)
  ultimately show ?thesis using t(1,2,4) lE l(2,3) by metis
qed

text \<open>The run of \<open>WatchDelivery\<close>, whose one stream is recorded.\<close>

definition runLeader :: isEvent_Event where
  "runLeader = Event_LeaderUpdated \<lparr>lu_MemberEvent = \<lparr>me_GroupID = 1, me_MemberID = 1\<rparr>, lu_Term = 3, lu_Leader = 2\<rparr>"

definition runStatus :: RaftGroupStatus where
  "runStatus = snd (groupEventUpdate recordingStore 1 runLeader zeroGroupStatus)"

lemma run_leader_update: "groupEventUpdate recordingStore 1 runLeader zeroGroupStatus = (True, runStatus)"
  by (simp add: runStatus_def groupEventUpdate_def runLeader_def groupLeader_def leaderNews_def zeroGroupStatus_def Let_def)

lemma run_status: "gs_Term runStatus = Some 3" "gs_Leader runStatus = Some (watchedMemberRef recordingStore 1 2)"
  by (simp_all add: runStatus_def groupEventUpdate_def runLeader_def groupLeader_def leaderNews_def zeroGroupStatus_def Let_def)

lemma run_leader_recorded:
  "runReachable (runRecording [runStatus, zeroGroupStatus] [runLeader] [] [] [] RIdle RIdle [Recorded 0 runLeader])"
proof -
  let ?z = zeroGroupStatus and ?r = "runRecording [zeroGroupStatus]"
  let ?step = "recording_step (groupEventUpdate recordingStore 1) setsState"
  have init: "recording_init ?z = ?r [] [] [] [] RIdle RIdle []"
    by (simp add: recording_init_def runRecording_def fun_eq_iff)
  have s1: "?step (?r [] [] [] [] RIdle RIdle []) (?r [runLeader] [] [runLeader] [] RIdle RIdle [])"
    using recording_step.receive [of _ _ "?r [] [] [] [] RIdle RIdle []" 0 runLeader]
    by (simp add: runRecording_def fun_upd_twist)
  have s2: "?step (?r [runLeader] [] [runLeader] [] RIdle RIdle []) (?r [runLeader] [] [runLeader] [] (RRead 1 ?z) RIdle [])"
    using recording_step.get [of "?r [runLeader] [] [runLeader] [] RIdle RIdle []" 0 0 "groupEventUpdate recordingStore 1" setsState]
    by (simp add: runRecording_def fun_upd_twist)
  have s3: "?step (?r [runLeader] [] [runLeader] [] (RRead 1 ?z) RIdle [])
      (runRecording [runStatus, ?z] [runLeader] [] [] [] RIdle RIdle [Recorded 0 runLeader])"
    using recording_step.put [of "?r [runLeader] [] [runLeader] [] (RRead 1 ?z) RIdle []" 0 1 ?z runLeader "[]"
        "groupEventUpdate recordingStore 1" runStatus setsState] run_leader_update
    by (simp add: runRecording_def fun_upd_twist)
  show ?thesis by (rule recording_next [OF recording_next [OF recording_next [OF recording_start s1 [folded init]] s2] s3])
qed

theorem status_follows_every_node_witness:
  "\<exists>r :: (isEvent_Event, RaftGroupStatus) recording. gs_Term (status_now r) = Some 3 \<and>
     gs_Leader (status_now r) = Some (watchedMemberRef recordingStore 1 2)"
proof -
  let ?h = "runHub 1 [1 \<mapsto> 0] 1 (WReplaying 1 0) None" and ?d = "runNode (setLeader 3 2) PIdle [runReplay] []"
  let ?r = "runRecording [runStatus, zeroGroupStatus] [runLeader] [] [] [] RIdle RIdle [Recorded 0 runLeader]"
  have idle: "\<not> awaits_leader ?h ?d 1 1" by (simp add: awaits_leader_def pending_def runNode_def)
  have sent: "set (streamEvents (dl_sent ?d 0)) = {runLeader}"
    by (simp add: runNode_def streamEvents_def runReplay_def runEvent_def runLeader_def map_filter_simps)
  have received: "(\<Union>j. set (rc_received ?r j)) = {runLeader}" "rc_received ?r 0 = [runLeader]"
    by (auto simp: runRecording_def split: if_splits)
  have one: "one_leader (leadersOf 1 (\<Union>j. set (rc_received ?r j)))"
    unfolding received by (auto simp: one_leader_def leadersOf_def runLeader_def)
  have "\<exists>t. gs_Term (status_now ?r) = Some t \<and> loadTerm (setLeader 3 2 (newPartition 1 1 :: 32 word Partition)) \<le> t \<and>
    (\<exists>k. \<exists>l \<in> leadersOf 1 (set (rc_received ?r k)). lu_Term l = t) \<and>
    (loadTerm (setLeader 3 2 (newPartition 1 1 :: 32 word Partition)) = t \<and>
     loadLeader (setLeader 3 2 (newPartition 1 1 :: 32 word Partition)) \<noteq> 0 \<longrightarrow>
       gs_Leader (status_now ?r) = Some (watchedMemberRef recordingStore 1 (loadLeader (setLeader 3 2 (newPartition 1 1 :: 32 word Partition)))))"
  proof (rule status_follows_every_node [where J = "{0}" and h = "\<lambda>_. ?h" and d = "\<lambda>_. ?d" and i = "\<lambda>_. 1" and c = "\<lambda>_. 0"
        and zt = "\<lambda>_. 0" and n = "\<lambda>_. sampleProtocol", OF _ _ _ run_leader_recorded _ one])
    fix j :: nat assume "j \<in> {0}"
    show "delivery_reachable 0 sampleProtocol ?h ?d \<and> hub_watchers ?h 1 = Some 0 \<and> dl_replay ?d 0 = [] \<and> \<not> awaits_leader ?h ?d 1 1"
      using run_streamed idle by (simp add: runHub_def runNode_def)
    show "set (streamEvents (dl_sent ?d 0)) \<subseteq> set (rc_received ?r j)"
      using \<open>j \<in> {0}\<close> sent received by simp
  qed (auto simp: runRecording_def runNode_def go_defs)
  then show ?thesis using run_status by (intro exI [of _ ?r]) (simp add: status_now_def runRecording_def)
qed

end
