(* ===== verification/NodeMain.thy ===== *)
theory NodeMain
  imports NodeProtocol
begin

text \<open>
  The node's executable (\<^verbatim>\<open>node/cmd/atomix-consensus-node/main.go\<close>): the flags it declares,
  and the command that reads the configuration, builds the protocol with the state machines
  of the primitives, serves it, and stops at a signal. The flag parser, the file system, the
  YAML decoder, the Raft library and the server of the runtime are parameters; what a run
  did to the world \<open>'w\<close> is what these parameters did, in the order of the calls.
\<close>

section \<open>Flags\<close>

datatype flagValue = StringFlag string | IntFlag int

definition nodeFlags :: "(string \<times> flagValue) list" where
  "nodeFlags =
     [(''config'', StringFlag ''''), (''api-host'', StringFlag ''''), (''api-port'', IntFlag 8080),
      (''raft-host'', StringFlag ''''), (''raft-port'', IntFlag 5000)]"

text \<open>
  Marking a flag that was not declared is an error, which the code ignores: of the two flags
  it marks as required only one is.
\<close>

definition markRequired :: "(string \<times> flagValue) list \<Rightarrow> string \<Rightarrow> string list \<Rightarrow> string list" where
  "markRequired flags name required =
     (if name \<in> fst ` set flags then required @ [name] else required)"

definition requiredFlags :: "string list" where
  "requiredFlags = markRequired nodeFlags ''config'' (markRequired nodeFlags ''node'' [])"

section \<open>What is served\<close>

text \<open>The primitives, each named by the package that implements it.\<close>

datatype Primitive =
    Counterv1 | Countermapv1 | Electionv1 | Indexedmapv1 | Lockv1 | Mapv1 | Multimapv1 | Setv1 | Valuev1

datatype service = PrimitiveServer Primitive | NodeServer

definition registerStateMachines :: "Primitive list \<Rightarrow> Primitive list" where
  "registerStateMachines registry = registry @
     [Counterv1, Countermapv1, Electionv1, Indexedmapv1, Lockv1, Mapv1, Multimapv1, Setv1, Valuev1]"

definition registerServers :: "service list \<Rightarrow> service list" where
  "registerServers services = services @
     map PrimitiveServer
       [Counterv1, Countermapv1, Electionv1, Indexedmapv1, Lockv1, Mapv1, Multimapv1, Setv1, Valuev1] @
     [NodeServer]"

text \<open>
  The node of the runtime as \<^verbatim>\<open>main\<close> sets it up; the node server of \<^verbatim>\<open>NodeServer\<close> works on
  the same protocol.
\<close>

record 'proto node =
  nd_Protocol :: 'proto
  nd_StateMachines :: "Primitive list"
  nd_Host :: string
  nd_Port :: int
  nd_ServerOptions :: "grpcServerOption list"
  nd_Services :: "service list"

section \<open>The command\<close>

datatype exitStatus = Returned | Exited int | Panicked

text \<open>A step whose error ends the process with status 1, and one whose error is a panic.\<close>

definition orExit :: "('w, 'e + 'a) state \<Rightarrow> ('a \<Rightarrow> ('w, exitStatus) state) \<Rightarrow> ('w, exitStatus) state" where
  "orExit m f = do { r \<leftarrow> m; (case r of Inl err \<Rightarrow> ret (Exited 1) | Inr x \<Rightarrow> f x) }"

definition orPanic :: "('w, 'a option) state \<Rightarrow> ('a \<Rightarrow> ('w, exitStatus) state) \<Rightarrow> ('w, exitStatus) state" where
  "orPanic m f = do { r \<leftarrow> m; (case r of None \<Rightarrow> ret Panicked | Some x \<Rightarrow> f x) }"

lemma run_orExit [run_simps]:
  "run_state (orExit m f) w =
     (case run_state m w of (Inl err, w') \<Rightarrow> (Exited 1, w') | (Inr x, w') \<Rightarrow> run_state (f x) w')"
  by (simp add: orExit_def split: prod.split sum.split)

record ('w, 'f, 'bytes, 'e, 'host, 'proto) nodeMainEnv =
  nm_Parse :: "(string \<times> flagValue) list \<Rightarrow> string list \<Rightarrow> string list \<Rightarrow> 'e + 'f option"
  nm_GetString :: "'f \<Rightarrow> string \<Rightarrow> 'e + string"
  nm_GetInt :: "'f \<Rightarrow> string \<Rightarrow> 'e + int"
  nm_ReadFile :: "string \<Rightarrow> ('w, 'e + 'bytes) state"
  nm_Unmarshal :: "'bytes \<Rightarrow> 'e + NodeConfig"
  nm_NewNodeHost :: "NodeHostConfig \<Rightarrow> ('w, dbError + 'host) state"
  nm_Start :: "'proto node \<Rightarrow> ('w, 'e + unit) state"
  nm_AwaitSignal :: "('w, unit) state"
  nm_Stop :: "'proto node \<Rightarrow> ('w, 'e + unit) state"

definition newNode :: "'proto \<Rightarrow> string \<Rightarrow> int \<Rightarrow> ServerConfig \<Rightarrow> 'proto node" where
  "newNode protocol apiHost apiPort server =
     \<lparr>nd_Protocol = protocol, nd_StateMachines = registerStateMachines [],
      nd_Host = apiHost, nd_Port = apiPort,
      nd_ServerOptions = serverOptions server, nd_Services = registerServers []\<rparr>"

definition serveNode :: "('w, 'f, 'bytes, 'e, 'host, 'proto) nodeMainEnv \<Rightarrow> 'proto node \<Rightarrow>
    ('w, exitStatus) state" where
  "serveNode env node =
     orExit (nm_Start env node) (\<lambda>_. do {
       _ \<leftarrow> nm_AwaitSignal env;
       orExit (nm_Stop env node) (\<lambda>_. ret Returned)
     })"

definition runNode :: "('w, 'f, 'bytes, 'e, 'host, 'host \<times> ('p::len word, 's, 't) Protocol) nodeMainEnv \<Rightarrow>
    'f \<Rightarrow> ('w, exitStatus) state" where
  "runNode env flags =
     orExit (ret (nm_GetString env flags ''config'')) (\<lambda>configPath.
     orExit (ret (nm_GetString env flags ''api-host'')) (\<lambda>apiHost.
     orExit (ret (nm_GetInt env flags ''api-port'')) (\<lambda>apiPort.
     orExit (ret (nm_GetString env flags ''raft-host'')) (\<lambda>raftHost.
     orExit (ret (nm_GetInt env flags ''raft-port'')) (\<lambda>raftPort.
     orExit (nm_ReadFile env configPath) (\<lambda>configBytes.
     orExit (ret (nm_Unmarshal env configBytes)) (\<lambda>config.
     orPanic (NewProtocol (nm_NewNodeHost env) (nc_Raft config) [WithHost raftHost, WithPort raftPort]) (\<lambda>protocol.
     serveNode env (newNode protocol apiHost apiPort (nc_Server config))))))))))"

text \<open>
  Cobra parses the arguments; \<^verbatim>\<open>main\<close> panics on its error. Arguments that ask for help (or for
  a completion) it answers itself: \<^verbatim>\<open>Execute\<close> then returns without an error and without having
  run the command, which is the result \<open>None\<close> of \<open>nm_Parse\<close>.
\<close>

definition nodeMain :: "('w, 'f, 'bytes, 'e, 'host, 'host \<times> ('p::len word, 's, 't) Protocol) nodeMainEnv \<Rightarrow>
    string list \<Rightarrow> ('w, exitStatus) state" where
  "nodeMain env args =
     (case nm_Parse env nodeFlags requiredFlags args of
        Inl err \<Rightarrow> ret Panicked
      | Inr None \<Rightarrow> ret Returned
      | Inr (Some flags) \<Rightarrow> runNode env flags)"

section \<open>A parser of flags\<close>

text \<open>
  What the flag parser documents of arguments in which every flag is written \<^verbatim>\<open>--name value\<close>:
  they parse if the flags are declared, given once, and include the required ones; a flag then
  has the value given, or else its default.
\<close>

fun flagText :: "flagValue \<Rightarrow> string" where
  "flagText (StringFlag s) = s"
| "flagText (IntFlag i) = itoa i"

definition flagArgs :: "(string \<times> flagValue) list \<Rightarrow> string list" where
  "flagArgs given = concat (map (\<lambda>(n, v). [''--'' @ n, flagText v]) given)"

fun same_type :: "flagValue \<Rightarrow> flagValue \<Rightarrow> bool" where
  "same_type (StringFlag _) v = (case v of StringFlag _ \<Rightarrow> True | _ \<Rightarrow> False)"
| "same_type (IntFlag _) v = (case v of IntFlag i \<Rightarrow> 0 \<le> i \<and> i < 2 ^ 63 | _ \<Rightarrow> False)"

definition given_ok :: "(string \<times> flagValue) list \<Rightarrow> string list \<Rightarrow> (string \<times> flagValue) list \<Rightarrow> bool" where
  "given_ok flags required given \<longleftrightarrow>
     distinct (map fst given) \<and> set required \<subseteq> fst ` set given \<and>
     list_all (\<lambda>(n, v). \<exists>d. map_of flags n = Some d \<and> same_type d v) given"

definition flags_law ::
  "((string \<times> flagValue) list \<Rightarrow> string list \<Rightarrow> string list \<Rightarrow> 'e + 'f option) \<Rightarrow>
    ('f \<Rightarrow> string \<Rightarrow> 'e + string) \<Rightarrow> ('f \<Rightarrow> string \<Rightarrow> 'e + int) \<Rightarrow> bool"
where
  "flags_law parse getString getInt \<longleftrightarrow>
     (\<forall>flags required given. given_ok flags required given \<longrightarrow>
        (\<exists>f. parse flags required (flagArgs given) = Inr (Some f) \<and>
          (\<forall>n s. (map_of flags ++ map_of given) n = Some (StringFlag s) \<longrightarrow> getString f n = Inr s) \<and>
          (\<forall>n i. (map_of flags ++ map_of given) n = Some (IntFlag i) \<longrightarrow> getInt f n = Inr i)))"

text \<open>A parser that does so.\<close>

fun namedArgs :: "string list \<Rightarrow> (string \<times> string) list option" where
  "namedArgs [] = Some []"
| "namedArgs [a] = None"
| "namedArgs (a # b # args) =
     (if take 2 a = ''--'' then map_option (\<lambda>r. (drop 2 a, b) # r) (namedArgs args) else None)"

fun readFlag :: "flagValue \<Rightarrow> string \<Rightarrow> flagValue" where
  "readFlag (StringFlag _) s = StringFlag s"
| "readFlag (IntFlag _) s = IntFlag (int (undigits s))"

definition plainParse :: "(string \<times> flagValue) list \<Rightarrow> string list \<Rightarrow> string list \<Rightarrow> unit + (string \<rightharpoonup> flagValue) option" where
  "plainParse flags required args =
     (if args = [''--help''] then Inr None else case namedArgs args of
        None \<Rightarrow> Inl ()
      | Some ps \<Rightarrow>
          if set required \<subseteq> fst ` set ps
          then Inr (Some (\<lambda>n. case map_of flags n of
                 None \<Rightarrow> None
               | Some d \<Rightarrow> Some (case map_of ps n of None \<Rightarrow> d | Some s \<Rightarrow> readFlag d s)))
          else Inl ())"

definition plainGetString :: "(string \<rightharpoonup> flagValue) \<Rightarrow> string \<Rightarrow> unit + string" where
  "plainGetString f n = (case f n of Some (StringFlag s) \<Rightarrow> Inr s | _ \<Rightarrow> Inl ())"

definition plainGetInt :: "(string \<rightharpoonup> flagValue) \<Rightarrow> string \<Rightarrow> unit + int" where
  "plainGetInt f n = (case f n of Some (IntFlag i) \<Rightarrow> Inr i | _ \<Rightarrow> Inl ())"

lemma namedArgs_flagArgs: "namedArgs (flagArgs given) = Some (map (\<lambda>(n, v). (n, flagText v)) given)"
  by (induction given) (auto simp: flagArgs_def)

lemma readFlag_text: "same_type d v \<Longrightarrow> readFlag d (flagText v) = v"
  by (cases d; cases v) (simp_all add: itoa_def)

lemma plain_flags: "flags_law plainParse plainGetString plainGetInt"
proof -
  have "\<exists>f. plainParse flags required (flagArgs given) = Inr (Some f) \<and>
      (\<forall>n v. (map_of flags ++ map_of given) n = Some v \<longrightarrow> f n = Some v)"
    if ok: "given_ok flags required given" for flags required given
  proof -
    have "map_of (map (\<lambda>(n, v). (n, flagText v)) given) n = map_option flagText (map_of given n)" for n
      by (induction given) auto
    moreover have "\<exists>d. map_of flags n = Some d \<and> readFlag d (flagText v) = v" if "map_of given n = Some v" for n v
      using ok map_of_SomeD [OF that] by (fastforce simp: given_ok_def list_all_iff intro: readFlag_text)
    moreover have "flagArgs given \<noteq> [''--help'']" by (cases given) (auto simp: flagArgs_def)
    ultimately show ?thesis
      using ok by (force simp: plainParse_def namedArgs_flagArgs given_ok_def map_add_def image_image
          case_prod_beta split: option.splits)
  qed
  then show ?thesis
    unfolding flags_law_def plainGetString_def plainGetInt_def by fastforce
qed

section \<open>When the node serves\<close>

lemma run_orPanic [run_simps]:
  "run_state (orPanic m f) w =
     (case run_state m w of (None, w') \<Rightarrow> (Panicked, w') | (Some x, w') \<Rightarrow> run_state (f x) w')"
  by (simp add: orPanic_def split: prod.split option.split)

lemma run_NewProtocol:
  "run_state (NewProtocol newNodeHost config [WithHost host, WithPort port]) w =
     (case run_state (newNodeHost \<lparr>nhc_WALDir = GetDataDir config, nhc_NodeHostDir = GetDataDir config,
          nhc_RTTMillisecond = word_of_int (Milliseconds (GetHeartbeatPeriod config)),
          nhc_RaftAddress = hostPort host port\<rparr>) w of
        (Inl err, w') \<Rightarrow> (None, w')
      | (Inr h, w') \<Rightarrow> (Some (h, \<lparr>pr_config = config, pr_partitions = Map.empty, pr_contexts = Map.empty,
          pr_watchers = Map.empty, pr_watcherID = 0\<rparr>), w'))"
  by (simp add: NewProtocol_def nodeHostConfig_def applyOptions_host_port Let_def split: prod.split sum.split)

text \<open>Every option that is configured is set once, and no other.\<close>

lemma set_appendOption: "set (appendOption c v opts) = set opts \<union> c ` set_option v"
  by (cases v) (auto simp: appendOption_def)

definition options_of :: "ServerConfig \<Rightarrow> grpcServerOption set" where
  "options_of c =
     GrpcReadBufferSize ` set_option (sc_ReadBufferSize c) \<union>
     GrpcWriteBufferSize ` set_option (sc_WriteBufferSize c) \<union>
     GrpcMaxSendMsgSize ` set_option (sc_MaxSendMsgSize c) \<union>
     GrpcMaxRecvMsgSize ` set_option (sc_MaxRecvMsgSize c) \<union>
     GrpcNumStreamWorkers ` set_option (sc_NumStreamWorkers c) \<union>
     GrpcMaxConcurrentStreams ` set_option (sc_MaxConcurrentStreams c)"

lemma serverOptions_of: "set (serverOptions c) = options_of c" "distinct (serverOptions c)"
proof -
  show "set (serverOptions c) = options_of c"
    by (auto simp: serverOptions_def set_appendOption options_of_def)
  show "distinct (serverOptions c)"
    by (simp add: serverOptions_def appendOption_def split: option.split)
qed

text \<open>
  What the arguments and the configuration file say, if they parse and can be read and decoded:
  the world \<open>w1\<close> is the one after the reading of the file.
\<close>

definition node_configured :: "('w, 'f, 'bytes, 'e, 'host, 'proto) nodeMainEnv \<Rightarrow> string list \<Rightarrow> 'w \<Rightarrow>
    NodeConfig \<Rightarrow> string \<Rightarrow> int \<Rightarrow> string \<Rightarrow> int \<Rightarrow> 'w \<Rightarrow> bool" where
  "node_configured env args w config apiHost apiPort raftHost raftPort w1 \<longleftrightarrow>
     (\<exists>flags path bytes. nm_Parse env nodeFlags requiredFlags args = Inr (Some flags) \<and>
        nm_GetString env flags ''config'' = Inr path \<and>
        nm_GetString env flags ''api-host'' = Inr apiHost \<and> nm_GetInt env flags ''api-port'' = Inr apiPort \<and>
        nm_GetString env flags ''raft-host'' = Inr raftHost \<and> nm_GetInt env flags ''raft-port'' = Inr raftPort \<and>
        run_state (nm_ReadFile env path) w = (Inr bytes, w1) \<and> nm_Unmarshal env bytes = Inr config)"

lemma configured_runs:
  fixes env :: "('w, 'f, 'bytes, 'e, 'host, 'host \<times> ('p::len word, 's, 't) Protocol) nodeMainEnv"
  assumes "node_configured env args w config apiHost apiPort raftHost raftPort w1"
  shows "run_state (nodeMain env args) w =
    run_state (orPanic (NewProtocol (nm_NewNodeHost env) (nc_Raft config) [WithHost raftHost, WithPort raftPort])
      (\<lambda>protocol. serveNode env (newNode protocol apiHost apiPort (nc_Server config)))) w1"
  using assms by (auto simp: node_configured_def nodeMain_def runNode_def run_orExit)

lemma unconfigured_ends:
  fixes env :: "('w, 'f, 'bytes, 'e, 'host, 'host \<times> ('p::len word, 's, 't) Protocol) nodeMainEnv"
  assumes "\<And>config apiHost apiPort raftHost raftPort w1.
      \<not> node_configured env args w config apiHost apiPort raftHost raftPort w1"
    and "run_state (nodeMain env args) w = (status, w')"
  shows "(nm_Parse env nodeFlags requiredFlags args = Inr None \<and> status = Returned \<and> w' = w) \<or>
    (status \<in> {Exited 1, Panicked} \<and> (w' = w \<or> (\<exists>path. w' = snd (run_state (nm_ReadFile env path) w))))"
  using assms
  by (auto simp: node_configured_def nodeMain_def runNode_def run_orExit
      split: sum.splits prod.splits option.splits) (metis snd_conv)+

text \<open>How serving a node ends: it cannot be started, or it runs until the signal and is stopped.\<close>

definition serves :: "('w, 'f, 'bytes, 'e, 'host, 'proto) nodeMainEnv \<Rightarrow> 'proto node \<Rightarrow> 'w \<Rightarrow>
    exitStatus \<Rightarrow> 'w \<Rightarrow> bool" where
  "serves env nd w status w' \<longleftrightarrow>
     (\<exists>err. run_state (nm_Start env nd) w = (Inl err, w') \<and> status = Exited 1) \<or>
     (\<exists>w1 w2. run_state (nm_Start env nd) w = (Inr (), w1) \<and> run_state (nm_AwaitSignal env) w1 = ((), w2) \<and>
        ((\<exists>err. run_state (nm_Stop env nd) w2 = (Inl err, w') \<and> status = Exited 1) \<or>
         (run_state (nm_Stop env nd) w2 = (Inr (), w') \<and> status = Returned)))"

lemma serveNode_serves: "run_state (serveNode env nd) w = (status, w') \<longleftrightarrow> serves env nd w status w'"
  by (auto simp: serveNode_def serves_def run_orExit split: prod.splits sum.splits)

text \<open>
  C35. The node serves what it was configured to, and nothing otherwise. If the arguments parse and
  the configuration file can be read and decoded, the Raft host is created in the configured data
  directory, with the heartbeat period in milliseconds as its round trip time and the address of the
  Raft flags; if it cannot be created, the process panics. Otherwise the process starts, on the host
  and port of the API flags, a node with the nine state machines, their nine servers and the node
  service, over a protocol that has no partitions yet and the Raft configuration of the file, with
  exactly the configured server options; it ends with status 1 if the node cannot be started or
  stopped, and returns after a signal if it could. If the arguments ask for help the process returns
  and has touched nothing; if they do not parse, or the file cannot be read or decoded, it ends with
  status 1 or a panic, and has done nothing but try to read the file.
\<close>

theorem node_serves_its_configuration:
  fixes env :: "('w, 'f, 'bytes, 'e, 'host, 'host \<times> ('p::len word, 's, 't) Protocol) nodeMainEnv"
  assumes "run_state (nodeMain env args) w = (status, w')"
  shows "(nm_Parse env nodeFlags requiredFlags args = Inr None \<and> status = Returned \<and> w' = w) \<or>
    ((\<forall>config apiHost apiPort raftHost raftPort w1.
        \<not> node_configured env args w config apiHost apiPort raftHost raftPort w1) \<and>
      status \<in> {Exited 1, Panicked} \<and> (w' = w \<or> (\<exists>path. w' = snd (run_state (nm_ReadFile env path) w)))) \<or>
    (\<exists>config apiHost apiPort raftHost raftPort w1 r w2.
      node_configured env args w config apiHost apiPort raftHost raftPort w1 \<and>
      run_state (nm_NewNodeHost env
        \<lparr>nhc_WALDir = GetDataDir (nc_Raft config), nhc_NodeHostDir = GetDataDir (nc_Raft config),
         nhc_RTTMillisecond = word_of_int (Milliseconds (GetHeartbeatPeriod (nc_Raft config))),
         nhc_RaftAddress = hostPort raftHost raftPort\<rparr>) w1 = (r, w2) \<and>
      (case r of
         Inl err \<Rightarrow> status = Panicked \<and> w' = w2
       | Inr host \<Rightarrow> (\<exists>opts. set opts = options_of (nc_Server config) \<and> distinct opts \<and>
           serves env
             \<lparr>nd_Protocol = (host, \<lparr>pr_config = nc_Raft config, pr_partitions = Map.empty,
                pr_contexts = Map.empty, pr_watchers = Map.empty, pr_watcherID = 0\<rparr>),
              nd_StateMachines = [Counterv1, Countermapv1, Electionv1, Indexedmapv1, Lockv1, Mapv1,
                Multimapv1, Setv1, Valuev1],
              nd_Host = apiHost, nd_Port = apiPort, nd_ServerOptions = opts,
              nd_Services = map PrimitiveServer [Counterv1, Countermapv1, Electionv1, Indexedmapv1, Lockv1,
                Mapv1, Multimapv1, Setv1, Valuev1] @ [NodeServer]\<rparr> w2 status w')))"
proof (cases "\<exists>config apiHost apiPort raftHost raftPort w1.
    node_configured env args w config apiHost apiPort raftHost raftPort w1")
  case False
  then show ?thesis using unconfigured_ends [OF _ assms] by blast
next
  case True
  then obtain config apiHost apiPort raftHost raftPort w1 where
    c: "node_configured env args w config apiHost apiPort raftHost raftPort w1" by blast
  obtain r w2 where host: "run_state (nm_NewNodeHost env
        \<lparr>nhc_WALDir = GetDataDir (nc_Raft config), nhc_NodeHostDir = GetDataDir (nc_Raft config),
         nhc_RTTMillisecond = word_of_int (Milliseconds (GetHeartbeatPeriod (nc_Raft config))),
         nhc_RaftAddress = hostPort raftHost raftPort\<rparr>) w1 = (r, w2)" by fastforce
  show ?thesis
  proof (rule disjI2, rule disjI2, intro exI conjI, rule c, rule host)
  qed (use assms host in \<open>cases r;
      auto simp: configured_runs [OF c] run_orPanic run_NewProtocol serveNode_serves newNode_def
        registerStateMachines_def registerServers_def serverOptions_of
        intro!: exI [of _ "serverOptions (nc_Server config)"]\<close>)
qed

text \<open>A world that logs what was started and stopped; every step succeeds.\<close>

definition plainNodeEnv :: "NodeConfig \<Rightarrow>
    (string list, string \<rightharpoonup> flagValue, string, unit, unit, unit \<times> (32 word, unit, unit) Protocol) nodeMainEnv" where
  "plainNodeEnv config =
     \<lparr>nm_Parse = plainParse, nm_GetString = plainGetString, nm_GetInt = plainGetInt,
      nm_ReadFile = (\<lambda>path. State (\<lambda>w. (Inr '''', w @ [path]))), nm_Unmarshal = (\<lambda>_. Inr config),
      nm_NewNodeHost = (\<lambda>hostConfig. State (\<lambda>w. (Inr (), w @ [nhc_RaftAddress hostConfig]))),
      nm_Start = (\<lambda>nd. State (\<lambda>w. (Inr (), w @ [''start '' @ hostPort (nd_Host nd) (nd_Port nd)]))),
      nm_AwaitSignal = ret (), nm_Stop = (\<lambda>nd. State (\<lambda>w. (Inr (), w @ [''stop''])))\<rparr>"

definition emptyConfig :: NodeConfig where
  "emptyConfig =
     \<lparr>nc_Server = \<lparr>sc_ReadBufferSize = None, sc_WriteBufferSize = None, sc_MaxRecvMsgSize = None,
        sc_MaxSendMsgSize = None, sc_NumStreamWorkers = None, sc_MaxConcurrentStreams = None\<rparr>,
      nc_Raft = \<lparr>nrc_HeartbeatPeriod = None, nrc_ElectionTimeout = None,
        nrc_SnapshotEntryThreshold = None, nrc_CompactionRetainEntries = None, nrc_DataDir = None\<rparr>\<rparr>"

definition plainLog :: "string list" where
  "plainLog = [''/c'', hostPort '''' 5000, ''start '' @ hostPort '''' 8080, ''stop'']"

lemma plain_run:
  "run_state (nodeMain (plainNodeEnv emptyConfig) [''--config'', ''/c'']) [] = (Returned, plainLog)"
  by (simp add: nodeMain_def runNode_def serveNode_def plainNodeEnv_def emptyConfig_def plainParse_def
      plainGetString_def plainGetInt_def requiredFlags_def markRequired_def nodeFlags_def run_NewProtocol
      newNode_def plainLog_def Let_def run_simps)

theorem node_serves_its_configuration_witness:
  "\<exists>config apiHost apiPort raftHost raftPort w1.
     node_configured (plainNodeEnv emptyConfig) [''--config'', ''/c''] [] config apiHost apiPort raftHost raftPort w1"
proof -
  have "nm_Parse (plainNodeEnv emptyConfig) nodeFlags requiredFlags [''--config'', ''/c''] \<noteq> Inr None"
    by (simp add: plainNodeEnv_def plainParse_def requiredFlags_def markRequired_def nodeFlags_def)
  moreover have "Returned \<notin> {Exited 1, Panicked}" by simp
  ultimately show ?thesis using node_serves_its_configuration [OF plain_run] by blast
qed

end
