(* ===== verification/StoreReconcile.thy ===== *)
theory StoreReconcile
  imports ClusterReconcile
begin

text \<open>
  The store controller (\<^verbatim>\<open>controller/pkg/controller/consensus/v1beta1/store.go\<close>): from a
  \<^verbatim>\<open>ConsensusStore\<close> it creates the cluster, publishes the cluster's partitions as the
  protocol configuration of a \<^verbatim>\<open>DataStore\<close>, and mirrors the cluster's readiness. The
  \<^verbatim>\<open>DataStore\<close> and the protocol configuration are types of the Atomix runtime; their JSON
  codec is a parameter. The last sections are the driver of the runtime
  (\<^verbatim>\<open>driver/conn.go\<close>, \<^verbatim>\<open>driver/driver.go\<close>), which reads that configuration back.
\<close>

section \<open>Protocol configuration\<close>

record PartitionConfig =
  pcf_PartitionID :: int
  pcf_Leader :: string
  pcf_Followers :: "string list"

record ProtocolConfig =
  prc_Partitions :: "PartitionConfig list"

text \<open>\<open>toPartitionID\<close> is the conversion from \<^verbatim>\<open>int32\<close> to the runtime's identifier type.\<close>

definition getPartitionConfig :: "(int \<Rightarrow> int) \<Rightarrow> RaftPartitionStatus \<Rightarrow> PartitionConfig" where
  "getPartitionConfig toPartitionID p =
     \<lparr>pcf_PartitionID = toPartitionID (ps_PartitionID p),
      pcf_Leader = (case ps_Leader p of None \<Rightarrow> '''' | Some l \<Rightarrow> l),
      pcf_Followers = ps_Followers p\<rparr>"

definition getProtocolConfig :: "(int \<Rightarrow> int) \<Rightarrow> RaftPartitionStatus list \<Rightarrow> ProtocolConfig" where
  "getProtocolConfig toPartitionID partitions =
     \<lparr>prc_Partitions = map (getPartitionConfig toPartitionID) partitions\<rparr>"

definition isPartitionConfigEqual :: "PartitionConfig \<Rightarrow> PartitionConfig \<Rightarrow> bool" where
  "isPartitionConfigEqual p q \<longleftrightarrow>
     (if pcf_Leader p = '''' \<and> pcf_Leader q \<noteq> '''' then False
      else if pcf_Leader p \<noteq> '''' \<and> pcf_Leader q = '''' then False
      else if pcf_Leader p \<noteq> '''' \<and> pcf_Leader q \<noteq> '''' \<and> pcf_Leader p \<noteq> pcf_Leader q then False
      else if length (pcf_Followers p) \<noteq> length (pcf_Followers q) then False
      else list_all (\<lambda>f. f \<in> set (pcf_Followers q)) (pcf_Followers p))"

definition isProtocolConfigEqual :: "ProtocolConfig \<Rightarrow> ProtocolConfig \<Rightarrow> bool" where
  "isProtocolConfigEqual c d \<longleftrightarrow>
     (if length (prc_Partitions c) \<noteq> length (prc_Partitions d) then False
      else list_all (\<lambda>p. list_all (\<lambda>q.
             \<not> (pcf_PartitionID p = pcf_PartitionID q \<and> \<not> isPartitionConfigEqual p q))
             (prc_Partitions d)) (prc_Partitions c))"

section \<open>The environment\<close>

record DataStore =
  ds_Meta :: ObjectMeta
  ds_Driver :: "string \<times> string"
  ds_Config :: string

definition driverName :: string where "driverName = ''Consensus''"
definition driverVersion :: string where "driverVersion = ''v1beta1''"

record 'w storeEnv =
  s_Stores :: "('w, ConsensusStore) objectClient"
  s_Clusters :: "('w, MultiRaftCluster) objectClient"
  s_DataStores :: "('w, DataStore) objectClient"
  s_SetControllerReference :: "ObjectMeta \<Rightarrow> ObjectMeta \<Rightarrow> k8sError + ObjectMeta"
  s_Marshal :: "ProtocolConfig \<Rightarrow> k8sError + string"
  s_Unmarshal :: "string \<Rightarrow> k8sError + ProtocolConfig"
  s_toPartitionID :: "int \<Rightarrow> int"

section \<open>The steps of the reconciliation\<close>

definition newCluster :: "ConsensusStore \<Rightarrow> MultiRaftCluster" where
  "newCluster store =
     \<lparr>mrc_Meta = newMeta (om_Namespace (cst_Meta store)) (om_Name (cst_Meta store))
        (newClusterLabels store) (newClusterAnnotations store),
      mrc_Spec = cst_Spec store,
      mrc_Status = \<lparr>mst_State = '''', mst_Partitions = None\<rparr>\<rparr>"

text \<open>The zero value a failed read leaves in the variable it was to fill.\<close>

definition zeroCluster :: MultiRaftCluster where
  "zeroCluster =
     \<lparr>mrc_Meta = newMeta '''' '''' Map.empty Map.empty,
      mrc_Spec = \<lparr>mcs_Replicas = 0, mcs_Groups = 0, mcs_Image = '''', mcs_ImagePullPolicy = '''',
        mcs_ImagePullSecrets = [], mcs_SecurityContext = None, mcs_VolumeClaimTemplate = None,
        mcs_Config = \<lparr>mcc_Server = \<lparr>msc_ReadBufferSize = None, msc_WriteBufferSize = None,
            msc_MaxRecvMsgSize = None, msc_MaxSendMsgSize = None, msc_NumStreamWorkers = None,
            msc_MaxConcurrentStreams = None\<rparr>,
          mcc_Raft = \<lparr>rcs_QuorumSize = None, rcs_ReadReplicas = None,
            rcs_HeartbeatPeriod = None, rcs_ElectionTimeout = None,
            rcs_SnapshotEntryThreshold = None, rcs_CompactionRetainEntries = None\<rparr>,
          mcc_Logging = \<lparr>lg_Loggers = Map.empty, lg_Sinks = Map.empty\<rparr>\<rparr>\<rparr>,
      mrc_Status = \<lparr>mst_State = '''', mst_Partitions = None\<rparr>\<rparr>"

definition createCluster :: "'w storeEnv \<Rightarrow> ConsensusStore \<Rightarrow> ('w, k8sError + reconcileResult) state" where
  "createCluster env store =
     bindE (check (s_SetControllerReference env (cst_Meta store) (mrc_Meta (newCluster store)))) (\<lambda>meta.
     bindE (cl_Create (s_Clusters env) (newCluster store\<lparr>mrc_Meta := meta\<rparr>)) (\<lambda>_.
     ok noRequeue))"

definition createDataStore :: "'w storeEnv \<Rightarrow> ConsensusStore \<Rightarrow> RaftPartitionStatus list \<Rightarrow>
    ('w, k8sError + reconcileResult) state" where
  "createDataStore env store partitions =
     bindE (check (s_Marshal env (getProtocolConfig (s_toPartitionID env) partitions))) (\<lambda>config.
     bindE (check (s_SetControllerReference env (cst_Meta store)
              (newMeta (om_Namespace (cst_Meta store)) (om_Name (cst_Meta store))
                 (om_Labels (cst_Meta store)) Map.empty))) (\<lambda>meta.
     bindE (cl_Create (s_DataStores env)
              \<lparr>ds_Meta = meta, ds_Driver = (driverName, driverVersion), ds_Config = config\<rparr>) (\<lambda>_.
     ok noRequeue)))"

definition setStoreState :: "'w storeEnv \<Rightarrow> ConsensusStore \<Rightarrow> string \<Rightarrow> ('w, k8sError + reconcileResult) state" where
  "setStoreState env store st =
     bindE (cl_StatusUpdate (s_Stores env) (store\<lparr>cst_State := st\<rparr>)) (\<lambda>_. ok requeue)"

definition updateDataStore :: "'w storeEnv \<Rightarrow> ConsensusStore \<Rightarrow> MultiRaftCluster \<Rightarrow> RaftPartitionStatus list \<Rightarrow>
    DataStore \<Rightarrow> ('w, k8sError + reconcileResult) state" where
  "updateDataStore env store cluster partitions dataStore =
     bindE (check (s_Unmarshal env (ds_Config dataStore))) (\<lambda>config.
     (let newConfig = getProtocolConfig (s_toPartitionID env) partitions in
      if \<not> isProtocolConfigEqual config newConfig
      then bindE (check (s_Marshal env newConfig)) (\<lambda>s.
           bindE (cl_Update (s_DataStores env) (dataStore\<lparr>ds_Config := s\<rparr>)) (\<lambda>_. ok noRequeue))
      else if mst_State (mrc_Status cluster) = MultiRaftClusterReady \<and>
              cst_State store \<noteq> ConsensusStoreReady
      then setStoreState env store ConsensusStoreReady
      else ok noRequeue))"

text \<open>What follows once the cluster was read.\<close>

definition reconcileDataStore :: "'w storeEnv \<Rightarrow> ConsensusStore \<Rightarrow> MultiRaftCluster \<Rightarrow>
    ('w, k8sError + reconcileResult) state" where
  "reconcileDataStore env store cluster =
     (case mst_Partitions (mrc_Status cluster) of
        None \<Rightarrow> ok noRequeue
      | Some partitions \<Rightarrow>
          if mst_State (mrc_Status cluster) = MultiRaftClusterNotReady \<and>
             cst_State store \<noteq> ConsensusStoreNotReady
          then setStoreState env store ConsensusStoreNotReady
          else do {
            r \<leftarrow> cl_Get (s_DataStores env) (metaKey (cst_Meta store));
            (case r of
               Inl err \<Rightarrow>
                 if IsNotFound err then createDataStore env store partitions else fails err
             | Inr dataStore \<Rightarrow> updateDataStore env store cluster partitions dataStore)
          })"

text \<open>
  The error of reading the cluster is only looked at to find out whether the cluster is
  missing: after any other error the reconciliation goes on with the zero value.
\<close>

definition store_Reconcile :: "'w storeEnv \<Rightarrow> NamespacedName \<Rightarrow> ('w, k8sError + reconcileResult) state" where
  "store_Reconcile env request = do {
     r \<leftarrow> cl_Get (s_Stores env) request;
     (case r of
        Inl err \<Rightarrow> if IsNotFound err then ok noRequeue else fails err
      | Inr store \<Rightarrow> do {
          r' \<leftarrow> cl_Get (s_Clusters env) (metaKey (cst_Meta store));
          (case r' of
             Inl err \<Rightarrow>
               if IsNotFound err then createCluster env store
               else reconcileDataStore env store zeroCluster
           | Inr cluster \<Rightarrow> reconcileDataStore env store cluster)
        })
   }"

section \<open>The driver\<close>

text \<open>
  The driver's connection decodes the configuration of its specification and hands it to
  the protocol client of the runtime, a parameter.
\<close>

definition driverID :: "string \<times> string" where
  "driverID = (''Consensus'', ''v1beta1'')"

definition conn_Connect :: "('spec \<Rightarrow> k8sError + ProtocolConfig) \<Rightarrow>
    (ProtocolConfig \<Rightarrow> ('w, k8sError + unit) state) \<Rightarrow> 'spec \<Rightarrow> ('w, k8sError + unit) state" where
  "conn_Connect unmarshalConfig connect spec =
     bindE (check (unmarshalConfig spec)) (\<lambda>config. connect config)"

definition conn_Configure :: "('spec \<Rightarrow> k8sError + ProtocolConfig) \<Rightarrow>
    (ProtocolConfig \<Rightarrow> ('w, k8sError + unit) state) \<Rightarrow> 'spec \<Rightarrow> ('w, k8sError + unit) state" where
  "conn_Configure unmarshalConfig configure spec =
     bindE (check (unmarshalConfig spec)) (\<lambda>config. configure config)"

definition driver_Connect :: "('w, 'conn) state \<Rightarrow> ('spec \<Rightarrow> k8sError + ProtocolConfig) \<Rightarrow>
    ('conn \<Rightarrow> ProtocolConfig \<Rightarrow> ('w, k8sError + unit) state) \<Rightarrow> 'spec \<Rightarrow>
    ('w, k8sError + 'conn) state" where
  "driver_Connect newConn unmarshalConfig connect spec = do {
     conn \<leftarrow> newConn;
     bindE (conn_Connect unmarshalConfig (connect conn) spec) (\<lambda>_. ok conn)
   }"

section \<open>What is published\<close>

lemma isPartitionConfigEqual_iff:
  assumes "distinct (pcf_Followers p)" and "distinct (pcf_Followers q)"
  shows "isPartitionConfigEqual p q \<longleftrightarrow>
    pcf_Leader p = pcf_Leader q \<and> set (pcf_Followers p) = set (pcf_Followers q)"
proof -
  have "length (pcf_Followers p) = length (pcf_Followers q) \<and>
      set (pcf_Followers p) \<subseteq> set (pcf_Followers q) \<longleftrightarrow>
      set (pcf_Followers p) = set (pcf_Followers q)"
    using assms card_subset_eq [of "set (pcf_Followers q)" "set (pcf_Followers p)"]
    by (auto simp: distinct_card [symmetric])
  moreover have "list_all (\<lambda>f. f \<in> set (pcf_Followers q)) (pcf_Followers p) \<longleftrightarrow>
      set (pcf_Followers p) \<subseteq> set (pcf_Followers q)"
    by (auto simp: list_all_iff)
  ultimately show ?thesis by (auto simp: isPartitionConfigEqual_def)
qed

text \<open>A configuration says what the partitions say: same partitions, leaders and followers.\<close>

definition config_says :: "(int \<Rightarrow> int) \<Rightarrow> ProtocolConfig \<Rightarrow> RaftPartitionStatus list \<Rightarrow> bool" where
  "config_says toPartitionID config partitions \<longleftrightarrow>
     list_all2 (\<lambda>c p. pcf_PartitionID c = toPartitionID (ps_PartitionID p) \<and>
         pcf_Leader c = (case ps_Leader p of None \<Rightarrow> '''' | Some l \<Rightarrow> l) \<and>
         set (pcf_Followers c) = set (ps_Followers p))
       (prc_Partitions config) partitions"

lemma config_says_new: "config_says f (getProtocolConfig f partitions) partitions"
  by (simp add: config_says_def getProtocolConfig_def getPartitionConfig_def list_all2_map1
      list_all2_same)

text \<open>
  The configurations compared are of the same partitions in the same order, each listed
  once, with distinct followers: the stored one was published for an earlier state of the
  same partitions.
\<close>

definition same_partitions :: "(int \<Rightarrow> int) \<Rightarrow> ProtocolConfig \<Rightarrow> RaftPartitionStatus list \<Rightarrow> bool" where
  "same_partitions f config partitions \<longleftrightarrow>
     map pcf_PartitionID (prc_Partitions config) = map (f \<circ> ps_PartitionID) partitions \<and>
     distinct (map (f \<circ> ps_PartitionID) partitions) \<and>
     (\<forall>c \<in> set (prc_Partitions config). distinct (pcf_Followers c)) \<and>
     (\<forall>p \<in> set partitions. distinct (ps_Followers p))"

lemma isProtocolConfigEqual_says:
  assumes same: "same_partitions f config partitions"
    and eq: "isProtocolConfigEqual config (getProtocolConfig f partitions)"
  shows "config_says f config partitions"
proof -
  let ?cs = "prc_Partitions config"
  have ids: "map pcf_PartitionID ?cs = map (f \<circ> ps_PartitionID) partitions"
    using same by (simp add: same_partitions_def)
  then have len: "length ?cs = length partitions" by (metis length_map)
  have "pcf_PartitionID (?cs ! i) = f (ps_PartitionID (partitions ! i)) \<and>
      pcf_Leader (?cs ! i) = (case ps_Leader (partitions ! i) of None \<Rightarrow> '''' | Some l \<Rightarrow> l) \<and>
      set (pcf_Followers (?cs ! i)) = set (ps_Followers (partitions ! i))"
    if i: "i < length partitions" for i
  proof -
    let ?p = "getPartitionConfig f (partitions ! i)"
    have id: "pcf_PartitionID (?cs ! i) = pcf_PartitionID ?p"
      using ids i len by (metis comp_apply getPartitionConfig_def nth_map PartitionConfig.select_convs(1))
    have mem: "?cs ! i \<in> set ?cs" "?p \<in> set (map (getPartitionConfig f) partitions)"
      using i len by simp_all
    have "isPartitionConfigEqual (?cs ! i) ?p"
      using eq mem id by (auto simp: isProtocolConfigEqual_def getProtocolConfig_def list_all_iff
          split: if_splits)
    moreover have "distinct (pcf_Followers (?cs ! i))" "distinct (pcf_Followers ?p)"
      using same mem(1) i by (simp_all add: same_partitions_def getPartitionConfig_def)
    ultimately show ?thesis
      using id by (simp add: isPartitionConfigEqual_iff getPartitionConfig_def)
  qed
  with len show ?thesis by (simp add: config_says_def list_all2_conv_all_nth)
qed

section \<open>The store settles\<close>

text \<open>
  The laws the reconciliation of an existing store relies on: the three kinds of objects
  are read, created, updated and stored independently, and a controller reference leaves the name;
  and of the codec, that the configuration it is to publish can be marshalled and reads back as it
  was.
\<close>

definition store_laws :: "'w storeEnv \<Rightarrow> ('w \<Rightarrow> NamespacedName \<rightharpoonup> ConsensusStore) \<Rightarrow>
    ('w \<Rightarrow> NamespacedName \<rightharpoonup> MultiRaftCluster) \<Rightarrow> ('w \<Rightarrow> NamespacedName \<rightharpoonup> DataStore) \<Rightarrow> bool" where
  "store_laws env stores clusters datas \<longleftrightarrow>
     get_law stores (s_Stores env) \<and> get_law clusters (s_Clusters env) \<and> get_law datas (s_DataStores env) \<and>
     (\<forall>o' w. stores w (metaKey (cst_Meta o')) \<noteq> None \<longrightarrow>
        (\<exists>w'. run_state (cl_StatusUpdate (s_Stores env) o') w = (Inr o', w') \<and>
           stores w' = (stores w)(metaKey (cst_Meta o') \<mapsto> o') \<and>
           clusters w' = clusters w \<and> datas w' = datas w)) \<and>
     (\<forall>o' w. datas w (metaKey (ds_Meta o')) \<noteq> None \<longrightarrow>
        (\<exists>w'. run_state (cl_Update (s_DataStores env) o') w = (Inr o', w') \<and>
           datas w' = (datas w)(metaKey (ds_Meta o') \<mapsto> o') \<and>
           clusters w' = clusters w \<and> stores w' = stores w)) \<and>
     (\<forall>o' w. datas w (metaKey (ds_Meta o')) = None \<longrightarrow>
        (\<exists>o2 w'. run_state (cl_Create (s_DataStores env) o') w = (Inr o2, w') \<and>
           metaKey (ds_Meta o2) = metaKey (ds_Meta o') \<and> ds_Config o2 = ds_Config o' \<and>
           datas w' = (datas w)(metaKey (ds_Meta o') \<mapsto> o2) \<and>
           clusters w' = clusters w \<and> stores w' = stores w)) \<and>
     (\<forall>owner m. \<exists>m'. s_SetControllerReference env owner m = Inr m' \<and> metaKey m' = metaKey m)"

definition codec_at :: "'w storeEnv \<Rightarrow> ProtocolConfig \<Rightarrow> bool" where
  "codec_at env c \<longleftrightarrow> (\<exists>s. s_Marshal env c = Inr s \<and> s_Unmarshal env s = Inr c)"

text \<open>A world with the store, its cluster and its data store under the store's name.\<close>

definition store_world :: "'w storeEnv \<Rightarrow> ('w \<Rightarrow> NamespacedName \<rightharpoonup> ConsensusStore) \<Rightarrow>
    ('w \<Rightarrow> NamespacedName \<rightharpoonup> MultiRaftCluster) \<Rightarrow> ('w \<Rightarrow> NamespacedName \<rightharpoonup> DataStore) \<Rightarrow>
    NamespacedName \<Rightarrow> MultiRaftCluster \<Rightarrow> RaftPartitionStatus list \<Rightarrow>
    ConsensusStore \<Rightarrow> DataStore \<Rightarrow> ProtocolConfig \<Rightarrow> 'w \<Rightarrow> bool" where
  "store_world env stores clusters datas n cluster partitions store data config w \<longleftrightarrow>
     stores w n = Some store \<and> metaKey (cst_Meta store) = n \<and>
     clusters w n = Some cluster \<and> mst_Partitions (mrc_Status cluster) = Some partitions \<and>
     datas w n = Some data \<and> metaKey (ds_Meta data) = n \<and>
     s_Unmarshal env (ds_Config data) = Inr config \<and>
     same_partitions (s_toPartitionID env) config partitions"

definition state_due :: "MultiRaftCluster \<Rightarrow> ConsensusStore \<Rightarrow> bool" where
  "state_due cluster store \<longleftrightarrow>
     mst_State (mrc_Status cluster) \<in> {MultiRaftClusterReady, MultiRaftClusterNotReady} \<and>
     cst_State store \<noteq> mst_State (mrc_Status cluster)"

definition config_due :: "'w storeEnv \<Rightarrow> ProtocolConfig \<Rightarrow> RaftPartitionStatus list \<Rightarrow> bool" where
  "config_due env config partitions \<longleftrightarrow>
     \<not> isProtocolConfigEqual config (getProtocolConfig (s_toPartitionID env) partitions)"

definition store_rank :: "'w storeEnv \<Rightarrow> MultiRaftCluster \<Rightarrow> RaftPartitionStatus list \<Rightarrow>
    ConsensusStore \<Rightarrow> ProtocolConfig \<Rightarrow> nat" where
  "store_rank env cluster partitions store config =
     (if state_due cluster store then 1 else 0) + (if config_due env config partitions then 1 else 0)"

lemma isProtocolConfigEqual_refl:
  assumes "distinct (map (f \<circ> ps_PartitionID) partitions)"
  shows "isProtocolConfigEqual (getProtocolConfig f partitions) (getProtocolConfig f partitions)"
proof -
  have "p = q" if "p \<in> set partitions" "q \<in> set partitions" "f (ps_PartitionID p) = f (ps_PartitionID q)" for p q
    using assms that by (auto simp: distinct_map inj_on_def)
  moreover have "isPartitionConfigEqual c c" for c
    by (simp add: isPartitionConfigEqual_def list_all_iff)
  ultimately show ?thesis
    by (fastforce simp: isProtocolConfigEqual_def getProtocolConfig_def getPartitionConfig_def list_all_iff)
qed

lemma same_partitions_new:
  "same_partitions f config partitions \<Longrightarrow> same_partitions f (getProtocolConfig f partitions) partitions"
  by (auto simp: same_partitions_def getProtocolConfig_def getPartitionConfig_def comp_def)

lemma run_store_Reconcile:
  assumes laws: "store_laws env stores clusters datas"
    and world: "store_world env stores clusters datas n cluster partitions store data config w"
  shows "run_state (store_Reconcile env n) w =
    (if mst_State (mrc_Status cluster) = MultiRaftClusterNotReady \<and> cst_State store \<noteq> ConsensusStoreNotReady
     then run_state (setStoreState env store ConsensusStoreNotReady) w
     else run_state (updateDataStore env store cluster partitions data) w)"
  using laws world
  by (simp add: store_Reconcile_def reconcileDataStore_def store_laws_def store_world_def
      run_Get [where view = stores] run_Get [where view = clusters] run_Get [where view = datas])

lemma store_Reconcile_progress:
  assumes laws: "store_laws env stores clusters datas"
    and codec: "codec_at env (getProtocolConfig (s_toPartitionID env) partitions)"
    and world: "store_world env stores clusters datas n cluster partitions store data config w"
    and rank: "store_rank env cluster partitions store config \<le> Suc k"
  shows "\<exists>store' data' config'. store_world env stores clusters datas n cluster partitions
      store' data' config' (snd (run_state (store_Reconcile env n) w)) \<and>
    store_rank env cluster partitions store' config' \<le> k"
proof -
  note run = run_store_Reconcile [OF laws world]
  note w = world [unfolded store_world_def]
  have set_state: "\<exists>w'. run_state (setStoreState env store st) w = (Inr requeue, w') \<and>
      store_world env stores clusters datas n cluster partitions (store\<lparr>cst_State := st\<rparr>) data config w'" for st
  proof -
    have "stores w (metaKey (cst_Meta (store\<lparr>cst_State := st\<rparr>))) \<noteq> None" using w by simp
    with laws obtain w' where "run_state (cl_StatusUpdate (s_Stores env) (store\<lparr>cst_State := st\<rparr>)) w =
        (Inr (store\<lparr>cst_State := st\<rparr>), w')"
      "stores w' = (stores w)(metaKey (cst_Meta (store\<lparr>cst_State := st\<rparr>)) \<mapsto> store\<lparr>cst_State := st\<rparr>)"
      "clusters w' = clusters w" "datas w' = datas w"
      unfolding store_laws_def by blast
    with w show ?thesis by (auto simp: setStoreState_def run_bindE store_world_def)
  qed
  have state_done: ?thesis if run_set: "run_state (store_Reconcile env n) w = run_state (setStoreState env store st) w"
    and st: "st = mst_State (mrc_Status cluster)" and due: "state_due cluster store" for st
  proof -
    obtain w' where w': "run_state (setStoreState env store st) w = (Inr requeue, w')"
      "store_world env stores clusters datas n cluster partitions (store\<lparr>cst_State := st\<rparr>) data config w'"
      using set_state by blast
    have "\<not> state_due cluster (store\<lparr>cst_State := st\<rparr>)" by (simp add: state_due_def st)
    then have "store_rank env cluster partitions (store\<lparr>cst_State := st\<rparr>) config \<le> k"
      using rank due by (simp add: store_rank_def)
    with w' show ?thesis unfolding run_set by auto
  qed
  show ?thesis
  proof (cases "mst_State (mrc_Status cluster) = MultiRaftClusterNotReady \<and> cst_State store \<noteq> ConsensusStoreNotReady")
    case True
    then have "state_due cluster store" by (simp add: state_due_def state_strings)
    moreover have "ConsensusStoreNotReady = mst_State (mrc_Status cluster)"
      using True by (simp add: state_strings)
    ultimately show ?thesis using True by (intro state_done [of ConsensusStoreNotReady]) (simp_all add: run)
  next
    case False
    then have step: "run_state (store_Reconcile env n) w =
        run_state (updateDataStore env store cluster partitions data) w"
      unfolding run by (rule if_not_P)
    show ?thesis
    proof (cases "config_due env config partitions")
      case True
      let ?new = "getProtocolConfig (s_toPartitionID env) partitions"
      obtain s where s: "s_Marshal env ?new = Inr s" "s_Unmarshal env s = Inr ?new"
        using codec unfolding codec_at_def by blast
      have "datas w (metaKey (ds_Meta (data\<lparr>ds_Config := s\<rparr>))) \<noteq> None" using w by simp
      with laws obtain w' where "run_state (cl_Update (s_DataStores env) (data\<lparr>ds_Config := s\<rparr>)) w =
          (Inr (data\<lparr>ds_Config := s\<rparr>), w')"
        "datas w' = (datas w)(metaKey (ds_Meta (data\<lparr>ds_Config := s\<rparr>)) \<mapsto> data\<lparr>ds_Config := s\<rparr>)"
        "clusters w' = clusters w" "stores w' = stores w"
        unfolding store_laws_def by blast
      then have "store_world env stores clusters datas n cluster partitions store (data\<lparr>ds_Config := s\<rparr>) ?new
          (snd (run_state (store_Reconcile env n) w))"
        using w s True same_partitions_new
        unfolding step
        by (auto simp: updateDataStore_def run_bindE config_due_def store_world_def Let_def)
      moreover have "\<not> config_due env ?new partitions"
        using w isProtocolConfigEqual_refl by (simp add: config_due_def same_partitions_def)
      then have "store_rank env cluster partitions store ?new \<le> k"
        using rank True by (simp add: store_rank_def)
      ultimately show ?thesis by blast
    next
      case False': False
      show ?thesis
      proof (cases "state_due cluster store")
        case True
        then have ready: "mst_State (mrc_Status cluster) = MultiRaftClusterReady"
          "cst_State store \<noteq> ConsensusStoreReady" "ConsensusStoreReady = mst_State (mrc_Status cluster)"
          using False by (auto simp: state_due_def state_strings)
        then have "run_state (store_Reconcile env n) w = run_state (setStoreState env store ConsensusStoreReady) w"
          using False' w unfolding step
          by (simp add: updateDataStore_def run_bindE config_due_def Let_def)
        then show ?thesis using ready(3) True by (rule state_done)
      next
        case settled: False
        then have "run_state (store_Reconcile env n) w = (Inr noRequeue, w)"
          using False' w False unfolding step
          by (auto simp: updateDataStore_def run_bindE config_due_def Let_def state_due_def state_strings)
        with world settled False' show ?thesis by (auto simp: store_rank_def)
      qed
    qed
  qed
qed

text \<open>
  Two environments that read alike: they differ at most in what writing and creating objects does.
\<close>

definition store_reads_alike :: "'w storeEnv \<Rightarrow> 'w storeEnv \<Rightarrow> bool" where
  "store_reads_alike env env' \<longleftrightarrow>
     cl_Get (s_Stores env') = cl_Get (s_Stores env) \<and> cl_Get (s_Clusters env') = cl_Get (s_Clusters env) \<and>
     cl_Get (s_DataStores env') = cl_Get (s_DataStores env) \<and>
     s_SetControllerReference env' = s_SetControllerReference env \<and> s_Marshal env' = s_Marshal env \<and>
     s_Unmarshal env' = s_Unmarshal env \<and> s_toPartitionID env' = s_toPartitionID env"

text \<open>With nothing left to do, a reconciliation only reads: it is the same run whatever writing does.\<close>

lemma store_Reconcile_settled:
  assumes laws: "store_laws env stores clusters datas"
    and world: "store_world env stores clusters datas n cluster partitions store data config w"
    and rank: "store_rank env cluster partitions store config = 0"
    and alike: "store_reads_alike env env'"
  shows "run_state (store_Reconcile env' n) w = (Inr noRequeue, w)"
proof -
  have gets: "get_law stores (s_Stores env')" "get_law clusters (s_Clusters env')" "get_law datas (s_DataStores env')"
    using laws alike by (simp_all add: store_laws_def store_reads_alike_def get_law_def)
  have same: "s_Unmarshal env' = s_Unmarshal env" "s_toPartitionID env' = s_toPartitionID env"
    using alike by (simp_all add: store_reads_alike_def)
  have settled: "\<not> state_due cluster store" "\<not> config_due env config partitions"
    using rank by (auto simp: store_rank_def split: if_splits)
  then have "run_state (store_Reconcile env' n) w = run_state (updateDataStore env' store cluster partitions data) w"
    using world
    by (auto simp: store_Reconcile_def reconcileDataStore_def store_world_def state_due_def state_strings
      run_Get [OF gets(1)] run_Get [OF gets(2)] run_Get [OF gets(3)])
  also have "\<dots> = (Inr noRequeue, w)"
    using world settled
    by (auto simp: updateDataStore_def run_bindE config_due_def store_world_def Let_def state_due_def state_strings same)
  finally show ?thesis .
qed

text \<open>
  The store and its cluster are there with the cluster's partitions published; the data store may
  be missing, and otherwise holds a configuration published for an earlier state.
\<close>

definition store_present :: "'w storeEnv \<Rightarrow> ('w \<Rightarrow> NamespacedName \<rightharpoonup> ConsensusStore) \<Rightarrow>
    ('w \<Rightarrow> NamespacedName \<rightharpoonup> MultiRaftCluster) \<Rightarrow> ('w \<Rightarrow> NamespacedName \<rightharpoonup> DataStore) \<Rightarrow>
    NamespacedName \<Rightarrow> MultiRaftCluster \<Rightarrow> RaftPartitionStatus list \<Rightarrow> 'w \<Rightarrow> bool" where
  "store_present env stores clusters datas n cluster partitions w \<longleftrightarrow>
     (\<exists>store. stores w n = Some store \<and> metaKey (cst_Meta store) = n) \<and>
     clusters w n = Some cluster \<and> mst_Partitions (mrc_Status cluster) = Some partitions \<and>
     distinct (map (s_toPartitionID env \<circ> ps_PartitionID) partitions) \<and>
     (\<forall>p \<in> set partitions. distinct (ps_Followers p)) \<and>
     (\<forall>data. datas w n = Some data \<longrightarrow> metaKey (ds_Meta data) = n \<and>
        (\<exists>config. s_Unmarshal env (ds_Config data) = Inr config \<and>
           same_partitions (s_toPartitionID env) config partitions))"

lemma store_present_world:
  assumes "store_present env stores clusters datas n cluster partitions w" and "datas w n = Some data"
  obtains store config where "store_world env stores clusters datas n cluster partitions store data config w"
  using assms by (auto simp: store_present_def store_world_def)

lemma store_present_step:
  assumes laws: "store_laws env stores clusters datas"
    and codec: "codec_at env (getProtocolConfig (s_toPartitionID env) partitions)"
    and present: "store_present env stores clusters datas n cluster partitions w"
    and none: "datas w n = None"
  shows "\<exists>w'. snd (run_state (store_Reconcile env n) w) = w' \<and>
    store_present env stores clusters datas n cluster partitions w' \<and>
    (datas w' n = None \<longrightarrow> (\<exists>store. stores w n = Some store \<and> mst_State (mrc_Status cluster) = MultiRaftClusterNotReady \<and>
       cst_State store \<noteq> ConsensusStoreNotReady) \<and>
     (\<exists>store. stores w' n = Some store \<and> cst_State store = ConsensusStoreNotReady))"
proof -
  obtain store where store: "stores w n = Some store" "metaKey (cst_Meta store) = n"
    using present by (auto simp: store_present_def)
  note w = present [unfolded store_present_def]
  have run: "run_state (store_Reconcile env n) w =
      run_state (if mst_State (mrc_Status cluster) = MultiRaftClusterNotReady \<and> cst_State store \<noteq> ConsensusStoreNotReady
        then setStoreState env store ConsensusStoreNotReady else createDataStore env store partitions) w"
    using laws w store none
    by (simp add: store_Reconcile_def reconcileDataStore_def store_laws_def IsNotFound_def
        run_Get [where view = stores] run_Get [where view = clusters] run_Get [where view = datas])
  show ?thesis
  proof (cases "mst_State (mrc_Status cluster) = MultiRaftClusterNotReady \<and> cst_State store \<noteq> ConsensusStoreNotReady")
    case True
    let ?store = "store\<lparr>cst_State := ConsensusStoreNotReady\<rparr>"
    have "stores w (metaKey (cst_Meta ?store)) \<noteq> None" using store by simp
    with laws obtain w' where "run_state (cl_StatusUpdate (s_Stores env) ?store) w = (Inr ?store, w')"
      "stores w' = (stores w)(metaKey (cst_Meta ?store) \<mapsto> ?store)" "clusters w' = clusters w" "datas w' = datas w"
      unfolding store_laws_def by blast
    with True store w none show ?thesis
      by (simp add: run setStoreState_def run_bindE store_present_def)
  next
    case False
    let ?config = "getProtocolConfig (s_toPartitionID env) partitions"
    obtain s where s: "s_Marshal env ?config = Inr s" "s_Unmarshal env s = Inr ?config"
      using codec unfolding codec_at_def by blast
    obtain meta where meta: "s_SetControllerReference env (cst_Meta store)
          (newMeta (om_Namespace (cst_Meta store)) (om_Name (cst_Meta store)) (om_Labels (cst_Meta store)) Map.empty) = Inr meta"
        "metaKey meta = n"
      using laws store(2) unfolding store_laws_def
      by (metis (no_types, lifting) ObjectMeta.select_convs(1,2) metaKey_def newMeta_def)
    let ?o = "\<lparr>ds_Meta = meta, ds_Driver = (driverName, driverVersion), ds_Config = s\<rparr>"
    have "datas w (metaKey (ds_Meta ?o)) = None" using meta(2) none by simp
    with laws obtain o2 w' where o2: "run_state (cl_Create (s_DataStores env) ?o) w = (Inr o2, w')"
      "metaKey (ds_Meta o2) = metaKey (ds_Meta ?o)" "ds_Config o2 = ds_Config ?o"
      "datas w' = (datas w)(metaKey (ds_Meta ?o) \<mapsto> o2)" "clusters w' = clusters w" "stores w' = stores w"
      unfolding store_laws_def by blast
    have "same_partitions (s_toPartitionID env) ?config partitions"
      using w by (auto simp: same_partitions_def getProtocolConfig_def getPartitionConfig_def comp_def)
    then have "store_present env stores clusters datas n cluster partitions w'"
      using w o2 meta(2) s(2) by (auto simp: store_present_def)
    with False s(1) meta o2 show ?thesis
      by (auto simp: run createDataStore_def run_bindE)
  qed
qed

lemma store_world_settles:
  assumes laws: "store_laws env stores clusters datas"
    and codec: "codec_at env (getProtocolConfig (s_toPartitionID env) partitions)"
    and world: "store_world env stores clusters datas n cluster partitions store data config w"
    and "2 \<le> k"
  shows "\<exists>store' data' config'. store_world env stores clusters datas n cluster partitions store' data' config'
      (((\<lambda>w. snd (run_state (store_Reconcile env n) w)) ^^ k) w) \<and>
    store_rank env cluster partitions store' config' = 0"
proof -
  let ?step = "\<lambda>w. snd (run_state (store_Reconcile env n) w)"
  have "\<exists>store' data' config'. store_world env stores clusters datas n cluster partitions
      store' data' config' ((?step ^^ j) w) \<and> store_rank env cluster partitions store' config' \<le> 2 - j" for j
  proof (induction j)
    case 0
    show ?case using world by (auto simp: store_rank_def)
  next
    case (Suc j)
    then obtain store' data' config' where "store_world env stores clusters datas n cluster partitions
      store' data' config' ((?step ^^ j) w)" "store_rank env cluster partitions store' config' \<le> Suc (2 - Suc j)"
      by fastforce
    from store_Reconcile_progress [OF laws codec this] show ?case by simp
  qed
  from this [of k] assms(4) show ?thesis by simp
qed

lemma store_data_created:
  assumes laws: "store_laws env stores clusters datas"
    and codec: "codec_at env (getProtocolConfig (s_toPartitionID env) partitions)"
    and present: "store_present env stores clusters datas n cluster partitions w"
  shows "\<exists>j \<le> 2. store_present env stores clusters datas n cluster partitions
      (((\<lambda>w. snd (run_state (store_Reconcile env n) w)) ^^ j) w) \<and>
    datas (((\<lambda>w. snd (run_state (store_Reconcile env n) w)) ^^ j) w) n \<noteq> None"
proof (cases "datas w n = None")
  case True
  let ?step = "\<lambda>w. snd (run_state (store_Reconcile env n) w)"
  note step1 = store_present_step [OF laws codec present True]
  show ?thesis
  proof (cases "datas (?step w) n = None")
    case True
    have "store_present env stores clusters datas n cluster partitions (?step w)" using step1 by blast
    from store_present_step [OF laws codec this True] step1 True show ?thesis
      by (intro exI [of _ 2]) (auto simp: numeral_2_eq_2)
  next
    case False
    with step1 show ?thesis by (intro exI [of _ 1]) auto
  qed
qed (use present in \<open>auto intro!: exI [of _ 0]\<close>)

lemma store_settles_ranked:
  assumes laws: "store_laws env stores clusters datas"
    and codec: "codec_at env (getProtocolConfig (s_toPartitionID env) partitions)"
    and present: "store_present env stores clusters datas n cluster partitions w"
    and "4 \<le> k"
  shows "\<exists>store' data' config'. store_world env stores clusters datas n cluster partitions store' data' config'
      (((\<lambda>w. snd (run_state (store_Reconcile env n) w)) ^^ k) w) \<and>
    config_says (s_toPartitionID env) config' partitions \<and> store_rank env cluster partitions store' config' = 0"
proof -
  let ?step = "\<lambda>w. snd (run_state (store_Reconcile env n) w)"
  obtain j where j: "j \<le> 2" "store_present env stores clusters datas n cluster partitions ((?step ^^ j) w)"
      "datas ((?step ^^ j) w) n \<noteq> None"
    using store_data_created [OF laws codec present] by blast
  then obtain data where "datas ((?step ^^ j) w) n = Some data" by blast
  with j(2) obtain store config where
    "store_world env stores clusters datas n cluster partitions store data config ((?step ^^ j) w)"
    by (rule store_present_world)
  moreover have "2 \<le> k - j" using j(1) assms(4) by simp
  ultimately obtain store' data' config' where
    "store_world env stores clusters datas n cluster partitions store' data' config' ((?step ^^ (k - j)) ((?step ^^ j) w))"
    "store_rank env cluster partitions store' config' = 0"
    using store_world_settles [OF laws codec] by blast
  moreover have "k = k - j + j" using j(1) assms(4) by simp
  then have "(?step ^^ k) w = (?step ^^ (k - j)) ((?step ^^ j) w)"
    by (metis (no_types) comp_apply funpow_add)
  moreover from calculation have "config_says (s_toPartitionID env) config' partitions"
    using isProtocolConfigEqual_says by (auto simp: store_rank_def config_due_def store_world_def split: if_splits)
  ultimately show ?thesis by auto
qed

lemma store_settles_within:
  assumes laws: "store_laws env stores clusters datas"
    and codec: "codec_at env (getProtocolConfig (s_toPartitionID env) partitions)"
    and present: "store_present env stores clusters datas n cluster partitions w"
    and "4 \<le> k"
  shows "\<exists>store' data' config'. store_world env stores clusters datas n cluster partitions store' data' config'
      (((\<lambda>w. snd (run_state (store_Reconcile env n) w)) ^^ k) w) \<and>
    config_says (s_toPartitionID env) config' partitions \<and> \<not> state_due cluster store'"
  using store_settles_ranked [OF assms] by (auto simp: store_rank_def split: if_splits)

section \<open>Properties\<close>

text \<open>
  C22. A store settles: once the store's cluster publishes its partitions, four reconciliations are
  enough, whether the data store is still to be created or holds an earlier configuration, for the
  data store to hold a configuration that names the cluster's partitions with their current leaders
  and followers, and for the store's state to be the cluster's, as long as the cluster is ready or
  not ready. From then on nothing is written any more: a reconciliation reports success without
  a requeue and leaves everything as it is, and does so whatever writing or creating an object would do.
\<close>

theorem store_settles:
  assumes laws: "store_laws env stores clusters datas"
    and codec: "codec_at env (getProtocolConfig (s_toPartitionID env) partitions)"
    and present: "store_present env stores clusters datas n cluster partitions w"
    and "4 \<le> k"
  shows "\<exists>store' data' config'.
    stores (((\<lambda>w. snd (run_state (store_Reconcile env n) w)) ^^ k) w) n = Some store' \<and>
    datas (((\<lambda>w. snd (run_state (store_Reconcile env n) w)) ^^ k) w) n = Some data' \<and>
    s_Unmarshal env (ds_Config data') = Inr config' \<and>
    config_says (s_toPartitionID env) config' partitions \<and>
    (mst_State (mrc_Status cluster) \<in> {MultiRaftClusterReady, MultiRaftClusterNotReady} \<longrightarrow>
       cst_State store' = mst_State (mrc_Status cluster)) \<and>
    (\<forall>env'. store_reads_alike env env' \<longrightarrow>
       run_state (store_Reconcile env' n) (((\<lambda>w. snd (run_state (store_Reconcile env n) w)) ^^ k) w) =
         (Inr noRequeue, ((\<lambda>w. snd (run_state (store_Reconcile env n) w)) ^^ k) w))"
proof -
  let ?w = "((\<lambda>w. snd (run_state (store_Reconcile env n) w)) ^^ k) w"
  obtain store' data' config' where
    world: "store_world env stores clusters datas n cluster partitions store' data' config' ?w" and
    says: "config_says (s_toPartitionID env) config' partitions" and
    rank: "store_rank env cluster partitions store' config' = 0"
    using store_settles_ranked [OF assms] by blast
  have "\<not> state_due cluster store'" using rank by (simp add: store_rank_def split: if_splits)
  then have "mst_State (mrc_Status cluster) \<in> {MultiRaftClusterReady, MultiRaftClusterNotReady} \<longrightarrow>
      cst_State store' = mst_State (mrc_Status cluster)"
    by (auto simp: state_due_def)
  moreover have "stores ?w n = Some store'" "datas ?w n = Some data'" "s_Unmarshal env (ds_Config data') = Inr config'"
    using world by (auto simp: store_world_def)
  moreover note store_Reconcile_settled [OF laws world rank]
  ultimately show ?thesis using says by blast
qed

text \<open>
  A failure to read the cluster is swallowed: if the cluster cannot be read for any
  reason other than its absence, the reconciliation reports success and asks for no retry,
  so the store stays as it is until something else changes.
\<close>

lemma cluster_read_error_is_swallowed:
  assumes "run_state (cl_Get (s_Stores env) n) w = (Inr store, w1)"
    and "run_state (cl_Get (s_Clusters env) (metaKey (cst_Meta store))) w1 = (Inl (OtherError err), w2)"
  shows "run_state (store_Reconcile env n) w = (Inr noRequeue, w2)"
  using assms by (simp add: store_Reconcile_def reconcileDataStore_def zeroCluster_def IsNotFound_def)

section \<open>A store that settles\<close>

text \<open>
  A world of one ready cluster: the store and its data store can change. The codec knows
  the configuration last published and the one the cluster calls for.
\<close>

definition samplePartitions :: "RaftPartitionStatus list" where
  "samplePartitions = [\<lparr>ps_PartitionID = 1, ps_Leader = Some ''a'', ps_Followers = [''b'']\<rparr>]"

definition readyCluster :: MultiRaftCluster where
  "readyCluster = (newCluster sampleStore)\<lparr>mrc_Status :=
     \<lparr>mst_State = MultiRaftClusterReady, mst_Partitions = Some samplePartitions\<rparr>\<rparr>"

definition oldConfig :: ProtocolConfig where
  "oldConfig = \<lparr>prc_Partitions = [\<lparr>pcf_PartitionID = 1, pcf_Leader = '''', pcf_Followers = [''a'', ''b'']\<rparr>]\<rparr>"

definition sampleKey :: NamespacedName where
  "sampleKey = metaKey (cst_Meta sampleStore)"

definition sampleData :: DataStore where
  "sampleData = \<lparr>ds_Meta = cst_Meta sampleStore, ds_Driver = (driverName, driverVersion), ds_Config = ''old''\<rparr>"

type_synonym storeWorld = "(NamespacedName \<rightharpoonup> ConsensusStore) \<times> (NamespacedName \<rightharpoonup> DataStore)"

definition sampleStoreEnv :: "storeWorld storeEnv" where
  "sampleStoreEnv =
     \<lparr>s_Stores = (readOnly fst)\<lparr>cl_StatusUpdate := (\<lambda>x. State (\<lambda>(ss, ds).
        if ss (metaKey (cst_Meta x)) = None then (Inl NotFound, (ss, ds))
        else (Inr x, (ss(metaKey (cst_Meta x) \<mapsto> x), ds))))\<rparr>,
      s_Clusters = readOnly (\<lambda>_. [sampleKey \<mapsto> readyCluster]),
      s_DataStores = (readOnly snd)\<lparr>cl_Create := (\<lambda>x. State (\<lambda>(ss, ds).
        if ds (metaKey (ds_Meta x)) = None then (Inr x, (ss, ds(metaKey (ds_Meta x) \<mapsto> x)))
        else (Inl (OtherError ''exists''), (ss, ds)))),
        cl_Update := (\<lambda>x. State (\<lambda>(ss, ds).
        if ds (metaKey (ds_Meta x)) = None then (Inl NotFound, (ss, ds))
        else (Inr x, (ss, ds(metaKey (ds_Meta x) \<mapsto> x)))))\<rparr>,
      s_SetControllerReference = (\<lambda>_ m. Inr m),
      s_Marshal = (\<lambda>c. if c = getProtocolConfig id samplePartitions then Inr ''new'' else Inr ''old''),
      s_Unmarshal = (\<lambda>s. if s = ''new'' then Inr (getProtocolConfig id samplePartitions)
         else if s = ''old'' then Inr oldConfig else Inl (OtherError ''syntax'')),
      s_toPartitionID = id\<rparr>"

lemma sampleStore_laws:
  "store_laws sampleStoreEnv fst (\<lambda>_. [sampleKey \<mapsto> readyCluster]) snd"
  "codec_at sampleStoreEnv (getProtocolConfig (s_toPartitionID sampleStoreEnv) samplePartitions)"
  by (auto simp: store_laws_def sampleStoreEnv_def get_law_def readOnly_def codec_at_def)

lemma sampleStore_present:
  assumes "ds sampleKey \<in> {None, Some sampleData}"
  shows "store_present sampleStoreEnv fst (\<lambda>_. [sampleKey \<mapsto> readyCluster]) snd sampleKey readyCluster
    samplePartitions ([sampleKey \<mapsto> sampleStore], ds)"
  using assms
  by (auto simp: store_present_def sampleKey_def readyCluster_def sampleData_def sampleStoreEnv_def
      same_partitions_def oldConfig_def samplePartitions_def)

theorem store_settles_witness:
  "(\<exists>store'. fst (((\<lambda>w. snd (run_state (store_Reconcile sampleStoreEnv sampleKey) w)) ^^ 4)
      ([sampleKey \<mapsto> sampleStore], [sampleKey \<mapsto> sampleData])) sampleKey = Some store' \<and>
    cst_State store' = ''Ready'') \<and>
   run_state (store_Reconcile sampleStoreEnv sampleKey) (((\<lambda>w. snd (run_state (store_Reconcile sampleStoreEnv sampleKey) w)) ^^ 4)
      ([sampleKey \<mapsto> sampleStore], [sampleKey \<mapsto> sampleData])) =
     (Inr noRequeue, ((\<lambda>w. snd (run_state (store_Reconcile sampleStoreEnv sampleKey) w)) ^^ 4)
      ([sampleKey \<mapsto> sampleStore], [sampleKey \<mapsto> sampleData])) \<and>
   (\<exists>data'. snd (((\<lambda>w. snd (run_state (store_Reconcile sampleStoreEnv sampleKey) w)) ^^ 4)
      ([sampleKey \<mapsto> sampleStore], Map.empty)) sampleKey = Some data')"
proof -
  have ready: "mst_State (mrc_Status readyCluster) = ''Ready''"
    by (simp add: readyCluster_def MultiRaftClusterReady_def)
  have old: "store_present sampleStoreEnv fst (\<lambda>_. [sampleKey \<mapsto> readyCluster]) snd sampleKey readyCluster
      samplePartitions ([sampleKey \<mapsto> sampleStore], [sampleKey \<mapsto> sampleData])"
    and new: "store_present sampleStoreEnv fst (\<lambda>_. [sampleKey \<mapsto> readyCluster]) snd sampleKey readyCluster
      samplePartitions ([sampleKey \<mapsto> sampleStore], Map.empty)"
    by (intro sampleStore_present, simp)+
  have "\<exists>store'. fst (((\<lambda>w. snd (run_state (store_Reconcile sampleStoreEnv sampleKey) w)) ^^ 4)
      ([sampleKey \<mapsto> sampleStore], [sampleKey \<mapsto> sampleData])) sampleKey = Some store' \<and> cst_State store' = ''Ready''"
    using store_settles [OF sampleStore_laws old order_refl] ready
    unfolding MultiRaftClusterReady_def by (metis insertI1)
  moreover have "store_reads_alike sampleStoreEnv sampleStoreEnv" by (simp add: store_reads_alike_def)
  then have "run_state (store_Reconcile sampleStoreEnv sampleKey) (((\<lambda>w. snd (run_state (store_Reconcile sampleStoreEnv sampleKey) w)) ^^ 4)
      ([sampleKey \<mapsto> sampleStore], [sampleKey \<mapsto> sampleData])) =
     (Inr noRequeue, ((\<lambda>w. snd (run_state (store_Reconcile sampleStoreEnv sampleKey) w)) ^^ 4)
      ([sampleKey \<mapsto> sampleStore], [sampleKey \<mapsto> sampleData]))"
    using store_settles [OF sampleStore_laws old order_refl] by blast
  moreover have "\<exists>data'. snd (((\<lambda>w. snd (run_state (store_Reconcile sampleStoreEnv sampleKey) w)) ^^ 4)
      ([sampleKey \<mapsto> sampleStore], Map.empty)) sampleKey = Some data'"
    using store_settles [OF sampleStore_laws new order_refl] by blast
  ultimately show ?thesis by blast
qed

theorem cluster_read_error_is_swallowed_witness:
  "run_state (store_Reconcile (sampleStoreEnv\<lparr>s_Clusters := (s_Clusters sampleStoreEnv)\<lparr>
       cl_Get := (\<lambda>_. fails (OtherError ''timeout''))\<rparr>\<rparr>) sampleKey)
     ([sampleKey \<mapsto> sampleStore], Map.empty) = (Inr noRequeue, ([sampleKey \<mapsto> sampleStore], Map.empty))"
  by (rule cluster_read_error_is_swallowed [of _ _ _ sampleStore _ "''timeout''"])
    (simp_all add: sampleStoreEnv_def readOnly_def)

end
