(* ===== verification/ControllerMain.thy ===== *)
theory ControllerMain
  imports StoreReconcile PodWatch NodeMain
begin

text \<open>
  The controller's executable: which changes each of its three controllers is told of
  (\<^verbatim>\<open>addConsensusStoreController\<close> in \<^verbatim>\<open>store.go\<close>, \<^verbatim>\<open>addMultiRaftClusterController\<close> in
  \<^verbatim>\<open>cluster.go\<close>, \<^verbatim>\<open>addPodController\<close> in \<^verbatim>\<open>watcher.go\<close>, \<^verbatim>\<open>AddControllers\<close> in
  \<^verbatim>\<open>controller.go\<close>), the types it registers (\<^verbatim>\<open>register.go\<close>), and the command
  (\<^verbatim>\<open>controller/cmd/atomix-consensus-controller/main.go\<close>). The manager and the event handlers
  of controller-runtime are parameters.
\<close>

section \<open>Controllers and what they watch\<close>

datatype Kind =
    ConsensusStoreKind | MultiRaftClusterKind | RaftGroupKind | RaftMemberKind
  | StatefulSetKind | PodKind | DataStoreKind

datatype EventHandler =
    EnqueueRequestForObject
  | EnqueueRequestForOwner Kind bool
  | EnqueueRequestsFromMapFunc "ObjectMeta \<Rightarrow> NamespacedName list"

datatype Reconciler = MultiRaftStoreReconciler | MultiRaftClusterReconciler | PodReconciler

record controllerOptions =
  co_Reconciler :: Reconciler
  co_BaseDelay :: Duration
  co_MaxDelay :: Duration

definition newOptions :: "Reconciler \<Rightarrow> controllerOptions" where
  "newOptions r = \<lparr>co_Reconciler = r, co_BaseDelay = Millisecond * 10, co_MaxDelay = 5000 * Millisecond\<rparr>"

text \<open>The manager: creating a controller by its name, and having a controller watch a kind.\<close>

record ('w, 'c, 'e) manager =
  mg_New :: "string \<Rightarrow> controllerOptions \<Rightarrow> ('w, 'e + 'c) state"
  mg_Watch :: "'c \<Rightarrow> Kind \<Rightarrow> EventHandler \<Rightarrow> ('w, 'e + unit) state"

definition addConsensusStoreController :: "('w, 'c, 'e) manager \<Rightarrow> ('w, 'e + unit) state" where
  "addConsensusStoreController mgr =
     bindE (mg_New mgr ''atomix-consensus-store-v1beta1'' (newOptions MultiRaftStoreReconciler)) (\<lambda>c.
     bindE (mg_Watch mgr c ConsensusStoreKind EnqueueRequestForObject) (\<lambda>_.
     bindE (mg_Watch mgr c MultiRaftClusterKind (EnqueueRequestForOwner ConsensusStoreKind True)) (\<lambda>_.
     bindE (mg_Watch mgr c DataStoreKind (EnqueueRequestForOwner MultiRaftClusterKind True)) (\<lambda>_.
     ret (Inr ())))))"

definition addMultiRaftClusterController :: "('w, 'c, 'e) manager \<Rightarrow> ('w, 'e + unit) state" where
  "addMultiRaftClusterController mgr =
     bindE (mg_New mgr ''atomix-consensus-cluster-v3beta1'' (newOptions MultiRaftClusterReconciler)) (\<lambda>c.
     bindE (mg_Watch mgr c MultiRaftClusterKind EnqueueRequestForObject) (\<lambda>_.
     bindE (mg_Watch mgr c StatefulSetKind (EnqueueRequestForOwner MultiRaftClusterKind True)) (\<lambda>_.
     bindE (mg_Watch mgr c RaftGroupKind (EnqueueRequestForOwner MultiRaftClusterKind True)) (\<lambda>_.
     bindE (mg_Watch mgr c RaftMemberKind (EnqueueRequestForOwner MultiRaftClusterKind True)) (\<lambda>_.
     bindE (mg_Watch mgr c PodKind (EnqueueRequestsFromMapFunc podRequests)) (\<lambda>_.
     ret (Inr ())))))))"

definition addPodController :: "('w, 'c, 'e) manager \<Rightarrow> ('w, 'e + unit) state" where
  "addPodController mgr =
     bindE (mg_New mgr ''pod-v1'' (newOptions PodReconciler)) (\<lambda>c.
     bindE (mg_Watch mgr c PodKind EnqueueRequestForObject) (\<lambda>_.
     ret (Inr ())))"

definition AddControllers :: "('w, 'c, 'e) manager \<Rightarrow> ('w, 'e + unit) state" where
  "AddControllers mgr =
     bindE (addConsensusStoreController mgr) (\<lambda>_.
     bindE (addMultiRaftClusterController mgr) (\<lambda>_.
     bindE (addPodController mgr) (\<lambda>_.
     ret (Inr ()))))"

section \<open>What changes enqueue\<close>

text \<open>
  What creating a controller and having it watch a kind are documented to do: they register it, or
  return one of the errors \<open>E\<close>. With no errors, the manager accepts all registrations.
\<close>

type_synonym registration = "Reconciler \<times> Kind \<times> EventHandler"

text \<open>
  \<open>registers E view m Q xs\<close>: \<open>m\<close> succeeds with a result in \<open>Q\<close> and registers \<open>xs\<close>, or fails with
  an error in \<open>E\<close>.
\<close>

definition registers :: "'e set \<Rightarrow> ('w \<Rightarrow> registration list) \<Rightarrow> ('w, 'e + 'a) state \<Rightarrow> ('a \<Rightarrow> bool) \<Rightarrow>
    registration list \<Rightarrow> bool" where
  "registers E view m Q xs \<longleftrightarrow>
     (\<forall>w. (\<exists>err \<in> E. \<exists>w'. run_state m w = (Inl err, w')) \<or>
       (\<exists>x w'. run_state m w = (Inr x, w') \<and> Q x \<and> view w' = view w @ xs))"

definition registering :: "'e set \<Rightarrow> ('w \<Rightarrow> registration list) \<Rightarrow> ('w, 'c, 'e) manager \<Rightarrow> bool" where
  "registering E view mgr \<longleftrightarrow>
     (\<exists>reconciler. (\<forall>name opts. registers E view (mg_New mgr name opts)
          (\<lambda>c. reconciler c = co_Reconciler opts) []) \<and>
        (\<forall>c kind h. registers E view (mg_Watch mgr c kind h) (\<lambda>_. True) [(reconciler c, kind, h)]))"

definition controllerWatches :: "registration list" where
  "controllerWatches =
     [(MultiRaftStoreReconciler, ConsensusStoreKind, EnqueueRequestForObject),
      (MultiRaftStoreReconciler, MultiRaftClusterKind, EnqueueRequestForOwner ConsensusStoreKind True),
      (MultiRaftStoreReconciler, DataStoreKind, EnqueueRequestForOwner MultiRaftClusterKind True),
      (MultiRaftClusterReconciler, MultiRaftClusterKind, EnqueueRequestForObject),
      (MultiRaftClusterReconciler, StatefulSetKind, EnqueueRequestForOwner MultiRaftClusterKind True),
      (MultiRaftClusterReconciler, RaftGroupKind, EnqueueRequestForOwner MultiRaftClusterKind True),
      (MultiRaftClusterReconciler, RaftMemberKind, EnqueueRequestForOwner MultiRaftClusterKind True),
      (MultiRaftClusterReconciler, PodKind, EnqueueRequestsFromMapFunc podRequests),
      (PodReconciler, PodKind, EnqueueRequestForObject)]"

lemma registers_bindE:
  assumes "registers E view m Q xs" and "\<And>x. Q x \<Longrightarrow> registers E view (f x) R ys" and "zs = xs @ ys"
  shows "registers E view (bindE m f) R zs"
  unfolding registers_def
proof
  fix w
  consider (error) err w1 where "err \<in> E" "run_state m w = (Inl err, w1)"
    | (result) x w1 where "run_state m w = (Inr x, w1)" "Q x" "view w1 = view w @ xs"
    using assms(1) unfolding registers_def by metis
  then show "(\<exists>err \<in> E. \<exists>w'. run_state (bindE m f) w = (Inl err, w')) \<or>
      (\<exists>y w'. run_state (bindE m f) w = (Inr y, w') \<and> R y \<and> view w' = view w @ zs)"
  proof cases
    case result
    with assms(2) [OF result(2), unfolded registers_def, rule_format, of w1] assms(3) show ?thesis
      by (auto simp: run_bindE)
  qed (auto simp: run_bindE)
qed

lemma registers_done: "registers E view (ret (Inr x)) (\<lambda>_. True) []"
  by (simp add: registers_def)

lemma AddControllers_registers:
  assumes "registering E view mgr"
  shows "registers E view (AddControllers mgr) (\<lambda>_. True) controllerWatches"
proof -
  obtain reconciler where
    new: "\<And>name opts. registers E view (mg_New mgr name opts) (\<lambda>c. reconciler c = co_Reconciler opts) []" and
    watch: "\<And>c kind h. registers E view (mg_Watch mgr c kind h) (\<lambda>_. True) [(reconciler c, kind, h)]"
    using assms unfolding registering_def by blast
  note step = registers_bindE [OF watch] and first = registers_bindE [OF new]
  have a: "registers E view (addConsensusStoreController mgr) (\<lambda>_. True) (take 3 controllerWatches)"
    unfolding addConsensusStoreController_def
    by (rule first, (rule step)+, rule registers_done)
       (simp_all add: newOptions_def controllerWatches_def)
  have b: "registers E view (addMultiRaftClusterController mgr) (\<lambda>_. True) (take 5 (drop 3 controllerWatches))"
    unfolding addMultiRaftClusterController_def
    by (rule first, (rule step)+, rule registers_done)
       (simp_all add: newOptions_def controllerWatches_def)
  have c: "registers E view (addPodController mgr) (\<lambda>_. True) (drop 8 controllerWatches)"
    unfolding addPodController_def
    by (rule first, (rule step)+, rule registers_done)
       (simp_all add: newOptions_def controllerWatches_def)
  show ?thesis
    unfolding AddControllers_def
    by (rule registers_bindE [OF a], rule registers_bindE [OF b], rule registers_bindE [OF c],
        rule registers_done) (simp_all add: controllerWatches_def)
qed

text \<open>
  What the handlers are documented to enqueue: the object itself, what the function maps it to,
  or its controlling owner, if that is of the handler's kind, in the namespace of the object.
  \<open>controllerOf\<close> reads the controlling owner from an object's references; setting such a reference
  makes the given object the controlling owner, and adding another reference does not change it.
\<close>

definition handler_law :: "(ObjectMeta \<Rightarrow> (Kind \<times> string) option) \<Rightarrow>
    (EventHandler \<Rightarrow> ObjectMeta \<Rightarrow> NamespacedName list) \<Rightarrow> bool" where
  "handler_law controllerOf enqueue \<longleftrightarrow>
     (\<forall>m. enqueue EnqueueRequestForObject m = [metaKey m]) \<and>
     (\<forall>f m. enqueue (EnqueueRequestsFromMapFunc f) m = f m) \<and>
     (\<forall>kind m. enqueue (EnqueueRequestForOwner kind True) m =
        (case controllerOf m of
           None \<Rightarrow> []
         | Some (k, owner) \<Rightarrow>
             if k = kind then [\<lparr>nn_Namespace = om_Namespace m, nn_Name = owner\<rparr>] else []))"

definition controller_reference_law :: "(ObjectMeta \<Rightarrow> (Kind \<times> string) option) \<Rightarrow> Kind \<Rightarrow>
    (ObjectMeta \<Rightarrow> ObjectMeta \<Rightarrow> k8sError + ObjectMeta) \<Rightarrow> bool" where
  "controller_reference_law controllerOf kind setReference \<longleftrightarrow>
     (\<forall>owner m m'. setReference owner m = Inr m' \<longrightarrow>
        controllerOf m' = Some (kind, om_Name owner) \<and> metaKey m' = metaKey m)"

definition owner_reference_law :: "(ObjectMeta \<Rightarrow> (Kind \<times> string) option) \<Rightarrow>
    (ObjectMeta \<Rightarrow> ObjectMeta \<Rightarrow> k8sError + ObjectMeta) \<Rightarrow> bool" where
  "owner_reference_law controllerOf setReference \<longleftrightarrow>
     (\<forall>owner m m'. setReference owner m = Inr m' \<longrightarrow>
        controllerOf m' = controllerOf m \<and> metaKey m' = metaKey m)"

text \<open>Which reconcilers are asked to look at what, once an object of a kind has changed.\<close>

definition requests :: "(EventHandler \<Rightarrow> ObjectMeta \<Rightarrow> NamespacedName list) \<Rightarrow> registration list \<Rightarrow>
    Kind \<Rightarrow> ObjectMeta \<Rightarrow> (Reconciler \<times> NamespacedName) list" where
  "requests enqueue watches kind m =
     concat (map (\<lambda>(r, k, h). if k = kind then map (Pair r) (enqueue h m) else []) watches)"

lemma requests_of:
  assumes "handler_law controllerOf enqueue"
  shows "requests enqueue controllerWatches MultiRaftClusterKind m =
      (case controllerOf m of
         Some (ConsensusStoreKind, owner) \<Rightarrow>
           [(MultiRaftStoreReconciler, \<lparr>nn_Namespace = om_Namespace m, nn_Name = owner\<rparr>)]
       | _ \<Rightarrow> []) @ [(MultiRaftClusterReconciler, metaKey m)]"
    and "kind \<in> {StatefulSetKind, RaftGroupKind, RaftMemberKind} \<Longrightarrow>
      requests enqueue controllerWatches kind m =
        (case controllerOf m of
           Some (MultiRaftClusterKind, owner) \<Rightarrow>
             [(MultiRaftClusterReconciler, \<lparr>nn_Namespace = om_Namespace m, nn_Name = owner\<rparr>)]
         | _ \<Rightarrow> [])"
    and "requests enqueue controllerWatches DataStoreKind m =
      (case controllerOf m of
         Some (MultiRaftClusterKind, owner) \<Rightarrow>
           [(MultiRaftStoreReconciler, \<lparr>nn_Namespace = om_Namespace m, nn_Name = owner\<rparr>)]
       | _ \<Rightarrow> [])"
    and "requests enqueue controllerWatches PodKind m =
      map (Pair MultiRaftClusterReconciler) (podRequests m) @ [(PodReconciler, metaKey m)]"
    and "requests enqueue controllerWatches ConsensusStoreKind m = [(MultiRaftStoreReconciler, metaKey m)]"
  using assms
  by (auto simp: requests_def controllerWatches_def handler_law_def split: option.splits prod.splits Kind.splits)

lemma watches_registered:
  assumes "registering {} view mgr" and "view w = []"
  shows "fst (run_state (AddControllers mgr) w) = Inr ()"
    and "view (snd (run_state (AddControllers mgr) w)) = controllerWatches"
proof -
  obtain x w' where "run_state (AddControllers mgr) w = (Inr x, w')" "view w' = view w @ controllerWatches"
    using AddControllers_registers [OF assms(1)] unfolding registers_def by blast
  then show "fst (run_state (AddControllers mgr) w) = Inr ()"
      "view (snd (run_state (AddControllers mgr) w)) = controllerWatches"
    using assms(2) by simp_all
qed

lemma controller_reference:
  "controller_reference_law controllerOf kind setReference \<Longrightarrow> setReference owner m = Inr m' \<Longrightarrow>
   controllerOf m' = Some (kind, om_Name owner) \<and> om_Namespace m' = om_Namespace m \<and> metaKey m' = metaKey m"
  by (auto simp: controller_reference_law_def metaKey_def)

lemma created_namespaces:
  "om_Namespace (set_Meta (newStatefulSet env cluster)) = om_Namespace (mrc_Meta cluster)"
  "om_Namespace (rg_Meta (newGroup cluster g)) = om_Namespace (mrc_Meta cluster)"
  "om_Namespace (rm_Meta (newMember cluster grp g m)) = om_Namespace (rg_Meta grp)"
  "om_Namespace (mrc_Meta (newCluster store)) = om_Namespace (cst_Meta store)"
  by (simp_all add: newStatefulSet_def ownedMeta_def newMeta_def newGroup_def newMember_def
      groupName_def memberName_def newCluster_def split_beta Let_def)

text \<open>
  C23. What a reconciler creates wakes it when it changes. With the watches the three controllers
  register, a change of a cluster is looked at by the reconciler of stores, for the store that
  owns the cluster, and by the reconciler of clusters; a change of a stateful set, a group or a
  member by the reconciler of clusters, for the cluster that owns it.
\<close>

theorem changes_wake_their_owners:
  assumes "registering {} view mgr" and "view w = []"
    and "handler_law controllerOf enqueue"
    and "controller_reference_law controllerOf ConsensusStoreKind (s_SetControllerReference senv)"
    and "controller_reference_law controllerOf MultiRaftClusterKind (k_SetControllerReference env)"
    and "owner_reference_law controllerOf (k_SetOwnerReference env)"
    and "s_SetControllerReference senv (cst_Meta store) (mrc_Meta (newCluster store)) = Inr cluster_m"
    and "k_SetControllerReference env (mrc_Meta cluster) (set_Meta (newStatefulSet env cluster)) = Inr set_m"
    and "k_SetControllerReference env (mrc_Meta cluster) (rg_Meta (newGroup cluster g)) = Inr group_m"
    and "om_Namespace (rg_Meta grp) = om_Namespace (mrc_Meta cluster)"
    and "k_SetControllerReference env (mrc_Meta cluster) (rm_Meta (newMember cluster grp g m)) = Inr member_m"
    and "k_SetOwnerReference env (rg_Meta grp) member_m = Inr member_m'"
    and "watches = view (snd (run_state (AddControllers mgr) w))"
  shows "fst (run_state (AddControllers mgr) w) = Inr () \<and>
    requests enqueue watches MultiRaftClusterKind cluster_m =
      [(MultiRaftStoreReconciler, metaKey (cst_Meta store)),
       (MultiRaftClusterReconciler, metaKey (mrc_Meta (newCluster store)))] \<and>
    requests enqueue watches StatefulSetKind set_m = [(MultiRaftClusterReconciler, clusterKey cluster)] \<and>
    requests enqueue watches RaftGroupKind group_m = [(MultiRaftClusterReconciler, clusterKey cluster)] \<and>
    requests enqueue watches RaftMemberKind member_m' = [(MultiRaftClusterReconciler, clusterKey cluster)]"
proof -
  note watches = watches_registered [OF assms(1,2)] and handlers = requests_of [OF assms(3)]
  have w: "watches = controllerWatches" using assms(13) watches(2) by simp
  have "requests enqueue watches MultiRaftClusterKind cluster_m =
      [(MultiRaftStoreReconciler, metaKey (cst_Meta store)),
       (MultiRaftClusterReconciler, metaKey (mrc_Meta (newCluster store)))]"
    using controller_reference [OF assms(4,7)] unfolding w handlers(1)
    by (simp add: created_namespaces) (simp add: metaKey_def)
  moreover have "requests enqueue watches kind m = [(MultiRaftClusterReconciler, clusterKey cluster)]"
    if "kind \<in> {StatefulSetKind, RaftGroupKind, RaftMemberKind}"
      and "controllerOf m = Some (MultiRaftClusterKind, om_Name (mrc_Meta cluster))"
      and "om_Namespace m = om_Namespace (mrc_Meta cluster)" for kind m
    using that(2,3) unfolding w handlers(2) [OF that(1)] by (simp add: clusterKey_def metaKey_def)
  moreover have "controllerOf member_m' = controllerOf member_m \<and> om_Namespace member_m' = om_Namespace member_m"
    using assms(6,12) by (auto simp: owner_reference_law_def metaKey_def)
  ultimately show ?thesis
    using watches(1) assms(10) controller_reference [OF assms(5,8)] controller_reference [OF assms(5,9)]
      controller_reference [OF assms(5,11)]
    by (simp add: created_namespaces)
qed

text \<open>
  Two watches wake nobody. The watch on data stores asks for an owner that is a cluster, but
  the data store a reconciler creates is owned by the store, so a change of it enqueues nothing;
  and the watch of the cluster controller on pods reads an annotation that the cluster passes on to
  its pods only if the user put it on the store, so a change of a pod of the cluster reaches the
  pod controller alone.
\<close>

theorem changes_that_wake_nobody:
  assumes "registering {} view mgr" and "view w = []"
    and "handler_law controllerOf enqueue"
    and "controller_reference_law controllerOf ConsensusStoreKind (s_SetControllerReference senv)"
    and "s_SetControllerReference senv (cst_Meta store)
        (newMeta (om_Namespace (cst_Meta store)) (om_Name (cst_Meta store)) (om_Labels (cst_Meta store))
          Map.empty) = Inr dataStore_m"
    and "om_Annotations (cst_Meta store) multiRaftClusterKey = None"
    and "om_Annotations (mrc_Meta cluster) = newClusterAnnotations store"
    and "om_Annotations pod_m = pt_Annotations (set_Template (newStatefulSet env cluster))"
    and "watches = view (snd (run_state (AddControllers mgr) w))"
  shows "requests enqueue watches DataStoreKind dataStore_m = [] \<and>
    requests enqueue watches PodKind pod_m = [(PodReconciler, metaKey pod_m)]"
proof -
  have w: "watches = controllerWatches" using assms(9) watches_registered(2) [OF assms(1,2)] by simp
  have "controllerOf dataStore_m = Some (ConsensusStoreKind, om_Name (cst_Meta store))"
    using controller_reference [OF assms(4,5)] by simp
  then show ?thesis
    using pod_changes_enqueue_nothing [OF assms(6,7,8)]
    unfolding w requests_of(3,4) [OF assms(3)] by simp
qed

section \<open>Types\<close>

text \<open>
  The group and version of the API and the registration of its types with a scheme of
  Kubernetes, which is a parameter: \<open>sm_AddKnownTypes\<close> takes the names of the Go types. A scheme
  builder is the list of the functions it applies; an error of one ends the registration.
\<close>

record 'w scheme =
  sm_AddKnownTypes :: "string \<times> string \<Rightarrow> string list \<Rightarrow> ('w, unit) state"
  sm_AddToGroupVersion :: "string \<times> string \<Rightarrow> ('w, unit) state"

definition SchemeGroupVersion :: "string \<times> string" where
  "SchemeGroupVersion = (''consensus.atomix.io'', ''v1beta1'')"

definition groupKind :: "string \<Rightarrow> string \<times> string" where
  "groupKind kind = (fst SchemeGroupVersion, kind)"

definition groupResource :: "string \<Rightarrow> string \<times> string" where
  "groupResource resource = (fst SchemeGroupVersion, resource)"

definition addKnownTypes :: "'w scheme \<Rightarrow> ('w, 'e + unit) state" where
  "addKnownTypes scheme = do {
     _ \<leftarrow> sm_AddKnownTypes scheme SchemeGroupVersion [''ConsensusStore'', ''ConsensusStoreList''];
     _ \<leftarrow> sm_AddKnownTypes scheme SchemeGroupVersion [''MultiRaftCluster'', ''MultiRaftClusterList''];
     _ \<leftarrow> sm_AddKnownTypes scheme SchemeGroupVersion [''RaftGroup'', ''RaftGroupList''];
     _ \<leftarrow> sm_AddKnownTypes scheme SchemeGroupVersion [''RaftMember'', ''RaftMemberList''];
     _ \<leftarrow> sm_AddToGroupVersion scheme SchemeGroupVersion;
     ret (Inr ())
   }"

type_synonym ('w, 'e) schemeBuilder = "('w scheme \<Rightarrow> ('w, 'e + unit) state) list"

fun applyBuilder :: "('w, 'e) schemeBuilder \<Rightarrow> 'w scheme \<Rightarrow> ('w, 'e + unit) state" where
  "applyBuilder [] scheme = ret (Inr ())"
| "applyBuilder (f # fs) scheme = bindE (f scheme) (\<lambda>_. applyBuilder fs scheme)"

definition SchemeBuilder :: "('w, 'e) schemeBuilder" where
  "SchemeBuilder = [addKnownTypes]"

text \<open>\<^verbatim>\<open>AddToSchemes\<close> once the package's \<^verbatim>\<open>init\<close> has appended to it.\<close>

definition AddToSchemes :: "('w, 'e) schemeBuilder" where
  "AddToSchemes = [] @ [applyBuilder SchemeBuilder]"

definition AddToScheme :: "'w scheme \<Rightarrow> ('w, 'e + unit) state" where
  "AddToScheme = applyBuilder AddToSchemes"

section \<open>The command\<close>

text \<open>
  The steps of the controller's command. A function deferred by the command runs when the command
  returns or panics, but not when the process exits.
\<close>

record ('w, 'f, 'cfg, 'mgr, 'c, 'e) controllerMainEnv =
  ce_Parse :: "(string \<times> flagValue) list \<Rightarrow> string list \<Rightarrow> 'e + 'f option"
  ce_GetString :: "'f \<Rightarrow> string \<Rightarrow> 'e + string"
  ce_GetConfig :: "('w, 'e + 'cfg) state"
  ce_BecomeLeader :: "('w, 'e + unit) state"
  ce_SetReady :: "('w, 'e + unit) state"
  ce_UnsetReady :: "('w, 'e + unit) state"
  ce_NewManager :: "'cfg \<Rightarrow> string \<Rightarrow> ('w, 'e + 'mgr) state"
  ce_scheme :: "'mgr \<Rightarrow> 'w scheme"
  ce_AddRuntimeTypes :: "'w scheme \<Rightarrow> ('w, 'e + unit) state"
  ce_manager :: "'mgr \<Rightarrow> ('w, 'c, 'e) manager"
  ce_Start :: "'mgr \<Rightarrow> ('w, 'e + unit) state"

definition deferring :: "('w, 'a) state \<Rightarrow> ('w, exitStatus) state \<Rightarrow> ('w, exitStatus) state" where
  "deferring cleanup body = do {
     status \<leftarrow> body;
     (case status of
        Exited n \<Rightarrow> ret status
      | _ \<Rightarrow> do { _ \<leftarrow> cleanup; ret status })
   }"

definition controllerFlags :: "(string \<times> flagValue) list" where
  "controllerFlags = [(''namespace'', StringFlag '''')]"

definition runManager :: "('w, 'f, 'cfg, 'mgr, 'c, 'e) controllerMainEnv \<Rightarrow> 'cfg \<Rightarrow> string \<Rightarrow>
    ('w, exitStatus) state" where
  "runManager env cfg namespace =
     orExit (ce_NewManager env cfg namespace) (\<lambda>mgr.
     orExit (ce_AddRuntimeTypes env (ce_scheme env mgr)) (\<lambda>_.
     orExit (AddToScheme (ce_scheme env mgr) :: ('w, 'e + unit) state) (\<lambda>_.
     orExit (AddControllers (ce_manager env mgr)) (\<lambda>_.
     orExit (ce_Start env mgr) (\<lambda>_. ret Returned)))))"

definition runController :: "('w, 'f, 'cfg, 'mgr, 'c, 'e) controllerMainEnv \<Rightarrow> 'f \<Rightarrow>
    ('w, exitStatus) state" where
  "runController env flags =
     (let namespace = (case ce_GetString env flags ''namespace'' of Inl err \<Rightarrow> '''' | Inr n \<Rightarrow> n) in
      orExit (ce_GetConfig env) (\<lambda>cfg. do {
        _ \<leftarrow> ce_BecomeLeader env;
        orExit (ce_SetReady env) (\<lambda>_.
          deferring (ce_UnsetReady env) (runManager env cfg namespace))
      }))"

text \<open>
  As for the node, arguments that ask for help are answered by the parser (\<open>None\<close>): \<^verbatim>\<open>Execute\<close>
  returns without an error, and \<^verbatim>\<open>main\<close> after it.
\<close>

definition controllerMain :: "('w, 'f, 'cfg, 'mgr, 'c, 'e) controllerMainEnv \<Rightarrow> string list \<Rightarrow>
    ('w, exitStatus) state" where
  "controllerMain env args =
     (case ce_Parse env controllerFlags args of
        Inl err \<Rightarrow> ret (Exited 1)
      | Inr None \<Rightarrow> ret Returned
      | Inr (Some flags) \<Rightarrow> runController env flags)"

section \<open>Logging\<close>

text \<open>
  The log sink turns the alternating keys and values it is given into fields of the runtime's
  logger; \<open>None\<close> is the panic on a key without a value, an index out of range.
\<close>

fun getFields :: "('v \<Rightarrow> string) \<Rightarrow> 'v list \<Rightarrow> (string \<times> string) list option" where
  "getFields sprint [] = Some []"
| "getFields sprint [key] = None"
| "getFields sprint (key # val # kvs) =
     map_option (\<lambda>fields. (sprint key, sprint val) # fields) (getFields sprint kvs)"

record ('w, 'l) loggerOps =
  lo_WithFields :: "'l \<Rightarrow> (string \<times> string) list \<Rightarrow> 'l"
  lo_GetLogger :: "'l \<Rightarrow> string \<Rightarrow> 'l"
  lo_Info :: "'l \<Rightarrow> string \<Rightarrow> ('w, unit) state"
  lo_Error :: "'l \<Rightarrow> string \<Rightarrow> string \<Rightarrow> ('w, unit) state"

definition sinkEnabled :: "int \<Rightarrow> bool" where
  "sinkEnabled level = True"

definition sinkInfo :: "('w, 'l) loggerOps \<Rightarrow> ('v \<Rightarrow> string) \<Rightarrow> 'l \<Rightarrow> int \<Rightarrow> string \<Rightarrow> 'v list \<Rightarrow>
    ('w, unit) state option" where
  "sinkInfo ops sprint log level msg kvs =
     map_option (\<lambda>fields. lo_Info ops (lo_WithFields ops log fields) msg) (getFields sprint kvs)"

definition sinkError :: "('w, 'l) loggerOps \<Rightarrow> ('v \<Rightarrow> string) \<Rightarrow> 'l \<Rightarrow> string \<Rightarrow> string \<Rightarrow> 'v list \<Rightarrow>
    ('w, unit) state option" where
  "sinkError ops sprint log err msg kvs =
     map_option (\<lambda>fields. lo_Error ops (lo_WithFields ops log fields) err msg) (getFields sprint kvs)"

definition sinkWithValues :: "('w, 'l) loggerOps \<Rightarrow> ('v \<Rightarrow> string) \<Rightarrow> 'l \<Rightarrow> 'v list \<Rightarrow> 'l option" where
  "sinkWithValues ops sprint log kvs = map_option (lo_WithFields ops log) (getFields sprint kvs)"

definition sinkWithName :: "('w, 'l) loggerOps \<Rightarrow> 'l \<Rightarrow> string \<Rightarrow> 'l" where
  "sinkWithName ops log name = lo_GetLogger ops log name"

text \<open>The fields are the pairs of neighbours, if every key has its value.\<close>

lemma getFields_eq:
  "getFields sprint kvs =
     (if even (length kvs)
      then Some (map (\<lambda>i. (sprint (kvs ! (2 * i)), sprint (kvs ! (2 * i + 1)))) [0..<length kvs div 2])
      else None)"
proof (induction sprint kvs rule: getFields.induct)
  case (3 sprint key val kvs)
  have "[0..<Suc n] = 0 # map Suc [0..<n]" for n by (simp add: map_Suc_upt upt_conv_Cons)
  with 3 show ?case by (simp add: o_def)
qed simp_all

section \<open>A controller that runs\<close>

lemma run_deferring [run_simps]:
  "run_state (deferring cleanup body) w =
     (case run_state body w of
        (Exited n, w') \<Rightarrow> (Exited n, w')
      | (status, w') \<Rightarrow> (status, snd (run_state cleanup w')))"
  by (simp add: deferring_def split: prod.split exitStatus.split)

text \<open>
  Exiting skips the function the command deferred: if the manager cannot be set up or its run
  fails, the mark that the controller is ready stays.
\<close>

lemma failed_manager_stays_ready:
  "run_state (runManager env cfg namespace) w = (Exited n, w') \<Longrightarrow>
   run_state (deferring (ce_UnsetReady env) (runManager env cfg namespace)) w = (Exited n, w')"
  by (simp add: run_deferring)

text \<open>
  The steps that lead to a manager with all its types: the world \<open>w1\<close> is the one in which the
  controllers are added to it.
\<close>

definition manager_made :: "('w, 'f, 'cfg, 'mgr, 'c, 'e) controllerMainEnv \<Rightarrow> 'f \<Rightarrow> 'w \<Rightarrow> 'mgr \<Rightarrow> 'w \<Rightarrow> bool" where
  "manager_made env flags w mgr w1 \<longleftrightarrow>
     (\<exists>cfg a b c d e leader. run_state (ce_GetConfig env) w = (Inr cfg, a) \<and>
        run_state (ce_BecomeLeader env) a = (leader, b) \<and> run_state (ce_SetReady env) b = (Inr (), c) \<and>
        run_state (ce_NewManager env cfg
          (case ce_GetString env flags ''namespace'' of Inl err \<Rightarrow> '''' | Inr n \<Rightarrow> n)) c = (Inr mgr, d) \<and>
        run_state (ce_AddRuntimeTypes env (ce_scheme env mgr)) d = (Inr (), e) \<and>
        run_state (AddToScheme (ce_scheme env mgr) :: ('w, 'e + unit) state) e = (Inr (), w1))"

lemma manager_made_runs:
  fixes env :: "('w, 'f, 'cfg, 'mgr, 'c, 'e) controllerMainEnv"
  assumes "manager_made env flags w mgr w1" and "ce_Parse env controllerFlags args = Inr (Some flags)"
  shows "run_state (controllerMain env args) w =
    run_state (deferring (ce_UnsetReady env) (orExit (AddControllers (ce_manager env mgr)) (\<lambda>_.
      orExit (ce_Start env mgr) (\<lambda>_. ret Returned)))) w1"
  using assms
  by (auto simp: manager_made_def controllerMain_def runController_def runManager_def run_orExit run_deferring Let_def)

lemma manager_not_made:
  fixes env :: "('w, 'f, 'cfg, 'mgr, 'c, 'e) controllerMainEnv"
  assumes "\<And>mgr w1. \<not> manager_made env flags w mgr w1"
    and "ce_Parse env controllerFlags args = Inr (Some flags)"
  shows "fst (run_state (controllerMain env args) w) = Exited 1 \<and>
    run_state (controllerMain (env\<lparr>ce_Start := start\<rparr>) args) w = run_state (controllerMain env args) w"
  using assms
  by (auto simp: manager_made_def controllerMain_def runController_def runManager_def run_orExit run_deferring Let_def
      split: prod.splits sum.splits)

text \<open>
  C36. The manager runs only with every controller registered. If the arguments ask for help, the
  process returns and has touched nothing. Otherwise it may exit with status 1 without having
  started a manager, whatever starting one would do: because the arguments do not parse, the
  manager cannot be made, or one of the controllers or watches is refused. If it starts the
  manager, that has been given exactly the watches of the three controllers; the process exits
  with status 1 if the manager's run ends with an error, and otherwise returns, after it has
  removed the mark that it is ready.
\<close>

theorem manager_runs_with_every_watch:
  fixes env :: "('w, 'f, 'cfg, 'mgr, 'c, 'e) controllerMainEnv"
  assumes "\<And>mgr. registering UNIV view (ce_manager env mgr)"
    and "run_state (controllerMain env args) w = (status, w')"
  shows "(ce_Parse env controllerFlags args = Inr None \<and> status = Returned \<and> w' = w) \<or>
    (status = Exited 1 \<and> (\<forall>start. run_state (controllerMain (env\<lparr>ce_Start := start\<rparr>) args) w = (Exited 1, w'))) \<or>
    (\<exists>flags mgr w1 w2 r w3. ce_Parse env controllerFlags args = Inr (Some flags) \<and>
       manager_made env flags w mgr w1 \<and>
       run_state (AddControllers (ce_manager env mgr)) w1 = (Inr (), w2) \<and> view w2 = view w1 @ controllerWatches \<and>
       run_state (ce_Start env mgr) w2 = (r, w3) \<and>
       (case r of
          Inl err \<Rightarrow> status = Exited 1 \<and> w' = w3
        | Inr _ \<Rightarrow> status = Returned \<and> w' = snd (run_state (ce_UnsetReady env) w3)))"
proof (cases "ce_Parse env controllerFlags args")
  case (Inl err)
  with assms(2) show ?thesis by (simp add: controllerMain_def)
next
  case (Inr parsed)
  show ?thesis
  proof (cases parsed)
    case None
    with Inr assms(2) show ?thesis by (simp add: controllerMain_def)
  next
    case (Some flags)
    with Inr have parse: "ce_Parse env controllerFlags args = Inr (Some flags)" by simp
    show ?thesis
    proof (cases "\<exists>mgr w1. manager_made env flags w mgr w1")
      case False
      then have "status = Exited 1 \<and> (\<forall>start. run_state (controllerMain (env\<lparr>ce_Start := start\<rparr>) args) w = (Exited 1, w'))"
        using manager_not_made [OF _ parse, of w] assms(2) by simp
      then show ?thesis by blast
    next
      case True
      then obtain mgr w1 where made: "manager_made env flags w mgr w1" by blast
      have made': "manager_made (env\<lparr>ce_Start := start\<rparr>) flags w mgr w1" for start
        using made by (simp add: manager_made_def)
      obtain a w2 where add: "run_state (AddControllers (ce_manager env mgr)) w1 = (a, w2)" by fastforce
      show ?thesis
      proof (cases a)
        case (Inl err)
        have "run_state (controllerMain (env\<lparr>ce_Start := start\<rparr>) args) w = (Exited 1, w2)" for start
          using manager_made_runs [OF made'] parse add Inl by (simp add: run_orExit run_deferring)
        moreover have "(status, w') = (Exited 1, w2)"
          using manager_made_runs [OF made parse] assms(2) add Inl by (simp add: run_orExit run_deferring)
        ultimately show ?thesis by blast
      next
        case (Inr u)
        obtain r w3 where start: "run_state (ce_Start env mgr) w2 = (r, w3)" by fastforce
        have "view w2 = view w1 @ controllerWatches"
          using AddControllers_registers [OF assms(1), of mgr] add Inr unfolding registers_def
          by (metis Pair_inject sum.distinct(1))
        moreover have "case r of
            Inl err \<Rightarrow> status = Exited 1 \<and> w' = w3
          | Inr _ \<Rightarrow> status = Returned \<and> w' = snd (run_state (ce_UnsetReady env) w3)"
          using manager_made_runs [OF made parse] assms(2) add Inr start
          by (cases r) (simp_all add: run_orExit run_deferring)
        moreover have "run_state (AddControllers (ce_manager env mgr)) w1 = (Inr (), w2)" using add Inr by simp
        ultimately show ?thesis using parse made start by blast
      qed
    qed
  qed
qed

text \<open>A manager that keeps a list of what is registered, and references kept as kind and name.\<close>

definition listManager :: "(registration list, Reconciler, unit) manager" where
  "listManager =
     \<lparr>mg_New = (\<lambda>name opts. ret (Inr (co_Reconciler opts))),
      mg_Watch = (\<lambda>c kind h. State (\<lambda>w. (Inr (), w @ [(c, kind, h)])))\<rparr>"

definition kindName :: "Kind \<Rightarrow> string" where
  "kindName kind = (if kind = ConsensusStoreKind then ''ConsensusStore'' else ''MultiRaftCluster'')"

definition plainControllerOf :: "ObjectMeta \<Rightarrow> (Kind \<times> string) option" where
  "plainControllerOf m =
     (case om_OwnerReferences m of
        k # n # _ \<Rightarrow> Some (if k = ''ConsensusStore'' then ConsensusStoreKind else MultiRaftClusterKind, n)
      | _ \<Rightarrow> None)"

definition plainSetController :: "Kind \<Rightarrow> ObjectMeta \<Rightarrow> ObjectMeta \<Rightarrow> k8sError + ObjectMeta" where
  "plainSetController kind owner m = Inr (m\<lparr>om_OwnerReferences := [kindName kind, om_Name owner]\<rparr>)"

fun plainEnqueue :: "EventHandler \<Rightarrow> ObjectMeta \<Rightarrow> NamespacedName list" where
  "plainEnqueue EnqueueRequestForObject m = [metaKey m]"
| "plainEnqueue (EnqueueRequestsFromMapFunc f) m = f m"
| "plainEnqueue (EnqueueRequestForOwner kind _) m =
     (case plainControllerOf m of
        None \<Rightarrow> []
      | Some (k, owner) \<Rightarrow> if k = kind then [\<lparr>nn_Namespace = om_Namespace m, nn_Name = owner\<rparr>] else [])"

lemma plain_controllers:
  "registering E (\<lambda>w. w) listManager"
  "handler_law plainControllerOf plainEnqueue"
  "controller_reference_law plainControllerOf ConsensusStoreKind (plainSetController ConsensusStoreKind)"
  "controller_reference_law plainControllerOf MultiRaftClusterKind (plainSetController MultiRaftClusterKind)"
  "owner_reference_law plainControllerOf (\<lambda>_ m. Inr m)"
  by (auto simp: registering_def registers_def listManager_def handler_law_def controller_reference_law_def
      plainSetController_def plainControllerOf_def kindName_def metaKey_def owner_reference_law_def
      intro!: exI [of _ "\<lambda>c. c"])

definition ownedBy :: "string \<Rightarrow> ObjectMeta \<Rightarrow> ObjectMeta" where
  "ownedBy kind m = m\<lparr>om_OwnerReferences := [kind, ''raft'']\<rparr>"

lemma sample_references:
  "plainSetController ConsensusStoreKind (cst_Meta sampleStore) m = Inr (ownedBy ''ConsensusStore'' m)"
  "plainSetController MultiRaftClusterKind (mrc_Meta sampleCluster) m = Inr (ownedBy ''MultiRaftCluster'' m)"
  by (simp_all add: plainSetController_def kindName_def ownedBy_def sampleStore_def sampleCluster_def newMeta_def)

definition ownedSenv :: "storeWorld storeEnv" where
  "ownedSenv = sampleStoreEnv\<lparr>s_SetControllerReference := plainSetController ConsensusStoreKind\<rparr>"

definition ownedEnv :: "(memberWorld, nat) clusterEnv" where
  "ownedEnv = memberWorldEnv\<lparr>k_SetControllerReference := plainSetController MultiRaftClusterKind,
      k_SetOwnerReference := \<lambda>_ m. Inr m\<rparr>"

lemma owned_envs:
  "s_SetControllerReference ownedSenv = plainSetController ConsensusStoreKind"
  "k_SetControllerReference ownedEnv = plainSetController MultiRaftClusterKind"
  "k_SetOwnerReference ownedEnv = (\<lambda>_ m. Inr m)"
  by (simp_all add: ownedSenv_def ownedEnv_def)

theorem changes_wake_their_owners_witness:
  "requests plainEnqueue (snd (run_state (AddControllers listManager) [])) RaftGroupKind
     (ownedBy ''MultiRaftCluster'' (rg_Meta sampleGroupObject)) =
   [(MultiRaftClusterReconciler, clusterKey sampleCluster)]"
proof -
  have ns: "om_Namespace (rg_Meta sampleGroupObject) = om_Namespace (mrc_Meta sampleCluster)"
    by (simp add: sampleGroupObject_def created_namespaces)
  note t = changes_wake_their_owners [OF plain_controllers(1) refl plain_controllers(2),
      where senv = ownedSenv and env = ownedEnv and cluster = sampleCluster and g = 1
        and store = sampleStore and grp = sampleGroupObject and m = 1,
      unfolded owned_envs, OF plain_controllers(3,4,5) sample_references(1) sample_references(2)
        sample_references(2) ns sample_references(2) refl refl]
  then show ?thesis unfolding sampleGroupObject_def by (elim conjE)
qed

theorem changes_that_wake_nobody_witness:
  "requests plainEnqueue (snd (run_state (AddControllers listManager) [])) DataStoreKind
     (ownedBy ''ConsensusStore'' (newMeta ''ns'' ''raft'' Map.empty Map.empty)) = []"
proof -
  let ?c = "sampleCluster\<lparr>mrc_Meta := newMeta ''ns'' ''raft'' Map.empty (newClusterAnnotations sampleStore)\<rparr>"
  have c: "om_Annotations (mrc_Meta ?c) = newClusterAnnotations sampleStore" by (simp add: newMeta_def)
  have s: "om_Annotations (cst_Meta sampleStore) multiRaftClusterKey = None"
    by (simp add: sampleStore_def newMeta_def)
  have p: "om_Annotations (newMeta n p l (pt_Annotations (set_Template (newStatefulSet memberWorldEnv ?c)))) =
      pt_Annotations (set_Template (newStatefulSet memberWorldEnv ?c))" for n p l
    by (simp add: newMeta_def)
  note t = changes_that_wake_nobody [OF plain_controllers(1) refl plain_controllers(2),
      where senv = ownedSenv and store = sampleStore and env = memberWorldEnv,
      unfolded owned_envs, OF plain_controllers(3) sample_references(1) s c p refl]
  then show ?thesis by (simp add: sampleStore_def newMeta_def)
qed

text \<open>An environment in which every step of the command succeeds.\<close>

definition plainControllerEnv ::
  "(registration list, string \<rightharpoonup> flagValue, unit, unit, Reconciler, unit) controllerMainEnv"
where
  "plainControllerEnv =
     \<lparr>ce_Parse = (\<lambda>flags args. plainParse flags [] args), ce_GetString = plainGetString,
      ce_GetConfig = ret (Inr ()), ce_BecomeLeader = ret (Inr ()), ce_SetReady = ret (Inr ()),
      ce_UnsetReady = ret (Inr ()), ce_NewManager = (\<lambda>_ _. ret (Inr ())),
      ce_scheme = (\<lambda>_. \<lparr>sm_AddKnownTypes = (\<lambda>_ _. ret ()), sm_AddToGroupVersion = (\<lambda>_. ret ())\<rparr>),
      ce_AddRuntimeTypes = (\<lambda>_. ret (Inr ())), ce_manager = (\<lambda>_. listManager),
      ce_Start = (\<lambda>_. ret (Inr ()))\<rparr>"

lemma plain_controller_run: "run_state (controllerMain plainControllerEnv []) [] = (Returned, controllerWatches)"
proof -
  have "run_state (AddControllers listManager) [] = (Inr (), controllerWatches)"
    using watches_registered [OF plain_controllers(1) refl] by (simp add: prod_eq_iff)
  then show ?thesis
    by (simp add: controllerMain_def runController_def runManager_def run_orExit run_deferring run_bindE
        plainControllerEnv_def plainParse_def AddToScheme_def AddToSchemes_def SchemeBuilder_def
        addKnownTypes_def)
qed

theorem manager_runs_with_every_watch_witness:
  "\<exists>mgr w1 w2. w2 = w1 @ controllerWatches \<and>
     run_state (AddControllers (ce_manager plainControllerEnv mgr)) w1 = (Inr (), w2)"
proof -
  have law: "registering UNIV (\<lambda>w. w) (ce_manager plainControllerEnv mgr)" for mgr
    using plain_controllers(1) by (simp add: plainControllerEnv_def)
  have "ce_Parse plainControllerEnv controllerFlags [] \<noteq> Inr None"
    by (simp add: plainControllerEnv_def plainParse_def)
  then show ?thesis using manager_runs_with_every_watch [OF law plain_controller_run] by auto
qed

end
