(* ===== verification/Deployment.thy ===== *)
theory Deployment
  imports NodeMain ControllerMain
begin

text \<open>
  The executables put together: the primitives the driver (\<^verbatim>\<open>driver/conn.go\<close>,
  \<^verbatim>\<open>driver/driver.go\<close>, \<^verbatim>\<open>driver/plugin/plugin.go\<close>) offers against those the node serves, and
  the command and configuration the controller gives a pod against what the node in it does.
\<close>

section \<open>The driver's primitives\<close>

text \<open>
  The methods by which a connection makes a primitive. The protocol client of the runtime, the
  proxies of the primitives and the network are parameters.
\<close>

datatype connMethod =
    NewCounter | NewCounterMap | NewLeaderElection | NewIndexedMap | NewLock | NewMap | NewMultiMap
  | NewSet | NewValue

definition connMethods :: "connMethod list" where
  "connMethods = [NewCounter, NewCounterMap, NewLeaderElection, NewIndexedMap, NewLock, NewMap,
     NewMultiMap, NewSet, NewValue]"

fun proxyOf :: "connMethod \<Rightarrow> Primitive" where
  "proxyOf NewCounter = Counterv1"
| "proxyOf NewCounterMap = Countermapv1"
| "proxyOf NewLeaderElection = Electionv1"
| "proxyOf NewIndexedMap = Indexedmapv1"
| "proxyOf NewLock = Lockv1"
| "proxyOf NewMap = Mapv1"
| "proxyOf NewMultiMap = Multimapv1"
| "proxyOf NewSet = Setv1"
| "proxyOf NewValue = Valuev1"

definition newPrimitive :: "(Primitive \<Rightarrow> 'protocol \<Rightarrow> 'spec \<Rightarrow> 'e + 'server) \<Rightarrow> ('client \<Rightarrow> 'protocol) \<Rightarrow>
    connMethod \<Rightarrow> 'client \<Rightarrow> 'spec \<Rightarrow> 'e + 'server" where
  "newPrimitive newProxy protocol method c spec = newProxy (proxyOf method) (protocol c) spec"

record 'network driver =
  drv_network :: 'network

definition newConn :: "('network \<Rightarrow> 'client) \<Rightarrow> 'network \<Rightarrow> 'client" where
  "newConn newClient network = newClient network"

definition New :: "'network \<Rightarrow> 'network driver" where
  "New network = \<lparr>drv_network = network\<rparr>"

definition Plugin :: "'network \<Rightarrow> 'network driver" where
  "Plugin newNetwork = New newNetwork"

definition driver_String :: "(string \<times> string \<Rightarrow> string) \<Rightarrow> 'network driver \<Rightarrow> string" where
  "driver_String idString d = idString driverID"

text \<open>
  Whatever primitive the driver makes, the node serves: each method of a connection builds
  the proxy of a primitive whose state machine the node has registered and whose server it
  serves, no two methods the same one, and the node registers no state machine and no server
  that the driver cannot reach.
\<close>

theorem driver_primitives_are_served:
  "distinct (map proxyOf connMethods) \<and>
   set (map proxyOf connMethods) = set (nd_StateMachines (newNode protocol host port server)) \<and>
   distinct (nd_StateMachines (newNode protocol host port server)) \<and>
   set (nd_Services (newNode protocol host port server)) =
     insert NodeServer (PrimitiveServer ` set (map proxyOf connMethods)) \<and>
   distinct (nd_Services (newNode protocol host port server))"
  by (simp add: connMethods_def newNode_def registerStateMachines_def registerServers_def)
    auto

section \<open>A pod starts its node\<close>

text \<open>The address a node announces to Raft when the start command of its pod runs it.\<close>

definition podRaftAddress :: "string \<Rightarrow> MultiRaftCluster \<Rightarrow> NodeRaftConfig \<Rightarrow> int \<Rightarrow> string" where
  "podRaftAddress domain cluster config ordinal =
     nhc_RaftAddress (nodeHostConfig config
       (applyOptions zeroOptions [WithHost (raftHost domain cluster (itoa ordinal)), WithPort protocolPort]))"

























end
