(* ===== verification/ClusterSettles.thy ===== *)
theory ClusterSettles
  imports PodWatch
begin

text \<open>
  Where repeating \<^verbatim>\<open>MultiRaftClusterReconciler.Reconcile\<close>
  (\<^verbatim>\<open>controller/pkg/controller/consensus/v1beta1/cluster.go\<close>) leads. One reconciliation writes
  at most one group, member or status before it ends; a measure of what is left to do
  decreases with everything it writes, so that after a bounded number of reconciliations nothing is
  written any more, and the objects of the cluster are what they should be. The Kubernetes client
  is a parameter, with the laws that this relies on.
\<close>

section \<open>The objects of a cluster\<close>

record 't clusterObjects =
  ob_Clusters :: "NamespacedName \<rightharpoonup> MultiRaftCluster"
  ob_Groups :: "NamespacedName \<rightharpoonup> RaftGroup"
  ob_Members :: "NamespacedName \<rightharpoonup> 't RaftMember"
  ob_Pods :: "NamespacedName \<rightharpoonup> Pod"
  ob_ConfigMaps :: "NamespacedName \<rightharpoonup> ConfigMap"
  ob_StatefulSets :: "NamespacedName \<rightharpoonup> StatefulSet"
  ob_Services :: "NamespacedName \<rightharpoonup> Service"

text \<open>
  What the API server is documented to do, on the objects \<open>V\<close> sees in the world: a read
  returns the object and changes nothing; a new object is stored under its name, with the parts the
  controller set (\<open>same\<close>); an update of a status replaces the status of the stored object (\<open>put\<close>).
\<close>

definition reads :: "('w \<Rightarrow> 't clusterObjects) \<Rightarrow> ('t clusterObjects \<Rightarrow> NamespacedName \<rightharpoonup> 'o) \<Rightarrow>
    ('w, 'o) objectClient \<Rightarrow> bool" where
  "reads V view client \<longleftrightarrow> get_law (view \<circ> V) client"

definition creates :: "('w \<Rightarrow> 't clusterObjects) \<Rightarrow> ('t clusterObjects \<Rightarrow> NamespacedName \<rightharpoonup> 'o) \<Rightarrow>
    (((NamespacedName \<rightharpoonup> 'o) \<Rightarrow> NamespacedName \<rightharpoonup> 'o) \<Rightarrow> 't clusterObjects \<Rightarrow> 't clusterObjects) \<Rightarrow>
    ('o \<Rightarrow> NamespacedName) \<Rightarrow> ('o \<Rightarrow> 'o \<Rightarrow> bool) \<Rightarrow> ('w, 'o) objectClient \<Rightarrow> bool" where
  "creates V view upd key same client \<longleftrightarrow>
     (\<forall>o1 w. view (V w) (key o1) = None \<longrightarrow>
        (\<exists>o2 w'. run_state (cl_Create client o1) w = (Inr o2, w') \<and> same o1 o2 \<and>
           V w' = upd (\<lambda>_. (view (V w))(key o1 \<mapsto> o2)) (V w)))"

definition updates_status :: "('w \<Rightarrow> 't clusterObjects) \<Rightarrow> ('t clusterObjects \<Rightarrow> NamespacedName \<rightharpoonup> 'o) \<Rightarrow>
    (((NamespacedName \<rightharpoonup> 'o) \<Rightarrow> NamespacedName \<rightharpoonup> 'o) \<Rightarrow> 't clusterObjects \<Rightarrow> 't clusterObjects) \<Rightarrow>
    ('o \<Rightarrow> NamespacedName) \<Rightarrow> ('o \<Rightarrow> 'o \<Rightarrow> 'o) \<Rightarrow> ('w, 'o) objectClient \<Rightarrow> bool" where
  "updates_status V view upd key put client \<longleftrightarrow>
     (\<forall>o1 old w. view (V w) (key o1) = Some old \<longrightarrow>
        (\<exists>w'. run_state (cl_StatusUpdate client o1) w = (Inr (put o1 old), w') \<and>
           V w' = upd (\<lambda>_. (view (V w))(key o1 \<mapsto> put o1 old)) (V w)))"

definition sets_reference :: "(ObjectMeta \<Rightarrow> ObjectMeta \<Rightarrow> k8sError + ObjectMeta) \<Rightarrow> bool" where
  "sets_reference set_ref \<longleftrightarrow> (\<forall>owner m. \<exists>m'. set_ref owner m = Inr m' \<and> metaKey m' = metaKey m)"

definition same_group :: "RaftGroup \<Rightarrow> RaftGroup \<Rightarrow> bool" where
  "same_group g h \<longleftrightarrow> metaKey (rg_Meta h) = metaKey (rg_Meta g) \<and> rg_Spec h = rg_Spec g \<and> rg_Status h = rg_Status g"

definition same_member :: "'t RaftMember \<Rightarrow> 't RaftMember \<Rightarrow> bool" where
  "same_member m n \<longleftrightarrow> metaKey (rm_Meta n) = metaKey (rm_Meta m) \<and> rm_Spec n = rm_Spec m \<and> rm_Status n = rm_Status m"

definition cluster_laws :: "('w, 't) clusterEnv \<Rightarrow> ('w \<Rightarrow> 't clusterObjects) \<Rightarrow> bool" where
  "cluster_laws env V \<longleftrightarrow>
     reads V ob_Clusters (k_Clusters env) \<and> reads V ob_Groups (k_Groups env) \<and>
     reads V ob_Members (k_Members env) \<and> reads V ob_Pods (k_Pods env) \<and>
     reads V ob_ConfigMaps (k_ConfigMaps env) \<and> reads V ob_StatefulSets (k_StatefulSets env) \<and>
     reads V ob_Services (k_Services env) \<and>
     creates V ob_Groups ob_Groups_update (metaKey \<circ> rg_Meta) same_group (k_Groups env) \<and>
     creates V ob_Members ob_Members_update (metaKey \<circ> rm_Meta) same_member (k_Members env) \<and>
     creates V ob_ConfigMaps ob_ConfigMaps_update (metaKey \<circ> cm_Meta) (\<lambda>_ _. True) (k_ConfigMaps env) \<and>
     creates V ob_StatefulSets ob_StatefulSets_update (metaKey \<circ> set_Meta) (\<lambda>_ _. True) (k_StatefulSets env) \<and>
     creates V ob_Services ob_Services_update (metaKey \<circ> svc_Meta) (\<lambda>_ _. True) (k_Services env) \<and>
     updates_status V ob_Clusters ob_Clusters_update (metaKey \<circ> mrc_Meta)
       (\<lambda>c old. old\<lparr>mrc_Status := mrc_Status c\<rparr>) (k_Clusters env) \<and>
     updates_status V ob_Groups ob_Groups_update (metaKey \<circ> rg_Meta)
       (\<lambda>g old. old\<lparr>rg_Status := rg_Status g\<rparr>) (k_Groups env) \<and>
     updates_status V ob_Members ob_Members_update (metaKey \<circ> rm_Meta)
       (\<lambda>m old. old\<lparr>rm_Status := rm_Status m\<rparr>) (k_Members env) \<and>
     sets_reference (k_SetControllerReference env) \<and> sets_reference (k_SetOwnerReference env) \<and>
     (\<forall>c. \<exists>s. k_MarshalLogging env c = Inr s) \<and> (\<forall>c. \<exists>s. k_MarshalConfig env c = Inr s) \<and>
     (\<forall>m r x w. V (snd (run_state (k_Event env m r x) w)) = V w) \<and>
     (\<forall>a r w. \<exists>w'. run_state (k_Bootstrap env a r) w = (Inr (), w') \<and> V w' = V w)"

section \<open>Names that do not depend on the status\<close>

definition mname :: "MultiRaftCluster \<Rightarrow> int \<Rightarrow> int \<Rightarrow> NamespacedName" where
  "mname c g m = memberName (newGroup c g) m"

definition podKey :: "MultiRaftCluster \<Rightarrow> int \<Rightarrow> int \<Rightarrow> NamespacedName" where
  "podKey c g m = \<lparr>nn_Namespace = om_Namespace (mrc_Meta c), nn_Name = getPodName c g m\<rparr>"

lemma status_independent [simp]:
  "getNumGroups (c\<lparr>mrc_Status := st\<rparr>) = getNumGroups c"
  "getNumReplicas (c\<lparr>mrc_Status := st\<rparr>) = getNumReplicas c"
  "raftSpec (c\<lparr>mrc_Status := st\<rparr>) = raftSpec c"
  "groupName (c\<lparr>mrc_Status := st\<rparr>) g = groupName c g"
  "clusterKey (c\<lparr>mrc_Status := st\<rparr>) = clusterKey c"
  by (simp_all add: getNumGroups_def getNumReplicas_def raftSpec_def groupName_def clusterKey_def)

lemma members_status_independent [simp]: "getNumMembers (c\<lparr>mrc_Status := st\<rparr>) = getNumMembers c"
  unfolding getNumMembers_def getNumVotingMembers_def getNumNonVotingMembers_def status_independent ..

lemma names_status_independent [simp]:
  "getPodName (c\<lparr>mrc_Status := st\<rparr>) g m = getPodName c g m"
  "mname (c\<lparr>mrc_Status := st\<rparr>) g m = mname c g m"
  by (simp_all add: getPodName_def podOrdinal_def mname_def memberName_def newGroup_def newMeta_def)

lemma podKey_status_independent [simp]: "podKey (c\<lparr>mrc_Status := st\<rparr>) g m = podKey c g m"
  by (simp add: podKey_def)

lemma memberName_key: "metaKey (rg_Meta grp) = groupName c g \<Longrightarrow> memberName grp m = mname c g m"
  by (simp add: mname_def memberName_def newGroup_def metaKey_def groupName_def newMeta_def)

lemma newGroup_key: "metaKey (rg_Meta (newGroup c g)) = groupName c g"
  by (simp add: newGroup_def metaKey_def groupName_def newMeta_def)

lemma newMember_key:
  "metaKey (rm_Meta (newMember c grp g m)) = memberName grp m"
  "rms_Pod (rm_Spec (newMember c grp g m)) = getPodName c g m"
  "rm_Status (newMember c grp g m) = zeroMemberStatus"
  by (simp_all add: newMember_def metaKey_def memberName_def newMeta_def)

lemma groupName_inject: "0 \<le> g \<Longrightarrow> 0 \<le> h \<Longrightarrow> groupName c g = groupName c h \<longleftrightarrow> g = h"
  by (simp add: groupName_def numberedName_inject)

lemma mname_inject:
  assumes "0 \<le> g" "0 \<le> h" "0 \<le> m" "0 \<le> n"
  shows "mname c g m = mname c h n \<longleftrightarrow> g = h \<and> m = n"
  using assms by (simp add: mname_def memberName_def newGroup_def newMeta_def groupName_def numberedName_inject)

lemma mname_namespace: "nn_Namespace (mname c g m) = om_Namespace (mrc_Meta c)"
  by (simp add: mname_def memberName_def newGroup_def newMeta_def groupName_def)

section \<open>What is in place, and what is left to do\<close>

text \<open>
  The cluster is stored with the partitions published last, if any; its groups and members are
  found under their names, the statuses of the groups are sound and name members of the group, and
  every member has a pod.
\<close>

definition known_members :: "MultiRaftCluster \<Rightarrow> int \<Rightarrow> RaftGroupStatus \<Rightarrow> bool" where
  "known_members c g status \<longleftrightarrow>
     (\<forall>name \<in> set_option (gs_Leader status) \<union> set (gs_Followers status).
        \<exists>m \<in> {1..getNumMembers c}. mname c g m = \<lparr>nn_Namespace = om_Namespace (mrc_Meta c), nn_Name = name\<rparr>)"

definition group_in_place :: "MultiRaftCluster \<Rightarrow> 't clusterObjects \<Rightarrow> int \<Rightarrow> bool" where
  "group_in_place c x g \<longleftrightarrow>
     (\<forall>grp. ob_Groups x (groupName c g) = Some grp \<longrightarrow>
        metaKey (rg_Meta grp) = groupName c g \<and> known_members c g (rg_Status grp) \<and>
        group_status_ok (rg_Status grp))"

definition member_in_place :: "MultiRaftCluster \<Rightarrow> 't clusterObjects \<Rightarrow> int \<Rightarrow> int \<Rightarrow> bool" where
  "member_in_place c x g m \<longleftrightarrow>
     (\<forall>mem. ob_Members x (mname c g m) = Some mem \<longrightarrow>
        metaKey (rm_Meta mem) = mname c g m \<and> rms_Pod (rm_Spec mem) = getPodName c g m) \<and>
     ob_Pods x (podKey c g m) \<noteq> None"

text \<open>
  The partitions a status lists, when it lists any, are those of the groups, in order; where the
  members of a group have pods of their own, no follower is listed twice.
\<close>

definition separate_pods :: "MultiRaftCluster \<Rightarrow> bool" where
  "separate_pods c \<longleftrightarrow> (\<forall>g \<in> {1..getNumGroups c}. inj_on (getPodName c g) {1..getNumMembers c})"

definition partitions_listed :: "MultiRaftCluster \<Rightarrow> MultiRaftClusterStatus \<Rightarrow> bool" where
  "partitions_listed c st \<longleftrightarrow>
     (\<forall>ps. mst_Partitions st = Some ps \<longrightarrow> map ps_PartitionID ps = [1..getNumGroups c] \<and>
        (separate_pods c \<longrightarrow> (\<forall>p \<in> set ps. distinct (ps_Followers p))))"

definition in_place :: "MultiRaftCluster \<Rightarrow> 't clusterObjects \<Rightarrow> bool" where
  "in_place c x \<longleftrightarrow>
     (\<exists>st. ob_Clusters x (clusterKey c) = Some (c\<lparr>mrc_Status := st\<rparr>) \<and> partitions_listed c st) \<and>
     (\<forall>g \<in> {1..getNumGroups c}. group_in_place c x g) \<and>
     (\<forall>g \<in> {1..getNumGroups c}. \<forall>m \<in> {1..getNumMembers c}. member_in_place c x g m)"

definition member_todo :: "MultiRaftCluster \<Rightarrow> 't clusterObjects \<Rightarrow> int \<Rightarrow> int \<Rightarrow> nat" where
  "member_todo c x g m =
     (case ob_Members x (mname c g m) of
        None \<Rightarrow> 4
      | Some mem \<Rightarrow> (case ob_Pods x (podKey c g m) of None \<Rightarrow> 0 | Some pod \<Rightarrow> member_rank mem pod))"

lemma member_todo_cong:
  "ob_Members x' (mname c g m) = ob_Members x (mname c g m) \<Longrightarrow> ob_Pods x' = ob_Pods x \<Longrightarrow>
   member_todo c x' g m = member_todo c x g m"
  unfolding member_todo_def by (erule ssubst)+ (rule refl)

section \<open>A member\<close>

definition member_written :: "MultiRaftCluster \<Rightarrow> 't clusterObjects \<Rightarrow> 't clusterObjects \<Rightarrow> int \<Rightarrow> int \<Rightarrow> bool" where
  "member_written c x x' g m \<longleftrightarrow>
     (\<exists>mem. x' = x\<lparr>ob_Members := (ob_Members x)(mname c g m \<mapsto> mem)\<rparr> \<and>
        metaKey (rm_Meta mem) = mname c g m \<and> rms_Pod (rm_Spec mem) = getPodName c g m \<and>
        member_todo c x' g m < member_todo c x g m)"

lemma run_reads:
  "reads V view client \<Longrightarrow> run_state (cl_Get client n) w =
     (case view (V w) n of Some x \<Rightarrow> (Inr x, w) | None \<Rightarrow> (Inl NotFound, w))"
  by (simp add: reads_def run_Get [where view = "view \<circ> V"])

lemma run_creates:
  assumes "creates V view upd key same client" and "view (V w) (key o1) = None"
  obtains o2 w' where "run_state (cl_Create client o1) w = (Inr o2, w')" and "same o1 o2"
    and "V w' = upd (\<lambda>_. (view (V w))(key o1 \<mapsto> o2)) (V w)"
  using assms(1) [unfolded creates_def, rule_format, OF assms(2)] that by blast

lemma run_updates_status:
  assumes "updates_status V view upd key put client" and "view (V w) (key o1) = Some old"
  obtains w' where "run_state (cl_StatusUpdate client o1) w = (Inr (put o1 old), w')"
    and "V w' = upd (\<lambda>_. (view (V w))(key o1 \<mapsto> put o1 old)) (V w)"
  using assms(1) [unfolded updates_status_def, rule_format, OF assms(2)] that by blast

lemma run_addMember:
  fixes env :: "('w, 'b) clusterEnv"
  assumes laws: "cluster_laws env V" and key: "metaKey (rg_Meta grp) = groupName c g"
    and none: "ob_Members (V w) (mname c g m) = None"
  shows "\<exists>mem w'. run_state (addMember env (c\<lparr>mrc_Status := st\<rparr>) grp g m) w = (Inr mem, w') \<and>
    V w' = (V w)\<lparr>ob_Members := (ob_Members (V w))(mname c g m \<mapsto> mem)\<rparr> \<and>
    metaKey (rm_Meta mem) = mname c g m \<and> rms_Pod (rm_Spec mem) = getPodName c g m \<and>
    rm_Status mem = zeroMemberStatus"
proof -
  let ?c = "c\<lparr>mrc_Status := st\<rparr>"
  let ?n = "newMember ?c grp g m :: 'b RaftMember"
  have n: "metaKey (rm_Meta ?n) = mname c g m" "rms_Pod (rm_Spec ?n) = getPodName c g m"
    "rm_Status ?n = zeroMemberStatus"
    by (simp_all add: newMember_key memberName_key [OF key])
  obtain m1 where m1: "k_SetControllerReference env (mrc_Meta ?c) (rm_Meta ?n) = Inr m1"
      "metaKey m1 = mname c g m"
    using laws n(1) unfolding cluster_laws_def sets_reference_def by metis
  obtain m2 where m2: "k_SetOwnerReference env (rg_Meta grp) m1 = Inr m2" "metaKey m2 = mname c g m"
    using laws m1(2) unfolding cluster_laws_def sets_reference_def by metis
  have cr: "creates V ob_Members ob_Members_update (metaKey \<circ> rm_Meta) same_member (k_Members env)"
    using laws by (simp add: cluster_laws_def)
  let ?m = "?n\<lparr>rm_Meta := m2\<rparr>"
  have "ob_Members (V w) ((metaKey \<circ> rm_Meta) ?m) = None" using none m2(2) by simp
  then obtain mem w' where "run_state (cl_Create (k_Members env) ?m) w = (Inr mem, w')" "same_member ?m mem"
    "V w' = (V w)\<lparr>ob_Members := (ob_Members (V w))((metaKey \<circ> rm_Meta) ?m \<mapsto> mem)\<rparr>"
    by (rule run_creates [OF cr])
  with m1 m2 n show ?thesis
    by (intro exI [of _ mem] exI [of _ w'])
      (simp add: addMember_def Let_def run_bindE same_member_def)
qed

lemma run_member_status:
  assumes laws: "cluster_laws env V" and "ob_Members (V w) (metaKey (rm_Meta mem)) = Some mem"
  obtains w' where "run_state (cl_StatusUpdate (k_Members env) (mem\<lparr>rm_Status := s\<rparr>)) w =
      (Inr (mem\<lparr>rm_Status := s\<rparr>), w')"
    and "V w' = (V w)\<lparr>ob_Members := (ob_Members (V w))(metaKey (rm_Meta mem) \<mapsto> mem\<lparr>rm_Status := s\<rparr>)\<rparr>"
proof -
  have us: "updates_status V ob_Members ob_Members_update (metaKey \<circ> rm_Meta)
      (\<lambda>m old. old\<lparr>rm_Status := rm_Status m\<rparr>) (k_Members env)"
    using laws by (simp add: cluster_laws_def)
  have "ob_Members (V w) ((metaKey \<circ> rm_Meta) (mem\<lparr>rm_Status := s\<rparr>)) = Some mem"
    using assms(2) by simp
  then show ?thesis by (rule run_updates_status [OF us]) (rule that, simp_all)
qed

lemma reconcileMember_step:
  assumes laws: "cluster_laws env V" and place: "member_in_place c (V w) g m"
    and key: "metaKey (rg_Meta grp) = groupName c g"
  shows "\<exists>mem upd w'. run_state (reconcileMember env (c\<lparr>mrc_Status := st\<rparr>) grp g m) w = (Inr (mem, upd), w') \<and>
    (if upd then member_written c (V w) (V w') g m
     else w' = w \<and> ob_Members (V w) (mname c g m) = Some mem \<and> member_todo c (V w) g m = 0)"
proof -
  let ?c = "c\<lparr>mrc_Status := st\<rparr>"
  obtain pod where pod: "ob_Pods (V w) (podKey c g m) = Some pod"
    using place by (auto simp: member_in_place_def)
  have get: "run_state (cl_Get (k_Members env) n) w =
      (case ob_Members (V w) n of Some x \<Rightarrow> (Inr x, w) | None \<Rightarrow> (Inl NotFound, w))"
    "run_state (cl_Get (k_Pods env) n) w =
      (case ob_Pods (V w) n of Some x \<Rightarrow> (Inr x, w) | None \<Rightarrow> (Inl NotFound, w))" for n
    using laws by (simp_all add: cluster_laws_def run_reads)
  show ?thesis
  proof (cases "ob_Members (V w) (mname c g m)")
    case None
    from run_addMember [OF laws key None, of st] obtain mem w' where
      add: "run_state (addMember env ?c grp g m) w = (Inr mem, w')"
      "V w' = (V w)\<lparr>ob_Members := (ob_Members (V w))(mname c g m \<mapsto> mem)\<rparr>"
      "metaKey (rm_Meta mem) = mname c g m" "rms_Pod (rm_Spec mem) = getPodName c g m"
      "rm_Status mem = zeroMemberStatus"
      by blast
    have "member_rank mem pod \<le> 3" by (simp add: member_rank_def)
    then have "member_written c (V w) (V w') g m"
      using None add(3,4) pod unfolding member_written_def
      by (intro exI [of _ mem]) (simp add: add(2) member_todo_def)
    moreover have "run_state (reconcileMember env ?c grp g m) w = (Inr (mem, True), w')"
      using None add(1) by (simp add: reconcileMember_def memberName_key [OF key] get(1) IsNotFound_def run_bindE)
    ultimately show ?thesis by auto
  next
    case (Some mem)
    then have mem: "metaKey (rm_Meta mem) = mname c g m" "rms_Pod (rm_Spec mem) = getPodName c g m"
      using place by (auto simp: member_in_place_def)
    then have pk: "\<lparr>nn_Namespace = om_Namespace (rm_Meta mem), nn_Name = rms_Pod (rm_Spec mem)\<rparr> = podKey c g m"
      using mname_namespace [of c g m] by (simp add: podKey_def metaKey_def [of "rm_Meta mem"]) (metis NamespacedName.select_convs(1))
    have run: "run_state (reconcileMember env ?c grp g m) w =
        run_state (if wrong_pod mem pod then bindE (updatePodRef env mem pod) (\<lambda>m'. ok (m', True))
          else if bootstrap_due mem pod
          then (if ms_State (rm_Status mem) \<noteq> RaftMemberNotReady
                then bindE (markNotReady env mem) (\<lambda>m'. ok (m', True))
                else bindE (bootstrapMember env ?c mem pod (containerVersion (pod_ContainerStatuses pod)) g m)
                       (\<lambda>m'. ok (m', True)))
          else ok (mem, False)) w"
      using Some pod by (simp add: reconcileMember_def memberName_key [OF key] get pk run_bindE)
    have stored: "ob_Members (V w) (metaKey (rm_Meta mem)) = Some mem" using Some mem(1) by simp
    have written: "member_written c (V w) (V w') g m"
      if "V w' = (V w)\<lparr>ob_Members := (ob_Members (V w))(metaKey (rm_Meta mem) \<mapsto> mem\<lparr>rm_Status := s\<rparr>)\<rparr>"
        and "member_rank (mem\<lparr>rm_Status := s\<rparr>) pod < member_rank mem pod" for w' s
      using that Some mem pod unfolding member_written_def
      by (intro exI [of _ "mem\<lparr>rm_Status := s\<rparr>"]) (simp add: member_todo_def)
    consider (pod) "wrong_pod mem pod" | (state) "\<not> wrong_pod mem pod" "bootstrap_due mem pod"
        "ms_State (rm_Status mem) \<noteq> RaftMemberNotReady"
      | (boot) "\<not> wrong_pod mem pod" "bootstrap_due mem pod" "ms_State (rm_Status mem) = RaftMemberNotReady"
      | (none) "\<not> wrong_pod mem pod" "\<not> bootstrap_due mem pod"
      by blast
    then show ?thesis
    proof cases
      case pod
      let ?s = "(rm_Status mem)\<lparr>ms_PodRef := Some \<lparr>or_APIVersion = pod_APIVersion pod,
        or_Kind = pod_Kind pod, or_Namespace = om_Namespace (pod_Meta pod),
        or_Name = om_Name (pod_Meta pod), or_UID = om_UID (pod_Meta pod)\<rparr>, ms_Version := None\<rparr>"
      have "member_rank (mem\<lparr>rm_Status := ?s\<rparr>) pod < member_rank mem pod"
        using pod by (simp add: member_rank_def) (simp add: wrong_pod_def)
      moreover obtain w' where w': "run_state (cl_StatusUpdate (k_Members env) (mem\<lparr>rm_Status := ?s\<rparr>)) w =
          (Inr (mem\<lparr>rm_Status := ?s\<rparr>), w')"
        "V w' = (V w)\<lparr>ob_Members := (ob_Members (V w))(metaKey (rm_Meta mem) \<mapsto> mem\<lparr>rm_Status := ?s\<rparr>)\<rparr>"
        by (rule run_member_status [OF laws stored])
      ultimately have "member_written c (V w) (V w') g m" by (intro written)
      moreover have "run_state (reconcileMember env ?c grp g m) w = (Inr (mem\<lparr>rm_Status := ?s\<rparr>, True), w')"
        using pod w'(1) by (simp add: run run_bindE updatePodRef_def)
      ultimately show ?thesis by auto
    next
      case state
      let ?s = "(rm_Status mem)\<lparr>ms_State := RaftMemberNotReady\<rparr>"
      have "member_rank (mem\<lparr>rm_Status := ?s\<rparr>) pod < member_rank mem pod"
        using state by (simp add: member_rank_def wrong_pod_def bootstrap_due_def)
      moreover obtain w' where w': "run_state (cl_StatusUpdate (k_Members env) (mem\<lparr>rm_Status := ?s\<rparr>)) w =
          (Inr (mem\<lparr>rm_Status := ?s\<rparr>), w')"
        "V w' = (V w)\<lparr>ob_Members := (ob_Members (V w))(metaKey (rm_Meta mem) \<mapsto> mem\<lparr>rm_Status := ?s\<rparr>)\<rparr>"
        by (rule run_member_status [OF laws stored])
      ultimately have "member_written c (V w) (V w') g m" by (intro written)
      moreover have "V (snd (run_state (k_Event env a r x) w')) = V w'" for a r x
        using laws by (simp add: cluster_laws_def)
      moreover have "run_state (reconcileMember env ?c grp g m) w = (Inr (mem\<lparr>rm_Status := ?s\<rparr>, True),
          snd (run_state (k_Event env (rm_Meta mem) ''StateChanged'' (''State changed to '' @ RaftMemberNotReady)) w'))"
        using state w'(1) by (simp add: run run_bindE markNotReady_def split_beta)
      ultimately show ?thesis by auto
    next
      case boot
      let ?s = "(rm_Status mem)\<lparr>ms_Version := Some (containerVersion (pod_ContainerStatuses pod))\<rparr>"
      have "member_rank (mem\<lparr>rm_Status := ?s\<rparr>) pod < member_rank mem pod"
        using boot by (simp add: member_rank_def wrong_pod_def bootstrap_due_def)
      moreover obtain w1 where w1: "run_state (k_Bootstrap env (pod_IP pod @ '':'' @ itoa apiPort)
          (bootstrapRequest (k_domain env) ?c (rms_Type (rm_Spec mem)) g m)) w = (Inr (), w1)" "V w1 = V w"
        using laws unfolding cluster_laws_def by blast
      moreover have "ob_Members (V w1) (metaKey (rm_Meta mem)) = Some mem" using stored w1(2) by simp
      then obtain w' where w': "run_state (cl_StatusUpdate (k_Members env) (mem\<lparr>rm_Status := ?s\<rparr>)) w1 =
          (Inr (mem\<lparr>rm_Status := ?s\<rparr>), w')"
        "V w' = (V w1)\<lparr>ob_Members := (ob_Members (V w1))(metaKey (rm_Meta mem) \<mapsto> mem\<lparr>rm_Status := ?s\<rparr>)\<rparr>"
        by (rule run_member_status [OF laws])
      ultimately have "member_written c (V w) (V w') g m" by (intro written) simp_all
      moreover have "run_state (reconcileMember env ?c grp g m) w = (Inr (mem\<lparr>rm_Status := ?s\<rparr>, True), w')"
        using boot w1(1) w'(1) by (simp add: run run_bindE bootstrapMember_def)
      ultimately show ?thesis by auto
    next
      case none
      with run Some pod show ?thesis by (auto simp: member_todo_def member_rank_def)
    qed
  qed
qed

section \<open>What is left to do\<close>

definition member_state :: "MultiRaftCluster \<Rightarrow> 't clusterObjects \<Rightarrow> int \<Rightarrow> int \<Rightarrow> string" where
  "member_state c x g m =
     (case ob_Members x (mname c g m) of None \<Rightarrow> '''' | Some mem \<Rightarrow> ms_State (rm_Status mem))"

definition group_state :: "MultiRaftCluster \<Rightarrow> 't clusterObjects \<Rightarrow> int \<Rightarrow> string" where
  "group_state c x g =
     (case ob_Groups x (groupName c g) of None \<Rightarrow> '''' | Some grp \<Rightarrow> gs_State (rg_Status grp))"

definition cluster_status :: "MultiRaftCluster \<Rightarrow> 't clusterObjects \<Rightarrow> MultiRaftClusterStatus" where
  "cluster_status c x = mrc_Status (the (ob_Clusters x (clusterKey c)))"

text \<open>The states a group and the cluster should have, and the partitions it should publish.\<close>

definition groupStateFor :: "MultiRaftCluster \<Rightarrow> 't clusterObjects \<Rightarrow> int \<Rightarrow> string" where
  "groupStateFor c x g =
     (if \<exists>m \<in> {1..getNumMembers c}. member_state c x g m = RaftMemberNotReady
      then RaftGroupNotReady else RaftGroupReady)"

definition clusterStateFor :: "MultiRaftCluster \<Rightarrow> 't clusterObjects \<Rightarrow> string" where
  "clusterStateFor c x =
     (if \<exists>g \<in> {1..getNumGroups c}. group_state c x g = RaftGroupNotReady
      then MultiRaftClusterNotReady else MultiRaftClusterReady)"

definition addressFor :: "string \<Rightarrow> MultiRaftCluster \<Rightarrow> 't clusterObjects \<Rightarrow> string \<Rightarrow> string" where
  "addressFor domain c x name =
     getPodDNSName domain (om_Namespace (mrc_Meta c)) (om_Name (mrc_Meta c))
       (rms_Pod (rm_Spec (the (ob_Members x \<lparr>nn_Namespace = om_Namespace (mrc_Meta c), nn_Name = name\<rparr>)))) @
     '':'' @ itoa apiPort"

definition partitionFor :: "string \<Rightarrow> MultiRaftCluster \<Rightarrow> 't clusterObjects \<Rightarrow> int \<Rightarrow> RaftPartitionStatus" where
  "partitionFor domain c x g =
     (let status = rg_Status (the (ob_Groups x (groupName c g))) in
      \<lparr>ps_PartitionID = signed_take_bit 31 g,
       ps_Leader = map_option (addressFor domain c x) (gs_Leader status),
       ps_Followers = map (addressFor domain c x) (gs_Followers status)\<rparr>)"

definition partitionsFor :: "string \<Rightarrow> MultiRaftCluster \<Rightarrow> 't clusterObjects \<Rightarrow> RaftPartitionStatus list" where
  "partitionsFor domain c x = map (partitionFor domain c x) [1..getNumGroups c]"

definition partitions_stale :: "string \<Rightarrow> MultiRaftCluster \<Rightarrow> 't clusterObjects \<Rightarrow> bool" where
  "partitions_stale domain c x \<longleftrightarrow>
     \<not> isPartitionStatusesEqual (statusPartitions (cluster_status c x)) (partitionsFor domain c x)"

definition stale_groups :: "MultiRaftCluster \<Rightarrow> 't clusterObjects \<Rightarrow> int set" where
  "stale_groups c x = {g \<in> {1..getNumGroups c}. group_state c x g \<noteq> groupStateFor c x g}"

definition group_todo :: "MultiRaftCluster \<Rightarrow> 't clusterObjects \<Rightarrow> int \<Rightarrow> nat" where
  "group_todo c x g =
     (if ob_Groups x (groupName c g) = None then 1 else 0) + (\<Sum>m \<in> {1..getNumMembers c}. member_todo c x g m)"

definition work_todo :: "MultiRaftCluster \<Rightarrow> 't clusterObjects \<Rightarrow> nat" where
  "work_todo c x = (\<Sum>g \<in> {1..getNumGroups c}. group_todo c x g)"

definition status_todo :: "string \<Rightarrow> MultiRaftCluster \<Rightarrow> 't clusterObjects \<Rightarrow> nat" where
  "status_todo domain c x =
     2 * card (stale_groups c x) +
     (if mst_State (cluster_status c x) \<noteq> clusterStateFor c x then 1 else 0) +
     (if partitions_stale domain c x then 1 else 0)"

definition todo :: "string \<Rightarrow> MultiRaftCluster \<Rightarrow> 't clusterObjects \<Rightarrow> nat" where
  "todo domain c x = work_todo c x * (2 * nat (getNumGroups c) + 3) + status_todo domain c x"

text \<open>
  A write makes progress: everything stays in place, the configuration map, the stateful set
  and the services are as they were, and less is left to do.
\<close>

definition progress :: "string \<Rightarrow> MultiRaftCluster \<Rightarrow> 't clusterObjects \<Rightarrow> 't clusterObjects \<Rightarrow> bool" where
  "progress domain c x x' \<longleftrightarrow> in_place c x' \<and> todo domain c x' < todo domain c x \<and>
     ob_ConfigMaps x' = ob_ConfigMaps x \<and> ob_StatefulSets x' = ob_StatefulSets x \<and>
     ob_Services x' = ob_Services x"

lemma sum_less_at:
  fixes f h :: "'a \<Rightarrow> nat"
  assumes "finite A" and "a \<in> A" and "f a < h a" and "\<And>b. b \<in> A \<Longrightarrow> b \<noteq> a \<Longrightarrow> f b = h b"
  shows "sum f A < sum h A"
  using assms by (intro sum_strict_mono_ex1) (auto simp: le_less)

lemma status_todo_bound: "status_todo domain c x < 2 * nat (getNumGroups c) + 3"
proof -
  have "card (stale_groups c x) \<le> card {1..getNumGroups c}"
    by (rule card_mono) (auto simp: stale_groups_def)
  then show ?thesis by (simp add: status_todo_def)
qed

lemma work_less: "work_todo c x' < work_todo c x \<Longrightarrow> todo domain c x' < todo domain c x"
proof -
  assume "work_todo c x' < work_todo c x"
  then have "(work_todo c x' + 1) * (2 * nat (getNumGroups c) + 3) \<le> work_todo c x * (2 * nat (getNumGroups c) + 3)"
    by (intro mult_right_mono) simp_all
  then show ?thesis using status_todo_bound [of domain c x'] by (simp add: todo_def)
qed

lemma member_written_progress:
  assumes place: "in_place c x" and g: "g \<in> {1..getNumGroups c}" and m: "m \<in> {1..getNumMembers c}"
    and written: "member_written c x x' g m"
  shows "progress domain c x x'"
proof -
  obtain mem where x': "x' = x\<lparr>ob_Members := (ob_Members x)(mname c g m \<mapsto> mem)\<rparr>"
      and mem: "metaKey (rm_Meta mem) = mname c g m" "rms_Pod (rm_Spec mem) = getPodName c g m"
      and less: "member_todo c x' g m < member_todo c x g m"
    using written by (auto simp: member_written_def)
  have other: "mname c h n = mname c g m \<longleftrightarrow> h = g \<and> n = m"
    if "h \<in> {1..getNumGroups c}" "n \<in> {1..getNumMembers c}" for h n
    using that g m mname_inject [of h g n m c] by simp
  have same: "member_todo c x' h n = member_todo c x h n"
    if "h \<in> {1..getNumGroups c}" "n \<in> {1..getNumMembers c}" "(h, n) \<noteq> (g, m)" for h n
    using other [OF that(1,2)] that(3) by (intro member_todo_cong) (auto simp: x')
  have "in_place c x'"
    using place other mem by (auto simp: in_place_def group_in_place_def member_in_place_def x')
  moreover have "group_todo c x' g < group_todo c x g"
    using sum_less_at [of "{1..getNumMembers c}" m "member_todo c x' g" "member_todo c x g"] m less same [OF g]
    by (simp add: group_todo_def x')
  moreover have "group_todo c x' h = group_todo c x h" if "h \<in> {1..getNumGroups c}" "h \<noteq> g" for h
    using same [OF that(1)] that(2) by (simp add: group_todo_def) (simp add: x')
  ultimately show ?thesis
    using sum_less_at [of "{1..getNumGroups c}" g "group_todo c x'" "group_todo c x"] g work_less [of c x' x]
    by (simp add: progress_def work_todo_def x')
qed

definition group_written :: "MultiRaftCluster \<Rightarrow> 't clusterObjects \<Rightarrow> 't clusterObjects \<Rightarrow> int \<Rightarrow> RaftGroup \<Rightarrow> bool" where
  "group_written c x x' g grp \<longleftrightarrow>
     x' = x\<lparr>ob_Groups := (ob_Groups x)(groupName c g \<mapsto> grp)\<rparr> \<and>
     metaKey (rg_Meta grp) = groupName c g \<and> known_members c g (rg_Status grp) \<and> group_status_ok (rg_Status grp)"

lemma group_written_place:
  assumes "in_place c x" and "g \<in> {1..getNumGroups c}" and "group_written c x x' g grp"
  shows "in_place c x'"
    and "\<And>h. h \<in> {1..getNumGroups c} \<Longrightarrow>
      ob_Groups x' (groupName c h) = (if h = g then Some grp else ob_Groups x (groupName c h))"
proof -
  show other: "ob_Groups x' (groupName c h) = (if h = g then Some grp else ob_Groups x (groupName c h))"
    if "h \<in> {1..getNumGroups c}" for h
    using that assms(2,3) groupName_inject [of h g c] by (auto simp: group_written_def)
  show "in_place c x'"
    using assms other unfolding in_place_def group_in_place_def
    by (auto simp: group_written_def member_in_place_def)
qed

lemma group_created_progress:
  assumes place: "in_place c x" and g: "g \<in> {1..getNumGroups c}" and written: "group_written c x x' g grp"
    and none: "ob_Groups x (groupName c g) = None"
  shows "progress domain c x x'"
proof -
  note w = group_written_place [OF place g written]
  have m: "member_todo c x' h n = member_todo c x h n" for h n
    using written by (intro member_todo_cong) (simp_all add: group_written_def)
  have "group_todo c x' g < group_todo c x g"
    using none w(2) [OF g] by (simp add: group_todo_def m)
  moreover have "group_todo c x' h = group_todo c x h" if "h \<in> {1..getNumGroups c}" "h \<noteq> g" for h
    using that w(2) by (simp add: group_todo_def m)
  ultimately show ?thesis
    using sum_less_at [of "{1..getNumGroups c}" g "group_todo c x'" "group_todo c x"] g w(1) written
      work_less [of c x' x]
    by (simp add: progress_def work_todo_def group_written_def)
qed

lemma group_status_progress:
  assumes place: "in_place c x" and g: "g \<in> {1..getNumGroups c}" and old: "ob_Groups x (groupName c g) = Some old"
    and stale: "group_state c x g \<noteq> groupStateFor c x g"
    and x': "x' = x\<lparr>ob_Groups := (ob_Groups x)(groupName c g \<mapsto>
        old\<lparr>rg_Status := (rg_Status old)\<lparr>gs_State := groupStateFor c x g\<rparr>\<rparr>)\<rparr>"
  shows "progress domain c x x'"
proof -
  let ?grp = "old\<lparr>rg_Status := (rg_Status old)\<lparr>gs_State := groupStateFor c x g\<rparr>\<rparr>"
  have "group_in_place c x g" using place g by (simp add: in_place_def)
  then have "group_written c x x' g ?grp"
    using old by (simp add: group_written_def x' group_in_place_def known_members_def group_status_ok_def)
  note w = group_written_place [OF place g this]
  have m: "member_todo c x' h n = member_todo c x h n" "groupStateFor c x' h = groupStateFor c x h" for h n
    by (intro member_todo_cong, simp_all add: x' groupStateFor_def member_state_def)
  have "group_state c x' h = (if h = g then groupStateFor c x g else group_state c x h)"
    if "h \<in> {1..getNumGroups c}" for h
    using w(2) [OF that] by (simp add: group_state_def)
  then have "stale_groups c x' = stale_groups c x - {g}"
    using g stale by (auto simp: stale_groups_def m split: if_splits)
  moreover have "finite (stale_groups c x)"
    by (rule finite_subset [of _ "{1..getNumGroups c}"]) (auto simp: stale_groups_def)
  moreover have "g \<in> stale_groups c x" using g stale by (simp add: stale_groups_def)
  ultimately have "card (stale_groups c x) = Suc (card (stale_groups c x'))"
    by (metis card.remove)
  moreover have "group_todo c x' h = group_todo c x h" if "h \<in> {1..getNumGroups c}" for h
    using w(2) [OF that] old by (simp add: group_todo_def m)
  then have "work_todo c x' = work_todo c x" by (simp add: work_todo_def)
  moreover have "partitionFor domain c x' h = partitionFor domain c x h" if "h \<in> {1..getNumGroups c}" for h
  proof -
    have "addressFor domain c x' = addressFor domain c x" by (simp add: fun_eq_iff addressFor_def x')
    then show ?thesis using w(2) [OF that] old by (simp add: partitionFor_def Let_def)
  qed
  then have "partitionsFor domain c x' = partitionsFor domain c x" by (simp add: partitionsFor_def)
  moreover have "cluster_status c x' = cluster_status c x" by (simp add: cluster_status_def x')
  ultimately show ?thesis
    using w(1) by (simp add: progress_def todo_def status_todo_def partitions_stale_def x')
qed

lemma cluster_status_progress:
  assumes place: "in_place c x" and x': "x' = x\<lparr>ob_Clusters := (ob_Clusters x)(clusterKey c \<mapsto> c\<lparr>mrc_Status := st\<rparr>)\<rparr>"
    and listed: "partitions_listed c st"
    and less: "(if mst_State st \<noteq> clusterStateFor c x then 1 else 0) +
        (if \<not> isPartitionStatusesEqual (statusPartitions st) (partitionsFor domain c x) then 1 else 0) <
      (if mst_State (cluster_status c x) \<noteq> clusterStateFor c x then 1 else 0) +
        (if partitions_stale domain c x then 1 else (0 :: nat))"
  shows "progress domain c x x'"
proof -
  have "in_place c x'"
    using place listed by (auto simp: in_place_def x' group_in_place_def member_in_place_def)
  moreover have m: "member_todo c x' h n = member_todo c x h n" for h n
    by (intro member_todo_cong) (simp_all add: x')
  moreover have "stale_groups c x' = stale_groups c x"
    by (simp add: stale_groups_def group_state_def groupStateFor_def member_state_def x')
  moreover have "work_todo c x' = work_todo c x" by (simp add: work_todo_def group_todo_def m) (simp add: x')
  moreover have "cluster_status c x' = st" "clusterStateFor c x' = clusterStateFor c x"
    by (simp_all add: cluster_status_def clusterStateFor_def group_state_def x')
  moreover have "partitionsFor domain c x' = partitionsFor domain c x"
  proof -
    have "addressFor domain c x' = addressFor domain c x" by (simp add: fun_eq_iff addressFor_def x')
    then show ?thesis by (simp add: partitionsFor_def partitionFor_def) (simp add: x')
  qed
  ultimately show ?thesis
    using less by (simp add: progress_def todo_def status_todo_def partitions_stale_def)
      (simp add: x')
qed

section \<open>A group\<close>

definition member_done :: "MultiRaftCluster \<Rightarrow> 't clusterObjects \<Rightarrow> int \<Rightarrow> int \<Rightarrow> bool" where
  "member_done c x g m \<longleftrightarrow> ob_Members x (mname c g m) \<noteq> None \<and> member_todo c x g m = 0"

definition group_done :: "MultiRaftCluster \<Rightarrow> 't clusterObjects \<Rightarrow> int \<Rightarrow> bool" where
  "group_done c x g \<longleftrightarrow> ob_Groups x (groupName c g) \<noteq> None \<and>
     (\<forall>m \<in> {1..getNumMembers c}. member_done c x g m) \<and> group_state c x g = groupStateFor c x g"

lemma reconcileMemberList_step:
  assumes laws: "cluster_laws env V" and key: "metaKey (rg_Meta grp) = groupName c g"
  shows "\<forall>m \<in> set ms. member_in_place c (V w) g m \<Longrightarrow>
    \<exists>r w'. run_state (reconcileMemberList env (c\<lparr>mrc_Status := st\<rparr>) grp g ms s) w = (Inr r, w') \<and>
    (case r of
       None \<Rightarrow> \<exists>m \<in> set ms. member_written c (V w) (V w') g m
     | Some s' \<Rightarrow> w' = w \<and> (\<forall>m \<in> set ms. member_done c (V w) g m) \<and>
         s' = (if \<exists>m \<in> set ms. member_state c (V w) g m = RaftMemberNotReady then RaftGroupNotReady else s))"
proof (induction ms arbitrary: s)
  case (Cons m ms)
  obtain mem upd w1 where
    step: "run_state (reconcileMember env (c\<lparr>mrc_Status := st\<rparr>) grp g m) w = (Inr (mem, upd), w1)"
    and upd: "if upd then member_written c (V w) (V w1) g m
      else w1 = w \<and> ob_Members (V w) (mname c g m) = Some mem \<and> member_todo c (V w) g m = 0"
    using reconcileMember_step [OF laws _ key, of w m st] Cons.prems by auto
  show ?case
  proof (cases upd)
    case True
    with step upd show ?thesis by (auto simp: run_bindE)
  next
    case False
    let ?s = "if ms_State (rm_Status mem) = RaftMemberNotReady then RaftGroupNotReady else s"
    from Cons.IH [of ?s] Cons.prems obtain r w' where
      "run_state (reconcileMemberList env (c\<lparr>mrc_Status := st\<rparr>) grp g ms ?s) w = (Inr r, w')"
      "case r of
         None \<Rightarrow> \<exists>m \<in> set ms. member_written c (V w) (V w') g m
       | Some s' \<Rightarrow> w' = w \<and> (\<forall>m \<in> set ms. member_done c (V w) g m) \<and>
           s' = (if \<exists>m \<in> set ms. member_state c (V w) g m = RaftMemberNotReady then RaftGroupNotReady else ?s)"
      by auto
    with False step upd show ?thesis
      by (intro exI [of _ r] exI [of _ w'])
        (auto simp: run_bindE member_done_def member_state_def split: option.splits)
  qed
qed simp

lemma reconcileMembers_step:
  assumes laws: "cluster_laws env V" and place: "in_place c (V w)" and g: "g \<in> {1..getNumGroups c}"
    and grp: "ob_Groups (V w) (groupName c g) = Some grp"
  shows "\<exists>upd w'. run_state (reconcileMembers env (c\<lparr>mrc_Status := st\<rparr>) grp g) w = (Inr upd, w') \<and>
    (if upd then progress domain c (V w) (V w') else w' = w \<and> group_done c (V w) g)"
proof -
  let ?c = "c\<lparr>mrc_Status := st\<rparr>" and ?ms = "[1..getNumMembers c]"
  have key: "metaKey (rg_Meta grp) = groupName c g"
    using place g grp by (auto simp: in_place_def group_in_place_def)
  obtain r w1 where
    list: "run_state (reconcileMemberList env ?c grp g ?ms RaftGroupReady) w = (Inr r, w1)" and
    r: "case r of
       None \<Rightarrow> \<exists>m \<in> set ?ms. member_written c (V w) (V w1) g m
     | Some s' \<Rightarrow> w1 = w \<and> (\<forall>m \<in> set ?ms. member_done c (V w) g m) \<and>
         s' = (if \<exists>m \<in> set ?ms. member_state c (V w) g m = RaftMemberNotReady then RaftGroupNotReady else RaftGroupReady)"
    using reconcileMemberList_step [OF laws key, of ?ms w st RaftGroupReady] place g
    by (auto simp: in_place_def)
  show ?thesis
  proof (cases r)
    case None
    then obtain m where "m \<in> {1..getNumMembers c}" "member_written c (V w) (V w1) g m" using r by auto
    from member_written_progress [OF place g this] None list show ?thesis
      by (auto simp: reconcileMembers_def run_bindE)
  next
    case (Some s')
    then have s: "w1 = w" "\<forall>m \<in> {1..getNumMembers c}. member_done c (V w) g m" "s' = groupStateFor c (V w) g"
      using r by (simp_all add: groupStateFor_def)
    have state: "group_state c (V w) g = gs_State (rg_Status grp)" using grp by (simp add: group_state_def)
    show ?thesis
    proof (cases "gs_State (rg_Status grp) = s'")
      case True
      with Some list s state grp show ?thesis
        by (auto simp: reconcileMembers_def run_bindE group_done_def)
    next
      case False
      let ?new = "grp\<lparr>rg_Status := (rg_Status grp)\<lparr>gs_State := s'\<rparr>\<rparr>"
      have us: "updates_status V ob_Groups ob_Groups_update (metaKey \<circ> rg_Meta)
          (\<lambda>g old. old\<lparr>rg_Status := rg_Status g\<rparr>) (k_Groups env)"
        using laws by (simp add: cluster_laws_def)
      have "ob_Groups (V w) ((metaKey \<circ> rg_Meta) ?new) = Some grp" using grp key by simp
      then obtain w2 where w2: "run_state (cl_StatusUpdate (k_Groups env) ?new) w = (Inr (grp\<lparr>rg_Status := rg_Status ?new\<rparr>), w2)"
        "V w2 = (V w)\<lparr>ob_Groups := (ob_Groups (V w))((metaKey \<circ> rg_Meta) ?new \<mapsto> grp\<lparr>rg_Status := rg_Status ?new\<rparr>)\<rparr>"
        by (rule run_updates_status [OF us])
      have "progress domain c (V w) (V w2)"
        by (rule group_status_progress [OF place g grp]) (use False state s(3) w2(2) key in simp_all)
      with False Some list s(1) w2(1) show ?thesis
        by (auto simp: reconcileMembers_def run_bindE)
    qed
  qed
qed

lemma reconcileGroup_step:
  assumes laws: "cluster_laws env V" and place: "in_place c (V w)" and g: "g \<in> {1..getNumGroups c}"
  shows "\<exists>grp upd w'. run_state (reconcileGroup env (c\<lparr>mrc_Status := st\<rparr>) g) w = (Inr (grp, upd), w') \<and>
    (if upd then progress domain c (V w) (V w')
     else w' = w \<and> group_done c (V w) g \<and> ob_Groups (V w) (groupName c g) = Some grp)"
proof -
  let ?c = "c\<lparr>mrc_Status := st\<rparr>"
  have get: "run_state (cl_Get (k_Groups env) n) w =
      (case ob_Groups (V w) n of Some x \<Rightarrow> (Inr x, w) | None \<Rightarrow> (Inl NotFound, w))" for n
    using laws by (simp add: cluster_laws_def run_reads)
  show ?thesis
  proof (cases "ob_Groups (V w) (groupName c g)")
    case (Some grp)
    obtain upd w' where "run_state (reconcileMembers env ?c grp g) w = (Inr upd, w')"
      "if upd then progress domain c (V w) (V w') else w' = w \<and> group_done c (V w) g"
      using reconcileMembers_step [OF laws place g Some, of st domain] by blast
    with Some show ?thesis
      by (intro exI [of _ grp] exI [of _ upd] exI [of _ w']) (simp add: reconcileGroup_def get run_bindE)
  next
    case None
    let ?n = "newGroup ?c g"
    obtain m1 where m1: "k_SetControllerReference env (mrc_Meta c) (rg_Meta ?n) = Inr m1"
        "metaKey m1 = groupName c g"
      using laws newGroup_key [of ?c g] unfolding cluster_laws_def sets_reference_def by (metis status_independent(4))
    have cr: "creates V ob_Groups ob_Groups_update (metaKey \<circ> rg_Meta) same_group (k_Groups env)"
      using laws by (simp add: cluster_laws_def)
    have "ob_Groups (V w) ((metaKey \<circ> rg_Meta) (?n\<lparr>rg_Meta := m1\<rparr>)) = None" using None m1(2) by simp
    then obtain grp w' where "run_state (cl_Create (k_Groups env) (?n\<lparr>rg_Meta := m1\<rparr>)) w = (Inr grp, w')"
      "same_group (?n\<lparr>rg_Meta := m1\<rparr>) grp"
      "V w' = (V w)\<lparr>ob_Groups := (ob_Groups (V w))((metaKey \<circ> rg_Meta) (?n\<lparr>rg_Meta := m1\<rparr>) \<mapsto> grp)\<rparr>"
      by (rule run_creates [OF cr])
    moreover from this m1(2) have "group_written c (V w) (V w') g grp"
      by (simp add: group_written_def same_group_def newGroup_def known_members_def zeroGroupStatus_def group_status_ok_def)
    then have "progress domain c (V w) (V w')" by (rule group_created_progress [OF place g _ None])
    ultimately show ?thesis
      using None m1(1) by (auto simp: reconcileGroup_def get IsNotFound_def run_bindE)
  qed
qed

lemma reconcileGroupList_step:
  assumes laws: "cluster_laws env V" and place: "in_place c (V w)"
  shows "set gs \<subseteq> {1..getNumGroups c} \<Longrightarrow>
    \<exists>r w'. run_state (reconcileGroupList env (c\<lparr>mrc_Status := st\<rparr>) gs s) w = (Inr r, w') \<and>
    (case r of
       None \<Rightarrow> progress domain c (V w) (V w')
     | Some s' \<Rightarrow> w' = w \<and> (\<forall>g \<in> set gs. group_done c (V w) g) \<and>
         s' = (if \<exists>g \<in> set gs. group_state c (V w) g = RaftGroupNotReady then MultiRaftClusterNotReady else s))"
proof (induction gs arbitrary: s)
  case (Cons g gs)
  obtain grp upd w1 where
    step: "run_state (reconcileGroup env (c\<lparr>mrc_Status := st\<rparr>) g) w = (Inr (grp, upd), w1)"
    and upd: "if upd then progress domain c (V w) (V w1)
      else w1 = w \<and> group_done c (V w) g \<and> ob_Groups (V w) (groupName c g) = Some grp"
    using reconcileGroup_step [OF laws place, of g st domain] Cons.prems by auto
  show ?case
  proof (cases upd)
    case True
    with step upd show ?thesis by (auto simp: run_bindE)
  next
    case False
    let ?s = "if gs_State (rg_Status grp) = RaftGroupNotReady then MultiRaftClusterNotReady else s"
    from Cons.IH [of ?s] Cons.prems obtain r w' where
      "run_state (reconcileGroupList env (c\<lparr>mrc_Status := st\<rparr>) gs ?s) w = (Inr r, w')"
      "case r of
         None \<Rightarrow> progress domain c (V w) (V w')
       | Some s' \<Rightarrow> w' = w \<and> (\<forall>g \<in> set gs. group_done c (V w) g) \<and>
           s' = (if \<exists>g \<in> set gs. group_state c (V w) g = RaftGroupNotReady then MultiRaftClusterNotReady else ?s)"
      by auto
    with False step upd show ?thesis
      by (intro exI [of _ r] exI [of _ w']) (auto simp: run_bindE group_state_def split: option.splits)
  qed
qed simp

section \<open>The cluster's statuses\<close>

lemma run_cluster_status:
  assumes laws: "cluster_laws env V" and stored: "ob_Clusters (V w) (clusterKey c) = Some (c\<lparr>mrc_Status := st\<rparr>)"
  obtains w' where "run_state (cl_StatusUpdate (k_Clusters env) (c\<lparr>mrc_Status := new\<rparr>)) w =
      (Inr (c\<lparr>mrc_Status := new\<rparr>), w')"
    and "V w' = (V w)\<lparr>ob_Clusters := (ob_Clusters (V w))(clusterKey c \<mapsto> c\<lparr>mrc_Status := new\<rparr>)\<rparr>"
proof -
  have us: "updates_status V ob_Clusters ob_Clusters_update (metaKey \<circ> mrc_Meta)
      (\<lambda>c old. old\<lparr>mrc_Status := mrc_Status c\<rparr>) (k_Clusters env)"
    using laws by (simp add: cluster_laws_def)
  have "ob_Clusters (V w) ((metaKey \<circ> mrc_Meta) (c\<lparr>mrc_Status := new\<rparr>)) = Some (c\<lparr>mrc_Status := st\<rparr>)"
    using stored by (simp add: clusterKey_def)
  then show ?thesis
    by (rule run_updates_status [OF us]) (rule that, simp_all add: clusterKey_def)
qed

lemma reconcileGroups_step:
  assumes laws: "cluster_laws env V" and place: "in_place c (V w)"
    and stored: "ob_Clusters (V w) (clusterKey c) = Some (c\<lparr>mrc_Status := st\<rparr>)"
  shows "\<exists>upd w'. run_state (reconcileGroups env (c\<lparr>mrc_Status := st\<rparr>)) w = (Inr upd, w') \<and>
    (if upd then progress domain c (V w) (V w')
     else w' = w \<and> (\<forall>g \<in> {1..getNumGroups c}. group_done c (V w) g) \<and>
       mst_State (cluster_status c (V w)) = clusterStateFor c (V w))"
proof -
  let ?c = "c\<lparr>mrc_Status := st\<rparr>" and ?gs = "[1..getNumGroups c]"
  obtain r w1 where
    list: "run_state (reconcileGroupList env ?c ?gs MultiRaftClusterReady) w = (Inr r, w1)" and
    r: "case r of
       None \<Rightarrow> progress domain c (V w) (V w1)
     | Some s' \<Rightarrow> w1 = w \<and> (\<forall>g \<in> set ?gs. group_done c (V w) g) \<and>
         s' = (if \<exists>g \<in> set ?gs. group_state c (V w) g = RaftGroupNotReady then MultiRaftClusterNotReady
           else MultiRaftClusterReady)"
    using reconcileGroupList_step [OF laws place, of ?gs st MultiRaftClusterReady domain] by auto
  show ?thesis
  proof (cases r)
    case None
    with list r show ?thesis by (auto simp: reconcileGroups_def run_bindE)
  next
    case (Some s')
    then have s: "w1 = w" "\<forall>g \<in> {1..getNumGroups c}. group_done c (V w) g" "s' = clusterStateFor c (V w)"
      using r by (simp_all add: clusterStateFor_def)
    have status: "cluster_status c (V w) = st" using stored by (simp add: cluster_status_def)
    show ?thesis
    proof (cases "mst_State st = s'")
      case True
      with Some list s status show ?thesis by (auto simp: reconcileGroups_def run_bindE)
    next
      case False
      let ?new = "st\<lparr>mst_State := s'\<rparr>"
      obtain w2 where w2: "run_state (cl_StatusUpdate (k_Clusters env) (c\<lparr>mrc_Status := ?new\<rparr>)) w =
          (Inr (c\<lparr>mrc_Status := ?new\<rparr>), w2)"
        "V w2 = (V w)\<lparr>ob_Clusters := (ob_Clusters (V w))(clusterKey c \<mapsto> c\<lparr>mrc_Status := ?new\<rparr>)\<rparr>"
        by (rule run_cluster_status [OF laws stored])
      have "partitions_listed c (cluster_status c (V w))"
        using place by (auto simp: in_place_def cluster_status_def)
      then have "partitions_listed c ?new" by (simp add: status partitions_listed_def)
      then have "progress domain c (V w) (V w2)"
        using False s(3) by (intro cluster_status_progress [OF place w2(2)])
          (simp_all add: status partitions_stale_def statusPartitions_def)
      with False Some list s(1) w2(1) show ?thesis by (auto simp: reconcileGroups_def run_bindE)
    qed
  qed
qed

lemma run_memberAddress:
  assumes laws: "cluster_laws env V" and place: "in_place c (V w)" and g: "g \<in> {1..getNumGroups c}"
    and finished: "group_done c (V w) g" and ns: "om_Namespace (rg_Meta grp) = om_Namespace (mrc_Meta c)"
    and name: "\<exists>m \<in> {1..getNumMembers c}. mname c g m = \<lparr>nn_Namespace = om_Namespace (mrc_Meta c), nn_Name = name\<rparr>"
  shows "run_state (memberAddress env (c\<lparr>mrc_Status := st\<rparr>) grp name) w =
    (Inr (addressFor (k_domain env) c (V w) name), w)"
proof -
  have "ob_Members (V w) \<lparr>nn_Namespace = om_Namespace (mrc_Meta c), nn_Name = name\<rparr> \<noteq> None"
    using finished name by (auto simp: group_done_def member_done_def)
  moreover have "run_state (cl_Get (k_Members env) n) w =
      (case ob_Members (V w) n of Some x \<Rightarrow> (Inr x, w) | None \<Rightarrow> (Inl NotFound, w))" for n
    using laws by (simp add: cluster_laws_def run_reads)
  ultimately show ?thesis
    by (auto simp: memberAddress_def run_bindE ns addressFor_def)
qed

lemma run_memberAddresses:
  assumes "\<And>name. name \<in> set names \<Longrightarrow> run_state (memberAddress env c grp name) w = (Inr (f name), w)"
  shows "run_state (memberAddresses env c grp names) w = (Inr (map f names), w)"
  using assms by (induction names) (simp_all add: run_bindE)

lemma run_getPartitionStatus:
  assumes laws: "cluster_laws env V" and place: "in_place c (V w)" and g: "g \<in> {1..getNumGroups c}"
    and finished: "group_done c (V w) g"
  shows "run_state (getPartitionStatus env (c\<lparr>mrc_Status := st\<rparr>) g) w =
    (Inr (partitionFor (k_domain env) c (V w) g), w)"
proof -
  obtain grp where grp: "ob_Groups (V w) (groupName c g) = Some grp"
    using finished by (auto simp: group_done_def)
  then have "metaKey (rg_Meta grp) = groupName c g" "known_members c g (rg_Status grp)"
    using place g by (auto simp: in_place_def group_in_place_def)
  then have ns: "om_Namespace (rg_Meta grp) = om_Namespace (mrc_Meta c)" and
    known: "\<And>name. name \<in> set_option (gs_Leader (rg_Status grp)) \<union> set (gs_Followers (rg_Status grp)) \<Longrightarrow>
      \<exists>m \<in> {1..getNumMembers c}. mname c g m = \<lparr>nn_Namespace = om_Namespace (mrc_Meta c), nn_Name = name\<rparr>"
    by (auto simp: metaKey_def groupName_def known_members_def)
  note address = run_memberAddress [OF laws place g finished ns known, of _ st]
  have "run_state (memberAddresses env (c\<lparr>mrc_Status := st\<rparr>) grp (gs_Followers (rg_Status grp))) w =
      (Inr (map (addressFor (k_domain env) c (V w)) (gs_Followers (rg_Status grp))), w)"
    by (rule run_memberAddresses) (simp add: address)
  moreover have "run_state (cl_Get (k_Groups env) n) w =
      (case ob_Groups (V w) n of Some x \<Rightarrow> (Inr x, w) | None \<Rightarrow> (Inl NotFound, w))" for n
    using laws by (simp add: cluster_laws_def run_reads)
  ultimately show ?thesis
    using grp address
    by (auto simp: getPartitionStatus_def run_bindE partitionFor_def Let_def split: option.splits)
qed

lemma run_getPartitionStatusList:
  assumes "\<And>g. g \<in> set gs \<Longrightarrow> run_state (getPartitionStatus env c g) w = (Inr (f g), w)"
  shows "run_state (getPartitionStatusList env c gs) w = (Inr (map f gs), w)"
  using assms by (induction gs) (simp_all add: run_bindE)

lemma isPartitionStatusesEqual_refl:
  assumes "distinct (map ps_PartitionID ps)"
  shows "isPartitionStatusesEqual ps ps"
proof -
  have "p = q" if "p \<in> set ps" "q \<in> set ps" "ps_PartitionID p = ps_PartitionID q" for p q
    using assms that by (auto simp: distinct_map inj_on_def)
  moreover have "isPartitionStatusEqual p p" for p
    by (simp add: isPartitionStatusEqual_def list_all_iff)
  ultimately show ?thesis by (fastforce simp: isPartitionStatusesEqual_def list_all_iff)
qed

lemma partitionsFor_ids:
  assumes "getNumGroups c < 2 ^ 31"
  shows "map ps_PartitionID (partitionsFor domain c x) = [1..getNumGroups c]"
proof -
  have "signed_take_bit 31 g = g" if "g \<in> set [1..getNumGroups c]" for g
    using assms that by (simp add: signed_take_bit_int_eq_self)
  then show ?thesis
    by (simp add: partitionsFor_def comp_def partitionFor_def Let_def del: set_upto)
      (rule map_idI)
qed

lemma partitionsFor_distinct:
  assumes "getNumGroups c < 2 ^ 31"
  shows "distinct (map ps_PartitionID (partitionsFor domain c x))"
  by (simp only: partitionsFor_ids [OF assms] distinct_upto)

text \<open>With the same partitions listed, the comparison of the code compares them one by one.\<close>

lemma isPartitionStatusesEqual_listed:
  assumes ids: "map ps_PartitionID ps = map ps_PartitionID qs" and eq: "isPartitionStatusesEqual ps qs"
  shows "list_all2 isPartitionStatusEqual ps qs"
proof -
  have len: "length ps = length qs" using ids by (metis length_map)
  have "isPartitionStatusEqual (ps ! i) (qs ! i)" if "i < length ps" for i
  proof -
    have "ps_PartitionID (ps ! i) = ps_PartitionID (qs ! i)" using ids that len by (metis nth_map)
    with eq that len show ?thesis
      by (auto simp: isPartitionStatusesEqual_def list_all_iff split: if_splits)
  qed
  with len show ?thesis by (simp add: list_all2_conv_all_nth)
qed

text \<open>Members with pods of their own have addresses of their own.\<close>

lemma addressFor_inj:
  assumes place: "in_place c x" and g: "g \<in> {1..getNumGroups c}" and finished: "group_done c x g" and sep: "separate_pods c"
  shows "inj_on (addressFor domain c x) {name. \<exists>m \<in> {1..getNumMembers c}.
    mname c g m = \<lparr>nn_Namespace = om_Namespace (mrc_Meta c), nn_Name = name\<rparr>}"
proof (rule inj_onI, safe)
  fix a b m n
  assume m: "m \<in> {1..getNumMembers c}" "mname c g m = \<lparr>nn_Namespace = om_Namespace (mrc_Meta c), nn_Name = a\<rparr>"
    and n: "n \<in> {1..getNumMembers c}" "mname c g n = \<lparr>nn_Namespace = om_Namespace (mrc_Meta c), nn_Name = b\<rparr>"
    and eq: "addressFor domain c x a = addressFor domain c x b"
  have pod: "rms_Pod (rm_Spec (the (ob_Members x (mname c g k)))) = getPodName c g k" if k: "k \<in> {1..getNumMembers c}" for k
  proof -
    have "member_in_place c x g k" using place g k by (simp add: in_place_def)
    moreover have "ob_Members x (mname c g k) \<noteq> None"
      using finished k by (simp add: group_done_def member_done_def)
    ultimately show ?thesis by (auto simp: member_in_place_def)
  qed
  have "getPodName c g m = getPodName c g n"
    using eq pod [OF m(1)] pod [OF n(1)] by (simp add: addressFor_def getPodDNSName_def m(2) n(2))
  then have "m = n" using sep g m(1) n(1) by (auto simp: separate_pods_def inj_on_def)
  with m(2) n(2) show "a = b" by simp
qed

lemma partitionsFor_followers:
  assumes place: "in_place c x" and finished: "\<forall>g \<in> {1..getNumGroups c}. group_done c x g" and sep: "separate_pods c"
    and p: "p \<in> set (partitionsFor domain c x)"
  shows "distinct (ps_Followers p)"
proof -
  obtain g where g: "g \<in> {1..getNumGroups c}" and p: "p = partitionFor domain c x g"
    using p by (auto simp: partitionsFor_def)
  obtain grp where grp: "ob_Groups x (groupName c g) = Some grp"
    using finished g unfolding group_done_def by blast
  then have ok: "known_members c g (rg_Status grp)" "group_status_ok (rg_Status grp)"
    using place g by (auto simp: in_place_def group_in_place_def)
  have "inj_on (addressFor domain c x) (set (gs_Followers (rg_Status grp)))"
    by (rule inj_on_subset [OF addressFor_inj [OF place g _ sep]]) (use finished g ok(1) in \<open>auto simp: known_members_def\<close>)
  with ok(2) grp show ?thesis by (simp add: p partitionFor_def Let_def distinct_map group_status_ok_def)
qed

lemma reconcileStatus_step:
  assumes laws: "cluster_laws env V" and place: "in_place c (V w)" and "getNumGroups c < 2 ^ 31"
    and stored: "ob_Clusters (V w) (clusterKey c) = Some (c\<lparr>mrc_Status := st\<rparr>)"
    and finished: "\<forall>g \<in> {1..getNumGroups c}. group_done c (V w) g"
  shows "\<exists>upd w'. run_state (reconcileStatus env (c\<lparr>mrc_Status := st\<rparr>)) w = (Inr upd, w') \<and>
    (if upd then progress (k_domain env) c (V w) (V w')
     else w' = w \<and> \<not> partitions_stale (k_domain env) c (V w))"
proof -
  let ?c = "c\<lparr>mrc_Status := st\<rparr>" and ?ps = "partitionsFor (k_domain env) c (V w)"
  have get: "run_state (getPartitionStatuses env ?c) w = (Inr ?ps, w)"
    unfolding getPartitionStatuses_def status_independent partitionsFor_def
    by (rule run_getPartitionStatusList) (use run_getPartitionStatus [OF laws place] finished in simp)
  have status: "cluster_status c (V w) = st" using stored by (simp add: cluster_status_def)
  show ?thesis
  proof (cases "isPartitionStatusesEqual (statusPartitions st) ?ps")
    case True
    with get status show ?thesis by (auto simp: reconcileStatus_def run_bindE partitions_stale_def)
  next
    case False
    let ?new = "st\<lparr>mst_Partitions := Some ?ps\<rparr>"
    obtain w2 where w2: "run_state (cl_StatusUpdate (k_Clusters env) (c\<lparr>mrc_Status := ?new\<rparr>)) w =
        (Inr (c\<lparr>mrc_Status := ?new\<rparr>), w2)"
      "V w2 = (V w)\<lparr>ob_Clusters := (ob_Clusters (V w))(clusterKey c \<mapsto> c\<lparr>mrc_Status := ?new\<rparr>)\<rparr>"
      by (rule run_cluster_status [OF laws stored])
    have "isPartitionStatusesEqual ?ps ?ps"
      by (rule isPartitionStatusesEqual_refl [OF partitionsFor_distinct [OF assms(3)]])
    moreover have "partitions_listed c ?new"
      using partitionsFor_ids [OF assms(3)] partitionsFor_followers [OF place finished]
      by (simp add: partitions_listed_def)
    ultimately have "progress (k_domain env) c (V w) (V w2)"
      using False by (intro cluster_status_progress [OF place w2(2)])
        (simp_all add: status partitions_stale_def statusPartitions_def)
    with False get w2(1) show ?thesis by (auto simp: reconcileStatus_def run_bindE)
  qed
qed

section \<open>The resources around the cluster\<close>

definition headlessKey :: "MultiRaftCluster \<Rightarrow> NamespacedName" where
  "headlessKey c = \<lparr>nn_Namespace = om_Namespace (mrc_Meta c),
     nn_Name = getHeadlessServiceName (om_Name (mrc_Meta c))\<rparr>"

definition supplied :: "MultiRaftCluster \<Rightarrow> 't clusterObjects \<Rightarrow> bool" where
  "supplied c x \<longleftrightarrow> ob_ConfigMaps x (clusterKey c) \<noteq> None \<and> ob_StatefulSets x (clusterKey c) \<noteq> None \<and>
     ob_Services x (clusterKey c) \<noteq> None \<and> ob_Services x (headlessKey c) \<noteq> None"

text \<open>A claim template that the controller does not have to name.\<close>

definition claim_named :: "MultiRaftCluster \<Rightarrow> bool" where
  "claim_named c \<longleftrightarrow> (\<forall>pvc. mcs_VolumeClaimTemplate (mrc_Spec c) = Some pvc \<longrightarrow> pvc_Name pvc \<noteq> '''')"

text \<open>
  What a call that looks after one of the resources does: nothing when the resource is there;
  otherwise it creates it, and nothing else that the cluster's own objects depend on changes.
\<close>

definition same_core :: "'t clusterObjects \<Rightarrow> 't clusterObjects \<Rightarrow> bool" where
  "same_core x x' \<longleftrightarrow> ob_Clusters x' = ob_Clusters x \<and> ob_Groups x' = ob_Groups x \<and>
     ob_Members x' = ob_Members x \<and> ob_Pods x' = ob_Pods x"

definition only_adds :: "'t clusterObjects \<Rightarrow> 't clusterObjects \<Rightarrow> bool" where
  "only_adds x x' \<longleftrightarrow> same_core x x' \<and> ob_ConfigMaps x \<subseteq>\<^sub>m ob_ConfigMaps x' \<and>
     ob_StatefulSets x \<subseteq>\<^sub>m ob_StatefulSets x' \<and> ob_Services x \<subseteq>\<^sub>m ob_Services x'"

definition ensures :: "('w \<Rightarrow> 't clusterObjects) \<Rightarrow> ('t clusterObjects \<Rightarrow> bool) \<Rightarrow> ('w, k8sError + 'a) state \<Rightarrow>
    'a \<Rightarrow> 'w \<Rightarrow> bool" where
  "ensures V there m r w \<longleftrightarrow> (\<exists>w'. run_state m w = (Inr r, w') \<and> there (V w') \<and> only_adds (V w) (V w') \<and>
     (there (V w) \<longrightarrow> w' = w))"

lemma only_adds_refl [simp]: "only_adds x x"
  by (simp add: only_adds_def same_core_def)

lemma only_adds_trans [trans]: "only_adds x y \<Longrightarrow> only_adds y z \<Longrightarrow> only_adds x z"
  by (auto simp: only_adds_def same_core_def intro: map_le_trans)

lemma only_adds_there:
  assumes "only_adds x y"
  shows "ob_ConfigMaps x n \<noteq> None \<Longrightarrow> ob_ConfigMaps y n \<noteq> None"
    and "ob_StatefulSets x n \<noteq> None \<Longrightarrow> ob_StatefulSets y n \<noteq> None"
    and "ob_Services x n \<noteq> None \<Longrightarrow> ob_Services y n \<noteq> None"
  using assms map_le_implies_dom_le by (fastforce simp: only_adds_def)+

lemma same_core_todo:
  assumes "same_core x x'"
  shows "in_place c x' = in_place c x" and "todo domain c x' = todo domain c x"
proof -
  note core = assms [unfolded same_core_def]
  show "in_place c x' = in_place c x"
    using core by (simp add: in_place_def group_in_place_def member_in_place_def)
  have "member_todo c x' g m = member_todo c x g m" for g m
    using core by (intro member_todo_cong) simp_all
  moreover have "partitionsFor domain c x' = partitionsFor domain c x"
  proof -
    have "addressFor domain c x' = addressFor domain c x"
      using core by (simp add: fun_eq_iff addressFor_def)
    then show ?thesis using core by (simp add: partitionsFor_def partitionFor_def)
  qed
  ultimately show "todo domain c x' = todo domain c x"
    using core by (simp add: todo_def work_todo_def group_todo_def status_todo_def stale_groups_def
        partitions_stale_def cluster_status_def clusterStateFor_def
        groupStateFor_def group_state_def member_state_def)
qed

lemma ensures_getOrAdd:
  assumes "reads V view client"
    and "view (V w) n = None \<Longrightarrow> \<exists>w'. run_state add w = (Inr (), w') \<and> view (V w') n \<noteq> None \<and> only_adds (V w) (V w')"
  shows "ensures V (\<lambda>x. view x n \<noteq> None) (getOrAdd client n add) () w"
  using assms by (cases "view (V w) n") (auto simp: ensures_def getOrAdd_def run_reads IsNotFound_def)

lemma run_create_one:
  assumes cr: "creates V view upd key same client" and none: "view (V w) (key o1) = None"
    and upd: "\<And>f x. view x \<subseteq>\<^sub>m f (view x) \<Longrightarrow> only_adds x (upd f x)" "\<And>f x. view (upd f x) = f (view x)"
  shows "\<exists>o2 w'. run_state (cl_Create client o1) w = (Inr o2, w') \<and> view (V w') (key o1) \<noteq> None \<and>
    only_adds (V w) (V w')"
proof -
  obtain o2 w' where "run_state (cl_Create client o1) w = (Inr o2, w')"
    "V w' = upd (\<lambda>_. (view (V w))(key o1 \<mapsto> o2)) (V w)"
    by (rule run_creates [where view = view and key = key, OF cr none])
  moreover have "view (V w) \<subseteq>\<^sub>m (view (V w))(key o1 \<mapsto> o2)" using none by (auto simp: map_le_def)
  ultimately show ?thesis using upd by auto
qed

lemma ownedMeta_key:
  "metaKey (ownedMeta c (om_Name (mrc_Meta c))) = clusterKey c"
  "metaKey (ownedMeta c (getHeadlessServiceName (om_Name (mrc_Meta c)))) = headlessKey c"
  by (simp_all add: metaKey_def ownedMeta_def newMeta_def clusterKey_def headlessKey_def)

lemma ownedMeta_status [simp]: "ownedMeta (c\<lparr>mrc_Status := st\<rparr>) name = ownedMeta c name"
  by (simp add: ownedMeta_def)

lemma run_reference:
  assumes "cluster_laws env V"
  obtains meta where "k_SetControllerReference env (mrc_Meta c) m = Inr meta" and "metaKey meta = metaKey m"
  using assms unfolding cluster_laws_def sets_reference_def by meson

lemma ensures_configMap:
  assumes laws: "cluster_laws env V"
  shows "ensures V (\<lambda>x. ob_ConfigMaps x (clusterKey c) \<noteq> None) (reconcileConfigMap env (c\<lparr>mrc_Status := st\<rparr>)) () w"
  unfolding reconcileConfigMap_def status_independent
proof (rule ensures_getOrAdd)
  let ?c = "c\<lparr>mrc_Status := st\<rparr>"
  show "reads V ob_ConfigMaps (k_ConfigMaps env)" using laws by (simp add: cluster_laws_def)
  assume none: "ob_ConfigMaps (V w) (clusterKey c) = None"
  obtain logging raft where marshal: "k_MarshalLogging env (mcc_Logging (mcs_Config (mrc_Spec c))) = Inr logging"
      "k_MarshalConfig env (newNodeConfig ?c) = Inr raft"
    using laws unfolding cluster_laws_def by meson
  obtain meta where meta: "k_SetControllerReference env (mrc_Meta c) (ownedMeta c (om_Name (mrc_Meta c))) = Inr meta"
      "metaKey meta = clusterKey c"
    by (rule run_reference [OF laws, of c "ownedMeta c (om_Name (mrc_Meta c))"]) (simp add: ownedMeta_key)
  let ?o = "\<lparr>cm_Meta = meta, cm_Data = [raftConfigFile \<mapsto> raft, loggingConfigFile \<mapsto> logging]\<rparr>"
  have "\<exists>o2 w'. run_state (cl_Create (k_ConfigMaps env) ?o) w = (Inr o2, w') \<and>
      ob_ConfigMaps (V w') ((metaKey \<circ> cm_Meta) ?o) \<noteq> None \<and> only_adds (V w) (V w')"
  proof (rule run_create_one)
    show "creates V ob_ConfigMaps ob_ConfigMaps_update (metaKey \<circ> cm_Meta) (\<lambda>_ _. True) (k_ConfigMaps env)"
      using laws by (simp add: cluster_laws_def)
  qed (use none meta in \<open>simp_all add: only_adds_def same_core_def\<close>)
  then show "\<exists>w'. run_state (addConfigMap env ?c) w = (Inr (), w') \<and>
      ob_ConfigMaps (V w') (clusterKey c) \<noteq> None \<and> only_adds (V w) (V w')"
    using marshal meta by (auto simp: addConfigMap_def run_bindE)
qed

lemma ensures_statefulSet:
  assumes laws: "cluster_laws env V" and named: "claim_named c"
  shows "ensures V (\<lambda>x. ob_StatefulSets x (clusterKey c) \<noteq> None)
    (reconcileStatefulSet env (c\<lparr>mrc_Status := st\<rparr>)) (c\<lparr>mrc_Status := st\<rparr>) w"
proof -
  let ?c = "c\<lparr>mrc_Status := st\<rparr>" and ?o = "newStatefulSet env (c\<lparr>mrc_Status := st\<rparr>)"
  have get: "run_state (cl_Get (k_StatefulSets env) n) w =
      (case ob_StatefulSets (V w) n of Some x \<Rightarrow> (Inr x, w) | None \<Rightarrow> (Inl NotFound, w))" for n
    using laws by (simp add: cluster_laws_def run_reads)
  have claim: "snd (snd (snd (dataClaim ?c))) = ?c"
    using named by (simp add: claim_named_def dataClaim_def split: option.split)
  have key: "set_Meta ?o = ownedMeta c (om_Name (mrc_Meta c))"
    by (simp add: newStatefulSet_def Let_def split: prod.split)
  show ?thesis
  proof (cases "ob_StatefulSets (V w) (clusterKey c)")
    case (Some s)
    then show ?thesis by (simp add: ensures_def reconcileStatefulSet_def get)
  next
    case None
    obtain meta where meta: "k_SetControllerReference env (mrc_Meta c) (set_Meta ?o) = Inr meta"
        "metaKey meta = clusterKey c"
      by (rule run_reference [OF laws, of c "set_Meta ?o"]) (simp add: key ownedMeta_key)
    have "\<exists>o2 w'. run_state (cl_Create (k_StatefulSets env) (?o\<lparr>set_Meta := meta\<rparr>)) w = (Inr o2, w') \<and>
        ob_StatefulSets (V w') ((metaKey \<circ> set_Meta) (?o\<lparr>set_Meta := meta\<rparr>)) \<noteq> None \<and> only_adds (V w) (V w')"
    proof (rule run_create_one)
      show "creates V ob_StatefulSets ob_StatefulSets_update (metaKey \<circ> set_Meta) (\<lambda>_ _. True) (k_StatefulSets env)"
        using laws by (simp add: cluster_laws_def)
    qed (use None meta in \<open>simp_all add: only_adds_def same_core_def\<close>)
    then obtain o2 w' where "run_state (cl_Create (k_StatefulSets env) (?o\<lparr>set_Meta := meta\<rparr>)) w = (Inr o2, w')"
      "ob_StatefulSets (V w') (clusterKey c) \<noteq> None" "only_adds (V w) (V w')"
      using meta(2) by auto
    with None meta(1) show ?thesis
      by (simp add: ensures_def reconcileStatefulSet_def addStatefulSet_def get claim IsNotFound_def run_bindE)
  qed
qed

lemma run_createService:
  assumes laws: "cluster_laws env V" and key: "metaKey (svc_Meta s) = n" and none: "ob_Services (V w) n = None"
  shows "\<exists>w'. run_state (createService env (c\<lparr>mrc_Status := st\<rparr>) s) w = (Inr (), w') \<and>
    ob_Services (V w') n \<noteq> None \<and> only_adds (V w) (V w')"
proof -
  obtain meta where meta: "k_SetControllerReference env (mrc_Meta c) (svc_Meta s) = Inr meta" "metaKey meta = n"
    by (rule run_reference [OF laws, of c "svc_Meta s"]) (simp add: key)
  have "\<exists>o2 w'. run_state (cl_Create (k_Services env) (s\<lparr>svc_Meta := meta\<rparr>)) w = (Inr o2, w') \<and>
      ob_Services (V w') ((metaKey \<circ> svc_Meta) (s\<lparr>svc_Meta := meta\<rparr>)) \<noteq> None \<and> only_adds (V w) (V w')"
  proof (rule run_create_one)
    show "creates V ob_Services ob_Services_update (metaKey \<circ> svc_Meta) (\<lambda>_ _. True) (k_Services env)"
      using laws by (simp add: cluster_laws_def)
  qed (use none meta in \<open>simp_all add: only_adds_def same_core_def\<close>)
  then show ?thesis using meta by (auto simp: createService_def run_bindE)
qed

lemma ensures_services:
  assumes laws: "cluster_laws env V"
  shows "ensures V (\<lambda>x. ob_Services x (clusterKey c) \<noteq> None) (reconcileService env (c\<lparr>mrc_Status := st\<rparr>)) () w"
    and "ensures V (\<lambda>x. ob_Services x (headlessKey c) \<noteq> None)
      (reconcileHeadlessService env (c\<lparr>mrc_Status := st\<rparr>)) () w"
proof -
  have r: "reads V ob_Services (k_Services env)" using laws by (simp add: cluster_laws_def)
  show "ensures V (\<lambda>x. ob_Services x (clusterKey c) \<noteq> None) (reconcileService env (c\<lparr>mrc_Status := st\<rparr>)) () w"
    unfolding reconcileService_def status_independent addService_def
    by (intro ensures_getOrAdd [OF r] run_createService [OF laws])
      (simp_all add: newService_def ownedMeta_key)
  have head: "\<lparr>nn_Namespace = om_Namespace (mrc_Meta (c\<lparr>mrc_Status := st\<rparr>)),
      nn_Name = getHeadlessServiceName (om_Name (mrc_Meta (c\<lparr>mrc_Status := st\<rparr>)))\<rparr> = headlessKey c"
    by (simp add: headlessKey_def)
  show "ensures V (\<lambda>x. ob_Services x (headlessKey c) \<noteq> None)
      (reconcileHeadlessService env (c\<lparr>mrc_Status := st\<rparr>)) () w"
    unfolding reconcileHeadlessService_def head addHeadlessService_def
    by (intro ensures_getOrAdd [OF r] run_createService [OF laws])
      (simp_all add: newHeadlessService_def ownedMeta_key)
qed

text \<open>The four calls one after the other, before anything else of the reconciliation.\<close>

lemma run_ensures:
  assumes "ensures V there m r w" and "\<And>w'. there (V w') \<Longrightarrow> only_adds (V w) (V w') \<Longrightarrow>
    (there (V w) \<longrightarrow> w' = w) \<Longrightarrow> \<exists>w''. run_state (f r) w' = (Inr z, w'') \<and> Q w' w''"
  shows "\<exists>w' w''. run_state (bindE m f) w = (Inr z, w'') \<and> Q w' w''"
  using assms by (auto simp: ensures_def run_bindE) metis

section \<open>A reconciliation\<close>

definition settled :: "string \<Rightarrow> MultiRaftCluster \<Rightarrow> 't clusterObjects \<Rightarrow> bool" where
  "settled domain c x \<longleftrightarrow> supplied c x \<and> (\<forall>g \<in> {1..getNumGroups c}. group_done c x g) \<and>
     mst_State (cluster_status c x) = clusterStateFor c x \<and> \<not> partitions_stale domain c x"

lemma run_supply:
  assumes laws: "cluster_laws env V" and named: "claim_named c"
  obtains w' where "\<And>f. run_state (bindE (reconcileConfigMap env (c\<lparr>mrc_Status := st\<rparr>)) (\<lambda>_.
      bindE (reconcileStatefulSet env (c\<lparr>mrc_Status := st\<rparr>)) (\<lambda>cluster'.
      bindE (reconcileService env cluster') (\<lambda>_.
      bindE (reconcileHeadlessService env cluster') (\<lambda>_. f cluster'))))) w = run_state (f (c\<lparr>mrc_Status := st\<rparr>)) w'"
    and "supplied c (V w')" and "only_adds (V w) (V w')" and "supplied c (V w) \<longrightarrow> w' = w"
proof -
  let ?c = "c\<lparr>mrc_Status := st\<rparr>"
  obtain w1 where w1: "run_state (reconcileConfigMap env ?c) w = (Inr (), w1)"
      "ob_ConfigMaps (V w1) (clusterKey c) \<noteq> None" "only_adds (V w) (V w1)"
      "ob_ConfigMaps (V w) (clusterKey c) \<noteq> None \<longrightarrow> w1 = w"
    using ensures_configMap [OF laws, of c st w] unfolding ensures_def by blast
  obtain w2 where w2: "run_state (reconcileStatefulSet env ?c) w1 = (Inr ?c, w2)"
      "ob_StatefulSets (V w2) (clusterKey c) \<noteq> None" "only_adds (V w1) (V w2)"
      "ob_StatefulSets (V w1) (clusterKey c) \<noteq> None \<longrightarrow> w2 = w1"
    using ensures_statefulSet [OF laws named, of st w1] unfolding ensures_def by blast
  obtain w3 where w3: "run_state (reconcileService env ?c) w2 = (Inr (), w3)"
      "ob_Services (V w3) (clusterKey c) \<noteq> None" "only_adds (V w2) (V w3)"
      "ob_Services (V w2) (clusterKey c) \<noteq> None \<longrightarrow> w3 = w2"
    using ensures_services(1) [OF laws, of c st w2] unfolding ensures_def by blast
  obtain w4 where w4: "run_state (reconcileHeadlessService env ?c) w3 = (Inr (), w4)"
      "ob_Services (V w4) (headlessKey c) \<noteq> None" "only_adds (V w3) (V w4)"
      "ob_Services (V w3) (headlessKey c) \<noteq> None \<longrightarrow> w4 = w3"
    using ensures_services(2) [OF laws, of c st w3] unfolding ensures_def by blast
  note a34 = w4(3) and a24 = only_adds_trans [OF w3(3) w4(3)]
  note a14 = only_adds_trans [OF w2(3) a24]
  show thesis
  proof
    show "supplied c (V w4)"
      using only_adds_there(1) [OF a14 w1(2)] only_adds_there(2) [OF a24 w2(2)]
        only_adds_there(3) [OF a34 w3(2)] w4(2) by (simp add: supplied_def)
    show "only_adds (V w) (V w4)" by (rule only_adds_trans [OF w1(3) a14])
    show "supplied c (V w) \<longrightarrow> w4 = w" using w1(4) w2(4) w3(4) w4(4) by (auto simp: supplied_def)
  qed (simp add: run_bindE w1(1) w2(1) w3(1) w4(1))
qed

text \<open>The measure of a reconciliation: what is left to do, and whether the resources are missing.\<close>

definition remaining :: "string \<Rightarrow> MultiRaftCluster \<Rightarrow> 't clusterObjects \<Rightarrow> nat" where
  "remaining domain c x = todo domain c x + (if supplied c x then 0 else 1)"

lemma cluster_Reconcile_step:
  fixes env :: "('w, 'b) clusterEnv"
  assumes laws: "cluster_laws env V" and place: "in_place c (V w)" and small: "getNumGroups c < 2 ^ 31"
    and named: "claim_named c"
  shows "\<exists>w'. run_state (cluster_Reconcile env (clusterKey c)) w = (Inr noRequeue, w') \<and> in_place c (V w') \<and>
    (w' = w \<and> settled (k_domain env) c (V w) \<or>
     remaining (k_domain env) c (V w') < remaining (k_domain env) c (V w))"
proof -
  let ?d = "k_domain env"
  obtain st where st: "ob_Clusters (V w) (clusterKey c) = Some (c\<lparr>mrc_Status := st\<rparr>)"
    using place by (auto simp: in_place_def)
  let ?c = "c\<lparr>mrc_Status := st\<rparr>"
  let ?rest = "\<lambda>cluster'. bindE (reconcileGroups env cluster') (\<lambda>updated.
    if updated then ok noRequeue else bindE (reconcileStatus env cluster') (\<lambda>_. ok noRequeue))"
  obtain w1 where chain: "\<And>f :: MultiRaftCluster \<Rightarrow> ('w, k8sError + reconcileResult) state. run_state (bindE (reconcileConfigMap env ?c) (\<lambda>_.
      bindE (reconcileStatefulSet env ?c) (\<lambda>cluster'.
      bindE (reconcileService env cluster') (\<lambda>_.
      bindE (reconcileHeadlessService env cluster') (\<lambda>_. f cluster'))))) w = run_state (f ?c) w1"
    and w1: "supplied c (V w1)" "only_adds (V w) (V w1)" "supplied c (V w) \<longrightarrow> w1 = w"
    by (rule run_supply [OF laws named, of st w]) blast
  have core: "same_core (V w) (V w1)" using w1(2) by (simp add: only_adds_def)
  have place1: "in_place c (V w1)" and todo1: "todo ?d c (V w1) = todo ?d c (V w)"
    using same_core_todo [OF core] place by simp_all
  have st1: "ob_Clusters (V w1) (clusterKey c) = Some ?c" using core st by (simp add: same_core_def)
  have "run_state (cl_Get (k_Clusters env) (clusterKey c)) w = (Inr ?c, w)"
    using laws st by (subst run_reads [of V ob_Clusters]) (simp_all add: cluster_laws_def)
  then have run: "run_state (cluster_Reconcile env (clusterKey c)) w = run_state (?rest ?c) w1"
    using chain [of ?rest] by (simp add: cluster_Reconcile_def)
  have written: "in_place c (V w') \<and> remaining ?d c (V w') < remaining ?d c (V w)"
    if "progress ?d c (V w1) (V w')" for w'
    using that w1(1) todo1 by (simp add: progress_def remaining_def supplied_def)
  obtain upd w2 where w2: "run_state (reconcileGroups env ?c) w1 = (Inr upd, w2)"
    and upd: "if upd then progress ?d c (V w1) (V w2)
      else w2 = w1 \<and> (\<forall>g \<in> {1..getNumGroups c}. group_done c (V w1) g) \<and>
        mst_State (cluster_status c (V w1)) = clusterStateFor c (V w1)"
    using reconcileGroups_step [OF laws place1 st1, of ?d] by blast
  show ?thesis
  proof (cases upd)
    case True
    with upd w2 written show ?thesis by (auto simp: run run_bindE)
  next
    case False
    then have w: "w2 = w1" "\<forall>g \<in> {1..getNumGroups c}. group_done c (V w1) g"
      "mst_State (cluster_status c (V w1)) = clusterStateFor c (V w1)" using upd by auto
    obtain upd' w3 where w3: "run_state (reconcileStatus env ?c) w1 = (Inr upd', w3)"
      and upd': "if upd' then progress ?d c (V w1) (V w3) else w3 = w1 \<and> \<not> partitions_stale ?d c (V w1)"
      using reconcileStatus_step [OF laws place1 small st1 w(2)] by blast
    have run': "run_state (cluster_Reconcile env (clusterKey c)) w = (Inr noRequeue, w3)"
      using False w2 w(1) w3 by (simp add: run run_bindE)
    show ?thesis
    proof (cases upd')
      case True
      with upd' written run' show ?thesis by auto
    next
      case False
      then have s: "w3 = w1" "settled ?d c (V w1)" using upd' w w1(1) by (simp_all add: settled_def)
      show ?thesis
      proof (cases "supplied c (V w)")
        case True
        with w1(3) s run' place show ?thesis by auto
      next
        case False
        with s(1) w1(1) todo1 run' place1 show ?thesis by (auto simp: remaining_def)
      qed
    qed
  qed
qed

lemma remaining_bound:
  "remaining domain c x \<le>
    (nat (getNumGroups c) * (4 * nat (getNumMembers c) + 1) + 1) * (2 * nat (getNumGroups c) + 3)"
proof -
  have "member_rank mem pod \<le> 4" for mem :: "'a RaftMember" and pod by (simp add: member_rank_def)
  then have "member_todo c x g m \<le> 4" for g m by (simp add: member_todo_def split: option.split)
  then have "(\<Sum>m \<in> {1..getNumMembers c}. member_todo c x g m) \<le> 4 * nat (getNumMembers c)" for g
    using sum_bounded_above [of "{1..getNumMembers c}" "member_todo c x g" 4] by simp
  then have "group_todo c x g \<le> 4 * nat (getNumMembers c) + 1" for g
    by (simp add: group_todo_def le_SucI)
  then have "work_todo c x \<le> nat (getNumGroups c) * (4 * nat (getNumMembers c) + 1)"
    using sum_bounded_above [of "{1..getNumGroups c}" "group_todo c x" "4 * nat (getNumMembers c) + 1"]
    by (simp add: work_todo_def)
  then have "work_todo c x * (2 * nat (getNumGroups c) + 3) \<le>
      nat (getNumGroups c) * (4 * nat (getNumMembers c) + 1) * (2 * nat (getNumGroups c) + 3)"
    by (rule mult_right_mono) simp
  then show ?thesis
    using status_todo_bound [of domain c x] by (simp add: remaining_def todo_def add_mult_distrib)
qed

lemma cluster_settles_within:
  assumes laws: "cluster_laws env V" and place: "in_place c (V w)" and small: "getNumGroups c < 2 ^ 31"
    and named: "claim_named c" and k: "remaining (k_domain env) c (V w) \<le> k"
  shows "\<exists>w'. ((\<lambda>w. snd (run_state (cluster_Reconcile env (clusterKey c)) w)) ^^ k) w = w' \<and>
    run_state (cluster_Reconcile env (clusterKey c)) w' = (Inr noRequeue, w') \<and>
    in_place c (V w') \<and> settled (k_domain env) c (V w')"
  using place k
proof (induction k arbitrary: w)
  case 0
  then show ?case using cluster_Reconcile_step [OF laws 0(1) small named] by auto
next
  case (Suc k)
  let ?step = "\<lambda>w. snd (run_state (cluster_Reconcile env (clusterKey c)) w)"
  obtain w1 where w1: "run_state (cluster_Reconcile env (clusterKey c)) w = (Inr noRequeue, w1)"
      "in_place c (V w1)"
      "w1 = w \<and> settled (k_domain env) c (V w) \<or>
       remaining (k_domain env) c (V w1) < remaining (k_domain env) c (V w)"
    using cluster_Reconcile_step [OF laws Suc(2) small named] by blast
  show ?case
  proof (cases "remaining (k_domain env) c (V w1) < remaining (k_domain env) c (V w)")
    case True
    then have "remaining (k_domain env) c (V w1) \<le> k" using Suc(3) by simp
    from Suc.IH [OF w1(2) this] show ?thesis by (simp add: funpow_Suc_right w1(1) del: funpow.simps)
  next
    case False
    then have fixed: "w1 = w" "settled (k_domain env) c (V w)" using w1(3) by auto
    then have "(?step ^^ n) w = w" for n by (induction n) (simp_all add: w1(1))
    with fixed w1 Suc(2) show ?thesis by simp
  qed
qed

lemma settled_member:
  assumes "settled domain c x" and "in_place c x" and "g \<in> {1..getNumGroups c}" and "m \<in> {1..getNumMembers c}"
  shows "\<exists>mem pod. ob_Members x (mname c g m) = Some mem \<and> ob_Pods x (podKey c g m) = Some pod \<and>
    \<not> wrong_pod mem pod \<and> \<not> bootstrap_due mem pod"
proof -
  have "member_done c x g m" "member_in_place c x g m"
    using assms by (simp_all add: settled_def group_done_def in_place_def)
  then show ?thesis
    by (auto simp: member_done_def member_todo_def member_in_place_def member_rank_def split: if_splits)
qed

lemma settled_group:
  assumes "settled domain c x" and "g \<in> {1..getNumGroups c}"
  shows "\<exists>grp. ob_Groups x (groupName c g) = Some grp \<and> gs_State (rg_Status grp) = groupStateFor c x g"
proof -
  have "group_done c x g" using assms by (simp add: settled_def)
  then show ?thesis by (auto simp: group_done_def group_state_def)
qed

lemma settled_partitions:
  assumes "settled domain c x" and "in_place c x" and "getNumGroups c < 2 ^ 31"
  shows "list_all2 isPartitionStatusEqual (statusPartitions (cluster_status c x)) (partitionsFor domain c x)"
proof (rule isPartitionStatusesEqual_listed)
  show eq: "isPartitionStatusesEqual (statusPartitions (cluster_status c x)) (partitionsFor domain c x)"
    using assms(1) by (simp add: settled_def partitions_stale_def)
  obtain st where st: "ob_Clusters x (clusterKey c) = Some (c\<lparr>mrc_Status := st\<rparr>)" "partitions_listed c st"
    using assms(2) by (auto simp: in_place_def)
  then have status: "cluster_status c x = st" by (simp add: cluster_status_def)
  have "length (statusPartitions st) = length (partitionsFor domain c x)"
    using eq by (simp add: status isPartitionStatusesEqual_def split: if_splits)
  then show "map ps_PartitionID (statusPartitions (cluster_status c x)) =
      map ps_PartitionID (partitionsFor domain c x)"
    using st(2) partitionsFor_ids [OF assms(3), of domain x]
    by (cases "mst_Partitions st") (auto simp: status statusPartitions_def partitions_listed_def)
qed

section \<open>Properties\<close>

text \<open>
  C18. A cluster settles: from any state in which the cluster is stored and its pods exist, a
  number of reconciliations that depends only on the numbers of groups and members is enough, and
  they all succeed. After it a reconciliation writes nothing; the configuration, the stateful set
  and both services exist; every member of every group exists, refers to its current pod and is
  bootstrapped on its current container; the state of every group is that of its members and the
  state of the cluster that of its groups; and the partitions of the cluster's status are those
  the groups describe, with the addresses of their leaders and followers.
\<close>

theorem cluster_settles:
  assumes laws: "cluster_laws env V" and "in_place c (V w)" and "getNumGroups c < 2 ^ 31" and "claim_named c"
    and k: "(nat (getNumGroups c) * (4 * nat (getNumMembers c) + 1) + 1) * (2 * nat (getNumGroups c) + 3) \<le> k"
  shows "\<exists>w'. ((\<lambda>w. snd (run_state (cluster_Reconcile env (clusterKey c)) w)) ^^ k) w = w' \<and>
    run_state (cluster_Reconcile env (clusterKey c)) w' = (Inr noRequeue, w') \<and> supplied c (V w') \<and>
    (\<forall>g \<in> {1..getNumGroups c}. \<forall>m \<in> {1..getNumMembers c}. \<exists>mem pod.
       ob_Members (V w') (mname c g m) = Some mem \<and> ob_Pods (V w') (podKey c g m) = Some pod \<and>
       \<not> wrong_pod mem pod \<and> \<not> bootstrap_due mem pod) \<and>
    (\<forall>g \<in> {1..getNumGroups c}. \<exists>grp.
       ob_Groups (V w') (groupName c g) = Some grp \<and> gs_State (rg_Status grp) = groupStateFor c (V w') g) \<and>
    mst_State (cluster_status c (V w')) = clusterStateFor c (V w') \<and>
    list_all2 isPartitionStatusEqual (statusPartitions (cluster_status c (V w')))
      (partitionsFor (k_domain env) c (V w'))"
proof -
  let ?w' = "((\<lambda>w. snd (run_state (cluster_Reconcile env (clusterKey c)) w)) ^^ k) w"
  have "remaining (k_domain env) c (V w) \<le> k" by (rule order_trans [OF remaining_bound k])
  then have fixed: "run_state (cluster_Reconcile env (clusterKey c)) ?w' = (Inr noRequeue, ?w')"
      and place: "in_place c (V ?w')" and settled: "settled (k_domain env) c (V ?w')"
    using cluster_settles_within [OF laws assms(2-4), of k] by blast+
  have "\<exists>mem pod. ob_Members (V ?w') (mname c g m) = Some mem \<and> ob_Pods (V ?w') (podKey c g m) = Some pod \<and>
      \<not> wrong_pod mem pod \<and> \<not> bootstrap_due mem pod"
    if "g \<in> {1..getNumGroups c}" "m \<in> {1..getNumMembers c}" for g m
    by (rule settled_member [OF settled place that])
  moreover have "\<exists>grp. ob_Groups (V ?w') (groupName c g) = Some grp \<and>
      gs_State (rg_Status grp) = groupStateFor c (V ?w') g" if "g \<in> {1..getNumGroups c}" for g
    by (rule settled_group [OF settled that])
  ultimately show ?thesis
    using fixed settled settled_partitions [OF settled place assms(3)]
    by (intro exI [of _ ?w']) (simp add: settled_def)
qed

text \<open>A client that keeps the objects in a world of its own.\<close>

definition storeClient :: "('x \<Rightarrow> NamespacedName \<rightharpoonup> 'o) \<Rightarrow>
    (((NamespacedName \<rightharpoonup> 'o) \<Rightarrow> NamespacedName \<rightharpoonup> 'o) \<Rightarrow> 'x \<Rightarrow> 'x) \<Rightarrow>
    ('o \<Rightarrow> NamespacedName) \<Rightarrow> ('o \<Rightarrow> 'o \<Rightarrow> 'o) \<Rightarrow> ('x, 'o) objectClient" where
  "storeClient view upd key put =
     (readOnly view)
       \<lparr>cl_Create := (\<lambda>o1. State (\<lambda>w.
          (case view w (key o1) of
             None \<Rightarrow> (Inr o1, upd (\<lambda>_. (view w)(key o1 \<mapsto> o1)) w)
           | Some _ \<Rightarrow> (Inl (OtherError ''exists''), w)))),
        cl_StatusUpdate := (\<lambda>o1. State (\<lambda>w.
          (case view w (key o1) of
             None \<Rightarrow> (Inl NotFound, w)
           | Some old \<Rightarrow> (Inr (put o1 old), upd (\<lambda>_. (view w)(key o1 \<mapsto> put o1 old)) w))))\<rparr>"

lemma storeClient_laws:
  "reads (\<lambda>x. x) view (storeClient view upd key put)"
  "(\<And>x. same x x) \<Longrightarrow> creates (\<lambda>x. x) view upd key same (storeClient view upd key put)"
  "updates_status (\<lambda>x. x) view upd key put (storeClient view upd key put)"
  by (auto simp: reads_def creates_def updates_status_def storeClient_def readOnly_def get_law_def comp_def)

definition clusterWorldEnv :: "(nat clusterObjects, nat) clusterEnv" where
  "clusterWorldEnv =
     \<lparr>k_Clusters = storeClient ob_Clusters ob_Clusters_update (metaKey \<circ> mrc_Meta)
        (\<lambda>c old. old\<lparr>mrc_Status := mrc_Status c\<rparr>),
      k_Groups = storeClient ob_Groups ob_Groups_update (metaKey \<circ> rg_Meta)
        (\<lambda>g old. old\<lparr>rg_Status := rg_Status g\<rparr>),
      k_Members = storeClient ob_Members ob_Members_update (metaKey \<circ> rm_Meta)
        (\<lambda>m old. old\<lparr>rm_Status := rm_Status m\<rparr>),
      k_Pods = readOnly ob_Pods,
      k_ConfigMaps = storeClient ob_ConfigMaps ob_ConfigMaps_update (metaKey \<circ> cm_Meta) (\<lambda>o1 _. o1),
      k_StatefulSets = storeClient ob_StatefulSets ob_StatefulSets_update (metaKey \<circ> set_Meta) (\<lambda>o1 _. o1),
      k_Services = storeClient ob_Services ob_Services_update (metaKey \<circ> svc_Meta) (\<lambda>o1 _. o1),
      k_SetControllerReference = (\<lambda>_ m. Inr m), k_SetOwnerReference = (\<lambda>_ m. Inr m),
      k_MarshalLogging = (\<lambda>_. Inr ''''), k_MarshalConfig = (\<lambda>_. Inr ''''),
      k_Bootstrap = (\<lambda>_ _. ok ()), k_Event = (\<lambda>_ _ _. ret ()),
      k_domain = ''cluster.local'', k_image = ''''\<rparr>"

lemma clusterWorld_laws: "cluster_laws clusterWorldEnv (\<lambda>x. x)"
proof -
  have "reads (\<lambda>x :: nat clusterObjects. x) ob_Pods (readOnly ob_Pods)"
    by (simp add: reads_def get_law_def readOnly_def comp_def)
  then show ?thesis
    by (simp add: cluster_laws_def clusterWorldEnv_def storeClient_laws same_group_def same_member_def
        sets_reference_def)
qed

text \<open>A cluster that was just created, with its pods running.\<close>

definition newClusterWorld :: "nat clusterObjects" where
  "newClusterWorld =
     \<lparr>ob_Clusters = [clusterKey sampleCluster \<mapsto> sampleCluster], ob_Groups = Map.empty,
      ob_Members = Map.empty, ob_Pods = (\<lambda>_. Some samplePod), ob_ConfigMaps = Map.empty,
      ob_StatefulSets = Map.empty, ob_Services = Map.empty\<rparr>"

lemma newClusterWorld_in_place: "in_place sampleCluster newClusterWorld"
  by (simp add: in_place_def newClusterWorld_def group_in_place_def member_in_place_def)
    (rule exI [of _ "mrc_Status sampleCluster"], simp add: partitions_listed_def sampleCluster_def)

lemma sampleCluster_named: "claim_named sampleCluster"
  by (simp add: claim_named_def sampleCluster_def)

theorem cluster_settles_witness:
  "\<exists>w'. ((\<lambda>w. snd (run_state (cluster_Reconcile clusterWorldEnv (clusterKey sampleCluster)) w)) ^^ 1000)
      newClusterWorld = w' \<and>
    run_state (cluster_Reconcile clusterWorldEnv (clusterKey sampleCluster)) w' = (Inr noRequeue, w') \<and>
    (\<exists>mem pod. ob_Members w' (mname sampleCluster 2 3) = Some mem \<and>
       ob_Pods w' (podKey sampleCluster 2 3) = Some pod \<and> \<not> bootstrap_due mem pod)"
proof -
  let ?w' = "((\<lambda>w. snd (run_state (cluster_Reconcile clusterWorldEnv (clusterKey sampleCluster)) w)) ^^ 1000)
      newClusterWorld"
  note size = sampleCluster_sizes(2,3)
  have  "getNumGroups sampleCluster < 2 ^ 31" by (simp add: size)
  moreover have "(nat (getNumGroups sampleCluster) * (4 * nat (getNumMembers sampleCluster) + 1) + 1) *
      (2 * nat (getNumGroups sampleCluster) + 3) \<le> 1000" by (simp add: size)
  ultimately have settles: "run_state (cluster_Reconcile clusterWorldEnv (clusterKey sampleCluster)) ?w' = (Inr noRequeue, ?w')"
    "\<forall>g \<in> {1..getNumGroups sampleCluster}. \<forall>m \<in> {1..getNumMembers sampleCluster}. \<exists>mem pod.
       ob_Members ?w' (mname sampleCluster g m) = Some mem \<and> ob_Pods ?w' (podKey sampleCluster g m) = Some pod \<and>
       \<not> wrong_pod mem pod \<and> \<not> bootstrap_due mem pod"
    using cluster_settles [OF clusterWorld_laws newClusterWorld_in_place _ sampleCluster_named, of 1000] by blast+
  have "2 \<in> {1..getNumGroups sampleCluster}" "3 \<in> {1..getNumMembers sampleCluster}" by (simp_all add: size)
  then show ?thesis using settles by blast
qed

end
