(* ===== verification/ClientView.thy ===== *)
theory ClientView
  imports NodeEvents ClusterSettles PodWatch StoreReconcile
begin

text \<open>
  The three controllers together. What the pod controller records keeps the
  state from which a cluster settles; and once it has settled, what the store controller publishes
  and the driver (\<^verbatim>\<open>driver/conn.go\<close>) decodes tells a client, for every group, the address of the
  node that leads it and of those that follow.
\<close>

section \<open>What the pod controller records\<close>

text \<open>
  An event of the cluster: it comes from a member of one of its groups, and a leader it names is
  a member of that group.
\<close>

definition is_member :: "MultiRaftCluster \<Rightarrow> MemberID \<Rightarrow> bool" where
  "is_member c i \<longleftrightarrow> (\<exists>m \<in> {1..getNumMembers c}. i = word_of_int m)"

definition event_of_cluster :: "MultiRaftCluster \<Rightarrow> isEvent_Event \<Rightarrow> bool" where
  "event_of_cluster c e \<longleftrightarrow>
     (\<forall>me. eventMember e = Some me \<longrightarrow>
        (\<exists>g \<in> {1..getNumGroups c}. me_GroupID me = word_of_int g) \<and> is_member c (me_MemberID me)) \<and>
     (\<forall>l. e = Event_LeaderUpdated l \<longrightarrow> lu_Leader l = 0 \<or> is_member c (lu_Leader l))"

lemma memberUpdate_member: "memberUpdate store t e = Some (me, upd) \<Longrightarrow> eventMember e = Some me"
  by (cases e) simp_all

definition names_member :: "MultiRaftCluster \<Rightarrow> int \<Rightarrow> string \<Rightarrow> bool" where
  "names_member c g name \<longleftrightarrow> (\<exists>m \<in> {1..getNumMembers c}.
     mname c g m = \<lparr>nn_Namespace = om_Namespace (mrc_Meta c), nn_Name = name\<rparr>)"

lemma known_members_iff: "known_members c g s \<longleftrightarrow> (\<forall>name \<in> knownMembers s. names_member c g name)"
  by (auto simp: known_members_def knownMembers_def names_member_def)

lemma watchedMemberRef_names:
  assumes "is_member c i" and "0 \<le> g" "g < 2 ^ 32" and "getNumMembers c < 2 ^ 32"
  shows "names_member c g (watchedMemberRef (clusterKey c) (word_of_int g) i)"
proof -
  obtain m where m: "m \<in> {1..getNumMembers c}" "i = word_of_int m" using assms(1) by (auto simp: is_member_def)
  have "uint (word_of_int g :: 32 word) = g" "uint (word_of_int m :: 32 word) = m"
    using assms(2-4) m(1) by (simp_all add: uint_word_of_int)
  then have "mname c g m = \<lparr>nn_Namespace = om_Namespace (mrc_Meta c),
      nn_Name = watchedMemberRef (clusterKey c) (word_of_int g) i\<rparr>"
    by (simp add: m(2) mname_def memberName_def newGroup_def newMeta_def groupName_def numberedName_def
        watchedMemberRef_def clusterKey_def metaKey_def)
  with m(1) show ?thesis by (auto simp: names_member_def)
qed

lemma groupLeader_known_upto:
  "knownMembers (snd (groupLeader store e s)) \<subseteq> knownMembers s \<union>
     (if lu_Leader e = 0 then {} else {watchedMemberRef store (me_GroupID (lu_MemberEvent e)) (lu_Leader e)})"
  by (auto simp: knownMembers_def groupLeader_def Let_def split: option.splits if_splits)

lemma groupMemberReady_known_upto:
  "knownMembers (snd (groupMemberReady name s)) \<subseteq> insert name (knownMembers s)"
  by (auto simp: knownMembers_def groupMemberReady_def)

lemma groupUpdate_known:
  assumes upd: "groupUpdate (clusterKey c) e = Some (i, upd)" and e: "event_of_cluster c e"
    and small: "getNumGroups c < 2 ^ 31" "getNumMembers c < 2 ^ 32"
  obtains g where "g \<in> {1..getNumGroups c}" and "watchedGroupName (clusterKey c) i = groupName c g"
    and "\<And>s. known_members c g s \<Longrightarrow> known_members c g (snd (upd s))"
    and "\<And>s. group_status_ok s \<Longrightarrow> group_status_ok (snd (upd s))"
proof -
  obtain me where me: "eventMember e = Some me" "me_GroupID me = i"
    using upd by (cases "(clusterKey c, e)" rule: groupUpdate.cases) (auto simp: Let_def)
  then obtain g where g: "g \<in> {1..getNumGroups c}" "i = word_of_int g"
    using e by (auto simp: event_of_cluster_def)
  then have size: "0 \<le> g" "g < 2 ^ 32" using small(1) by auto
  then have "uint (word_of_int g :: 32 word) = g" by (simp add: uint_word_of_int)
  then have name: "watchedGroupName (clusterKey c) i = groupName c g"
    by (simp add: g(2) watchedGroupName_def groupName_def numberedName_def clusterKey_def metaKey_def)
  note ref = watchedMemberRef_names [OF _ size small(2)]
  have "known_members c g (snd (upd s))" if s: "known_members c g s" for s
  proof (cases "(clusterKey c, e)" rule: groupUpdate.cases)
    case (1 store e')
    with upd have u: "upd = groupMemberReady (watchedMemberRef (clusterKey c) i (me_MemberID me))" "me = pe_MemberEvent e'"
      using me by (auto simp: Let_def)
    have "is_member c (me_MemberID me)" using e me(1) by (simp add: event_of_cluster_def)
    then show ?thesis
      using s ref groupMemberReady_known_upto [of _ s] unfolding known_members_iff u(1) g(2) by blast
  next
    case (2 store e')
    with upd have u: "upd = groupLeader (clusterKey c) e'" "me = lu_MemberEvent e'" using me by auto
    have "lu_Leader e' = 0 \<or> is_member c (lu_Leader e')" using e 2 by (auto simp: event_of_cluster_def)
    then show ?thesis
      using s ref me(2) u(2) g(2) groupLeader_known_upto [of "clusterKey c" e' s]
      unfolding known_members_iff u(1) by (auto split: if_splits)
  qed (use upd in auto)
  moreover have "group_status_ok (snd (upd s))" if "group_status_ok s" for s
    using upd that by (cases "(clusterKey c, e)" rule: groupUpdate.cases)
      (auto simp: Let_def group_ready.keeps group_leader.keeps)
  ultimately show thesis using g(1) name by (intro that)
qed

text \<open>One attempt at recording, on an object that is stored under its name or missing.\<close>

lemma tryRecord_keeps:
  assumes r: "reads V view client" and u: "updates_status V view upd key put' client"
    and name: "\<And>o1 s. view (V w) n = Some o1 \<Longrightarrow> key (put s o1) = n"
    and put: "\<And>o1 s. put' (put s o1) o1 = put s o1"
    and rec: "\<And>o1 w1. V (snd (run_state (recorder o1) w1)) = V w1"
    and here: "P (V w)"
    and written: "\<And>o1. view (V w) n = Some o1 \<Longrightarrow>
      P (upd (\<lambda>_. (view (V w))(n \<mapsto> put (snd (updater (get o1))) o1)) (V w))"
  shows "P (V (snd (run_state (tryRecord client get put n updater recorder) w)))"
proof (cases "view (V w) n")
  case None
  then show ?thesis using here by (simp add: tryRecord_def run_reads [OF r] IsNotFound_def)
next
  case (Some o1)
  obtain b s where upd: "updater (get o1) = (b, s)" by fastforce
  have "view (V w) (key (put s o1)) = Some o1" using name [OF Some] Some by simp
  then obtain w' where w': "run_state (cl_StatusUpdate client (put s o1)) w = (Inr (put' (put s o1) o1), w')"
    "V w' = upd (\<lambda>_. (view (V w))(key (put s o1) \<mapsto> put' (put s o1) o1)) (V w)"
    by (rule run_updates_status [OF u])
  have "P (V w')" using written [OF Some] name [OF Some] by (simp add: w'(2) put upd)
  then show ?thesis
    using Some upd here rec [of _ w'] by (simp add: tryRecord_def run_reads [OF r] w'(1) split_beta)
qed

lemma retry_keeps:
  assumes "\<And>w. P w \<Longrightarrow> P (snd (run_state call w))"
  shows "P w \<Longrightarrow> P (snd (run_state (retry n call) w))"
proof (induction n arbitrary: w)
  case (Suc n)
  obtain r w' where call: "run_state call w = (r, w')" by fastforce
  with assms [OF Suc.prems] have "P w'" by simp
  with Suc.IH call show ?case by (cases r) simp_all
qed simp

lemma emitNote_keeps:
  assumes "cluster_laws env V"
  shows "V (snd (run_state (emitNote env meta x) w)) = V w"
proof -
  have "V (snd (run_state (k_Event env m r y) w)) = V w" for m r y
    using assms by (simp add: cluster_laws_def)
  then show ?thesis by (simp add: emitNote_def split: option.split)
qed

lemma recordMemberEvent_keeps:
  assumes laws: "cluster_laws env V" and e: "event_of_cluster c e"
    and small: "getNumGroups c < 2 ^ 31" "getNumMembers c < 2 ^ 32" and place: "in_place c (V w)"
  shows "in_place c (V (snd (run_state (recordMemberEvent attempts env (clusterKey c) t e) w))) \<and>
    ob_StatefulSets (V (snd (run_state (recordMemberEvent attempts env (clusterKey c) t e) w))) = ob_StatefulSets (V w)"
proof (cases "memberUpdate (clusterKey c) t e")
  case None
  then show ?thesis using place by (simp add: recordMemberEvent_def)
next
  case (Some mu)
  obtain me updater where mu: "mu = (me, updater)" by fastforce
  then have "eventMember e = Some me" using Some by (intro memberUpdate_member [of "clusterKey c" t e me updater]) simp
  then obtain g m where gm: "g \<in> {1..getNumGroups c}" "me_GroupID me = word_of_int g"
      "m \<in> {1..getNumMembers c}" "me_MemberID me = word_of_int m"
    using e by (auto simp: event_of_cluster_def is_member_def)
  then have "uint (word_of_int g :: 32 word) = g" "uint (word_of_int m :: 32 word) = m"
    using small by (simp_all add: uint_word_of_int)
  then have name: "watchedMemberName (clusterKey c) me = mname c g m"
    by (simp add: watchedMemberName_def watchedMemberRef_def gm(2,4) mname_def memberName_def newGroup_def
        newMeta_def groupName_def numberedName_def clusterKey_def metaKey_def)
  have r: "reads V ob_Members (k_Members env)"
    and u: "updates_status V ob_Members ob_Members_update (metaKey \<circ> rm_Meta)
      (\<lambda>m old. old\<lparr>rm_Status := rm_Status m\<rparr>) (k_Members env)"
    using laws by (simp_all add: cluster_laws_def)
  let ?P = "\<lambda>x. in_place c x \<and> ob_StatefulSets x = ob_StatefulSets (V w)"
  have step: "?P (V (snd (run_state (tryRecord (k_Members env) rm_Status putMemberStatus (mname c g m)
      updater (\<lambda>m. emitNote env (rm_Meta m) (memberNote (clusterKey c) e (rm_Status m)))) w)))"
    if "?P (V w)" for w
  proof (rule tryRecord_keeps [OF r u])
    fix mem assume mem: "ob_Members (V w) (mname c g m) = Some mem"
    show "?P ((V w)\<lparr>ob_Members := (ob_Members (V w))(mname c g m \<mapsto>
        putMemberStatus (snd (updater (rm_Status mem))) mem)\<rparr>)"
      using that mem by (auto simp: in_place_def group_in_place_def member_in_place_def putMemberStatus_def)
  qed (use that gm in \<open>auto simp: emitNote_keeps [OF laws] putMemberStatus_def in_place_def member_in_place_def\<close>)
  show ?thesis
    unfolding recordMemberEvent_def Some mu option.case prod.case name
    by (rule retry_keeps [where P = "\<lambda>w. ?P (V w)", OF step]) (simp_all add: place)
qed

lemma recordGroupEvent_keeps:
  assumes laws: "cluster_laws env V" and e: "event_of_cluster c e"
    and small: "getNumGroups c < 2 ^ 31" "getNumMembers c < 2 ^ 32" and place: "in_place c (V w)"
  shows "in_place c (V (snd (run_state (recordGroupEvent attempts env (clusterKey c) e) w))) \<and>
    ob_StatefulSets (V (snd (run_state (recordGroupEvent attempts env (clusterKey c) e) w))) = ob_StatefulSets (V w)"
proof (cases "groupUpdate (clusterKey c) e")
  case None
  then show ?thesis using place by (simp add: recordGroupEvent_def)
next
  case (Some gu)
  obtain i updater where gu: "gu = (i, updater)" by fastforce
  obtain g where g: "g \<in> {1..getNumGroups c}" "watchedGroupName (clusterKey c) i = groupName c g"
      "\<And>s. known_members c g s \<Longrightarrow> known_members c g (snd (updater s))"
      "\<And>s. group_status_ok s \<Longrightarrow> group_status_ok (snd (updater s))"
    by (rule groupUpdate_known [OF Some [unfolded gu] e small]) blast
  have r: "reads V ob_Groups (k_Groups env)"
    and u: "updates_status V ob_Groups ob_Groups_update (metaKey \<circ> rg_Meta)
      (\<lambda>g old. old\<lparr>rg_Status := rg_Status g\<rparr>) (k_Groups env)"
    using laws by (simp_all add: cluster_laws_def)
  let ?P = "\<lambda>x. in_place c x \<and> ob_StatefulSets x = ob_StatefulSets (V w)"
  have step: "?P (V (snd (run_state (tryRecord (k_Groups env) rg_Status putGroupStatus (groupName c g)
      updater (\<lambda>grp. emitNote env (rg_Meta grp) (groupNote e (rg_Status grp)))) w)))"
    if here: "?P (V w)" for w
  proof (rule tryRecord_keeps [OF r u])
    fix grp assume grp: "ob_Groups (V w) (groupName c g) = Some grp"
    have place: "in_place c (V w)" using here by simp
    then have "group_in_place c (V w) g" using g(1) by (simp add: in_place_def)
    then have "group_written c (V w) ((V w)\<lparr>ob_Groups := (ob_Groups (V w))(groupName c g \<mapsto>
        putGroupStatus (snd (updater (rg_Status grp))) grp)\<rparr>) g (putGroupStatus (snd (updater (rg_Status grp))) grp)"
      using grp g(3,4) by (simp add: group_written_def group_in_place_def putGroupStatus_def)
    from group_written_place(1) [OF place g(1) this]
    show "?P ((V w)\<lparr>ob_Groups := (ob_Groups (V w))(groupName c g \<mapsto>
        putGroupStatus (snd (updater (rg_Status grp))) grp)\<rparr>)"
      using here by simp
  qed (use here g in \<open>auto simp: emitNote_keeps [OF laws] putGroupStatus_def in_place_def group_in_place_def\<close>)
  show ?thesis
    unfolding recordGroupEvent_def Some gu option.case prod.case g(2)
    by (rule retry_keeps [where P = "\<lambda>w. ?P (V w)", OF step]) (simp_all add: place)
qed

lemma handleEvent_keeps:
  assumes laws: "cluster_laws env V" and small: "getNumGroups c < 2 ^ 31" "getNumMembers c < 2 ^ 32"
    and e: "\<forall>e. ev_Event event = Some e \<longrightarrow> event_of_cluster c e" and place: "in_place c (V w)"
  shows "in_place c (V (snd (run_state (handleEvent attempts env (clusterKey c) event) w))) \<and>
    ob_StatefulSets (V (snd (run_state (handleEvent attempts env (clusterKey c) event) w))) = ob_StatefulSets (V w)"
proof (cases "ev_Event event")
  case None
  then show ?thesis using place by (simp add: handleEvent_def)
next
  case (Some e)
  then have e: "event_of_cluster c e" using assms(4) by simp
  obtain w1 where w1: "run_state (recordMemberEvent attempts env (clusterKey c) (ev_Timestamp event) e) w = ((), w1)"
    by (metis old.unit.exhaust surj_pair)
  have "in_place c (V w1) \<and> ob_StatefulSets (V w1) = ob_StatefulSets (V w)"
    using recordMemberEvent_keeps [OF laws e small place, of attempts "ev_Timestamp event"] w1 by simp
  with recordGroupEvent_keeps [OF laws e small, of w1 attempts] show ?thesis
    by (simp add: handleEvent_def Some w1)
qed

text \<open>The two controllers at work on one cluster: reconciliations and recorded events, in any order.\<close>

datatype 't clusterAction = Reconciles | Records nat "'t Event"

fun clusterAct :: "('w, 't) clusterEnv \<Rightarrow> MultiRaftCluster \<Rightarrow> 't clusterAction \<Rightarrow> 'w \<Rightarrow> 'w" where
  "clusterAct env c Reconciles w = snd (run_state (cluster_Reconcile env (clusterKey c)) w)"
| "clusterAct env c (Records attempts event) w =
     snd (run_state (handleEvent attempts env (clusterKey c) event) w)"

fun action_of_cluster :: "MultiRaftCluster \<Rightarrow> 't clusterAction \<Rightarrow> bool" where
  "action_of_cluster c Reconciles \<longleftrightarrow> True"
| "action_of_cluster c (Records attempts event) \<longleftrightarrow> (\<forall>e. ev_Event event = Some e \<longrightarrow> event_of_cluster c e)"

lemma clusterAct_keeps:
  assumes laws: "cluster_laws env V" and small: "getNumGroups c < 2 ^ 31" "getNumMembers c < 2 ^ 32"
    and named: "claim_named c" and a: "action_of_cluster c a" and place: "in_place c (V w)"
  shows "in_place c (V (clusterAct env c a w))"
proof (cases a)
  case Reconciles
  then show ?thesis using cluster_Reconcile_step [OF laws place small(1) named] by auto
next
  case (Records attempts event)
  with handleEvent_keeps [OF laws small _ place] a show ?thesis by simp
qed

section \<open>What is published\<close>

text \<open>The address under which the controller publishes a member: its pod's, with the port of the API.\<close>

definition memberNode :: "string \<Rightarrow> MultiRaftCluster \<Rightarrow> int \<Rightarrow> int \<Rightarrow> string" where
  "memberNode domain c g m =
     getPodDNSName domain (om_Namespace (mrc_Meta c)) (om_Name (mrc_Meta c)) (getPodName c g m) @
     '':'' @ itoa apiPort"

lemma addressFor_member:
  assumes "settled domain c x" and "in_place c x" and "g \<in> {1..getNumGroups c}" and "m \<in> {1..getNumMembers c}"
  shows "addressFor domain c x (nn_Name (mname c g m)) = memberNode domain c g m"
proof -
  have "\<lparr>nn_Namespace = om_Namespace (mrc_Meta c), nn_Name = nn_Name (mname c g m)\<rparr> = mname c g m"
    using mname_namespace [of c g m] by (metis NamespacedName.surjective old.unit.exhaust)
  moreover obtain mem where "ob_Members x (mname c g m) = Some mem"
    using settled_member [OF assms] by blast
  moreover from this have "rms_Pod (rm_Spec mem) = getPodName c g m"
    using assms(2-4) by (auto simp: in_place_def member_in_place_def)
  ultimately show ?thesis by (simp add: addressFor_def memberNode_def)
qed

lemma same_followers:
  assumes "isPartitionStatusEqual p q" and "distinct (ps_Followers p)"
  shows "ps_Leader p = ps_Leader q" and "set (ps_Followers p) = set (ps_Followers q)"
proof -
  have sub: "length (ps_Followers p) = length (ps_Followers q)" "set (ps_Followers p) \<subseteq> set (ps_Followers q)"
    using assms(1) by (auto simp: isPartitionStatusEqual_def list_all_iff split: if_splits)
  have "card (set (ps_Followers q)) \<le> card (set (ps_Followers p))"
    using card_length [of "ps_Followers q"] sub(1) distinct_card [OF assms(2)] by simp
  with sub(2) show "set (ps_Followers p) = set (ps_Followers q)" by (intro card_seteq) simp_all
  show "ps_Leader p = ps_Leader q"
    using assms(1) by (cases "ps_Leader p"; cases "ps_Leader q") (simp_all add: isPartitionStatusEqual_def split: if_splits)
qed

definition published_group :: "string \<Rightarrow> MultiRaftCluster \<Rightarrow> int \<Rightarrow> RaftGroupStatus \<Rightarrow> PartitionConfig \<Rightarrow> bool" where
  "published_group domain c g status p \<longleftrightarrow>
     (gs_Leader status = None \<longrightarrow> pcf_Leader p = '''') \<and>
     (\<forall>m \<in> {1..getNumMembers c}. gs_Leader status = Some (nn_Name (mname c g m)) \<longrightarrow>
        pcf_Leader p = memberNode domain c g m) \<and>
     set (pcf_Followers p) = memberNode domain c g `
       {m \<in> {1..getNumMembers c}. nn_Name (mname c g m) \<in> set (gs_Followers status)}"

lemma published_group_holds:
  assumes settled: "settled domain c x" and place: "in_place c x" and small: "getNumGroups c < 2 ^ 31"
    and g: "g \<in> {1..getNumGroups c}" and grp: "ob_Groups x (groupName c g) = Some grp"
    and says: "config_says f config (statusPartitions (cluster_status c x))"
    and dist: "\<forall>p \<in> set (statusPartitions (cluster_status c x)). distinct (ps_Followers p)"
  shows "\<exists>p \<in> set (prc_Partitions config). pcf_PartitionID p = f g \<and> published_group domain c g (rg_Status grp) p"
proof -
  let ?ps = "statusPartitions (cluster_status c x)" and ?i = "nat (g - 1)"
  have i: "?i < length [1..getNumGroups c]" "[1..getNumGroups c] ! ?i = g" using g by simp_all
  have eq: "list_all2 isPartitionStatusEqual ?ps (partitionsFor domain c x)"
    by (rule settled_partitions [OF settled place small])
  then have len: "length ?ps = length [1..getNumGroups c]" "length (prc_Partitions config) = length [1..getNumGroups c]"
    using says by (simp_all add: partitionsFor_def config_says_def list_all2_lengthD)
  let ?p = "?ps ! ?i" and ?c = "prc_Partitions config ! ?i"
  have st: "isPartitionStatusEqual ?p (partitionFor domain c x g)"
    using list_all2_nthD [OF eq, of ?i] i len by (simp add: partitionsFor_def)
  have "distinct (ps_Followers ?p)" using dist i(1) len(1) by simp
  note same = same_followers [OF st this]
  have id: "ps_PartitionID ?p = g"
    using st small g by (auto simp: isPartitionStatusEqual_def partitionFor_def Let_def signed_take_bit_int_eq_self split: if_splits)
  have c: "pcf_PartitionID ?c = f g" "pcf_Leader ?c = (case ps_Leader ?p of None \<Rightarrow> '''' | Some l \<Rightarrow> l)"
      "set (pcf_Followers ?c) = set (ps_Followers ?p)"
    using list_all2_nthD2 [OF says [unfolded config_says_def], of ?i] i(1) len id by simp_all
  have part: "ps_Leader (partitionFor domain c x g) = map_option (addressFor domain c x) (gs_Leader (rg_Status grp))"
      "set (ps_Followers (partitionFor domain c x g)) = addressFor domain c x ` set (gs_Followers (rg_Status grp))"
    using grp by (simp_all add: partitionFor_def Let_def)
  note address = addressFor_member [OF settled place g]
  have known: "known_members c g (rg_Status grp)"
    using place g grp by (auto simp: in_place_def group_in_place_def)
  let ?M = "{m \<in> {1..getNumMembers c}. nn_Name (mname c g m) \<in> set (gs_Followers (rg_Status grp))}"
  have "set (gs_Followers (rg_Status grp)) = (\<lambda>m. nn_Name (mname c g m)) ` ?M"
    using known by (force simp: known_members_def)
  then have "addressFor domain c x ` set (gs_Followers (rg_Status grp)) =
      addressFor domain c x ` (\<lambda>m. nn_Name (mname c g m)) ` ?M" by (rule arg_cong)
  also have "\<dots> = (\<lambda>m. addressFor domain c x (nn_Name (mname c g m))) ` ?M" by (rule image_image)
  also have "\<dots> = memberNode domain c g ` ?M" by (rule image_cong [OF refl]) (simp add: address)
  finally have "set (ps_Followers (partitionFor domain c x g)) = memberNode domain c g ` ?M"
    by (simp only: part(2))
  then have "published_group domain c g (rg_Status grp) ?c"
    using c(2,3) same part(1) address by (simp add: published_group_def)
  moreover have "?c \<in> set (prc_Partitions config)" using i(1) len(2) by simp
  ultimately show ?thesis using c(1) by blast
qed

lemma settled_todo:
  assumes "settled domain c x"
  shows "todo domain c x = 0" and "supplied c x"
proof -
  have "stale_groups c x = {}"
    using assms by (auto simp: settled_def stale_groups_def group_done_def)
  moreover have "work_todo c x = 0"
    using assms by (simp add: settled_def work_todo_def group_todo_def group_done_def member_done_def)
  ultimately show "todo domain c x = 0"
    using assms by (simp add: settled_def todo_def status_todo_def)
  show "supplied c x" using assms by (simp add: settled_def)
qed

lemma published_nodes_within:
  assumes laws: "cluster_laws env V" and place: "in_place c (V w)" and small: "getNumGroups c < 2 ^ 31"
    and named: "claim_named c"
    and settled: "run_state (cluster_Reconcile env (clusterKey c)) w = (Inr noRequeue, w)"
    and store: "store_laws senv stores (ob_Clusters \<circ> V) datas"
    and codec: "codec_at senv (getProtocolConfig (s_toPartitionID senv) partitions)"
    and present: "store_present senv stores (ob_Clusters \<circ> V) datas (clusterKey c) cluster partitions w"
    and "4 \<le> k"
  shows "\<exists>data config.
    datas (((\<lambda>w. snd (run_state (store_Reconcile senv (clusterKey c)) w)) ^^ k) w) (clusterKey c) = Some data \<and>
    conn_Connect (s_Unmarshal senv) connect (ds_Config data) = connect config \<and>
    (\<forall>g \<in> {1..getNumGroups c}. \<exists>grp. ob_Groups (V w) (groupName c g) = Some grp \<and>
       (\<exists>p \<in> set (prc_Partitions config). pcf_PartitionID p = s_toPartitionID senv g \<and>
          published_group (k_domain env) c g (rg_Status grp) p))"
proof -
  have settled': "settled (k_domain env) c (V w)"
    using cluster_Reconcile_step [OF laws place small named] settled by auto
  have ps: "statusPartitions (cluster_status c (V w)) = partitions"
    and dist: "\<forall>p \<in> set partitions. distinct (ps_Followers p)"
    using present by (simp_all add: store_present_def cluster_status_def statusPartitions_def)
  obtain store' data config where world: "store_world senv stores (ob_Clusters \<circ> V) datas (clusterKey c) cluster partitions
      store' data config (((\<lambda>w. snd (run_state (store_Reconcile senv (clusterKey c)) w)) ^^ k) w)"
    and says: "config_says (s_toPartitionID senv) config partitions"
    using store_settles_within [OF store codec present assms(9)] by blast
  have "\<exists>grp. ob_Groups (V w) (groupName c g) = Some grp \<and>
      (\<exists>p \<in> set (prc_Partitions config). pcf_PartitionID p = s_toPartitionID senv g \<and>
         published_group (k_domain env) c g (rg_Status grp) p)" if g: "g \<in> {1..getNumGroups c}" for g
  proof -
    obtain grp where grp: "ob_Groups (V w) (groupName c g) = Some grp" using settled_group [OF settled' g] by blast
    from published_group_holds [OF settled' place small g grp, of "s_toPartitionID senv" config] ps dist says grp
    show ?thesis by simp
  qed
  with world show ?thesis
    by (intro exI [of _ data] exI [of _ config]) (simp add: store_world_def conn_Connect_def bindE_def)
qed

section \<open>Properties\<close>

text \<open>
  C19. The state from which a cluster settles is well formed for good: reconciliations of the
  cluster and events recorded by the watchers of its pods, in any order and with any number of
  retries, keep the cluster and its objects stored under their names, the statuses of its groups
  naming members of the group only, the members on their pods and the listed partitions those of
  the groups.
\<close>

theorem controllers_keep_in_place:
  assumes "cluster_laws env V" and "in_place c (V w)" and "getNumGroups c < 2 ^ 31"
    and "getNumMembers c < 2 ^ 32" and "claim_named c" and "\<forall>a \<in> set acts. action_of_cluster c a"
  shows "in_place c (V (fold (clusterAct env c) acts w))"
  using assms(2,6)
  by (induction acts arbitrary: w) (simp_all add: clusterAct_keeps [OF assms(1,3-5)])

theorem controllers_keep_in_place_witness:
  "in_place sampleCluster (fold (clusterAct clusterWorldEnv sampleCluster)
     [Reconciles, Reconciles, Reconciles, Reconciles, Reconciles,
      Records 1 \<lparr>ev_Timestamp = 7, ev_Event = Some (Event_LeaderUpdated
        \<lparr>lu_MemberEvent = \<lparr>me_GroupID = 1, me_MemberID = 2\<rparr>, lu_Term = 1, lu_Leader = 2\<rparr>)\<rparr>,
      Reconciles] newClusterWorld)"
  (is "in_place _ (fold _ ?acts _)")
proof -
  have "event_of_cluster sampleCluster (Event_LeaderUpdated
      \<lparr>lu_MemberEvent = \<lparr>me_GroupID = 1, me_MemberID = 2\<rparr>, lu_Term = 1, lu_Leader = 2\<rparr>)"
    using bexI [of "\<lambda>m. (2 :: 32 word) = word_of_int m" 2 "{1..3}"] bexI [of "\<lambda>g. (1 :: 32 word) = word_of_int g" 1 "{1..2}"]
    by (simp add: event_of_cluster_def is_member_def sampleCluster_sizes)
  then have "\<forall>a \<in> set ?acts. action_of_cluster sampleCluster a" by simp
  from controllers_keep_in_place [OF clusterWorld_laws newClusterWorld_in_place _ _ sampleCluster_named this]
  show ?thesis by (simp only: sampleCluster_sizes) simp
qed

text \<open>
  C21. Clients find the nodes. Once the cluster controller has nothing left to write, four
  reconciliations of the store are enough for the driver to decode, from the data store, a
  configuration with a partition for every group, under the group's number, whose leader is the
  address of the pod of the member recorded as the group's leader (empty if none is) and whose
  followers are the addresses of the pods of the members recorded as followers.
\<close>

theorem clients_find_the_nodes:
  assumes laws: "cluster_laws env V" and place: "in_place c (V w)" and small: "getNumGroups c < 2 ^ 31"
    and named: "claim_named c"
    and settled: "run_state (cluster_Reconcile env (clusterKey c)) w = (Inr noRequeue, w)"
    and store: "store_laws senv stores (ob_Clusters \<circ> V) datas"
    and codec: "codec_at senv (getProtocolConfig (s_toPartitionID senv) partitions)"
    and present: "store_present senv stores (ob_Clusters \<circ> V) datas (clusterKey c) cluster partitions w"
    and "4 \<le> k"
  shows "\<exists>data config.
    datas (((\<lambda>w. snd (run_state (store_Reconcile senv (clusterKey c)) w)) ^^ k) w) (clusterKey c) = Some data \<and>
    conn_Connect (s_Unmarshal senv) connect (ds_Config data) = connect config \<and>
    (\<forall>g \<in> {1..getNumGroups c}. \<exists>grp. ob_Groups (V w) (groupName c g) = Some grp \<and>
       (\<exists>p \<in> set (prc_Partitions config). pcf_PartitionID p = s_toPartitionID senv g \<and>
          published_group (k_domain env) c g (rg_Status grp) p))"
  by (rule published_nodes_within [OF assms])

text \<open>A world of one group with one member, next to the store's objects.\<close>

type_synonym soloWorld = "nat clusterObjects \<times> storeWorld"

definition onFirst :: "('x, 'a) state \<Rightarrow> ('x \<times> 'y, 'a) state" where
  "onFirst c = State (\<lambda>(x, y). let (r, x') = run_state c x in (r, (x', y)))"

definition clientOnFirst :: "('x, 'o) objectClient \<Rightarrow> ('x \<times> 'y, 'o) objectClient" where
  "clientOnFirst c = \<lparr>cl_Get = (\<lambda>n. onFirst (cl_Get c n)), cl_Create = (\<lambda>o1. onFirst (cl_Create c o1)),
     cl_Update = (\<lambda>o1. onFirst (cl_Update c o1)), cl_StatusUpdate = (\<lambda>o1. onFirst (cl_StatusUpdate c o1))\<rparr>"

definition envOnFirst :: "('x, 't) clusterEnv \<Rightarrow> ('x \<times> 'y, 't) clusterEnv" where
  "envOnFirst env =
     \<lparr>k_Clusters = clientOnFirst (k_Clusters env), k_Groups = clientOnFirst (k_Groups env),
      k_Members = clientOnFirst (k_Members env), k_Pods = clientOnFirst (k_Pods env),
      k_ConfigMaps = clientOnFirst (k_ConfigMaps env), k_StatefulSets = clientOnFirst (k_StatefulSets env),
      k_Services = clientOnFirst (k_Services env),
      k_SetControllerReference = k_SetControllerReference env, k_SetOwnerReference = k_SetOwnerReference env,
      k_MarshalLogging = k_MarshalLogging env, k_MarshalConfig = k_MarshalConfig env,
      k_Bootstrap = (\<lambda>a r. onFirst (k_Bootstrap env a r)), k_Event = (\<lambda>m r x. onFirst (k_Event env m r x)),
      k_domain = k_domain env, k_image = k_image env\<rparr>"

lemma run_onFirst: "run_state (onFirst c) (x, y) = (fst (run_state c x), (snd (run_state c x), y))"
  by (simp add: onFirst_def split_beta)

lemma reads_onFirst: "reads V view c \<Longrightarrow> reads (V \<circ> fst) view (clientOnFirst c)"
  by (auto simp: reads_def get_law_def clientOnFirst_def run_onFirst split: option.splits)

lemma creates_onFirst:
  assumes "creates V view upd key same c"
  shows "creates (V \<circ> fst) view upd key same (clientOnFirst c)"
  unfolding creates_def split_paired_All comp_apply fst_conv
proof (intro allI impI)
  fix o1 x y
  assume "view (V x) (key o1) = None"
  then obtain o2 x' where "run_state (cl_Create c o1) x = (Inr o2, x')" "same o1 o2"
    "V x' = upd (\<lambda>_. (view (V x))(key o1 \<mapsto> o2)) (V x)" by (rule run_creates [OF assms])
  then show "\<exists>o2 w'. run_state (cl_Create (clientOnFirst c) o1) (x, y) = (Inr o2, w') \<and> same o1 o2 \<and>
      V (fst w') = upd (\<lambda>_. (view (V x))(key o1 \<mapsto> o2)) (V x)"
    by (intro exI [of _ o2] exI [of _ "(x', y)"]) (simp add: clientOnFirst_def run_onFirst)
qed

lemma updates_status_onFirst:
  assumes "updates_status V view upd key put c"
  shows "updates_status (V \<circ> fst) view upd key put (clientOnFirst c)"
  unfolding updates_status_def split_paired_All comp_apply fst_conv
proof (intro allI impI)
  fix o1 old x y
  assume "view (V x) (key o1) = Some old"
  then obtain x' where "run_state (cl_StatusUpdate c o1) x = (Inr (put o1 old), x')"
    "V x' = upd (\<lambda>_. (view (V x))(key o1 \<mapsto> put o1 old)) (V x)" by (rule run_updates_status [OF assms])
  then show "\<exists>w'. run_state (cl_StatusUpdate (clientOnFirst c) o1) (x, y) = (Inr (put o1 old), w') \<and>
      V (fst w') = upd (\<lambda>_. (view (V x))(key o1 \<mapsto> put o1 old)) (V x)"
    by (intro exI [of _ "(x', y)"]) (simp add: clientOnFirst_def run_onFirst)
qed

lemma envOnFirst_laws:
  assumes "cluster_laws env V"
  shows "cluster_laws (envOnFirst env) (V \<circ> fst)"
proof -
  have "V (fst (snd (run_state (onFirst (k_Event env m r z)) (x, y)))) = V x" for m r z x and y :: 'c
    using assms by (simp add: cluster_laws_def run_onFirst)
  moreover have "\<exists>x' y'. run_state (onFirst (k_Bootstrap env a r)) (x, y) = (Inr (), (x', y')) \<and> V x' = V x"
    for a r x and y :: 'c
  proof -
    from assms obtain x' where "run_state (k_Bootstrap env a r) x = (Inr (), x')" "V x' = V x"
      unfolding cluster_laws_def by blast
    then show ?thesis by (simp add: run_onFirst)
  qed
  ultimately show ?thesis
    using assms unfolding cluster_laws_def envOnFirst_def clusterEnv.select_convs
    by (simp add: reads_onFirst creates_onFirst updates_status_onFirst)
qed

definition soloCluster :: MultiRaftCluster where
  "soloCluster = sampleCluster\<lparr>mrc_Spec := (mrc_Spec sampleCluster)\<lparr>mcs_Replicas := 1, mcs_Groups := 1,
     mcs_Config := (mcs_Config (mrc_Spec sampleCluster))\<lparr>mcc_Raft := (mcc_Raft (mcs_Config (mrc_Spec sampleCluster)))
       \<lparr>rcs_QuorumSize := Some 1, rcs_ReadReplicas := None\<rparr>\<rparr>\<rparr>\<rparr>"

lemma soloCluster_sizes: "getNumGroups soloCluster = 1" "getNumMembers soloCluster = 1" "claim_named soloCluster"
  by (simp_all add: soloCluster_def sampleCluster_def getNumGroups_def getNumMembers_def getNumReplicas_def
      getNumVotingMembers_def getNumNonVotingMembers_def raftSpec_def int64_def claim_named_def)

definition soloPartitions :: "RaftPartitionStatus list" where
  "soloPartitions = [\<lparr>ps_PartitionID = 1,
     ps_Leader = Some (memberNode (k_domain clusterWorldEnv) soloCluster 1 1), ps_Followers = []\<rparr>]"

definition soloGroup :: RaftGroup where
  "soloGroup = (newGroup soloCluster 1)\<lparr>rg_Status := \<lparr>gs_State = RaftGroupReady, gs_Term = Some 1,
     gs_Leader = Some (nn_Name (mname soloCluster 1 1)), gs_Followers = []\<rparr>\<rparr>"

definition soloMember :: "nat RaftMember" where
  "soloMember = (newMember soloCluster soloGroup 1 1)\<lparr>rm_Status := zeroMemberStatus\<lparr>
     ms_PodRef := Some \<lparr>or_APIVersion = ''v1'', or_Kind = ''Pod'', or_Namespace = ''ns'', or_Name = ''raft-0'', or_UID = ''u1''\<rparr>,
     ms_Version := Some 3, ms_State := RaftMemberReady\<rparr>\<rparr>"

definition soloStored :: MultiRaftCluster where
  "soloStored = soloCluster\<lparr>mrc_Status := \<lparr>mst_State = MultiRaftClusterReady, mst_Partitions = Some soloPartitions\<rparr>\<rparr>"

definition soloObjects :: "nat clusterObjects" where
  "soloObjects = \<lparr>ob_Clusters = [clusterKey soloCluster \<mapsto> soloStored],
     ob_Groups = [groupName soloCluster 1 \<mapsto> soloGroup], ob_Members = [mname soloCluster 1 1 \<mapsto> soloMember],
     ob_Pods = [podKey soloCluster 1 1 \<mapsto> samplePod],
     ob_ConfigMaps = (\<lambda>_. Some \<lparr>cm_Meta = mrc_Meta soloCluster, cm_Data = Map.empty\<rparr>),
     ob_StatefulSets = (\<lambda>_. Some (newStatefulSet clusterWorldEnv soloCluster)),
     ob_Services = (\<lambda>_. Some (newService soloCluster))\<rparr>"

lemma soloObjects_in_place: "in_place soloCluster soloObjects"
proof -
  have group: "metaKey (rg_Meta soloGroup) = groupName soloCluster 1"
    by (simp add: soloGroup_def newGroup_key)
  then have mem: "metaKey (rm_Meta soloMember) = mname soloCluster 1 1"
    by (simp add: soloMember_def newMember_key memberName_key)
  have "mname soloCluster 1 1 = \<lparr>nn_Namespace = om_Namespace (mrc_Meta soloCluster), nn_Name = nn_Name (mname soloCluster 1 1)\<rparr>"
    using mname_namespace [of soloCluster 1 1] by (metis NamespacedName.surjective old.unit.exhaust)
  then have "known_members soloCluster 1 (rg_Status soloGroup)"
    by (simp add: known_members_def soloGroup_def soloCluster_sizes)
  moreover have "\<exists>st. soloStored = soloCluster\<lparr>mrc_Status := st\<rparr> \<and> partitions_listed soloCluster st"
    unfolding soloStored_def
    by (rule exI [of _ "\<lparr>mst_State = MultiRaftClusterReady, mst_Partitions = Some soloPartitions\<rparr>"])
      (simp add: partitions_listed_def soloPartitions_def soloCluster_sizes)
  moreover have "group_status_ok (rg_Status soloGroup)" by (simp add: soloGroup_def group_status_ok_def)
  moreover have "rms_Pod (rm_Spec soloMember) = getPodName soloCluster 1 1"
    by (simp add: soloMember_def newMember_key)
  ultimately show ?thesis
    using group mem
    by (simp add: in_place_def soloObjects_def group_in_place_def member_in_place_def soloCluster_sizes)
qed

lemma soloObjects_settled: "settled (k_domain clusterWorldEnv) soloCluster soloObjects"
proof -
  let ?d = "k_domain clusterWorldEnv"
  have at: "ob_Members soloObjects (mname soloCluster 1 1) = Some soloMember"
    "ob_Groups soloObjects (groupName soloCluster 1) = Some soloGroup"
    "ob_Clusters soloObjects (clusterKey soloCluster) = Some soloStored"
    "ob_Pods soloObjects (podKey soloCluster 1 1) = Some samplePod"
    by (simp_all add: soloObjects_def)
  have "\<not> wrong_pod soloMember samplePod" "\<not> bootstrap_due soloMember samplePod"
    by (simp_all add: wrong_pod_def bootstrap_due_def soloMember_def samplePod_def nodeContainerName_def)
  then have member: "member_done soloCluster soloObjects 1 1"
    by (simp add: member_done_def member_todo_def at member_rank_def)
  have "member_state soloCluster soloObjects 1 1 = RaftMemberReady"
    by (simp add: member_state_def at soloMember_def)
  then have states: "groupStateFor soloCluster soloObjects 1 = RaftGroupReady"
      "group_state soloCluster soloObjects 1 = RaftGroupReady"
      "clusterStateFor soloCluster soloObjects = MultiRaftClusterReady"
    by (simp_all add: groupStateFor_def clusterStateFor_def group_state_def at soloGroup_def soloCluster_sizes
        state_strings)
  have "\<lparr>nn_Namespace = om_Namespace (mrc_Meta soloCluster), nn_Name = nn_Name (mname soloCluster 1 1)\<rparr> = mname soloCluster 1 1"
    using mname_namespace [of soloCluster 1 1] by (metis NamespacedName.surjective old.unit.exhaust)
  then have "addressFor ?d soloCluster soloObjects (nn_Name (mname soloCluster 1 1)) = memberNode ?d soloCluster 1 1"
    by (simp add: addressFor_def memberNode_def at) (simp add: soloMember_def newMember_key)
  then have "partitionsFor ?d soloCluster soloObjects = soloPartitions"
    by (simp add: partitionsFor_def soloCluster_sizes partitionFor_def at Let_def soloGroup_def soloPartitions_def)
  moreover have "cluster_status soloCluster soloObjects = mrc_Status soloStored"
    by (simp add: cluster_status_def at)
  moreover have "isPartitionStatusesEqual soloPartitions soloPartitions"
    by (rule isPartitionStatusesEqual_refl) (simp add: soloPartitions_def)
  ultimately show ?thesis
    using member states
    by (simp add: settled_def supplied_def group_done_def soloCluster_sizes at partitions_stale_def
        statusPartitions_def soloStored_def) (simp add: soloObjects_def)
qed

definition soloKey :: NamespacedName where
  "soloKey = clusterKey soloCluster"

definition soloStoreEnv :: "soloWorld storeEnv" where
  "soloStoreEnv =
     \<lparr>s_Stores = (readOnly (fst \<circ> snd))\<lparr>cl_StatusUpdate := (\<lambda>x. State (\<lambda>(obs, ss, ds).
        if ss (metaKey (cst_Meta x)) = None then (Inl NotFound, (obs, ss, ds))
        else (Inr x, (obs, ss(metaKey (cst_Meta x) \<mapsto> x), ds))))\<rparr>,
      s_Clusters = readOnly (ob_Clusters \<circ> fst),
      s_DataStores = (readOnly (snd \<circ> snd))\<lparr>cl_Create := (\<lambda>x. State (\<lambda>(obs, ss, ds).
        if ds (metaKey (ds_Meta x)) = None then (Inr x, (obs, ss, ds(metaKey (ds_Meta x) \<mapsto> x)))
        else (Inl (OtherError ''exists''), (obs, ss, ds)))),
        cl_Update := (\<lambda>x. State (\<lambda>(obs, ss, ds).
        if ds (metaKey (ds_Meta x)) = None then (Inl NotFound, (obs, ss, ds))
        else (Inr x, (obs, ss, ds(metaKey (ds_Meta x) \<mapsto> x)))))\<rparr>,
      s_SetControllerReference = (\<lambda>_ m. Inr m),
      s_Marshal = (\<lambda>_. Inr ''new''),
      s_Unmarshal = (\<lambda>s. if s = ''new'' then Inr (getProtocolConfig id soloPartitions) else Inl (OtherError ''syntax'')),
      s_toPartitionID = id\<rparr>"

lemma soloStore_laws:
  "store_laws soloStoreEnv (fst \<circ> snd) (ob_Clusters \<circ> fst) (snd \<circ> snd)"
  "codec_at soloStoreEnv (getProtocolConfig (s_toPartitionID soloStoreEnv) soloPartitions)"
  by (auto simp: store_laws_def soloStoreEnv_def get_law_def readOnly_def codec_at_def)

definition soloWorldStart :: soloWorld where
  "soloWorldStart = (soloObjects, [soloKey \<mapsto> sampleStore], Map.empty)"

lemma soloStore_present:
  "store_present soloStoreEnv (fst \<circ> snd) (ob_Clusters \<circ> fst) (snd \<circ> snd) soloKey soloStored soloPartitions
     soloWorldStart"
proof -
  have "metaKey (cst_Meta sampleStore) = soloKey"
    by (simp add: sampleStore_def soloKey_def clusterKey_def soloCluster_def sampleCluster_def)
  then show ?thesis
    by (simp add: store_present_def soloWorldStart_def soloObjects_def soloStored_def soloPartitions_def
        soloStoreEnv_def) (simp add: soloKey_def)
qed

theorem clients_find_the_nodes_witness:
  "\<exists>data config. snd (snd (((\<lambda>w. snd (run_state (store_Reconcile soloStoreEnv soloKey) w)) ^^ 4) soloWorldStart))
      soloKey = Some data \<and>
    conn_Connect (s_Unmarshal soloStoreEnv) (\<lambda>config. State (\<lambda>_. (Inr (), Some config))) (ds_Config data) =
      State (\<lambda>_. (Inr (), Some config)) \<and>
    (\<exists>p \<in> set (prc_Partitions config). pcf_PartitionID p = 1 \<and>
       pcf_Leader p = memberNode ''cluster.local'' soloCluster 1 1)"
proof -
  let ?V = "(\<lambda>x. x) \<circ> fst :: soloWorld \<Rightarrow> nat clusterObjects" and ?env = "envOnFirst clusterWorldEnv :: (soloWorld, nat) clusterEnv"
  have laws: "cluster_laws ?env ?V" by (rule envOnFirst_laws [OF clusterWorld_laws])
  have domain: "k_domain ?env = k_domain clusterWorldEnv" by (simp add: envOnFirst_def)
  have place: "in_place soloCluster (?V soloWorldStart)"
    using soloObjects_in_place by (simp add: soloWorldStart_def)
  have small: "getNumGroups soloCluster < 2 ^ 31" by (simp add: soloCluster_sizes)
  have "remaining (k_domain ?env) soloCluster (?V soloWorldStart) = 0"
    using soloObjects_settled unfolding domain by (simp add: soloWorldStart_def remaining_def settled_todo)
  then have settled: "run_state (cluster_Reconcile ?env (clusterKey soloCluster)) soloWorldStart = (Inr noRequeue, soloWorldStart)"
    using cluster_Reconcile_step [OF laws place small soloCluster_sizes(3)] by auto
  have store: "store_laws soloStoreEnv (fst \<circ> snd) (ob_Clusters \<circ> ?V) (snd \<circ> snd)"
    and present: "store_present soloStoreEnv (fst \<circ> snd) (ob_Clusters \<circ> ?V) (snd \<circ> snd) (clusterKey soloCluster)
      soloStored soloPartitions soloWorldStart"
    using soloStore_laws(1) soloStore_present by (simp_all add: comp_def soloKey_def)
  obtain data config where told: "(snd \<circ> snd) (((\<lambda>w. snd (run_state (store_Reconcile soloStoreEnv (clusterKey soloCluster)) w)) ^^ 4)
      soloWorldStart) (clusterKey soloCluster) = Some data"
    "conn_Connect (s_Unmarshal soloStoreEnv) (\<lambda>config. State (\<lambda>_. (Inr (), Some config))) (ds_Config data) =
      State (\<lambda>_. (Inr (), Some config))"
    "\<forall>g \<in> {1..getNumGroups soloCluster}. \<exists>grp. ob_Groups (?V soloWorldStart) (groupName soloCluster g) = Some grp \<and>
       (\<exists>p \<in> set (prc_Partitions config). pcf_PartitionID p = s_toPartitionID soloStoreEnv g \<and>
          published_group (k_domain ?env) soloCluster g (rg_Status grp) p)"
    using clients_find_the_nodes [OF laws place small soloCluster_sizes(3) settled store soloStore_laws(2) present order_refl,
        of "\<lambda>config. State (\<lambda>_. (Inr (), Some config))"] by blast
  have "ob_Groups (?V soloWorldStart) (groupName soloCluster 1) = Some soloGroup"
    by (simp add: soloWorldStart_def soloObjects_def)
  then obtain p where p: "p \<in> set (prc_Partitions config)" "pcf_PartitionID p = 1"
      "published_group ''cluster.local'' soloCluster 1 (rg_Status soloGroup) p"
    using told(3) by (auto simp: soloCluster_sizes soloStoreEnv_def envOnFirst_def clusterWorldEnv_def)
  then have "pcf_Leader p = memberNode ''cluster.local'' soloCluster 1 1"
    by (simp add: published_group_def soloCluster_sizes soloGroup_def)
  with p(1,2) told(1,2) show ?thesis by (auto simp: soloKey_def)
qed

end
