(* ===== verification/PodStart.thy ===== *)
theory PodStart
  imports ClientView
begin

text \<open>
  A cluster whose pods are still to be started. The reconciliation of a member reads the member's pod
  (\<^verbatim>\<open>cluster.go\<close>, \<^verbatim>\<open>reconcileMember\<close>); while the stateful set's controller has not started it, the
  read fails and with it the whole reconciliation. Such a failure comes before anything is written, so
  that what the controllers keep in place of a cluster with all its pods is kept without them as well;
  and the stateful set that the first reconciliation creates asks for every pod a member refers to.
\<close>

section \<open>Runs that fail for want of a pod\<close>

text \<open>The same objects with every pod there, and the same client with every pod found.\<close>

definition withPods :: "'t clusterObjects \<Rightarrow> 't clusterObjects" where
  "withPods x = x\<lparr>ob_Pods := (\<lambda>n. Some (case ob_Pods x n of Some pod \<Rightarrow> pod | None \<Rightarrow> samplePod))\<rparr>"

definition podsThere :: "('w \<Rightarrow> 't clusterObjects) \<Rightarrow> ('w, 't) clusterEnv \<Rightarrow> ('w, 't) clusterEnv" where
  "podsThere V env = env\<lparr>k_Pods := (k_Pods env)\<lparr>cl_Get := (\<lambda>n. State (\<lambda>w.
     (Inr (case ob_Pods (V w) n of Some pod \<Rightarrow> pod | None \<Rightarrow> samplePod), w)))\<rparr>\<rparr>"

text \<open>A run that does what another one does, or fails before it has changed anything.\<close>

definition follows :: "('w, 'e + 'a) state \<Rightarrow> ('w, 'e + 'a) state \<Rightarrow> 'w \<Rightarrow> bool" where
  "follows m m' w \<longleftrightarrow> run_state m w = run_state m' w \<or> (\<exists>err. run_state m w = (Inl err, w))"

lemma follows_refl [simp]: "follows m m w"
  by (simp add: follows_def)

lemma follows_bindE:
  assumes "follows m m' w"
    and "\<And>x w'. run_state m' w = (Inr x, w') \<Longrightarrow> w' = w \<and> follows (f x) (f' x) w \<or> run_state (f x) w' = run_state (f' x) w'"
  shows "follows (bindE m f) (bindE m' f') w"
proof (cases "run_state m w = run_state m' w")
  case True
  then show ?thesis using assms(2) by (auto simp: follows_def run_bindE split: prod.split sum.split)
next
  case False
  then show ?thesis using assms(1) by (auto simp: follows_def run_bindE)
qed

lemma withPods_same [simp]:
  "ob_Clusters (withPods x) = ob_Clusters x" "ob_Groups (withPods x) = ob_Groups x"
  "ob_Members (withPods x) = ob_Members x" "ob_ConfigMaps (withPods x) = ob_ConfigMaps x"
  "ob_StatefulSets (withPods x) = ob_StatefulSets x" "ob_Services (withPods x) = ob_Services x"
  "ob_Pods (withPods x) n \<noteq> None"
  by (simp_all add: withPods_def)

lemma withPods_update [simp]:
  "withPods (ob_Clusters_update f1 x) = ob_Clusters_update f1 (withPods x)"
  "withPods (ob_Groups_update f2 x) = ob_Groups_update f2 (withPods x)"
  "withPods (ob_Members_update f3 x) = ob_Members_update f3 (withPods x)"
  "withPods (ob_ConfigMaps_update f4 x) = ob_ConfigMaps_update f4 (withPods x)"
  "withPods (ob_StatefulSets_update f5 x) = ob_StatefulSets_update f5 (withPods x)"
  "withPods (ob_Services_update f6 x) = ob_Services_update f6 (withPods x)"
  by (simp_all add: withPods_def)

lemma reads_withPods:
  assumes "\<And>x. view (withPods x) = view x"
  shows "reads (withPods \<circ> V) view client = reads V view client"
  using assms by (simp add: reads_def comp_def)

lemma creates_withPods:
  assumes "creates V view upd key same client" and "\<And>x. view (withPods x) = view x"
    and "\<And>f x. withPods (upd f x) = upd f (withPods x)"
  shows "creates (withPods \<circ> V) view upd key same client"
  using assms(1) unfolding creates_def comp_def assms(2) by (metis assms(3))

lemma updates_status_withPods:
  assumes "updates_status V view upd key put client" and "\<And>x. view (withPods x) = view x"
    and "\<And>f x. withPods (upd f x) = upd f (withPods x)"
  shows "updates_status (withPods \<circ> V) view upd key put client"
  using assms(1) unfolding updates_status_def comp_def assms(2) by (metis assms(3))

lemma podsThere_laws:
  assumes laws: "cluster_laws env V"
  shows "cluster_laws (podsThere V env) (withPods \<circ> V)"
proof -
  have "reads (withPods \<circ> V) ob_Pods (k_Pods (podsThere V env))"
    by (simp add: reads_def get_law_def podsThere_def withPods_def comp_def)
  moreover have "withPods (V (snd (run_state (k_Event env m r x) w))) = withPods (V w)" for m r x w
    using laws by (simp add: cluster_laws_def)
  moreover have "\<exists>w'. run_state (k_Bootstrap env a r) w = (Inr (), w') \<and> withPods (V w') = withPods (V w)" for a r w
    using laws unfolding cluster_laws_def by metis
  ultimately show ?thesis
    using laws unfolding cluster_laws_def
    by (simp add: podsThere_def reads_withPods creates_withPods updates_status_withPods)
qed
section \<open>Reconciliations without the pods\<close>

text \<open>Only the reconciliation of a member reads a pod.\<close>

lemma podsThere_same [simp]:
  "addMember (podsThere V env) = addMember env" "updatePodRef (podsThere V env) = updatePodRef env"
  "markNotReady (podsThere V env) = markNotReady env" "bootstrapMember (podsThere V env) = bootstrapMember env"
  "k_Clusters (podsThere V env) = k_Clusters env" "k_Groups (podsThere V env) = k_Groups env"
  "k_Members (podsThere V env) = k_Members env" "k_domain (podsThere V env) = k_domain env"
  "k_SetControllerReference (podsThere V env) = k_SetControllerReference env" "k_ConfigMaps (podsThere V env) = k_ConfigMaps env"
  "k_StatefulSets (podsThere V env) = k_StatefulSets env" "k_Services (podsThere V env) = k_Services env"
  "k_Event (podsThere V env) = k_Event env"
  "run_state (cl_Get (k_Pods (podsThere V env)) n) w = (Inr (case ob_Pods (V w) n of Some pod \<Rightarrow> pod | None \<Rightarrow> samplePod), w)"
  by (simp_all add: fun_eq_iff addMember_def updatePodRef_def markNotReady_def bootstrapMember_def podsThere_def)

lemma podsThere_supply [simp]:
  "reconcileConfigMap (podsThere V env) = reconcileConfigMap env"
  "reconcileStatefulSet (podsThere V env) = reconcileStatefulSet env"
  "reconcileService (podsThere V env) = reconcileService env"
  "reconcileHeadlessService (podsThere V env) = reconcileHeadlessService env"
proof -
  have add: "addConfigMap (podsThere V env) = addConfigMap env" "addStatefulSet (podsThere V env) = addStatefulSet env"
    "addService (podsThere V env) = addService env" "addHeadlessService (podsThere V env) = addHeadlessService env"
    by (simp_all add: fun_eq_iff addConfigMap_def addStatefulSet_def newStatefulSet_def newContainer_def addService_def
        addHeadlessService_def createService_def podsThere_def)
  show "reconcileConfigMap (podsThere V env) = reconcileConfigMap env"
    "reconcileStatefulSet (podsThere V env) = reconcileStatefulSet env"
    "reconcileService (podsThere V env) = reconcileService env"
    "reconcileHeadlessService (podsThere V env) = reconcileHeadlessService env"
    unfolding reconcileConfigMap_def reconcileStatefulSet_def reconcileService_def reconcileHeadlessService_def fun_eq_iff
      podsThere_same add by simp_all
qed

lemma podsThere_status [simp]: "reconcileStatus (podsThere V env) = reconcileStatus env"
proof -
  have addr: "memberAddress (podsThere V env) = memberAddress env" by (simp add: fun_eq_iff memberAddress_def)
  have "memberAddresses (podsThere V env) c grp names = memberAddresses env c grp names" for c grp names
    by (induction names) (simp_all add: addr)
  then have "getPartitionStatus (podsThere V env) = getPartitionStatus env"
    unfolding fun_eq_iff getPartitionStatus_def addr by simp
  then have "getPartitionStatusList (podsThere V env) c gs = getPartitionStatusList env c gs" for c gs
    by (induction gs) simp_all
  then show ?thesis unfolding fun_eq_iff reconcileStatus_def getPartitionStatuses_def podsThere_same(5) by simp
qed

lemma podsThere_event [simp]: "handleEvent attempts (podsThere V env) = handleEvent attempts env"
proof -
  have emit: "emitNote (podsThere V env) = emitNote env"
    unfolding fun_eq_iff emitNote_def podsThere_same by simp
  show ?thesis
    unfolding fun_eq_iff handleEvent_def recordMemberEvent_def recordGroupEvent_def emit podsThere_same by simp
qed

lemma run_clusterReads:
  assumes "cluster_laws env V"
  shows "run_state (cl_Get (k_Groups env) n) w = (case ob_Groups (V w) n of Some x \<Rightarrow> (Inr x, w) | None \<Rightarrow> (Inl NotFound, w))"
    and "run_state (cl_Get (k_Members env) n) w = (case ob_Members (V w) n of Some x \<Rightarrow> (Inr x, w) | None \<Rightarrow> (Inl NotFound, w))"
    and "run_state (cl_Get (k_Pods env) n) w = (case ob_Pods (V w) n of Some x \<Rightarrow> (Inr x, w) | None \<Rightarrow> (Inl NotFound, w))"
    and "run_state (cl_Get (k_Clusters env) n) w = (case ob_Clusters (V w) n of Some x \<Rightarrow> (Inr x, w) | None \<Rightarrow> (Inl NotFound, w))"
    and "run_state (cl_Get (k_ConfigMaps env) n) w = (case ob_ConfigMaps (V w) n of Some x \<Rightarrow> (Inr x, w) | None \<Rightarrow> (Inl NotFound, w))"
    and "run_state (cl_Get (k_StatefulSets env) n) w = (case ob_StatefulSets (V w) n of Some x \<Rightarrow> (Inr x, w) | None \<Rightarrow> (Inl NotFound, w))"
  using assms by (simp_all add: cluster_laws_def run_reads)

lemma reconcileMember_follows:
  assumes laws: "cluster_laws env V"
  shows "follows (reconcileMember env c grp g m) (reconcileMember (podsThere V env) c grp g m) w"
proof (cases "ob_Members (V w) (memberName grp m)")
  case None
  then show ?thesis
    by (simp add: reconcileMember_def follows_def run_clusterReads [OF laws] IsNotFound_def)
next
  case (Some mem)
  let ?key = "\<lparr>nn_Namespace = om_Namespace (rm_Meta mem), nn_Name = rms_Pod (rm_Spec mem)\<rparr>"
  show ?thesis
    by (cases "ob_Pods (V w) ?key")
      (simp_all add: follows_def reconcileMember_def Some run_bindE run_clusterReads [OF laws])
qed

text \<open>A member that is stored while its pod is not there: the reconciliation fails and changes nothing.\<close>

lemma reconcileMember_needs_pod:
  assumes laws: "cluster_laws env V" and "ob_Members (V w) (memberName grp m) = Some mem"
    and "ob_Pods (V w) \<lparr>nn_Namespace = om_Namespace (rm_Meta mem), nn_Name = rms_Pod (rm_Spec mem)\<rparr> = None"
  shows "run_state (reconcileMember env c grp g m) w = (Inl NotFound, w)"
  by (simp add: reconcileMember_def assms(2,3) run_bindE run_clusterReads [OF laws])

lemma reconcileMemberList_follows:
  assumes laws: "cluster_laws env V" and place: "\<forall>m \<in> set ms. member_in_place c (withPods (V w)) g m"
    and key: "metaKey (rg_Meta grp) = groupName c g"
  shows "follows (reconcileMemberList env (c\<lparr>mrc_Status := st\<rparr>) grp g ms s)
    (reconcileMemberList (podsThere V env) (c\<lparr>mrc_Status := st\<rparr>) grp g ms s) w"
  using place
proof (induction ms arbitrary: s)
  case (Cons m ms)
  have place: "member_in_place c ((withPods \<circ> V) w) g m" using Cons.prems by simp
  obtain mem upd w' where step: "run_state (reconcileMember (podsThere V env) (c\<lparr>mrc_Status := st\<rparr>) grp g m) w = (Inr (mem, upd), w')"
    and still: "\<not> upd \<Longrightarrow> w' = w"
    using reconcileMember_step [OF podsThere_laws [OF laws] place key, of st] by (metis (full_types))
  show ?case
    unfolding reconcileMemberList.simps
    by (rule follows_bindE [OF reconcileMember_follows [OF laws]]) (use step still Cons in auto)
qed simp

lemma reconcileMembers_follows:
  assumes laws: "cluster_laws env V" and place: "in_place c (withPods (V w))" and g: "g \<in> {1..getNumGroups c}"
    and grp: "ob_Groups (V w) (groupName c g) = Some grp"
  shows "follows (reconcileMembers env (c\<lparr>mrc_Status := st\<rparr>) grp g)
    (reconcileMembers (podsThere V env) (c\<lparr>mrc_Status := st\<rparr>) grp g) w"
proof -
  have "metaKey (rg_Meta grp) = groupName c g" using place g grp by (auto simp: in_place_def group_in_place_def)
  then show ?thesis
    unfolding reconcileMembers_def podsThere_same
    by (intro follows_bindE reconcileMemberList_follows [OF laws]) (use place g in \<open>simp_all add: in_place_def\<close>)
qed

lemma reconcileGroup_follows:
  assumes laws: "cluster_laws env V" and place: "in_place c (withPods (V w))" and g: "g \<in> {1..getNumGroups c}"
  shows "follows (reconcileGroup env (c\<lparr>mrc_Status := st\<rparr>) g) (reconcileGroup (podsThere V env) (c\<lparr>mrc_Status := st\<rparr>) g) w"
proof (cases "ob_Groups (V w) (groupName c g)")
  case None
  then show ?thesis
    by (simp add: reconcileGroup_def follows_def run_clusterReads [OF laws] IsNotFound_def)
next
  case (Some grp)
  have "follows (bindE (reconcileMembers env (c\<lparr>mrc_Status := st\<rparr>) grp g) (\<lambda>updated. ok (grp, updated)))
      (bindE (reconcileMembers (podsThere V env) (c\<lparr>mrc_Status := st\<rparr>) grp g) (\<lambda>updated. ok (grp, updated))) w"
    by (rule follows_bindE [OF reconcileMembers_follows [OF laws place g Some]]) simp
  then show ?thesis by (simp add: follows_def reconcileGroup_def Some run_clusterReads [OF laws])
qed

lemma reconcileGroupList_follows:
  assumes laws: "cluster_laws env V" and place: "in_place c (withPods (V w))" and gs: "set gs \<subseteq> {1..getNumGroups c}"
  shows "follows (reconcileGroupList env (c\<lparr>mrc_Status := st\<rparr>) gs s)
    (reconcileGroupList (podsThere V env) (c\<lparr>mrc_Status := st\<rparr>) gs s) w"
  using gs
proof (induction gs arbitrary: s)
  case (Cons g gs)
  have g: "g \<in> {1..getNumGroups c}" and place': "in_place c ((withPods \<circ> V) w)" using Cons.prems place by simp_all
  obtain grp upd w' where step: "run_state (reconcileGroup (podsThere V env) (c\<lparr>mrc_Status := st\<rparr>) g) w = (Inr (grp, upd), w')"
    and still: "\<not> upd \<Longrightarrow> w' = w"
    using reconcileGroup_step [OF podsThere_laws [OF laws] place' g, of st] by (metis (full_types))
  show ?case
    unfolding reconcileGroupList.simps
    by (rule follows_bindE [OF reconcileGroup_follows [OF laws place g]]) (use step still Cons in auto)
qed simp

lemma reconcileGroups_follows:
  assumes laws: "cluster_laws env V" and place: "in_place c (withPods (V w))"
  shows "follows (reconcileGroups env (c\<lparr>mrc_Status := st\<rparr>)) (reconcileGroups (podsThere V env) (c\<lparr>mrc_Status := st\<rparr>)) w"
  unfolding reconcileGroups_def podsThere_same
  by (intro follows_bindE reconcileGroupList_follows [OF laws place]) simp_all

section \<open>The stateful set\<close>

text \<open>
  The API server stores a stateful set with the number of replicas the controller asked for; the
  controller of the stateful set starts all of its pods, which are numbered from zero, and takes none away.
\<close>

definition same_set :: "StatefulSet \<Rightarrow> StatefulSet \<Rightarrow> bool" where
  "same_set s t \<longleftrightarrow> metaKey (set_Meta t) = metaKey (set_Meta s) \<and> set_Replicas t = set_Replicas s"

definition starts_pods :: "('w \<Rightarrow> 't clusterObjects) \<Rightarrow> ('w \<Rightarrow> 'w) \<Rightarrow> bool" where
  "starts_pods V start \<longleftrightarrow>
     (\<forall>w. \<exists>pods. V (start w) = (V w)\<lparr>ob_Pods := pods\<rparr> \<and>
        (\<forall>n. ob_Pods (V w) n \<noteq> None \<longrightarrow> pods n \<noteq> None) \<and>
        (\<forall>n s i. ob_StatefulSets (V w) n = Some s \<longrightarrow> 0 \<le> i \<longrightarrow> i < set_Replicas s \<longrightarrow>
           pods \<lparr>nn_Namespace = nn_Namespace n, nn_Name = numberedName (nn_Name n) i\<rparr> \<noteq> None))"

text \<open>A cluster on its way: in place but for its pods, and its stateful set, if any, of the right size.\<close>

definition set_sized :: "MultiRaftCluster \<Rightarrow> 't clusterObjects \<Rightarrow> bool" where
  "set_sized c x \<longleftrightarrow> (\<forall>s. ob_StatefulSets x (clusterKey c) = Some s \<longrightarrow> set_Replicas s = getNumReplicas c)"

definition on_its_way :: "MultiRaftCluster \<Rightarrow> 't clusterObjects \<Rightarrow> bool" where
  "on_its_way c x \<longleftrightarrow> in_place c (withPods x) \<and> set_sized c x"

lemma configMap_sets:
  assumes laws: "cluster_laws env V"
  shows "ob_StatefulSets (V (snd (run_state (reconcileConfigMap env c) w))) = ob_StatefulSets (V w)"
proof (cases "ob_ConfigMaps (V w) (clusterKey c)")
  case None
  obtain logging raft where marshal: "k_MarshalLogging env (mcc_Logging (mcs_Config (mrc_Spec c))) = Inr logging"
      "k_MarshalConfig env (newNodeConfig c) = Inr raft"
    using laws unfolding cluster_laws_def by meson
  obtain meta where meta: "k_SetControllerReference env (mrc_Meta c) (ownedMeta c (om_Name (mrc_Meta c))) = Inr meta"
      "metaKey meta = clusterKey c"
    by (rule run_reference [OF laws, of c "ownedMeta c (om_Name (mrc_Meta c))"]) (simp add: ownedMeta_key)
  let ?o = "\<lparr>cm_Meta = meta, cm_Data = [raftConfigFile \<mapsto> raft, loggingConfigFile \<mapsto> logging]\<rparr>"
  have "creates V ob_ConfigMaps ob_ConfigMaps_update (metaKey \<circ> cm_Meta) (\<lambda>_ _. True) (k_ConfigMaps env)"
    using laws by (simp add: cluster_laws_def)
  moreover have "ob_ConfigMaps (V w) ((metaKey \<circ> cm_Meta) ?o) = None" using None meta(2) by simp
  ultimately obtain o2 w' where "run_state (cl_Create (k_ConfigMaps env) ?o) w = (Inr o2, w')"
    "V w' = (V w)\<lparr>ob_ConfigMaps := (ob_ConfigMaps (V w))((metaKey \<circ> cm_Meta) ?o \<mapsto> o2)\<rparr>"
    by (rule run_creates)
  with marshal meta None show ?thesis
    by (simp add: reconcileConfigMap_def addConfigMap_def getOrAdd_def run_clusterReads [OF laws] IsNotFound_def run_bindE)
qed (simp add: reconcileConfigMap_def getOrAdd_def run_clusterReads [OF laws])

lemma statefulSet_sized:
  assumes laws: "cluster_laws env V"
    and sets: "creates V ob_StatefulSets ob_StatefulSets_update (metaKey \<circ> set_Meta) same_set (k_StatefulSets env)"
    and small: "0 \<le> getNumReplicas c" "getNumReplicas c < 2 ^ 31" and sized: "set_sized c (V w)"
  shows "set_sized c (V (snd (run_state (reconcileStatefulSet env (c\<lparr>mrc_Status := st\<rparr>)) w)))"
proof (cases "ob_StatefulSets (V w) (clusterKey c)")
  case None
  let ?c = "c\<lparr>mrc_Status := st\<rparr>" and ?o = "newStatefulSet env (c\<lparr>mrc_Status := st\<rparr>)"
  have o: "set_Meta ?o = ownedMeta c (om_Name (mrc_Meta c))" "set_Replicas ?o = getNumReplicas c"
    using small by (simp_all add: newStatefulSet_def Let_def signed_take_bit_int_eq_self split: prod.split)
  obtain meta where meta: "k_SetControllerReference env (mrc_Meta c) (set_Meta ?o) = Inr meta" "metaKey meta = clusterKey c"
    by (rule run_reference [OF laws, of c "set_Meta ?o"]) (simp add: o ownedMeta_key)
  have "ob_StatefulSets (V w) ((metaKey \<circ> set_Meta) (?o\<lparr>set_Meta := meta\<rparr>)) = None" using None meta(2) by simp
  then obtain s w' where "run_state (cl_Create (k_StatefulSets env) (?o\<lparr>set_Meta := meta\<rparr>)) w = (Inr s, w')"
    "same_set (?o\<lparr>set_Meta := meta\<rparr>) s"
    "V w' = (V w)\<lparr>ob_StatefulSets := (ob_StatefulSets (V w))((metaKey \<circ> set_Meta) (?o\<lparr>set_Meta := meta\<rparr>) \<mapsto> s)\<rparr>"
    by (rule run_creates [OF sets])
  with meta None o(2) show ?thesis
    by (simp add: reconcileStatefulSet_def addStatefulSet_def run_clusterReads [OF laws] IsNotFound_def run_bindE
        set_sized_def same_set_def)
qed (use sized in \<open>simp add: reconcileStatefulSet_def run_clusterReads [OF laws]\<close>)

lemma only_adds_sized:
  assumes "only_adds x y" and "ob_StatefulSets x (clusterKey c) \<noteq> None"
  shows "set_sized c y = set_sized c x"
proof -
  have "ob_StatefulSets y (clusterKey c) = ob_StatefulSets x (clusterKey c)"
    using assms by (auto simp: only_adds_def map_le_def dom_def)
  then show ?thesis by (simp add: set_sized_def)
qed

text \<open>The supply of a reconciliation leaves a stateful set of the right size.\<close>

lemma run_supply_sized:
  fixes env :: "('w, 't) clusterEnv"
  assumes laws: "cluster_laws env V" and named: "claim_named c"
    and sets: "creates V ob_StatefulSets ob_StatefulSets_update (metaKey \<circ> set_Meta) same_set (k_StatefulSets env)"
    and small: "0 \<le> getNumReplicas c" "getNumReplicas c < 2 ^ 31" and sized: "set_sized c (V w)"
  obtains w' where "\<And>f. run_state (bindE (reconcileConfigMap env (c\<lparr>mrc_Status := st\<rparr>)) (\<lambda>_.
      bindE (reconcileStatefulSet env (c\<lparr>mrc_Status := st\<rparr>)) (\<lambda>cluster'.
      bindE (reconcileService env cluster') (\<lambda>_.
      bindE (reconcileHeadlessService env cluster') (\<lambda>_. f cluster'))))) w = run_state (f (c\<lparr>mrc_Status := st\<rparr>)) w'"
    and "supplied c (V w')" and "same_core (V w) (V w')" and "set_sized c (V w')"
proof -
  let ?c = "c\<lparr>mrc_Status := st\<rparr>"
  obtain w1 where w1: "run_state (reconcileConfigMap env ?c) w = (Inr (), w1)"
    using ensures_configMap [OF laws, of c st w] unfolding ensures_def by blast
  obtain w2 where w2: "run_state (reconcileStatefulSet env ?c) w1 = (Inr ?c, w2)"
      "ob_StatefulSets (V w2) (clusterKey c) \<noteq> None"
    using ensures_statefulSet [OF laws named, of st w1] unfolding ensures_def by blast
  obtain w3 where w3: "run_state (reconcileService env ?c) w2 = (Inr (), w3)" "only_adds (V w2) (V w3)"
    using ensures_services(1) [OF laws, of c st w2] unfolding ensures_def by blast
  obtain w4 where w4: "run_state (reconcileHeadlessService env ?c) w3 = (Inr (), w4)" "only_adds (V w3) (V w4)"
    using ensures_services(2) [OF laws, of c st w3] unfolding ensures_def by blast
  have chain: "run_state (bindE (reconcileConfigMap env ?c) (\<lambda>_. bindE (reconcileStatefulSet env ?c) (\<lambda>cluster'.
      bindE (reconcileService env cluster') (\<lambda>_. bindE (reconcileHeadlessService env cluster') (\<lambda>_. f cluster'))))) w =
      run_state (f ?c) w4" for f :: "MultiRaftCluster \<Rightarrow> ('w, k8sError + 'x) state"
    by (simp add: run_bindE w1 w2(1) w3(1) w4(1))
  have "set_sized c (V w1)" using configMap_sets [OF laws, of ?c w] sized by (simp add: w1 set_sized_def)
  then have "set_sized c (V w2)" using statefulSet_sized [OF laws sets small, of w1 st] by (simp add: w2)
  then have fine: "set_sized c (V w4)"
    using only_adds_sized [OF only_adds_trans [OF w3(2) w4(2)] w2(2)] by simp
  obtain w' where w': "\<And>f :: MultiRaftCluster \<Rightarrow> ('w, k8sError + MultiRaftCluster) state. run_state (bindE (reconcileConfigMap env ?c) (\<lambda>_.
      bindE (reconcileStatefulSet env ?c) (\<lambda>cluster'. bindE (reconcileService env cluster') (\<lambda>_.
      bindE (reconcileHeadlessService env cluster') (\<lambda>_. f cluster'))))) w = run_state (f ?c) w'"
    "supplied c (V w')" "only_adds (V w) (V w')"
    by (rule run_supply [OF laws named, of st w]) blast
  have "w' = w4" using w'(1) [of ok] chain [of ok] by simp
  with w'(2,3) fine chain show thesis by (intro that [of w4]) (simp_all add: only_adds_def)
qed

section \<open>A cluster on its way\<close>

text \<open>What follows the supply, with all the pods: it keeps everything in place and no stateful set is written.\<close>

lemma rest_keeps:
  assumes laws: "cluster_laws env V" and place: "in_place c (V w)" and small: "getNumGroups c < 2 ^ 31"
    and stored: "ob_Clusters (V w) (clusterKey c) = Some (c\<lparr>mrc_Status := st\<rparr>)"
  shows "\<exists>w'. run_state (bindE (reconcileGroups env (c\<lparr>mrc_Status := st\<rparr>)) (\<lambda>updated.
      if updated then ok noRequeue else bindE (reconcileStatus env (c\<lparr>mrc_Status := st\<rparr>)) (\<lambda>_. ok noRequeue))) w =
    (Inr noRequeue, w') \<and> in_place c (V w') \<and> ob_StatefulSets (V w') = ob_StatefulSets (V w)"
proof -
  let ?d = "k_domain env" and ?c = "c\<lparr>mrc_Status := st\<rparr>"
  obtain upd w1 where w1: "run_state (reconcileGroups env ?c) w = (Inr upd, w1)"
    and upd: "if upd then progress ?d c (V w) (V w1)
      else w1 = w \<and> (\<forall>g \<in> {1..getNumGroups c}. group_done c (V w) g) \<and>
        mst_State (cluster_status c (V w)) = clusterStateFor c (V w)"
    using reconcileGroups_step [OF laws place stored, of ?d] by blast
  show ?thesis
  proof (cases upd)
    case True
    with w1 upd show ?thesis by (simp add: run_bindE progress_def)
  next
    case False
    then have still: "w1 = w" "\<forall>g \<in> {1..getNumGroups c}. group_done c (V w) g" using upd by simp_all
    obtain upd' w2 where "run_state (reconcileStatus env ?c) w = (Inr upd', w2)"
      "if upd' then progress ?d c (V w) (V w2) else w2 = w \<and> \<not> partitions_stale ?d c (V w)"
      using reconcileStatus_step [OF laws place small stored still(2)] by blast
    with False w1 still(1) place show ?thesis by (cases upd') (simp_all add: run_bindE progress_def)
  qed
qed

text \<open>A reconciliation, with or without the pods.\<close>

lemma reconcile_on_its_way:
  fixes env :: "('w, 't) clusterEnv"
  assumes laws: "cluster_laws env V" and named: "claim_named c" and small: "getNumGroups c < 2 ^ 31"
    and sets: "creates V ob_StatefulSets ob_StatefulSets_update (metaKey \<circ> set_Meta) same_set (k_StatefulSets env)"
    and replicas: "0 \<le> getNumReplicas c" "getNumReplicas c < 2 ^ 31" and way: "on_its_way c (V w)"
  shows "on_its_way c (V (snd (run_state (cluster_Reconcile env (clusterKey c)) w))) \<and>
    ob_StatefulSets (V (snd (run_state (cluster_Reconcile env (clusterKey c)) w))) (clusterKey c) \<noteq> None"
proof -
  obtain st where st: "ob_Clusters (V w) (clusterKey c) = Some (c\<lparr>mrc_Status := st\<rparr>)"
    using way by (auto simp: on_its_way_def in_place_def)
  let ?c = "c\<lparr>mrc_Status := st\<rparr>"
  let ?rest = "\<lambda>env cluster'. bindE (reconcileGroups env cluster') (\<lambda>updated.
    if updated then ok noRequeue else bindE (reconcileStatus env cluster') (\<lambda>_. ok noRequeue))"
  have sized: "set_sized c (V w)" using way by (simp add: on_its_way_def)
  obtain w1 where chain: "\<And>f :: MultiRaftCluster \<Rightarrow> ('w, k8sError + reconcileResult) state. run_state (bindE (reconcileConfigMap env ?c) (\<lambda>_.
      bindE (reconcileStatefulSet env ?c) (\<lambda>cluster'.
      bindE (reconcileService env cluster') (\<lambda>_.
      bindE (reconcileHeadlessService env cluster') (\<lambda>_. f cluster'))))) w = run_state (f ?c) w1"
    and w1: "supplied c (V w1)" "same_core (V w) (V w1)" "set_sized c (V w1)"
    by (rule run_supply_sized [OF laws named sets replicas sized, of st]) blast
  have run: "run_state (cluster_Reconcile env (clusterKey c)) w = run_state (?rest env ?c) w1"
    using chain [of "?rest env"] by (simp add: cluster_Reconcile_def run_clusterReads [OF laws] st)
  have "same_core (withPods (V w)) (withPods (V w1))" using w1(2) by (simp add: same_core_def withPods_def)
  from same_core_todo(1) [OF this, of c] have place: "in_place c ((withPods \<circ> V) w1)"
    using way by (simp add: on_its_way_def)
  have stored: "ob_Clusters ((withPods \<circ> V) w1) (clusterKey c) = Some ?c" using st w1(2) by (simp add: same_core_def)
  have there: "ob_StatefulSets (V w1) (clusterKey c) \<noteq> None" using w1(1) by (simp add: supplied_def)
  obtain w2 where w2: "run_state (?rest (podsThere V env) ?c) w1 = (Inr noRequeue, w2)" "in_place c (withPods (V w2))"
    "ob_StatefulSets (V w2) = ob_StatefulSets (V w1)"
    using rest_keeps [OF podsThere_laws [OF laws] place small stored] by auto
  have "follows (?rest env ?c) (?rest (podsThere V env) ?c) w1"
    unfolding podsThere_status by (rule follows_bindE [OF reconcileGroups_follows [OF laws]]) (use place in simp_all)
  then have "run_state (?rest env ?c) w1 = (Inr noRequeue, w2) \<or> (\<exists>err. run_state (?rest env ?c) w1 = (Inl err, w1))"
    by (simp only: follows_def w2(1))
  then have "snd (run_state (?rest env ?c) w1) = w2 \<or> snd (run_state (?rest env ?c) w1) = w1" by (metis snd_conv)
  with w2(2,3) w1(3) place there show ?thesis unfolding run by (auto simp: on_its_way_def set_sized_def)
qed

lemma clusterAct_on_its_way:
  assumes laws: "cluster_laws env V" and named: "claim_named c" and small: "getNumGroups c < 2 ^ 31" "getNumMembers c < 2 ^ 32"
    and sets: "creates V ob_StatefulSets ob_StatefulSets_update (metaKey \<circ> set_Meta) same_set (k_StatefulSets env)"
    and replicas: "0 \<le> getNumReplicas c" "getNumReplicas c < 2 ^ 31" and a: "action_of_cluster c a" and way: "on_its_way c (V w)"
  shows "on_its_way c (V (clusterAct env c a w)) \<and>
    (ob_StatefulSets (V w) (clusterKey c) \<noteq> None \<longrightarrow> ob_StatefulSets (V (clusterAct env c a w)) (clusterKey c) \<noteq> None)"
proof (cases a)
  case Reconciles
  then show ?thesis using reconcile_on_its_way [OF laws named small(1) sets replicas way] by simp
next
  case (Records attempts event)
  have "in_place c ((withPods \<circ> V) w)" using way by (simp add: on_its_way_def)
  from handleEvent_keeps [OF podsThere_laws [OF laws] small _ this, of event attempts] a way show ?thesis
    by (simp add: Records on_its_way_def set_sized_def)
qed

text \<open>Once the pods of its stateful set are started, everything is in place.\<close>

lemma started_in_place:
  assumes start: "starts_pods V start" and way: "on_its_way c (V w)" and set: "ob_StatefulSets (V w) (clusterKey c) \<noteq> None"
    and sizes: "sizes_ok c"
  shows "in_place c (V (start w))"
proof -
  obtain s where s: "ob_StatefulSets (V w) (clusterKey c) = Some s" using set by blast
  then have n: "set_Replicas s = getNumReplicas c" using way by (simp add: on_its_way_def set_sized_def)
  obtain pods where pods: "V (start w) = (V w)\<lparr>ob_Pods := pods\<rparr>"
    "\<And>i. 0 \<le> i \<Longrightarrow> i < set_Replicas s \<Longrightarrow>
      pods \<lparr>nn_Namespace = nn_Namespace (clusterKey c), nn_Name = numberedName (nn_Name (clusterKey c)) i\<rparr> \<noteq> None"
    using start s unfolding starts_pods_def by metis
  have pod: "pods (podKey c g m) \<noteq> None" if "g \<in> {1..getNumGroups c}" "m \<in> {1..getNumMembers c}" for g m
  proof -
    have "0 < getNumReplicas c" using sizes by (simp add: sizes_ok_def)
    then have i: "0 \<le> slot c g m mod getNumReplicas c" "slot c g m mod getNumReplicas c < getNumReplicas c" by simp_all
    have "getPodName c g m = numberedName (om_Name (mrc_Meta c)) (slot c g m mod getNumReplicas c)"
      using getPodName_ordinal [OF sizes that i(1)] by simp
    with pods(2) [of "slot c g m mod getNumReplicas c"] i n show ?thesis
      by (simp add: podKey_def clusterKey_def metaKey_def)
  qed
  have "in_place c (withPods (V w))" using way by (simp add: on_its_way_def)
  with pod show ?thesis by (simp add: in_place_def group_in_place_def member_in_place_def pods(1))
qed

lemma start_on_its_way:
  assumes "starts_pods V start" and "on_its_way c (V w)"
  shows "on_its_way c (V (start w))" and "ob_StatefulSets (V (start w)) = ob_StatefulSets (V w)"
proof -
  obtain pods where pods: "V (start w) = (V w)\<lparr>ob_Pods := pods\<rparr>" using assms(1) unfolding starts_pods_def by blast
  then show "ob_StatefulSets (V (start w)) = ob_StatefulSets (V w)" by simp
  from assms(2) show "on_its_way c (V (start w))"
    by (simp add: on_its_way_def set_sized_def in_place_def group_in_place_def member_in_place_def pods)
qed

end
