(* ===== verification/Lifecycle.thy ===== *)
theory Lifecycle
  imports PodStart
begin

text \<open>
  The life of a store (\<^verbatim>\<open>store.go\<close>, \<^verbatim>\<open>cluster.go\<close> and \<^verbatim>\<open>watcher.go\<close> of the controllers, \<^verbatim>\<open>driver/conn.go\<close>):
  from the moment it is created, over its cluster, the pods of its stateful set and what the watchers
  record, to the configuration with which a client finds the nodes.
\<close>

section \<open>What a controller leaves alone\<close>

text \<open>A computation leaves alone the part \<open>S\<close> of the world.\<close>

definition spares :: "('w \<Rightarrow> 'a) \<Rightarrow> ('w, 'b) state \<Rightarrow> bool" where
  "spares S m \<longleftrightarrow> (\<forall>w. S (snd (run_state m w)) = S w)"

definition client_spares :: "('w \<Rightarrow> 'a) \<Rightarrow> ('w, 'o) objectClient \<Rightarrow> bool" where
  "client_spares S c \<longleftrightarrow> (\<forall>n. spares S (cl_Get c n)) \<and> (\<forall>x. spares S (cl_Create c x)) \<and>
     (\<forall>x. spares S (cl_Update c x)) \<and> (\<forall>x. spares S (cl_StatusUpdate c x))"

text \<open>The clients of the cluster and the pod controller do not write the objects of the store controller.\<close>

definition env_spares :: "('w \<Rightarrow> 'a) \<Rightarrow> ('w, 't) clusterEnv \<Rightarrow> bool" where
  "env_spares S env \<longleftrightarrow> client_spares S (k_Clusters env) \<and> client_spares S (k_Groups env) \<and>
     client_spares S (k_Members env) \<and> client_spares S (k_Pods env) \<and> client_spares S (k_ConfigMaps env) \<and>
     client_spares S (k_StatefulSets env) \<and> client_spares S (k_Services env) \<and>
     (\<forall>a r. spares S (k_Bootstrap env a r)) \<and> (\<forall>m r x. spares S (k_Event env m r x))"

lemma spares_return: "spares S (State_Monad.return x)"
  by (simp add: spares_def)

lemma spares_bind:
  assumes "spares S m" and "\<And>x. spares S (f x)"
  shows "spares S (State_Monad.bind m f)"
  using assms by (simp add: spares_def State_Monad.bind_def split_beta)

lemma spares_bindE:
  assumes "spares S m" and "\<And>x. spares S (f x)"
  shows "spares S (bindE m f)"
  unfolding bindE_def by (rule spares_bind [OF assms(1)]) (simp add: assms(2) spares_return split: sum.split)

lemma client_sparesD:
  assumes "client_spares S c"
  shows "spares S (cl_Get c n)" and "spares S (cl_Create c x)" and "spares S (cl_Update c x)"
    and "spares S (cl_StatusUpdate c x)"
  using assms by (simp_all add: client_spares_def)

lemmas spares_intros = spares_return spares_bind spares_bindE client_sparesD

text \<open>The two reconcilers of a cluster, call by call.\<close>

lemma env_sparesD:
  assumes "env_spares S env"
  shows "client_spares S (k_Clusters env)" and "client_spares S (k_Groups env)" and "client_spares S (k_Members env)"
    and "client_spares S (k_Pods env)" and "client_spares S (k_ConfigMaps env)" and "client_spares S (k_StatefulSets env)"
    and "client_spares S (k_Services env)" and "spares S (k_Bootstrap env a r)" and "spares S (k_Event env m q x)"
  using assms by (simp_all add: env_spares_def)

lemmas env_rules = spares_return spares_bind spares_bindE env_sparesD
  env_sparesD(1-7) [THEN client_sparesD(1)] env_sparesD(1-7) [THEN client_sparesD(2)] env_sparesD(1-7) [THEN client_sparesD(4)]

lemma spares_getOrAdd: "client_spares S client \<Longrightarrow> spares S add \<Longrightarrow> spares S (getOrAdd client n add)"
  unfolding getOrAdd_def by (auto intro!: spares_intros split: sum.split)

lemma spares_configMap: "env_spares S env \<Longrightarrow> spares S (reconcileConfigMap env c)"
  unfolding reconcileConfigMap_def addConfigMap_def by (auto intro!: spares_getOrAdd env_rules)

lemma spares_statefulSet: "env_spares S env \<Longrightarrow> spares S (reconcileStatefulSet env c)"
  unfolding reconcileStatefulSet_def addStatefulSet_def by (auto intro!: env_rules split: sum.split)

lemma spares_services: "env_spares S env \<Longrightarrow> spares S (reconcileService env c)" "env_spares S env \<Longrightarrow> spares S (reconcileHeadlessService env c)"
  unfolding reconcileService_def reconcileHeadlessService_def addService_def addHeadlessService_def createService_def
  by (auto intro!: spares_getOrAdd env_rules)

lemma spares_member: "env_spares S env \<Longrightarrow> spares S (reconcileMember env c grp g m)"
  unfolding reconcileMember_def addMember_def updatePodRef_def markNotReady_def bootstrapMember_def
  by (auto intro!: env_rules split: sum.split option.split simp: Let_def)

lemma spares_memberList: "env_spares S env \<Longrightarrow> spares S (reconcileMemberList env c grp g ms s)"
  by (induction ms arbitrary: s) (auto intro!: env_rules spares_member split: prod.split)

lemma spares_members: "env_spares S env \<Longrightarrow> spares S (reconcileMembers env c grp g)"
  unfolding reconcileMembers_def by (auto intro!: env_rules spares_memberList split: option.split)

lemma spares_group: "env_spares S env \<Longrightarrow> spares S (reconcileGroup env c g)"
  unfolding reconcileGroup_def by (auto intro!: env_rules spares_members split: sum.split)

lemma spares_groupList: "env_spares S env \<Longrightarrow> spares S (reconcileGroupList env c gs s)"
  by (induction gs arbitrary: s) (auto intro!: env_rules spares_group split: prod.split)

lemma spares_groups: "env_spares S env \<Longrightarrow> spares S (reconcileGroups env c)"
  unfolding reconcileGroups_def by (auto intro!: env_rules spares_groupList split: option.split)

lemma spares_addresses: "env_spares S env \<Longrightarrow> spares S (memberAddresses env c grp names)"
  by (induction names) (auto intro!: env_rules simp: memberAddress_def split: option.split)

lemma spares_partition: "env_spares S env \<Longrightarrow> spares S (getPartitionStatus env c g)"
  unfolding getPartitionStatus_def by (auto intro!: env_rules spares_addresses simp: memberAddress_def split: option.split)

lemma spares_partitionList: "env_spares S env \<Longrightarrow> spares S (getPartitionStatusList env c gs)"
  by (induction gs) (auto intro!: env_rules spares_partition)

lemma spares_status: "env_spares S env \<Longrightarrow> spares S (reconcileStatus env c)"
  unfolding reconcileStatus_def getPartitionStatuses_def by (auto intro!: env_rules spares_partitionList)

lemma spares_reconcile: "env_spares S env \<Longrightarrow> spares S (cluster_Reconcile env n)"
  unfolding cluster_Reconcile_def
  by (auto intro!: env_rules spares_configMap spares_statefulSet spares_services spares_groups spares_status split: sum.split)

lemma spares_retry: "spares S call \<Longrightarrow> spares S (retry k call)"
  by (induction k) (auto intro!: spares_intros split: sum.split)

lemma spares_tryRecord:
  "client_spares S client \<Longrightarrow> (\<And>x. spares S (recorder x)) \<Longrightarrow> spares S (tryRecord client get put n upd recorder)"
  unfolding tryRecord_def by (auto intro!: spares_intros split: sum.split prod.split)

lemma spares_emit: "env_spares S env \<Longrightarrow> spares S (emitNote env meta x)"
  unfolding emitNote_def by (auto intro!: env_rules split: option.split)

lemma spares_event: "env_spares S env \<Longrightarrow> spares S (handleEvent attempts env store e)"
  unfolding handleEvent_def recordMemberEvent_def recordGroupEvent_def
  by (auto intro!: env_rules spares_retry spares_tryRecord spares_emit split: option.split prod.split)

lemma spares_act: "env_spares S env \<Longrightarrow> S (clusterAct env c a w) = S w"
  using spares_reconcile [of S env] spares_event [of S env] by (cases a) (simp_all add: spares_def)

lemma spares_acts: "env_spares S env \<Longrightarrow> S (fold (clusterAct env c) as w) = S w"
  by (induction as arbitrary: w) (simp_all add: spares_act)

section \<open>The cluster of a new store\<close>

definition same_cluster :: "MultiRaftCluster \<Rightarrow> MultiRaftCluster \<Rightarrow> bool" where
  "same_cluster c d \<longleftrightarrow> metaKey (mrc_Meta d) = metaKey (mrc_Meta c) \<and> mrc_Spec d = mrc_Spec c \<and> mrc_Status d = mrc_Status c"

text \<open>What depends on the name and the specification of a cluster only.\<close>

lemma same_spec_sizes:
  assumes "mrc_Spec d = mrc_Spec c"
  shows "getNumReplicas d = getNumReplicas c" and "getNumGroups d = getNumGroups c"
    and "getNumMembers d = getNumMembers c" and "claim_named d = claim_named c"
proof -
  show "getNumReplicas d = getNumReplicas c" by (simp add: getNumReplicas_def assms)
  then show "getNumGroups d = getNumGroups c" "getNumMembers d = getNumMembers c" "claim_named d = claim_named c"
    by (simp_all add: getNumGroups_def getNumMembers_def getNumVotingMembers_def getNumNonVotingMembers_def
        raftSpec_def claim_named_def assms split: option.split)
qed

lemma same_cluster_names:
  assumes "same_cluster c d"
  shows "clusterKey d = clusterKey c" and "getNumGroups d = getNumGroups c" and "getNumMembers d = getNumMembers c"
    and "groupName d g = groupName c g" and "mname d g m = mname c g m" and "podKey d g m = podKey c g m"
    and "getPodName d g m = getPodName c g m" and "claim_named d = claim_named c" and "separate_pods d = separate_pods c"
    and "getNumReplicas d = getNumReplicas c" and "sizes_ok d = sizes_ok c"
proof -
  have key: "om_Name (mrc_Meta d) = om_Name (mrc_Meta c)" "om_Namespace (mrc_Meta d) = om_Namespace (mrc_Meta c)"
    and spec: "mrc_Spec d = mrc_Spec c"
    using assms by (simp_all add: same_cluster_def metaKey_def)
  note num = same_spec_sizes [OF spec]
  show "getNumGroups d = getNumGroups c" "getNumMembers d = getNumMembers c" "claim_named d = claim_named c"
    "getNumReplicas d = getNumReplicas c" by (fact num)+
  show "sizes_ok d = sizes_ok c"
    unfolding sizes_ok_def num getNumVotingMembers_def getNumNonVotingMembers_def raftSpec_def spec ..
  have pod: "getPodName d g m = getPodName c g m" for g m
    by (simp add: getPodName_def podOrdinal_def num key)
  then have "getPodName d = getPodName c" by (simp add: fun_eq_iff)
  then show "getPodName d g m = getPodName c g m" "podKey d g m = podKey c g m" "separate_pods d = separate_pods c"
    by (simp_all add: podKey_def key separate_pods_def num)
  show "clusterKey d = clusterKey c" "groupName d g = groupName c g" "mname d g m = mname c g m"
    by (simp_all add: clusterKey_def metaKey_def groupName_def mname_def memberName_def newGroup_def newMeta_def
        key spec)
qed

lemma same_cluster_event: "same_cluster c d \<Longrightarrow> action_of_cluster c a \<Longrightarrow> action_of_cluster d a"
  by (cases a) (auto simp: event_of_cluster_def is_member_def same_cluster_names)

lemma same_cluster_published:
  "same_cluster c d \<Longrightarrow> published_group domain d g st p \<longleftrightarrow> published_group domain c g st p"
  by (simp add: published_group_def memberNode_def same_cluster_names) (simp add: same_cluster_def metaKey_def)

text \<open>
  A world in which a store waits for its cluster: neither the cluster nor its stateful set, its groups,
  their members or the pods of these are there.
\<close>

definition awaits_cluster :: "MultiRaftCluster \<Rightarrow> 't clusterObjects \<Rightarrow> bool" where
  "awaits_cluster c x \<longleftrightarrow> ob_Clusters x (clusterKey c) = None \<and> ob_StatefulSets x (clusterKey c) = None \<and>
     (\<forall>g \<in> {1..getNumGroups c}. ob_Groups x (groupName c g) = None \<and>
        (\<forall>m \<in> {1..getNumMembers c}. ob_Members x (mname c g m) = None \<and> ob_Pods x (podKey c g m) = None))"

lemma store_creates_cluster:
  assumes store: "store_laws senv stores (ob_Clusters \<circ> V) datas"
    and create: "creates V ob_Clusters ob_Clusters_update (metaKey \<circ> mrc_Meta) same_cluster (s_Clusters senv)"
    and frame: "\<And>x. spares (\<lambda>w. (stores w, datas w)) (cl_Create (s_Clusters senv) x)"
    and st: "stores w n = Some st" "metaKey (cst_Meta st) = n" and await: "awaits_cluster (newCluster st) (V w)"
  obtains c w1 where "snd (run_state (store_Reconcile senv n) w) = w1" "same_cluster (newCluster st) c"
    "on_its_way c (V w1)" "stores w1 = stores w" "datas w1 = datas w"
proof -
  let ?c = "newCluster st"
  have key: "clusterKey ?c = n" using st(2) by (simp add: clusterKey_def newCluster_def newMeta_def metaKey_def)
  have none: "ob_Clusters (V w) n = None" using await key by (simp add: awaits_cluster_def)
  obtain meta where meta: "s_SetControllerReference senv (cst_Meta st) (mrc_Meta ?c) = Inr meta" "metaKey meta = n"
    using store key unfolding store_laws_def clusterKey_def by metis
  have "ob_Clusters (V w) ((metaKey \<circ> mrc_Meta) (?c\<lparr>mrc_Meta := meta\<rparr>)) = None" using none meta(2) by simp
  then obtain c w1 where w1: "run_state (cl_Create (s_Clusters senv) (?c\<lparr>mrc_Meta := meta\<rparr>)) w = (Inr c, w1)"
    "same_cluster (?c\<lparr>mrc_Meta := meta\<rparr>) c"
    "V w1 = (V w)\<lparr>ob_Clusters := (ob_Clusters (V w))((metaKey \<circ> mrc_Meta) (?c\<lparr>mrc_Meta := meta\<rparr>) \<mapsto> c)\<rparr>"
    by (rule run_creates [OF create])
  have same: "same_cluster ?c c" using w1(2) meta(2) key by (simp add: same_cluster_def clusterKey_def)
  have "run_state (store_Reconcile senv n) w = (Inr noRequeue, w1)"
    using store st none meta w1(1)
    by (simp add: store_Reconcile_def store_laws_def IsNotFound_def createCluster_def run_bindE
        run_Get [where view = stores] run_Get [where view = "ob_Clusters \<circ> V"])
  moreover have "on_its_way c (V w1)"
  proof -
    have "c = c\<lparr>mrc_Status := mrc_Status c\<rparr>" by simp
    moreover have "partitions_listed c (mrc_Status c)"
      using same by (simp add: partitions_listed_def same_cluster_def newCluster_def)
    ultimately have "\<exists>s. ob_Clusters (V w1) (clusterKey c) = Some (c\<lparr>mrc_Status := s\<rparr>) \<and> partitions_listed c s"
      using w1(3) meta(2) key by (intro exI [of _ "mrc_Status c"]) (simp add: same_cluster_names [OF same])
    then show ?thesis
      using await w1(3) by (simp add: on_its_way_def set_sized_def in_place_def group_in_place_def member_in_place_def
          awaits_cluster_def same_cluster_names [OF same])
  qed
  moreover have "stores w1 = stores w" "datas w1 = datas w"
    using frame [of "?c\<lparr>mrc_Meta := meta\<rparr>"] w1(1) by (simp_all add: spares_def) (metis prod.inject snd_conv)+
  ultimately show thesis using same by (intro that [of w1 c]) simp_all
qed

lemma separate_podsI: "sizes_ok c \<Longrightarrow> getNumMembers c \<le> getNumReplicas c \<Longrightarrow> separate_pods c"
  unfolding separate_pods_def inj_on_def using members_get_own_pods by blast

text \<open>
  What happens around a cluster that comes up: what its two controllers do, and the controller of its
  stateful set, which starts the pods.
\<close>

datatype 't lifeAction = Controls "'t clusterAction" | StartsPods

fun lifeAct :: "('w, 't) clusterEnv \<Rightarrow> ('w \<Rightarrow> 'w) \<Rightarrow> MultiRaftCluster \<Rightarrow> 't lifeAction \<Rightarrow> 'w \<Rightarrow> 'w" where
  "lifeAct env start c (Controls a) w = clusterAct env c a w"
| "lifeAct env start c StartsPods w = start w"

fun life_of_cluster :: "MultiRaftCluster \<Rightarrow> 't lifeAction \<Rightarrow> bool" where
  "life_of_cluster c (Controls a) \<longleftrightarrow> action_of_cluster c a"
| "life_of_cluster c StartsPods \<longleftrightarrow> True"

lemma spares_life:
  assumes "env_spares S env" and "\<And>w. S (start w) = S w"
  shows "S (fold (lifeAct env start c) as w) = S w"
proof (induction as arbitrary: w)
  case (Cons a as)
  then show ?case by (cases a) (simp_all add: assms(2) spares_act [OF assms(1)])
qed simp

text \<open>Whatever happens, the cluster stays on its way, and its stateful set stays.\<close>

lemma life_on_its_way:
  assumes laws: "cluster_laws env V" and named: "claim_named c" and small: "getNumGroups c < 2 ^ 31" "getNumMembers c < 2 ^ 32"
    and sets: "creates V ob_StatefulSets ob_StatefulSets_update (metaKey \<circ> set_Meta) same_set (k_StatefulSets env)"
    and replicas: "0 \<le> getNumReplicas c" "getNumReplicas c < 2 ^ 31" and start: "starts_pods V start"
    and acts: "\<forall>a \<in> set as. life_of_cluster c a" and way: "on_its_way c (V w)"
  shows "on_its_way c (V (fold (lifeAct env start c) as w)) \<and> (ob_StatefulSets (V w) (clusterKey c) \<noteq> None \<longrightarrow>
    ob_StatefulSets (V (fold (lifeAct env start c) as w)) (clusterKey c) \<noteq> None)"
  using acts way
proof (induction as arbitrary: w)
  case (Cons a as)
  have "on_its_way c (V (lifeAct env start c a w)) \<and> (ob_StatefulSets (V w) (clusterKey c) \<noteq> None \<longrightarrow>
    ob_StatefulSets (V (lifeAct env start c a w)) (clusterKey c) \<noteq> None)"
    using Cons.prems clusterAct_on_its_way [OF laws named small sets replicas] start_on_its_way [OF start]
    by (cases a) simp_all
  with Cons show ?case by simp
qed simp

lemma life_in_place:
  assumes laws: "cluster_laws env V" and named: "claim_named c" and small: "getNumGroups c < 2 ^ 31" "getNumMembers c < 2 ^ 32"
    and start: "starts_pods V start" and acts: "\<forall>a \<in> set as. life_of_cluster c a" and place: "in_place c (V w)"
  shows "in_place c (V (fold (lifeAct env start c) as w))"
  using acts place
proof (induction as arbitrary: w)
  case (Cons a as)
  have "in_place c (V (start w))"
  proof -
    obtain pods where "V (start w) = (V w)\<lparr>ob_Pods := pods\<rparr>" "\<And>n. ob_Pods (V w) n \<noteq> None \<Longrightarrow> pods n \<noteq> None"
      using start unfolding starts_pods_def by metis
    with Cons.prems(2) show ?thesis by (simp add: in_place_def group_in_place_def member_in_place_def)
  qed
  with Cons show ?case by (cases a) (simp_all add: clusterAct_keeps [OF laws small named])
qed simp

text \<open>A reconciliation, and some time later the start of the pods, bring everything in place.\<close>

lemma life_brings_in_place:
  assumes laws: "cluster_laws env V" and named: "claim_named c" and sizes: "sizes_ok c" and small: "getNumMembers c < 2 ^ 32"
    and sets: "creates V ob_StatefulSets ob_StatefulSets_update (metaKey \<circ> set_Meta) same_set (k_StatefulSets env)"
    and start: "starts_pods V start" and way: "on_its_way c (V w)"
    and acts: "acts = before @ Controls Reconciles # between @ StartsPods # after" "\<forall>a \<in> set acts. life_of_cluster c a"
  shows "in_place c (V (fold (lifeAct env start c) acts w))"
proof -
  have n: "getNumGroups c < 2 ^ 31" "0 \<le> getNumReplicas c" "getNumReplicas c < 2 ^ 31" using sizes by (simp_all add: sizes_ok_def)
  note stays = life_on_its_way [OF laws named n(1) small sets n(2,3) start]
  have of_c: "\<forall>a \<in> set before. life_of_cluster c a" "\<forall>a \<in> set between. life_of_cluster c a"
    "\<forall>a \<in> set after. life_of_cluster c a" using acts by simp_all
  let ?w1 = "fold (lifeAct env start c) before w"
  let ?w2 = "snd (run_state (cluster_Reconcile env (clusterKey c)) ?w1)"
  let ?w3 = "fold (lifeAct env start c) between ?w2"
  have "on_its_way c (V ?w1)" using stays [OF of_c(1) way] by simp
  from reconcile_on_its_way [OF laws named n(1) sets n(2,3) this]
  have "on_its_way c (V ?w3)" "ob_StatefulSets (V ?w3) (clusterKey c) \<noteq> None"
    using stays [OF of_c(2), of ?w2] by simp_all
  from life_in_place [OF laws named n(1) small start of_c(3) started_in_place [OF start this sizes]]
  show ?thesis by (simp add: acts(1))
qed

section \<open>Properties\<close>

text \<open>
  The store controller's world once the cluster has settled: the partitions of its status are published
  one per group, under distinct numbers, with every follower once.
\<close>

lemma settled_store_present:
  assumes place: "in_place c (V w)" and settled: "settled domain c (V w)" and groups: "0 < getNumGroups c" "getNumGroups c < 2 ^ 31"
    and sep: "separate_pods c" and inj: "inj_on (s_toPartitionID senv) {1..getNumGroups c}"
    and st: "stores w (clusterKey c) = Some st" "metaKey (cst_Meta st) = clusterKey c" and none: "datas w (clusterKey c) = None"
  obtains cluster partitions where
    "store_present senv stores (ob_Clusters \<circ> V) datas (clusterKey c) cluster partitions w"
proof -
  obtain s where s: "ob_Clusters (V w) (clusterKey c) = Some (c\<lparr>mrc_Status := s\<rparr>)" "partitions_listed c s"
    using place by (auto simp: in_place_def)
  have "length (statusPartitions s) = length (partitionsFor domain c (V w))"
    using settled_partitions [OF settled place groups(2), THEN list_all2_lengthD] s(1) by (simp add: cluster_status_def)
  then have "statusPartitions s \<noteq> []" using groups(1) by (auto simp: partitionsFor_def)
  then obtain ps where ps: "mst_Partitions s = Some ps" by (auto simp: statusPartitions_def split: option.splits)
  then have ids: "map ps_PartitionID ps = [1..getNumGroups c]" and dist: "\<forall>p \<in> set ps. distinct (ps_Followers p)"
    using s(2) sep by (simp_all add: partitions_listed_def)
  have "map (s_toPartitionID senv \<circ> ps_PartitionID) ps = map (s_toPartitionID senv) [1..getNumGroups c]"
    using ids by (metis map_map)
  moreover have "distinct (map (s_toPartitionID senv) [1..getNumGroups c])"
    using inj by (simp add: distinct_map)
  ultimately have "store_present senv stores (ob_Clusters \<circ> V) datas (clusterKey c) (c\<lparr>mrc_Status := s\<rparr>) ps w"
    using s(1) ps dist st none by (simp add: store_present_def)
  then show thesis by (rule that)
qed

text \<open>
  C20. A new store comes up. From a world that holds a store and nothing of its cluster, not even a pod,
  one reconciliation of the store creates the cluster. Then reconciliations of the cluster, recorded
  events of its members and starts of the pods that the stored stateful sets ask for happen in whatever
  order, as long as the pods are started once after some reconciliation; until then the reconciliations
  fail at the first member, whose pod they cannot read. After that a number of reconciliations bounded
  by the numbers of groups and members settles the cluster, and four more of the store publish a data
  store from which the driver decodes a configuration that names, for every group, the addresses of the
  nodes that are recorded as its leader and its followers. The numbers of groups, members and replicas
  are positive and fit in the code's integers, no group has more members than there are replicas, a
  claim template has a name, the groups get distinct partition numbers, and the requests succeed.
\<close>

theorem new_store_comes_up:
  assumes laws: "cluster_laws env V" and store: "store_laws senv stores (ob_Clusters \<circ> V) datas"
    and create: "creates V ob_Clusters ob_Clusters_update (metaKey \<circ> mrc_Meta) same_cluster (s_Clusters senv)"
    and sets: "creates V ob_StatefulSets ob_StatefulSets_update (metaKey \<circ> set_Meta) same_set (k_StatefulSets env)"
    and start: "starts_pods V start"
    and frame: "\<And>x. spares (\<lambda>w. (stores w, datas w)) (cl_Create (s_Clusters senv) x)"
      "env_spares (\<lambda>w. (stores w, datas w)) env" "\<And>w. (stores (start w), datas (start w)) = (stores w, datas w)"
    and codec: "\<And>ps. codec_at senv (getProtocolConfig (s_toPartitionID senv) ps)"
    and st: "stores w n = Some st" "metaKey (cst_Meta st) = n" "datas w n = None" "awaits_cluster c (V w)"
    and c: "c = newCluster st" "sizes_ok c" "getNumMembers c \<le> getNumReplicas c" "claim_named c"
      "inj_on (s_toPartitionID senv) {1..getNumGroups c}"
    and acts: "acts = before @ Controls Reconciles # between @ StartsPods # after" "\<forall>a \<in> set acts. life_of_cluster c a"
    and j: "(nat (getNumGroups c) * (4 * nat (getNumMembers c) + 1) + 1) * (2 * nat (getNumGroups c) + 3) \<le> j"
    and k: "4 \<le> k"
    and run: "w1 = snd (run_state (store_Reconcile senv n) w)" "w2 = fold (lifeAct env start c) acts w1"
      "w3 = ((\<lambda>w. snd (run_state (cluster_Reconcile env n) w)) ^^ j) w2"
      "w4 = ((\<lambda>w. snd (run_state (store_Reconcile senv n) w)) ^^ k) w3"
  shows "\<exists>data config. datas w4 n = Some data \<and> conn_Connect (s_Unmarshal senv) connect (ds_Config data) = connect config \<and>
    (\<forall>g \<in> {1..getNumGroups c}. \<exists>grp. ob_Groups (V w3) (groupName c g) = Some grp \<and>
       (\<exists>p \<in> set (prc_Partitions config). pcf_PartitionID p = s_toPartitionID senv g \<and>
          published_group (k_domain env) c g (rg_Status grp) p))"
proof -
  let ?S = "\<lambda>w. (stores w, datas w)"
  obtain d where d: "same_cluster c d" "on_its_way d (V w1)" "stores w1 = stores w" "datas w1 = datas w"
    using store_creates_cluster [OF store create frame(1) st(1,2)] st(4) run(1) unfolding c(1) by metis
  note names = same_cluster_names [OF d(1)]
  have key: "clusterKey d = n" using st(2) names(1) by (simp add: c(1) clusterKey_def newCluster_def newMeta_def metaKey_def)
  have "clusterAct env c a x = clusterAct env d a x" for a x by (cases a) (simp_all add: names(1))
  then have acting: "lifeAct env start c a x = lifeAct env start d a x" for a x by (cases a) simp_all
  have small: "getNumGroups d < 2 ^ 31" "getNumMembers d < 2 ^ 32" "claim_named d"
    using c(2,4) names getNumMembers_exact [OF c(2)] by (simp_all add: sizes_ok_def)
  have w2: "w2 = fold (lifeAct env start d) acts w1" unfolding run(2) using acting by (metis ext)
  have "life_of_cluster d a" if "life_of_cluster c a" for a using that same_cluster_event [OF d(1)] by (cases a) simp_all
  then have "\<forall>a \<in> set acts. life_of_cluster d a" using acts(2) by blast
  moreover have "sizes_ok d" using c(2) names by simp
  ultimately have place2: "in_place d (V w2)"
    unfolding w2 by (intro life_brings_in_place [OF laws small(3) _ small(2) sets start d(2) acts(1)])
  have j': "remaining (k_domain env) d (V w2) \<le> j"
    by (rule order_trans [OF remaining_bound]) (use j names in simp)
  have w3: "w3 = ((\<lambda>w. snd (run_state (cluster_Reconcile env (clusterKey d)) w)) ^^ j) w2" by (simp only: run(3) key)
  from cluster_settles_within [OF laws place2 small(1,3) j']
  have place3: "in_place d (V w3)" and settled: "settled (k_domain env) d (V w3)"
    and still: "run_state (cluster_Reconcile env (clusterKey d)) w3 = (Inr noRequeue, w3)"
    unfolding w3 by blast+
  have "?S (((\<lambda>w. snd (run_state (cluster_Reconcile env (clusterKey d)) w)) ^^ i) w2) = ?S w2" for i
    using spares_reconcile [OF frame(2)] by (induction i) (simp_all add: spares_def)
  then have frames: "stores w3 = stores w" "datas w3 = datas w"
    using spares_life [OF frame(2) frame(3), of d acts w1] d(3,4) unfolding w2 w3 by simp_all
  have stored: "stores w3 (clusterKey d) = Some st" "metaKey (cst_Meta st) = clusterKey d" "datas w3 (clusterKey d) = None"
    using st frames key by simp_all
  have sizes: "0 < getNumGroups d" "getNumGroups d < 2 ^ 31" "separate_pods d" "inj_on (s_toPartitionID senv) {1..getNumGroups d}"
    using c(2,5) names separate_podsI [OF c(2,3)] by (simp_all add: sizes_ok_def)
  obtain cluster ps where "store_present senv stores (ob_Clusters \<circ> V) datas (clusterKey d) cluster ps w3"
    by (rule settled_store_present [where V = V and w = w3 and stores = stores and datas = datas, OF place3 settled sizes stored]) blast
  from published_nodes_within [OF laws place3 small(1,3) still store codec this k, of connect]
  show ?thesis by (simp add: run(4) key names same_cluster_published [OF d(1)])
qed

section \<open>A store that comes up\<close>

text \<open>A codec of configurations: lists by their length, numbers in unary, strings letter by letter.\<close>

definition putNat :: "nat \<Rightarrow> string" where
  "putNat n = replicate n (CHR ''1'') @ ''0''"

fun getNat :: "string \<Rightarrow> nat \<times> string" where
  "getNat [] = (0, [])"
| "getNat (c # s) = (if c = CHR ''1'' then (let (n, r) = getNat s in (Suc n, r)) else (0, s))"

fun putString :: "string \<Rightarrow> string" where
  "putString [] = ''0''"
| "putString (c # s) = CHR ''1'' # c # putString s"

fun getString :: "string \<Rightarrow> string \<times> string" where
  "getString (a # b # s) = (if a = CHR ''1'' then (let (t, r) = getString s in (b # t, r)) else ([], b # s))"
| "getString s = ([], [])"

fun getMany :: "nat \<Rightarrow> (string \<Rightarrow> 'a \<times> string) \<Rightarrow> string \<Rightarrow> 'a list \<times> string" where
  "getMany 0 get s = ([], s)"
| "getMany (Suc n) get s = (let (x, r) = get s; (xs, r') = getMany n get r in (x # xs, r'))"

definition putList :: "('a \<Rightarrow> string) \<Rightarrow> 'a list \<Rightarrow> string" where
  "putList put xs = putNat (length xs) @ concat (map put xs)"

definition getList :: "(string \<Rightarrow> 'a \<times> string) \<Rightarrow> string \<Rightarrow> 'a list \<times> string" where
  "getList get s = (let (n, r) = getNat s in getMany n get r)"

definition putPartition :: "PartitionConfig \<Rightarrow> string" where
  "putPartition p = putNat (nat (pcf_PartitionID p)) @ putNat (nat (- pcf_PartitionID p)) @
     putString (pcf_Leader p) @ putList putString (pcf_Followers p)"

definition getPartition :: "string \<Rightarrow> PartitionConfig \<times> string" where
  "getPartition s = (let (a, r1) = getNat s; (b, r2) = getNat r1; (l, r3) = getString r2; (fs, r4) = getList getString r3 in
     (\<lparr>pcf_PartitionID = int a - int b, pcf_Leader = l, pcf_Followers = fs\<rparr>, r4))"

lemma getNat_putNat: "getNat (putNat n @ r) = (n, r)"
  by (induction n) (simp_all add: putNat_def)

lemma getString_putString: "r \<noteq> [] \<Longrightarrow> getString (putString s @ r) = (s, r)"
proof (induction s)
  case Nil
  then show ?case by (cases r) simp_all
qed simp

lemma getMany_put:
  assumes "\<And>x r. r \<noteq> [] \<Longrightarrow> get (put x @ r) = (x, r)" and "\<And>x. put x \<noteq> []" and "r \<noteq> []"
  shows "getMany (length xs) get (concat (map put xs) @ r) = (xs, r)"
  by (induction xs) (simp_all add: assms)

lemma putString_nonempty: "putString s \<noteq> []"
  by (cases s) simp_all

lemma getList_put:
  assumes "\<And>x r. r \<noteq> [] \<Longrightarrow> get (put x @ r) = (x, r)" and "\<And>x. put x \<noteq> []" and "r \<noteq> []"
  shows "getList get (putList put xs @ r) = (xs, r)"
  using getMany_put [OF assms] by (simp add: getList_def putList_def getNat_putNat)

lemma putList_nonempty: "putList put xs \<noteq> []"
  by (simp add: putList_def putNat_def)

lemma getPartition_put:
  assumes "r \<noteq> []"
  shows "getPartition (putPartition p @ r) = (p, r)"
proof -
  have followers: "getList getString (putList putString xs @ r) = (xs, r)" for xs
    by (rule getList_put [OF getString_putString putString_nonempty assms])
  show ?thesis
    by (cases p) (simp add: getPartition_def putPartition_def getNat_putNat getString_putString followers
        putList_nonempty assms)
qed

lemma putPartition_nonempty: "putPartition p \<noteq> []"
  by (simp add: putPartition_def putNat_def)

definition putConfig :: "ProtocolConfig \<Rightarrow> string" where
  "putConfig c = putList putPartition (prc_Partitions c) @ ''.''"

definition getConfig :: "string \<Rightarrow> ProtocolConfig" where
  "getConfig s = \<lparr>prc_Partitions = fst (getList getPartition s)\<rparr>"

lemma getConfig_put: "getConfig (putConfig c) = c"
  by (cases c) (simp add: getConfig_def putConfig_def getList_put [OF getPartition_put putPartition_nonempty])

text \<open>A world with a store and nothing else, and the start of its pods.\<close>

definition servingEnv :: "soloWorld storeEnv" where
  "servingEnv = soloStoreEnv
     \<lparr>s_Clusters := (readOnly (ob_Clusters \<circ> fst))\<lparr>cl_Create := (\<lambda>x. State (\<lambda>(obs, rest).
        (Inr x, (obs\<lparr>ob_Clusters := (ob_Clusters obs)(metaKey (mrc_Meta x) \<mapsto> x)\<rparr>, rest))))\<rparr>,
      s_Marshal := (\<lambda>c. Inr (putConfig c)), s_Unmarshal := (\<lambda>s. Inr (getConfig s))\<rparr>"

definition newStore :: ConsensusStore where
  "newStore = sampleStore\<lparr>cst_Spec := mrc_Spec soloCluster\<rparr>"

definition newWorld :: soloWorld where
  "newWorld = (\<lparr>ob_Clusters = Map.empty, ob_Groups = Map.empty, ob_Members = Map.empty,
     ob_Pods = Map.empty, ob_ConfigMaps = Map.empty, ob_StatefulSets = Map.empty,
     ob_Services = Map.empty\<rparr>, [soloKey \<mapsto> newStore], Map.empty)"

definition startAll :: "soloWorld \<Rightarrow> soloWorld" where
  "startAll = (\<lambda>(obs, rest). (obs\<lparr>ob_Pods := (\<lambda>_. Some samplePod)\<rparr>, rest))"

lemma startAll_laws:
  "starts_pods fst startAll" "((fst \<circ> snd) (startAll w), (snd \<circ> snd) (startAll w)) = ((fst \<circ> snd) w, (snd \<circ> snd) w)"
  by (auto simp: starts_pods_def startAll_def split_beta)

lemma clusterWorld_sets:
  "creates fst ob_StatefulSets ob_StatefulSets_update (metaKey \<circ> set_Meta) same_set
     (k_StatefulSets (envOnFirst clusterWorldEnv :: (soloWorld, nat) clusterEnv))"
proof -
  have "creates (\<lambda>x. x) ob_StatefulSets ob_StatefulSets_update (metaKey \<circ> set_Meta) same_set (k_StatefulSets clusterWorldEnv)"
    by (simp add: clusterWorldEnv_def storeClient_laws same_set_def)
  from creates_onFirst [OF this] show ?thesis by (simp add: envOnFirst_def comp_def)
qed

lemma serving_laws:
  "store_laws servingEnv (fst \<circ> snd) (ob_Clusters \<circ> fst) (snd \<circ> snd)"
  "creates fst ob_Clusters ob_Clusters_update (metaKey \<circ> mrc_Meta) same_cluster (s_Clusters servingEnv)"
  "spares (\<lambda>w. ((fst \<circ> snd) w, (snd \<circ> snd) w)) (cl_Create (s_Clusters servingEnv) x)"
  "codec_at servingEnv (getProtocolConfig (s_toPartitionID servingEnv) ps)"
  by (auto simp: store_laws_def servingEnv_def soloStoreEnv_def get_law_def readOnly_def codec_at_def getConfig_put
      creates_def same_cluster_def spares_def)

lemma serving_spared: "env_spares (\<lambda>w. ((fst \<circ> snd) w, (snd \<circ> snd) w)) (envOnFirst env :: ('x \<times> 'y \<times> 'z, 't) clusterEnv)"
  by (simp add: env_spares_def client_spares_def spares_def envOnFirst_def clientOnFirst_def split_paired_all run_onFirst)

lemma newStore_cluster:
  "metaKey (cst_Meta newStore) = soloKey" "getNumGroups (newCluster newStore) = 1" "getNumMembers (newCluster newStore) = 1"
  "claim_named (newCluster newStore)" "getNumReplicas (newCluster newStore) = 1" "sizes_ok (newCluster newStore)"
proof -
  have spec: "mrc_Spec (newCluster newStore) = mrc_Spec soloCluster" by (simp add: newCluster_def newStore_def)
  show "getNumGroups (newCluster newStore) = 1" "getNumMembers (newCluster newStore) = 1" "claim_named (newCluster newStore)"
    using soloCluster_sizes unfolding same_spec_sizes [OF spec] by simp_all
  show "getNumReplicas (newCluster newStore) = 1" "sizes_ok (newCluster newStore)"
    by (simp_all add: sizes_ok_def getNumReplicas_def getNumGroups_def getNumVotingMembers_def getNumNonVotingMembers_def
        raftSpec_def spec) (simp_all add: soloCluster_def sampleCluster_def)
  show "metaKey (cst_Meta newStore) = soloKey"
    by (simp add: newStore_def sampleStore_def soloKey_def clusterKey_def soloCluster_def sampleCluster_def)
qed

theorem new_store_comes_up_witness:
  "\<exists>w4 data config. w4 = ((\<lambda>w. snd (run_state (store_Reconcile servingEnv soloKey) w)) ^^ 4)
      (((\<lambda>w. snd (run_state (cluster_Reconcile (envOnFirst clusterWorldEnv) soloKey) w)) ^^ 30)
        (fold (lifeAct (envOnFirst clusterWorldEnv) startAll (newCluster newStore))
            [Controls Reconciles, Controls Reconciles, Controls Reconciles, StartsPods, Controls Reconciles]
          (snd (run_state (store_Reconcile servingEnv soloKey) newWorld)))) \<and>
    (snd \<circ> snd) w4 soloKey = Some data \<and>
    conn_Connect (s_Unmarshal servingEnv) (\<lambda>config. State (\<lambda>_. (Inr (), Some config))) (ds_Config data) =
      State (\<lambda>_. (Inr (), Some config)) \<and>
    (\<exists>p \<in> set (prc_Partitions config). pcf_PartitionID p = 1)"
proof -
  let ?env = "envOnFirst clusterWorldEnv :: (soloWorld, nat) clusterEnv" and ?c = "newCluster newStore"
  have laws: "cluster_laws ?env fst" using envOnFirst_laws [OF clusterWorld_laws] by (simp add: comp_def)
  have id: "s_toPartitionID servingEnv = id" by (simp add: servingEnv_def soloStoreEnv_def)
  have await: "awaits_cluster ?c (fst newWorld)" by (simp add: awaits_cluster_def newWorld_def)
  let ?w1 = "snd (run_state (store_Reconcile servingEnv soloKey) newWorld)"
  let ?acts = "[Controls Reconciles, Controls Reconciles, Controls Reconciles, StartsPods, Controls Reconciles] :: nat lifeAction list"
  let ?w2 = "fold (lifeAct ?env startAll ?c) ?acts ?w1"
  let ?w3 = "((\<lambda>w. snd (run_state (cluster_Reconcile ?env soloKey) w)) ^^ 30) ?w2"
  let ?w4 = "((\<lambda>w. snd (run_state (store_Reconcile servingEnv soloKey) w)) ^^ 4) ?w3"
  have "\<exists>data config. (snd \<circ> snd) ?w4 soloKey = Some data \<and>
      conn_Connect (s_Unmarshal servingEnv) (\<lambda>config. State (\<lambda>_. (Inr (), Some config))) (ds_Config data) =
        State (\<lambda>_. (Inr (), Some config)) \<and>
      (\<forall>g \<in> {1..getNumGroups ?c}. \<exists>grp. ob_Groups (fst ?w3) (groupName ?c g) = Some grp \<and>
         (\<exists>p \<in> set (prc_Partitions config). pcf_PartitionID p = s_toPartitionID servingEnv g \<and>
            published_group (k_domain ?env) ?c g (rg_Status grp) p))"
    by (rule new_store_comes_up [where V = fst and stores = "fst \<circ> snd" and datas = "snd \<circ> snd" and w = newWorld and st = newStore
          and acts = ?acts and before = "[]" and between = "[Controls Reconciles, Controls Reconciles]"
          and after = "[Controls Reconciles]" and j = 30 and k = 4,
          OF laws serving_laws(1,2) clusterWorld_sets startAll_laws(1) serving_laws(3) serving_spared [of clusterWorldEnv]
            startAll_laws(2) serving_laws(4) _ _ _ await refl])
      (simp_all only: newStore_cluster id inj_on_id, simp_all add: newWorld_def)
  then show ?thesis unfolding newStore_cluster(2) id by fastforce
qed

end
