(* ===== verification/DeepCopy.thy ===== *)
theory DeepCopy
  imports Prelude
begin

text \<open>
  Go values with sharing, and the building blocks of the deep copies in
  \<^verbatim>\<open>controller/pkg/apis/consensus/v1beta1/zz_generated.deepcopy.go\<close>. Elsewhere the
  development reads the API objects as plain values; here pointers, slices and maps are
  addresses of a heap, so that it can be said what a copy shares with its original. The
  copies of the Kubernetes types are parameters.
\<close>

section \<open>Values and heaps\<close>

datatype 'p goval =
    Atom 'p
  | Pointer "nat option"
  | Slice "(nat \<times> nat) option"
  | MapRef "nat option"
  | Struct "'p goval list"

text \<open>What an address holds: a variable, the array of a slice, the entries of a map.\<close>

datatype 'p cell =
    Pointee "'p goval"
  | Elems "'p goval list"
  | Entries "(string \<times> 'p goval) list"

record 'p heap =
  hp_next :: nat
  hp_cells :: "nat \<rightharpoonup> 'p cell"

definition heap_ok :: "'p heap \<Rightarrow> bool" where
  "heap_ok h \<longleftrightarrow> (\<forall>a. hp_cells h a \<noteq> None \<longrightarrow> a < hp_next h)"

definition loadCell :: "nat \<Rightarrow> ('p heap, 'p cell option) state" where
  "loadCell a = State (\<lambda>h. (hp_cells h a, h))"

definition allocate :: "'p cell \<Rightarrow> ('p heap, nat) state" where
  "allocate c = State (\<lambda>h. (hp_next h,
     h\<lparr>hp_next := hp_next h + 1, hp_cells := (hp_cells h)(hp_next h \<mapsto> c)\<rparr>))"

definition storeCell :: "nat \<Rightarrow> 'p cell \<Rightarrow> ('p heap, unit) state" where
  "storeCell a c = State (\<lambda>h. ((), h\<lparr>hp_cells := (hp_cells h)(a \<mapsto> c)\<rparr>))"

lemma run_heap [run_simps]:
  "run_state (loadCell a) h = (hp_cells h a, h)"
  "run_state (allocate c) h = (hp_next h,
     h\<lparr>hp_next := hp_next h + 1, hp_cells := (hp_cells h)(hp_next h \<mapsto> c)\<rparr>)"
  "run_state (storeCell a c) h = ((), h\<lparr>hp_cells := (hp_cells h)(a \<mapsto> c)\<rparr>)"
  by (simp_all add: loadCell_def allocate_def storeCell_def)

section \<open>Copying\<close>

text \<open>A copier gets the value of a variable and returns the value its copy gets.\<close>

type_synonym 'p copier = "'p goval \<Rightarrow> ('p heap, 'p goval) state"

text \<open>The assignment that leaves a field as \<^verbatim>\<open>*out = *in\<close> set it.\<close>

definition assigned :: "'p copier" where
  "assigned v = State (\<lambda>h. (v, h))"

fun copyElems :: "'p copier \<Rightarrow> 'p goval list \<Rightarrow> ('p heap, 'p goval list) state" where
  "copyElems f [] = State (\<lambda>h. ([], h))"
| "copyElems f (v # vs) = do { v' \<leftarrow> f v; vs' \<leftarrow> copyElems f vs; State (\<lambda>h. (v' # vs', h)) }"

fun copyFields :: "'p copier list \<Rightarrow> 'p goval list \<Rightarrow> ('p heap, 'p goval list) state" where
  "copyFields (f # fs) (v # vs) = do { v' \<leftarrow> f v; vs' \<leftarrow> copyFields fs vs; State (\<lambda>h. (v' # vs', h)) }"
| "copyFields _ vs = State (\<lambda>h. (vs, h))"

text \<open>
  \<^verbatim>\<open>*out = *in\<close> and then one statement per field; a new variable for what a pointer points
  to; a new array or map for what a slice or map holds. A new variable is zero until the
  copy is written to it; the zero value is never read.
\<close>

definition copyStruct :: "'p copier list \<Rightarrow> 'p copier" where
  "copyStruct fs v =
     (case v of
        Struct vs \<Rightarrow> do { vs' \<leftarrow> copyFields fs vs; State (\<lambda>h. (Struct vs', h)) }
      | _ \<Rightarrow> assigned v)"

definition newVariable :: "'p copier \<Rightarrow> 'p goval \<Rightarrow> ('p heap, nat) state" where
  "newVariable f v = do {
     out \<leftarrow> allocate (Pointee (Struct []));
     v' \<leftarrow> f v;
     _ \<leftarrow> storeCell out (Pointee v');
     State (\<lambda>h. (out, h))
   }"

definition copyPointer :: "'p copier \<Rightarrow> 'p copier" where
  "copyPointer f v =
     (case v of
        Pointer (Some a) \<Rightarrow> do {
          c \<leftarrow> loadCell a;
          (case c of
             Some (Pointee w) \<Rightarrow> do { out \<leftarrow> newVariable f w; State (\<lambda>h. (Pointer (Some out), h)) }
           | _ \<Rightarrow> assigned v)
        }
      | _ \<Rightarrow> assigned v)"

definition copySlice :: "'p copier \<Rightarrow> 'p copier" where
  "copySlice f v =
     (case v of
        Slice (Some (a, n)) \<Rightarrow> do {
          c \<leftarrow> loadCell a;
          (case c of
             Some (Elems vs) \<Rightarrow> do {
               out \<leftarrow> allocate (Elems []);
               vs' \<leftarrow> copyElems f (take n vs);
               _ \<leftarrow> storeCell out (Elems vs');
               State (\<lambda>h. (Slice (Some (out, n)), h))
             }
           | _ \<Rightarrow> assigned v)
        }
      | _ \<Rightarrow> assigned v)"

text \<open>The value of \<^verbatim>\<open>*val.DeepCopy()\<close>, which leaves an unused variable behind.\<close>

definition derefCopy :: "'p copier \<Rightarrow> 'p copier" where
  "derefCopy f v = do {
     out \<leftarrow> allocate (Pointee (Struct []));
     v' \<leftarrow> f v;
     _ \<leftarrow> storeCell out (Pointee v');
     State (\<lambda>h. (v', h))
   }"

definition copyMap :: "'p copier \<Rightarrow> 'p copier" where
  "copyMap f v =
     (case v of
        MapRef (Some a) \<Rightarrow> do {
          c \<leftarrow> loadCell a;
          (case c of
             Some (Entries kvs) \<Rightarrow> do {
               out \<leftarrow> allocate (Entries []);
               vs' \<leftarrow> copyElems (derefCopy f) (map snd kvs);
               _ \<leftarrow> storeCell out (Entries (zip (map fst kvs) vs'));
               State (\<lambda>h. (MapRef (Some out), h))
             }
           | _ \<Rightarrow> assigned v)
        }
      | _ \<Rightarrow> assigned v)"

text \<open>
  \<^verbatim>\<open>DeepCopy\<close> of a pointer: nil, or a new variable \<^verbatim>\<open>DeepCopyInto\<close> fills.
  \<^verbatim>\<open>DeepCopyObject\<close> returns it as an object, \<open>None\<close> for nil.
\<close>

definition DeepCopy :: "'p copier \<Rightarrow> nat option \<Rightarrow> ('p heap, nat option) state" where
  "DeepCopy f p =
     (case p of
        None \<Rightarrow> State (\<lambda>h. (None, h))
      | Some a \<Rightarrow> do {
          c \<leftarrow> loadCell a;
          (case c of
             Some (Pointee v) \<Rightarrow> do { out \<leftarrow> newVariable f v; State (\<lambda>h. (Some out, h)) }
           | _ \<Rightarrow> State (\<lambda>h. (None, h)))
        })"

definition DeepCopyObject :: "'p copier \<Rightarrow> nat option \<Rightarrow> ('p heap, nat option) state" where
  "DeepCopyObject f p = do {
     c \<leftarrow> DeepCopy f p;
     (case c of Some out \<Rightarrow> State (\<lambda>h. (Some out, h)) | None \<Rightarrow> State (\<lambda>h. (None, h)))
   }"

section \<open>What a value says, and where\<close>

datatype 'p tree =
    Leaf 'p
  | NilRef
  | Ref "'p tree"
  | Seq "'p tree list"
  | Dict "(string \<times> 'p tree) list"
  | Fields "'p tree list"

text \<open>\<open>denotes h v t F\<close>: in the heap \<open>h\<close> the value \<open>v\<close> stands for \<open>t\<close>, reaching the addresses \<open>F\<close>.\<close>

inductive denotes :: "'p heap \<Rightarrow> 'p goval \<Rightarrow> 'p tree \<Rightarrow> nat set \<Rightarrow> bool"
  and denotes_all :: "'p heap \<Rightarrow> 'p goval list \<Rightarrow> 'p tree list \<Rightarrow> nat set \<Rightarrow> bool" for h where
  atom: "denotes h (Atom x) (Leaf x) {}"
| nil_pointer: "denotes h (Pointer None) NilRef {}"
| nil_slice: "denotes h (Slice None) NilRef {}"
| nil_map: "denotes h (MapRef None) NilRef {}"
| pointer: "hp_cells h a = Some (Pointee v) \<Longrightarrow> denotes h v t F \<Longrightarrow>
    denotes h (Pointer (Some a)) (Ref t) (insert a F)"
| slice: "hp_cells h a = Some (Elems vs) \<Longrightarrow> n \<le> length vs \<Longrightarrow> denotes_all h (take n vs) ts F \<Longrightarrow>
    denotes h (Slice (Some (a, n))) (Seq ts) (insert a F)"
| entries: "hp_cells h a = Some (Entries kvs) \<Longrightarrow> denotes_all h (map snd kvs) ts F \<Longrightarrow>
    denotes h (MapRef (Some a)) (Dict (zip (map fst kvs) ts)) (insert a F)"
| struct: "denotes_all h vs ts F \<Longrightarrow> denotes h (Struct vs) (Fields ts) F"
| no_values: "denotes_all h [] [] {}"
| more_values: "denotes h v t F \<Longrightarrow> denotes_all h vs ts G \<Longrightarrow> denotes_all h (v # vs) (t # ts) (F \<union> G)"

inductive_cases denotes_LeafE: "denotes h v (Leaf x) F"
inductive_cases denotes_NilE: "denotes h v NilRef F"
inductive_cases denotes_RefE: "denotes h v (Ref t) F"
inductive_cases denotes_SeqE: "denotes h v (Seq ts) F"
inductive_cases denotes_DictE: "denotes h v (Dict kts) F"
inductive_cases denotes_FieldsE: "denotes h v (Fields ts) F"
inductive_cases denotes_all_NilE: "denotes_all h vs [] F"
inductive_cases denotes_all_ConsE: "denotes_all h vs (t # ts) F"
inductive_cases denotes_all_vNilE: "denotes_all h [] ts F"
inductive_cases denotes_all_vConsE: "denotes_all h (v # vs) ts F"

lemma denotes_frame:
  "denotes h v t F \<Longrightarrow> (\<And>a. a \<in> F \<Longrightarrow> hp_cells h' a = hp_cells h a) \<Longrightarrow> denotes h' v t F"
  "denotes_all h vs ts F \<Longrightarrow> (\<And>a. a \<in> F \<Longrightarrow> hp_cells h' a = hp_cells h a) \<Longrightarrow> denotes_all h' vs ts F"
proof (induction rule: denotes_denotes_all.inducts)
  case (pointer a v t F)
  then show ?case by (metis denotes_denotes_all.pointer insertCI)
next
  case (slice a vs n ts F)
  then show ?case by (metis denotes_denotes_all.slice insertCI)
next
  case (entries a kvs ts F)
  then show ?case by (metis denotes_denotes_all.entries insertCI)
next
  case (more_values v t F vs ts G)
  then show ?case by (simp add: denotes_denotes_all.more_values)
qed (auto intro: denotes_denotes_all.intros)

lemma denotes_dom:
  "denotes h v t F \<Longrightarrow> F \<subseteq> dom (hp_cells h)"
  "denotes_all h vs ts F \<Longrightarrow> F \<subseteq> dom (hp_cells h)"
  by (induction rule: denotes_denotes_all.inducts) auto

lemma denotes_all_length: "denotes_all h vs ts F \<Longrightarrow> length vs = length ts"
  by (induction vs arbitrary: ts F) (auto elim: denotes_all_vNilE denotes_all_vConsE)

section \<open>What a copy promises\<close>

text \<open>
  A heap grows: what was there is untouched. A copy in the grown heap says the same as the
  original and lives in new addresses only.
\<close>

definition grows :: "'p heap \<Rightarrow> 'p heap \<Rightarrow> bool" where
  "grows h h' \<longleftrightarrow> heap_ok h' \<and> hp_next h \<le> hp_next h' \<and>
     (\<forall>a < hp_next h. hp_cells h' a = hp_cells h a)"

definition new_addresses :: "'p heap \<Rightarrow> 'p heap \<Rightarrow> nat set" where
  "new_addresses h h' = {hp_next h..<hp_next h'}"

definition separate_copy :: "'p heap \<Rightarrow> 'p goval \<Rightarrow> 'p tree \<Rightarrow> 'p heap \<Rightarrow> bool" where
  "separate_copy h v' t h' \<longleftrightarrow>
     grows h h' \<and> (\<exists>F. denotes h' v' t F \<and> F \<subseteq> new_addresses h h')"

definition separate_copies :: "'p heap \<Rightarrow> 'p goval list \<Rightarrow> 'p tree list \<Rightarrow> 'p heap \<Rightarrow> bool" where
  "separate_copies h vs' ts h' \<longleftrightarrow>
     grows h h' \<and> (\<exists>F. denotes_all h' vs' ts F \<and> F \<subseteq> new_addresses h h')"

lemma grows_refl: "heap_ok h \<Longrightarrow> grows h h"
  by (simp add: grows_def)

lemma grows_trans: "grows h h1 \<Longrightarrow> grows h1 h2 \<Longrightarrow> grows h h2"
  by (fastforce simp: grows_def)

lemma grows_ok: "grows h h' \<Longrightarrow> heap_ok h'"
  by (simp add: grows_def)

lemma grows_denotes:
  "heap_ok h \<Longrightarrow> grows h h' \<Longrightarrow> denotes h v t F \<Longrightarrow> denotes h' v t F"
  "heap_ok h \<Longrightarrow> grows h h' \<Longrightarrow> denotes_all h vs ts F \<Longrightarrow> denotes_all h' vs ts F"
proof -
  assume ok: "heap_ok h" and g: "grows h h'"
  have "hp_cells h' a = hp_cells h a" if "a \<in> F" "F \<subseteq> dom (hp_cells h)" for a
    using that ok g by (fastforce simp: grows_def heap_ok_def)
  then show "denotes h v t F \<Longrightarrow> denotes h' v t F" "denotes_all h vs ts F \<Longrightarrow> denotes_all h' vs ts F"
    using denotes_frame denotes_dom by metis+
qed

text \<open>A new cell, filled once what it is to hold has been copied.\<close>

lemma grows_allocate:
  assumes "heap_ok h" and "run_state (allocate c) h = (out, h1)"
  shows "grows h h1" and "out = hp_next h" and "hp_next h1 = Suc (hp_next h)"
  using assms by (auto simp: run_simps grows_def heap_ok_def less_Suc_eq split: if_splits)

lemma grows_store:
  assumes "grows h h1" and "hp_next h \<le> out" and "out < hp_next h1"
    and "run_state (storeCell out c) h1 = (u, h2)"
  shows "grows h h2" and "hp_next h2 = hp_next h1" and "hp_cells h2 out = Some c"
    and "\<And>a. a \<noteq> out \<Longrightarrow> hp_cells h2 a = hp_cells h1 a"
  using assms by (auto simp: run_simps grows_def heap_ok_def split: if_splits)

lemma filled_cell:
  assumes ok: "heap_ok h" and new: "run_state (allocate c0) h = (out, h1)"
    and copies: "separate_copies h1 vs' ts h2" and fill: "run_state (storeCell out c) h2 = (u, h3)"
  shows "grows h h3" and "hp_cells h3 out = Some c"
    and "\<exists>F. denotes_all h3 vs' ts F \<and> insert out F \<subseteq> new_addresses h h3 \<and> out \<notin> F"
proof -
  note a = grows_allocate [OF ok new]
  obtain F where F: "denotes_all h2 vs' ts F" "F \<subseteq> new_addresses h1 h2" and g: "grows h1 h2"
    using copies by (auto simp: separate_copies_def)
  have "hp_next h \<le> out" "out < hp_next h2" using a g by (simp_all add: grows_def)
  note s = grows_store [OF grows_trans [OF a(1) g] this fill]
  show "grows h h3" "hp_cells h3 out = Some c" by (fact s(1), fact s(3))
  have "out \<notin> F" using F(2) a(2,3) by (auto simp: new_addresses_def)
  moreover from this have "denotes_all h3 vs' ts F"
    using denotes_frame(2) [OF F(1)] s(4) by metis
  moreover have "insert out F \<subseteq> new_addresses h h3"
    using F(2) a(2,3) g s(2) by (auto simp: new_addresses_def grows_def)
  ultimately show "\<exists>F. denotes_all h3 vs' ts F \<and> insert out F \<subseteq> new_addresses h h3 \<and> out \<notin> F"
    by blast
qed

lemma separate_copies_one:
  "separate_copy h v' t h' \<longleftrightarrow> separate_copies h [v'] [t] h'"
proof
  show "separate_copy h v' t h' \<Longrightarrow> separate_copies h [v'] [t] h'"
    unfolding separate_copy_def separate_copies_def
    by (metis more_values no_values sup_bot.right_neutral)
  show "separate_copies h [v'] [t] h' \<Longrightarrow> separate_copy h v' t h'"
    unfolding separate_copy_def separate_copies_def
    by (auto elim!: denotes_all_ConsE denotes_all_NilE)
qed

lemma separate_copies_Cons:
  assumes "separate_copy h w t h1" and "separate_copies h1 ws ts h2"
  shows "separate_copies h (w # ws) (t # ts) h2"
proof -
  obtain G1 G2 where G: "grows h h1" "denotes h1 w t G1" "G1 \<subseteq> new_addresses h h1"
    "grows h1 h2" "denotes_all h2 ws ts G2" "G2 \<subseteq> new_addresses h1 h2"
    using assms by (auto simp: separate_copy_def separate_copies_def)
  have "denotes_all h2 (w # ws) (t # ts) (G1 \<union> G2)"
    by (rule more_values [OF grows_denotes(1) [OF grows_ok [OF G(1)] G(4,2)] G(5)])
  moreover have "G1 \<union> G2 \<subseteq> new_addresses h h2"
    using G by (auto simp: new_addresses_def grows_def)
  ultimately show ?thesis
    unfolding separate_copies_def using grows_trans [OF G(1,4)] by blast
qed

text \<open>
  The interface: \<open>fits\<close> says of which values a copier is a deep copy, as trees of their
  type.
\<close>

locale deep_copier =
  fixes fits :: "'p tree \<Rightarrow> bool" and copy :: "'p goval \<Rightarrow> ('p heap, 'p goval) state"
  assumes copies: "heap_ok h \<Longrightarrow> denotes h v t F \<Longrightarrow> fits t \<Longrightarrow>
    run_state (copy v) h = (v', h') \<Longrightarrow> separate_copy h v' t h'"
begin

lemma copies_elems:
  "heap_ok h \<Longrightarrow> denotes_all h vs ts F \<Longrightarrow> list_all fits ts \<Longrightarrow>
   run_state (copyElems copy vs) h = (vs', h') \<Longrightarrow> separate_copies h vs' ts h'"
proof (induction vs arbitrary: h ts F vs' h')
  case Nil
  then show ?case
    by (auto simp: separate_copies_def grows_refl elim!: denotes_all_vNilE intro: no_values)
next
  case (Cons v vs)
  then obtain t ts1 F1 F2 where ts: "ts = t # ts1" "denotes h v t F1" "denotes_all h vs ts1 F2"
    by (auto elim: denotes_all_vConsE)
  obtain w h1 where w: "run_state (copy v) h = (w, h1)" by (cases "run_state (copy v) h")
  obtain ws h2 where ws: "run_state (copyElems copy vs) h1 = (ws, h2)"
    by (cases "run_state (copyElems copy vs) h1")
  have res: "vs' = w # ws" "h' = h2" using Cons.prems(4) w ws by simp_all
  have c1: "separate_copy h w t h1"
    using copies [OF Cons.prems(1) ts(2) _ w] Cons.prems(3) ts(1) by simp
  then have g1: "grows h h1" by (simp add: separate_copy_def)
  have c2: "separate_copies h1 ws ts1 h2"
    using Cons.IH [OF grows_ok [OF g1] grows_denotes(2) [OF Cons.prems(1) g1 ts(3)] _ ws]
      Cons.prems(3) ts(1) by simp
  show ?case unfolding res ts(1) by (rule separate_copies_Cons [OF c1 c2])
qed

lemma copies_variable:
  assumes "heap_ok h" and "denotes h v t F" and "fits t"
    and "run_state (newVariable copy v) h = (out, h')"
  shows "separate_copy h (Pointer (Some out)) (Ref t) h'"
proof -
  obtain out' h1 where new: "run_state (allocate (Pointee (Struct []))) h = (out', h1)"
    by (cases "run_state (allocate (Pointee (Struct []))) h")
  obtain v' h2 where cp: "run_state (copy v) h1 = (v', h2)" by (cases "run_state (copy v) h1")
  obtain u h3 where fill: "run_state (storeCell out' (Pointee v')) h2 = (u, h3)"
    by (cases "run_state (storeCell out' (Pointee v')) h2")
  have res: "out = out'" "h' = h3" using assms(4) new cp fill by (simp_all add: newVariable_def)
  note a = grows_allocate [OF assms(1) new]
  have "separate_copies h1 [v'] [t] h2"
    using copies [OF grows_ok [OF a(1)] grows_denotes(1) [OF assms(1) a(1) assms(2)] assms(3) cp]
    by (simp add: separate_copies_one)
  note c = filled_cell [OF assms(1) new this fill]
  then show ?thesis
    unfolding res separate_copy_def
    by (auto elim!: denotes_all_ConsE denotes_all_NilE intro: pointer)
qed

end

section \<open>Copiers from copiers\<close>

text \<open>The shapes of Go's types, as sets of trees.\<close>

fun pointerFree :: "'p tree \<Rightarrow> bool" where
  "pointerFree (Leaf x) = True"
| "pointerFree (Fields ts) = list_all pointerFree ts"
| "pointerFree _ = False"

fun pointerTo :: "('p tree \<Rightarrow> bool) \<Rightarrow> 'p tree \<Rightarrow> bool" where
  "pointerTo P NilRef = True"
| "pointerTo P (Ref t) = P t"
| "pointerTo P _ = False"

fun sliceOf :: "('p tree \<Rightarrow> bool) \<Rightarrow> 'p tree \<Rightarrow> bool" where
  "sliceOf P NilRef = True"
| "sliceOf P (Seq ts) = list_all P ts"
| "sliceOf P _ = False"

fun mapTo :: "('p tree \<Rightarrow> bool) \<Rightarrow> 'p tree \<Rightarrow> bool" where
  "mapTo P NilRef = True"
| "mapTo P (Dict kts) = list_all (\<lambda>(k, t). P t) kts"
| "mapTo P _ = False"

fun structOf :: "('p tree \<Rightarrow> bool) list \<Rightarrow> 'p tree \<Rightarrow> bool" where
  "structOf Ps (Fields ts) = list_all2 (\<lambda>P t. P t) Ps ts"
| "structOf Ps _ = False"

text \<open>What holds no pointer denotes the same in every heap, so assigning it copies it.\<close>

lemma pointerFree_denotes:
  "denotes h v t F \<Longrightarrow> pointerFree t \<Longrightarrow> F = {} \<and> denotes h' v t {}"
  "denotes_all h vs ts F \<Longrightarrow> list_all pointerFree ts \<Longrightarrow> F = {} \<and> denotes_all h' vs ts {}"
proof (induction rule: denotes_denotes_all.inducts)
  case (more_values v t F vs ts G)
  then have "denotes_all h' (v # vs) (t # ts) ({} \<union> {})"
    by (intro denotes_denotes_all.more_values) simp_all
  with more_values show ?case by simp
qed (auto intro: denotes_denotes_all.intros)

interpretation assigned: deep_copier pointerFree assigned
proof
  fix h :: "'p heap" and v t F v' h'
  assume "heap_ok h" "denotes h v t F" "pointerFree t" "run_state (assigned v) h = (v', h')"
  then show "separate_copy h v' t h'"
    using pointerFree_denotes(1) [of h v t F h] by (auto simp: assigned_def separate_copy_def grows_refl)
qed

lemma separate_copy_nil:
  "heap_ok h \<Longrightarrow> denotes h v NilRef F \<Longrightarrow> run_state (assigned v) h = (v', h') \<Longrightarrow>
   separate_copy h v' NilRef h'"
  by (auto simp: assigned_def separate_copy_def grows_refl elim!: denotes_NilE
      intro: denotes_denotes_all.intros)

lemma deep_copier_pointer:
  fixes P :: "'p tree \<Rightarrow> bool"
  assumes "deep_copier P f"
  shows "deep_copier (pointerTo P) (copyPointer f)"
proof
  fix h :: "'p heap" and v t F v' h'
  assume ok: "heap_ok h" and d: "denotes h v t F" and fits: "pointerTo P t"
    and run: "run_state (copyPointer f v) h = (v', h')"
  show "separate_copy h v' t h'"
  proof (cases t)
    case NilRef
    with d run have "run_state (assigned v) h = (v', h')"
      by (auto simp: copyPointer_def elim!: denotes_NilE)
    with d NilRef show ?thesis using separate_copy_nil [OF ok] by simp
  next
    case (Ref u)
    with d obtain a w F' where w: "v = Pointer (Some a)" "hp_cells h a = Some (Pointee w)" "denotes h w u F'"
      by (auto elim: denotes_RefE)
    obtain out h1 where o: "run_state (newVariable f w) h = (out, h1)"
      by (cases "run_state (newVariable f w) h")
    with run w have "v' = Pointer (Some out)" "h' = h1"
      by (simp_all add: copyPointer_def run_simps)
    moreover have "P u" using fits Ref by simp
    ultimately show ?thesis
      using deep_copier.copies_variable [OF assms ok w(3) _ o] Ref by simp
  qed (use fits in simp_all)
qed

lemma deep_copier_slice:
  fixes P :: "'p tree \<Rightarrow> bool"
  assumes "deep_copier P f"
  shows "deep_copier (sliceOf P) (copySlice f)"
proof
  fix h :: "'p heap" and v t F v' h'
  assume ok: "heap_ok h" and d: "denotes h v t F" and fits: "sliceOf P t"
    and run: "run_state (copySlice f v) h = (v', h')"
  show "separate_copy h v' t h'"
  proof (cases t)
    case NilRef
    with d run have "run_state (assigned v) h = (v', h')"
      by (auto simp: copySlice_def elim!: denotes_NilE)
    with d NilRef show ?thesis using separate_copy_nil [OF ok] by simp
  next
    case (Seq ts)
    with d obtain a n vs F' where v: "v = Slice (Some (a, n))" "hp_cells h a = Some (Elems vs)"
        "n \<le> length vs" "denotes_all h (take n vs) ts F'"
      by (auto elim: denotes_SeqE)
    obtain out h1 where new: "run_state (allocate (Elems [])) h = (out, h1)"
      by (cases "run_state (allocate (Elems [])) h")
    obtain ws h2 where ws: "run_state (copyElems f (take n vs)) h1 = (ws, h2)"
      by (cases "run_state (copyElems f (take n vs)) h1")
    obtain u h3 where fill: "run_state (storeCell out (Elems ws)) h2 = (u, h3)"
      by (cases "run_state (storeCell out (Elems ws)) h2")
    have res: "v' = Slice (Some (out, n))" "h' = h3"
      using run v(1,2) new ws fill by (simp_all add: copySlice_def run_heap(1))
    note a = grows_allocate [OF ok new]
    have "separate_copies h1 ws ts h2"
      using deep_copier.copies_elems [OF assms grows_ok [OF a(1)] grows_denotes(2) [OF ok a(1) v(4)] _ ws]
        fits Seq by simp
    note c = filled_cell [OF ok new this fill]
    then obtain G where G: "denotes_all h3 ws ts G" "insert out G \<subseteq> new_addresses h h3" by blast
    moreover from this have "length ws = n"
      using denotes_all_length v(3,4) by (metis length_take min.absorb2)
    ultimately have "denotes h3 (Slice (Some (out, n))) (Seq ts) (insert out G)"
      by (intro slice [OF c(2)]) simp_all
    with c(1) G(2) show ?thesis unfolding res Seq separate_copy_def by blast
  qed (use fits in simp_all)
qed

lemma deep_copier_deref:
  fixes P :: "'p tree \<Rightarrow> bool"
  assumes "deep_copier P f"
  shows "deep_copier P (derefCopy f)"
proof
  fix h :: "'p heap" and v t F v' h'
  assume ok: "heap_ok h" and d: "denotes h v t F" and fits: "P t"
    and run: "run_state (derefCopy f v) h = (v', h')"
  obtain out h1 where new: "run_state (allocate (Pointee (Struct []))) h = (out, h1)"
    by (cases "run_state (allocate (Pointee (Struct []))) h")
  obtain w h2 where cp: "run_state (f v) h1 = (w, h2)" by (cases "run_state (f v) h1")
  obtain u h3 where fill: "run_state (storeCell out (Pointee w)) h2 = (u, h3)"
    by (cases "run_state (storeCell out (Pointee w)) h2")
  have res: "v' = w" "h' = h3" using run new cp fill by (simp_all add: derefCopy_def)
  note a = grows_allocate [OF ok new]
  have "separate_copies h1 [w] [t] h2"
    using deep_copier.copies [OF assms grows_ok [OF a(1)] grows_denotes(1) [OF ok a(1) d] fits cp]
    by (simp add: separate_copies_one)
  note c = filled_cell [OF ok new this fill]
  then show "separate_copy h v' t h'"
    unfolding res separate_copies_one separate_copies_def by blast
qed

lemma deep_copier_map:
  fixes P :: "'p tree \<Rightarrow> bool"
  assumes "deep_copier P f"
  shows "deep_copier (mapTo P) (copyMap f)"
proof
  fix h :: "'p heap" and v t F v' h'
  assume ok: "heap_ok h" and d: "denotes h v t F" and fits: "mapTo P t"
    and run: "run_state (copyMap f v) h = (v', h')"
  show "separate_copy h v' t h'"
  proof (cases t)
    case NilRef
    with d run have "run_state (assigned v) h = (v', h')"
      by (auto simp: copyMap_def elim!: denotes_NilE)
    with d NilRef show ?thesis using separate_copy_nil [OF ok] by simp
  next
    case (Dict kts)
    with d obtain a kvs ts F' where v: "v = MapRef (Some a)" "hp_cells h a = Some (Entries kvs)"
        "denotes_all h (map snd kvs) ts F'" "kts = zip (map fst kvs) ts"
      by (auto elim: denotes_DictE)
    have len: "length kvs = length ts" using denotes_all_length [OF v(3)] by simp
    have "list_all P ts"
      using fits Dict len unfolding v(4) by (force simp: list_all_iff in_set_zip in_set_conv_nth)
    obtain out h1 where new: "run_state (allocate (Entries [])) h = (out, h1)"
      by (cases "run_state (allocate (Entries [])) h")
    obtain ws h2 where ws: "run_state (copyElems (derefCopy f) (map snd kvs)) h1 = (ws, h2)"
      by (cases "run_state (copyElems (derefCopy f) (map snd kvs)) h1")
    obtain u h3 where fill: "run_state (storeCell out (Entries (zip (map fst kvs) ws))) h2 = (u, h3)"
      by (cases "run_state (storeCell out (Entries (zip (map fst kvs) ws))) h2")
    have res: "v' = MapRef (Some out)" "h' = h3"
      using run v(1,2) new ws fill by (simp_all add: copyMap_def run_heap(1))
    note a = grows_allocate [OF ok new]
    have "separate_copies h1 ws ts h2"
      using deep_copier.copies_elems [OF deep_copier_deref [OF assms] grows_ok [OF a(1)]
          grows_denotes(2) [OF ok a(1) v(3)] \<open>list_all P ts\<close> ws] .
    note c = filled_cell [OF ok new this fill]
    then obtain G where G: "denotes_all h3 ws ts G" "insert out G \<subseteq> new_addresses h h3" by blast
    then have "length ws = length kvs" using denotes_all_length len by metis
    then have "denotes h3 (MapRef (Some out)) (Dict (zip (map fst (zip (map fst kvs) ws)) ts)) (insert out G)"
      using c(2) G(1) by (intro entries) simp_all
    with c(1) G(2) \<open>length ws = length kvs\<close> show ?thesis
      unfolding res Dict v(4) separate_copy_def by auto
  qed (use fits in simp_all)
qed

text \<open>A struct is copied deeply if each of its fields is, in the order of the declaration.\<close>

lemma copies_fields:
  "list_all2 deep_copier Ps fs \<Longrightarrow> heap_ok h \<Longrightarrow> denotes_all h vs ts F \<Longrightarrow> list_all2 (\<lambda>P t. P t) Ps ts \<Longrightarrow>
   run_state (copyFields fs vs) h = (vs', h') \<Longrightarrow> separate_copies h vs' ts h'"
proof (induction fs vs arbitrary: Ps ts h F vs' h' rule: copyFields.induct)
  case (1 f fs v vs)
  then obtain P Ps1 t ts1 F1 F2 where c: "Ps = P # Ps1" "ts = t # ts1" "deep_copier P f" "P t"
      "list_all2 deep_copier Ps1 fs" "list_all2 (\<lambda>P t. P t) Ps1 ts1"
      "denotes h v t F1" "denotes_all h vs ts1 F2"
    by (auto simp: list_all2_Cons2 elim!: denotes_all_vConsE)
  obtain w h1 where w: "run_state (f v) h = (w, h1)" by (cases "run_state (f v) h")
  obtain ws h2 where ws: "run_state (copyFields fs vs) h1 = (ws, h2)"
    by (cases "run_state (copyFields fs vs) h1")
  have res: "vs' = w # ws" "h' = h2" using "1.prems"(5) w ws by simp_all
  have c1: "separate_copy h w t h1" by (rule deep_copier.copies [OF c(3) "1.prems"(2) c(7,4) w])
  then have g1: "grows h h1" by (simp add: separate_copy_def)
  have c2: "separate_copies h1 ws ts1 h2"
    by (rule "1.IH" [OF c(5) grows_ok [OF g1] grows_denotes(2) [OF "1.prems"(2) g1 c(8)] c(6) ws])
  show ?case unfolding res c(2) by (rule separate_copies_Cons [OF c1 c2])
qed (auto simp: separate_copies_def grows_refl elim!: denotes_all_vNilE denotes_all_NilE intro: no_values)

lemma deep_copier_struct:
  fixes Ps :: "('p tree \<Rightarrow> bool) list"
  assumes "list_all2 deep_copier Ps fs"
  shows "deep_copier (structOf Ps) (copyStruct fs)"
proof
  fix h :: "'p heap" and v t F v' h'
  assume ok: "heap_ok h" and d: "denotes h v t F" and fits: "structOf Ps t"
    and run: "run_state (copyStruct fs v) h = (v', h')"
  obtain ts where ts: "t = Fields ts" "list_all2 (\<lambda>P t. P t) Ps ts" using fits by (cases t) auto
  with d obtain vs where vs: "v = Struct vs" "denotes_all h vs ts F" by (auto elim: denotes_FieldsE)
  obtain ws h1 where ws: "run_state (copyFields fs vs) h = (ws, h1)"
    by (cases "run_state (copyFields fs vs) h")
  have "v' = Struct ws" "h' = h1" using run vs(1) ws by (simp_all add: copyStruct_def)
  with copies_fields [OF assms ok vs(2) ts(2) ws] ts(1) show "separate_copy h v' t h'"
    by (auto simp: separate_copies_def separate_copy_def intro: struct)
qed

lemmas deep_copiers = assigned.deep_copier_axioms deep_copier_pointer deep_copier_slice deep_copier_map
  deep_copier_struct

end
