(* ===== verification/ApiDeepCopy.thy ===== *)
theory ApiDeepCopy
  imports DeepCopy
begin

text \<open>
  The deep copies of the controller's API types,
  \<^verbatim>\<open>controller/pkg/apis/consensus/v1beta1/zz_generated.deepcopy.go\<close>, and the types they copy,
  from \<^verbatim>\<open>cluster.go\<close>, \<^verbatim>\<open>config.go\<close>, \<^verbatim>\<open>group.go\<close>, \<^verbatim>\<open>member.go\<close> and \<^verbatim>\<open>store.go\<close> beside it: one
  shape and one copier per struct, a field of the shape and of the copier per field of the
  struct. What a client gets from the cache is shared with every other reader of the cache, and
  \<^verbatim>\<open>DeepCopy\<close> is what makes it safe to change; the property of this theory says so for every
  type. The Kubernetes types a field holds and their copies are parameters.
\<close>

section \<open>Types of Kubernetes\<close>

record 'p apiTypes =
  at_ObjectMeta :: "'p tree \<Rightarrow> bool"
  at_ListMeta :: "'p tree \<Rightarrow> bool"
  at_SecurityContext :: "'p tree \<Rightarrow> bool"
  at_PersistentVolumeClaim :: "'p tree \<Rightarrow> bool"
  at_Quantity :: "'p tree \<Rightarrow> bool"
  at_Time :: "'p tree \<Rightarrow> bool"

record 'p apiCopiers =
  ac_ObjectMeta :: "'p copier"
  ac_ListMeta :: "'p copier"
  ac_SecurityContext :: "'p copier"
  ac_PersistentVolumeClaim :: "'p copier"
  ac_Quantity :: "'p copier"
  ac_Time :: "'p copier"

text \<open>Their \<^verbatim>\<open>DeepCopyInto\<close> methods are documented to copy deeply.\<close>

definition library_copies :: "'p apiTypes \<Rightarrow> 'p apiCopiers \<Rightarrow> bool" where
  "library_copies T C \<longleftrightarrow>
     deep_copier (at_ObjectMeta T) (ac_ObjectMeta C) \<and>
     deep_copier (at_ListMeta T) (ac_ListMeta C) \<and>
     deep_copier (at_SecurityContext T) (ac_SecurityContext C) \<and>
     deep_copier (at_PersistentVolumeClaim T) (ac_PersistentVolumeClaim C) \<and>
     deep_copier (at_Quantity T) (ac_Quantity C) \<and>
     deep_copier (at_Time T) (ac_Time C)"

lemma library_copier:
  assumes "library_copies T C"
  shows "deep_copier (at_ObjectMeta T) (ac_ObjectMeta C)"
    and "deep_copier (at_ListMeta T) (ac_ListMeta C)"
    and "deep_copier (at_SecurityContext T) (ac_SecurityContext C)"
    and "deep_copier (at_PersistentVolumeClaim T) (ac_PersistentVolumeClaim C)"
    and "deep_copier (at_Quantity T) (ac_Quantity C)"
    and "deep_copier (at_Time T) (ac_Time C)"
  using assms by (simp_all add: library_copies_def)

section \<open>Types\<close>

definition MultiRaftServerConfig_type :: "'p apiTypes \<Rightarrow> 'p tree \<Rightarrow> bool" where
  "MultiRaftServerConfig_type T = structOf
    [pointerTo pointerFree, pointerTo pointerFree, pointerTo (at_Quantity T),
     pointerTo (at_Quantity T), pointerTo pointerFree, pointerTo pointerFree]"

definition RaftConfig_type :: "'p tree \<Rightarrow> bool" where
  "RaftConfig_type = structOf
    [pointerTo pointerFree, pointerTo pointerFree, pointerTo pointerFree,
     pointerTo pointerFree, pointerTo pointerFree, pointerTo pointerFree]"

definition OutputConfig_type :: "'p tree \<Rightarrow> bool" where
  "OutputConfig_type = structOf
    [pointerTo pointerFree, pointerTo pointerFree]"

definition LoggerConfig_type :: "'p tree \<Rightarrow> bool" where
  "LoggerConfig_type = structOf
    [pointerTo pointerFree, mapTo OutputConfig_type]"

definition StdoutSinkConfig_type :: "'p tree \<Rightarrow> bool" where
  "StdoutSinkConfig_type = structOf []"

definition StderrSinkConfig_type :: "'p tree \<Rightarrow> bool" where
  "StderrSinkConfig_type = structOf []"

definition FileSinkConfig_type :: "'p tree \<Rightarrow> bool" where
  "FileSinkConfig_type = structOf
    [pointerFree]"

definition SinkConfig_type :: "'p tree \<Rightarrow> bool" where
  "SinkConfig_type = structOf
    [pointerTo pointerFree, pointerTo StdoutSinkConfig_type,
     pointerTo StderrSinkConfig_type, pointerTo FileSinkConfig_type]"

definition LoggingConfig_type :: "'p tree \<Rightarrow> bool" where
  "LoggingConfig_type = structOf
    [mapTo LoggerConfig_type, mapTo SinkConfig_type]"

definition MultiRaftClusterConfig_type :: "'p apiTypes \<Rightarrow> 'p tree \<Rightarrow> bool" where
  "MultiRaftClusterConfig_type T = structOf
    [MultiRaftServerConfig_type T, RaftConfig_type, LoggingConfig_type]"

definition MultiRaftClusterSpec_type :: "'p apiTypes \<Rightarrow> 'p tree \<Rightarrow> bool" where
  "MultiRaftClusterSpec_type T = structOf
    [pointerFree, pointerFree, pointerFree, pointerFree, sliceOf pointerFree,
     pointerTo (at_SecurityContext T), pointerTo (at_PersistentVolumeClaim T),
     MultiRaftClusterConfig_type T]"

definition ConsensusStoreSpec_type :: "'p apiTypes \<Rightarrow> 'p tree \<Rightarrow> bool" where
  "ConsensusStoreSpec_type T = structOf
    [MultiRaftClusterSpec_type T]"

definition ConsensusStoreStatus_type :: "'p tree \<Rightarrow> bool" where
  "ConsensusStoreStatus_type = structOf
    [pointerFree]"

definition ConsensusStore_type :: "'p apiTypes \<Rightarrow> 'p tree \<Rightarrow> bool" where
  "ConsensusStore_type T = structOf
    [pointerFree, at_ObjectMeta T, ConsensusStoreSpec_type T, ConsensusStoreStatus_type]"

definition ConsensusStoreList_type :: "'p apiTypes \<Rightarrow> 'p tree \<Rightarrow> bool" where
  "ConsensusStoreList_type T = structOf
    [pointerFree, at_ListMeta T, sliceOf (ConsensusStore_type T)]"

definition RaftPartitionStatus_type :: "'p tree \<Rightarrow> bool" where
  "RaftPartitionStatus_type = structOf
    [pointerFree, pointerTo pointerFree, sliceOf pointerFree]"

definition MultiRaftClusterStatus_type :: "'p tree \<Rightarrow> bool" where
  "MultiRaftClusterStatus_type = structOf
    [pointerFree, sliceOf RaftPartitionStatus_type]"

definition MultiRaftCluster_type :: "'p apiTypes \<Rightarrow> 'p tree \<Rightarrow> bool" where
  "MultiRaftCluster_type T = structOf
    [pointerFree, at_ObjectMeta T, MultiRaftClusterSpec_type T,
     MultiRaftClusterStatus_type]"

definition MultiRaftClusterList_type :: "'p apiTypes \<Rightarrow> 'p tree \<Rightarrow> bool" where
  "MultiRaftClusterList_type T = structOf
    [pointerFree, at_ListMeta T, sliceOf (MultiRaftCluster_type T)]"

definition RaftGroupSpec_type :: "'p tree \<Rightarrow> bool" where
  "RaftGroupSpec_type = structOf
    [RaftConfig_type]"

definition RaftGroupStatus_type :: "'p tree \<Rightarrow> bool" where
  "RaftGroupStatus_type = structOf
    [pointerFree, pointerTo pointerFree, pointerTo pointerFree, sliceOf pointerFree]"

definition RaftGroup_type :: "'p apiTypes \<Rightarrow> 'p tree \<Rightarrow> bool" where
  "RaftGroup_type T = structOf
    [pointerFree, at_ObjectMeta T, RaftGroupSpec_type, RaftGroupStatus_type]"

definition RaftGroupList_type :: "'p apiTypes \<Rightarrow> 'p tree \<Rightarrow> bool" where
  "RaftGroupList_type T = structOf
    [pointerFree, at_ListMeta T, sliceOf (RaftGroup_type T)]"

definition RaftMemberSpec_type :: "'p tree \<Rightarrow> bool" where
  "RaftMemberSpec_type = structOf
    [pointerFree, pointerFree]"

definition RaftMemberStatus_type :: "'p apiTypes \<Rightarrow> 'p tree \<Rightarrow> bool" where
  "RaftMemberStatus_type T = structOf
    [pointerTo pointerFree, pointerTo pointerFree, pointerFree, pointerTo pointerFree,
     pointerTo pointerFree, pointerTo pointerFree, pointerTo (at_Time T),
     pointerTo pointerFree, pointerTo (at_Time T)]"

definition RaftMember_type :: "'p apiTypes \<Rightarrow> 'p tree \<Rightarrow> bool" where
  "RaftMember_type T = structOf
    [pointerFree, at_ObjectMeta T, RaftMemberSpec_type, RaftMemberStatus_type T]"

definition RaftMemberList_type :: "'p apiTypes \<Rightarrow> 'p tree \<Rightarrow> bool" where
  "RaftMemberList_type T = structOf
    [pointerFree, at_ListMeta T, sliceOf (RaftMember_type T)]"

section \<open>Copies\<close>

definition MultiRaftServerConfig_DeepCopyInto :: "'p apiCopiers \<Rightarrow> 'p copier" where
  "MultiRaftServerConfig_DeepCopyInto C = copyStruct
    [copyPointer assigned, copyPointer assigned, copyPointer (ac_Quantity C),
     copyPointer (ac_Quantity C), copyPointer assigned, copyPointer assigned]"

definition RaftConfig_DeepCopyInto :: "'p copier" where
  "RaftConfig_DeepCopyInto = copyStruct
    [copyPointer assigned, copyPointer assigned, copyPointer assigned,
     copyPointer assigned, copyPointer assigned, copyPointer assigned]"

definition OutputConfig_DeepCopyInto :: "'p copier" where
  "OutputConfig_DeepCopyInto = copyStruct
    [copyPointer assigned, copyPointer assigned]"

definition LoggerConfig_DeepCopyInto :: "'p copier" where
  "LoggerConfig_DeepCopyInto = copyStruct
    [copyPointer assigned, copyMap OutputConfig_DeepCopyInto]"

definition StdoutSinkConfig_DeepCopyInto :: "'p copier" where
  "StdoutSinkConfig_DeepCopyInto = copyStruct []"

definition StderrSinkConfig_DeepCopyInto :: "'p copier" where
  "StderrSinkConfig_DeepCopyInto = copyStruct []"

definition FileSinkConfig_DeepCopyInto :: "'p copier" where
  "FileSinkConfig_DeepCopyInto = copyStruct
    [assigned]"

definition SinkConfig_DeepCopyInto :: "'p copier" where
  "SinkConfig_DeepCopyInto = copyStruct
    [copyPointer assigned, copyPointer assigned, copyPointer assigned,
     copyPointer assigned]"

definition LoggingConfig_DeepCopyInto :: "'p copier" where
  "LoggingConfig_DeepCopyInto = copyStruct
    [copyMap LoggerConfig_DeepCopyInto, copyMap SinkConfig_DeepCopyInto]"

definition MultiRaftClusterConfig_DeepCopyInto :: "'p apiCopiers \<Rightarrow> 'p copier" where
  "MultiRaftClusterConfig_DeepCopyInto C = copyStruct
    [MultiRaftServerConfig_DeepCopyInto C, RaftConfig_DeepCopyInto,
     LoggingConfig_DeepCopyInto]"

definition MultiRaftClusterSpec_DeepCopyInto :: "'p apiCopiers \<Rightarrow> 'p copier" where
  "MultiRaftClusterSpec_DeepCopyInto C = copyStruct
    [assigned, assigned, assigned, assigned, copySlice assigned,
     copyPointer (ac_SecurityContext C), copyPointer (ac_PersistentVolumeClaim C),
     MultiRaftClusterConfig_DeepCopyInto C]"

definition ConsensusStoreSpec_DeepCopyInto :: "'p apiCopiers \<Rightarrow> 'p copier" where
  "ConsensusStoreSpec_DeepCopyInto C = copyStruct
    [MultiRaftClusterSpec_DeepCopyInto C]"

definition ConsensusStoreStatus_DeepCopyInto :: "'p copier" where
  "ConsensusStoreStatus_DeepCopyInto = copyStruct
    [assigned]"

definition ConsensusStore_DeepCopyInto :: "'p apiCopiers \<Rightarrow> 'p copier" where
  "ConsensusStore_DeepCopyInto C = copyStruct
    [assigned, ac_ObjectMeta C, ConsensusStoreSpec_DeepCopyInto C, assigned]"

definition ConsensusStoreList_DeepCopyInto :: "'p apiCopiers \<Rightarrow> 'p copier" where
  "ConsensusStoreList_DeepCopyInto C = copyStruct
    [assigned, ac_ListMeta C, copySlice (ConsensusStore_DeepCopyInto C)]"

definition RaftPartitionStatus_DeepCopyInto :: "'p copier" where
  "RaftPartitionStatus_DeepCopyInto = copyStruct
    [assigned, copyPointer assigned, copySlice assigned]"

definition MultiRaftClusterStatus_DeepCopyInto :: "'p copier" where
  "MultiRaftClusterStatus_DeepCopyInto = copyStruct
    [assigned, copySlice RaftPartitionStatus_DeepCopyInto]"

definition MultiRaftCluster_DeepCopyInto :: "'p apiCopiers \<Rightarrow> 'p copier" where
  "MultiRaftCluster_DeepCopyInto C = copyStruct
    [assigned, ac_ObjectMeta C, MultiRaftClusterSpec_DeepCopyInto C,
     MultiRaftClusterStatus_DeepCopyInto]"

definition MultiRaftClusterList_DeepCopyInto :: "'p apiCopiers \<Rightarrow> 'p copier" where
  "MultiRaftClusterList_DeepCopyInto C = copyStruct
    [assigned, ac_ListMeta C, copySlice (MultiRaftCluster_DeepCopyInto C)]"

definition RaftGroupSpec_DeepCopyInto :: "'p copier" where
  "RaftGroupSpec_DeepCopyInto = copyStruct
    [RaftConfig_DeepCopyInto]"

definition RaftGroupStatus_DeepCopyInto :: "'p copier" where
  "RaftGroupStatus_DeepCopyInto = copyStruct
    [assigned, copyPointer assigned, copyPointer assigned, copySlice assigned]"

definition RaftGroup_DeepCopyInto :: "'p apiCopiers \<Rightarrow> 'p copier" where
  "RaftGroup_DeepCopyInto C = copyStruct
    [assigned, ac_ObjectMeta C, RaftGroupSpec_DeepCopyInto, RaftGroupStatus_DeepCopyInto]"

definition RaftGroupList_DeepCopyInto :: "'p apiCopiers \<Rightarrow> 'p copier" where
  "RaftGroupList_DeepCopyInto C = copyStruct
    [assigned, ac_ListMeta C, copySlice (RaftGroup_DeepCopyInto C)]"

definition RaftMemberSpec_DeepCopyInto :: "'p copier" where
  "RaftMemberSpec_DeepCopyInto = copyStruct
    [assigned, assigned]"

definition RaftMemberStatus_DeepCopyInto :: "'p apiCopiers \<Rightarrow> 'p copier" where
  "RaftMemberStatus_DeepCopyInto C = copyStruct
    [copyPointer assigned, copyPointer assigned, assigned, copyPointer assigned,
     copyPointer assigned, copyPointer assigned, copyPointer (ac_Time C),
     copyPointer assigned, copyPointer (ac_Time C)]"

definition RaftMember_DeepCopyInto :: "'p apiCopiers \<Rightarrow> 'p copier" where
  "RaftMember_DeepCopyInto C = copyStruct
    [assigned, ac_ObjectMeta C, assigned, RaftMemberStatus_DeepCopyInto C]"

definition RaftMemberList_DeepCopyInto :: "'p apiCopiers \<Rightarrow> 'p copier" where
  "RaftMemberList_DeepCopyInto C = copyStruct
    [assigned, ac_ListMeta C, copySlice (RaftMember_DeepCopyInto C)]"

definition MultiRaftServerConfig_DeepCopy :: "'p apiCopiers \<Rightarrow> nat option \<Rightarrow> ('p heap, nat option) state" where
  "MultiRaftServerConfig_DeepCopy C = DeepCopy (MultiRaftServerConfig_DeepCopyInto C)"

definition RaftConfig_DeepCopy :: "nat option \<Rightarrow> ('p heap, nat option) state" where
  "RaftConfig_DeepCopy = DeepCopy RaftConfig_DeepCopyInto"

definition OutputConfig_DeepCopy :: "nat option \<Rightarrow> ('p heap, nat option) state" where
  "OutputConfig_DeepCopy = DeepCopy OutputConfig_DeepCopyInto"

definition LoggerConfig_DeepCopy :: "nat option \<Rightarrow> ('p heap, nat option) state" where
  "LoggerConfig_DeepCopy = DeepCopy LoggerConfig_DeepCopyInto"

definition StdoutSinkConfig_DeepCopy :: "nat option \<Rightarrow> ('p heap, nat option) state" where
  "StdoutSinkConfig_DeepCopy = DeepCopy StdoutSinkConfig_DeepCopyInto"

definition StderrSinkConfig_DeepCopy :: "nat option \<Rightarrow> ('p heap, nat option) state" where
  "StderrSinkConfig_DeepCopy = DeepCopy StderrSinkConfig_DeepCopyInto"

definition FileSinkConfig_DeepCopy :: "nat option \<Rightarrow> ('p heap, nat option) state" where
  "FileSinkConfig_DeepCopy = DeepCopy FileSinkConfig_DeepCopyInto"

definition SinkConfig_DeepCopy :: "nat option \<Rightarrow> ('p heap, nat option) state" where
  "SinkConfig_DeepCopy = DeepCopy SinkConfig_DeepCopyInto"

definition LoggingConfig_DeepCopy :: "nat option \<Rightarrow> ('p heap, nat option) state" where
  "LoggingConfig_DeepCopy = DeepCopy LoggingConfig_DeepCopyInto"

definition MultiRaftClusterConfig_DeepCopy :: "'p apiCopiers \<Rightarrow> nat option \<Rightarrow> ('p heap, nat option) state" where
  "MultiRaftClusterConfig_DeepCopy C = DeepCopy (MultiRaftClusterConfig_DeepCopyInto C)"

definition MultiRaftClusterSpec_DeepCopy :: "'p apiCopiers \<Rightarrow> nat option \<Rightarrow> ('p heap, nat option) state" where
  "MultiRaftClusterSpec_DeepCopy C = DeepCopy (MultiRaftClusterSpec_DeepCopyInto C)"

definition ConsensusStoreSpec_DeepCopy :: "'p apiCopiers \<Rightarrow> nat option \<Rightarrow> ('p heap, nat option) state" where
  "ConsensusStoreSpec_DeepCopy C = DeepCopy (ConsensusStoreSpec_DeepCopyInto C)"

definition ConsensusStoreStatus_DeepCopy :: "nat option \<Rightarrow> ('p heap, nat option) state" where
  "ConsensusStoreStatus_DeepCopy = DeepCopy ConsensusStoreStatus_DeepCopyInto"

definition ConsensusStore_DeepCopy :: "'p apiCopiers \<Rightarrow> nat option \<Rightarrow> ('p heap, nat option) state" where
  "ConsensusStore_DeepCopy C = DeepCopy (ConsensusStore_DeepCopyInto C)"

definition ConsensusStoreList_DeepCopy :: "'p apiCopiers \<Rightarrow> nat option \<Rightarrow> ('p heap, nat option) state" where
  "ConsensusStoreList_DeepCopy C = DeepCopy (ConsensusStoreList_DeepCopyInto C)"

definition RaftPartitionStatus_DeepCopy :: "nat option \<Rightarrow> ('p heap, nat option) state" where
  "RaftPartitionStatus_DeepCopy = DeepCopy RaftPartitionStatus_DeepCopyInto"

definition MultiRaftClusterStatus_DeepCopy :: "nat option \<Rightarrow> ('p heap, nat option) state" where
  "MultiRaftClusterStatus_DeepCopy = DeepCopy MultiRaftClusterStatus_DeepCopyInto"

definition MultiRaftCluster_DeepCopy :: "'p apiCopiers \<Rightarrow> nat option \<Rightarrow> ('p heap, nat option) state" where
  "MultiRaftCluster_DeepCopy C = DeepCopy (MultiRaftCluster_DeepCopyInto C)"

definition MultiRaftClusterList_DeepCopy :: "'p apiCopiers \<Rightarrow> nat option \<Rightarrow> ('p heap, nat option) state" where
  "MultiRaftClusterList_DeepCopy C = DeepCopy (MultiRaftClusterList_DeepCopyInto C)"

definition RaftGroupSpec_DeepCopy :: "nat option \<Rightarrow> ('p heap, nat option) state" where
  "RaftGroupSpec_DeepCopy = DeepCopy RaftGroupSpec_DeepCopyInto"

definition RaftGroupStatus_DeepCopy :: "nat option \<Rightarrow> ('p heap, nat option) state" where
  "RaftGroupStatus_DeepCopy = DeepCopy RaftGroupStatus_DeepCopyInto"

definition RaftGroup_DeepCopy :: "'p apiCopiers \<Rightarrow> nat option \<Rightarrow> ('p heap, nat option) state" where
  "RaftGroup_DeepCopy C = DeepCopy (RaftGroup_DeepCopyInto C)"

definition RaftGroupList_DeepCopy :: "'p apiCopiers \<Rightarrow> nat option \<Rightarrow> ('p heap, nat option) state" where
  "RaftGroupList_DeepCopy C = DeepCopy (RaftGroupList_DeepCopyInto C)"

definition RaftMemberSpec_DeepCopy :: "nat option \<Rightarrow> ('p heap, nat option) state" where
  "RaftMemberSpec_DeepCopy = DeepCopy RaftMemberSpec_DeepCopyInto"

definition RaftMemberStatus_DeepCopy :: "'p apiCopiers \<Rightarrow> nat option \<Rightarrow> ('p heap, nat option) state" where
  "RaftMemberStatus_DeepCopy C = DeepCopy (RaftMemberStatus_DeepCopyInto C)"

definition RaftMember_DeepCopy :: "'p apiCopiers \<Rightarrow> nat option \<Rightarrow> ('p heap, nat option) state" where
  "RaftMember_DeepCopy C = DeepCopy (RaftMember_DeepCopyInto C)"

definition RaftMemberList_DeepCopy :: "'p apiCopiers \<Rightarrow> nat option \<Rightarrow> ('p heap, nat option) state" where
  "RaftMemberList_DeepCopy C = DeepCopy (RaftMemberList_DeepCopyInto C)"

definition ConsensusStore_DeepCopyObject :: "'p apiCopiers \<Rightarrow> nat option \<Rightarrow> ('p heap, nat option) state" where
  "ConsensusStore_DeepCopyObject C = DeepCopyObject (ConsensusStore_DeepCopyInto C)"

definition ConsensusStoreList_DeepCopyObject :: "'p apiCopiers \<Rightarrow> nat option \<Rightarrow> ('p heap, nat option) state" where
  "ConsensusStoreList_DeepCopyObject C = DeepCopyObject (ConsensusStoreList_DeepCopyInto C)"

definition MultiRaftCluster_DeepCopyObject :: "'p apiCopiers \<Rightarrow> nat option \<Rightarrow> ('p heap, nat option) state" where
  "MultiRaftCluster_DeepCopyObject C = DeepCopyObject (MultiRaftCluster_DeepCopyInto C)"

definition MultiRaftClusterList_DeepCopyObject :: "'p apiCopiers \<Rightarrow> nat option \<Rightarrow> ('p heap, nat option) state" where
  "MultiRaftClusterList_DeepCopyObject C = DeepCopyObject (MultiRaftClusterList_DeepCopyInto C)"

definition RaftGroup_DeepCopyObject :: "'p apiCopiers \<Rightarrow> nat option \<Rightarrow> ('p heap, nat option) state" where
  "RaftGroup_DeepCopyObject C = DeepCopyObject (RaftGroup_DeepCopyInto C)"

definition RaftGroupList_DeepCopyObject :: "'p apiCopiers \<Rightarrow> nat option \<Rightarrow> ('p heap, nat option) state" where
  "RaftGroupList_DeepCopyObject C = DeepCopyObject (RaftGroupList_DeepCopyInto C)"

definition RaftMember_DeepCopyObject :: "'p apiCopiers \<Rightarrow> nat option \<Rightarrow> ('p heap, nat option) state" where
  "RaftMember_DeepCopyObject C = DeepCopyObject (RaftMember_DeepCopyInto C)"

definition RaftMemberList_DeepCopyObject :: "'p apiCopiers \<Rightarrow> nat option \<Rightarrow> ('p heap, nat option) state" where
  "RaftMemberList_DeepCopyObject C = DeepCopyObject (RaftMemberList_DeepCopyInto C)"

section \<open>Every copy is deep\<close>

text \<open>A struct that holds no pointer may be assigned, whatever its fields are.\<close>

lemma deep_copier_mono:
  fixes P :: "'p tree \<Rightarrow> bool"
  assumes "deep_copier P f" and "\<And>t. Q t \<Longrightarrow> P t"
  shows "deep_copier Q f"
  using assms by (auto simp: deep_copier_def)

lemma pointerFree_struct: "structOf (replicate n pointerFree) t \<Longrightarrow> pointerFree t"
  by (cases t) (auto simp: list_all2_conv_all_nth list_all_length)

lemma pointerFree_types:
  "StdoutSinkConfig_type t \<Longrightarrow> pointerFree t"
  "StderrSinkConfig_type t \<Longrightarrow> pointerFree t"
  "FileSinkConfig_type t \<Longrightarrow> pointerFree t"
  "ConsensusStoreStatus_type t \<Longrightarrow> pointerFree t"
  "RaftMemberSpec_type t \<Longrightarrow> pointerFree t"
  using pointerFree_struct [of 0 t] pointerFree_struct [of 1 t] pointerFree_struct [of 2 t]
  by (simp_all add: StdoutSinkConfig_type_def StderrSinkConfig_type_def FileSinkConfig_type_def
      ConsensusStoreStatus_type_def RaftMemberSpec_type_def numeral_2_eq_2)

lemmas assigned_types = pointerFree_types [THEN deep_copier_mono [OF assigned.deep_copier_axioms]]

interpretation raftConfig: deep_copier RaftConfig_type RaftConfig_DeepCopyInto
  unfolding RaftConfig_type_def RaftConfig_DeepCopyInto_def
  by (intro deep_copiers assigned_types list.rel_intros)

interpretation outputConfig: deep_copier OutputConfig_type OutputConfig_DeepCopyInto
  unfolding OutputConfig_type_def OutputConfig_DeepCopyInto_def
  by (intro deep_copiers assigned_types list.rel_intros raftConfig.deep_copier_axioms)

interpretation loggerConfig: deep_copier LoggerConfig_type LoggerConfig_DeepCopyInto
  unfolding LoggerConfig_type_def LoggerConfig_DeepCopyInto_def
  by (intro deep_copiers assigned_types list.rel_intros raftConfig.deep_copier_axioms outputConfig.deep_copier_axioms)

interpretation stdoutSinkConfig: deep_copier StdoutSinkConfig_type StdoutSinkConfig_DeepCopyInto
  unfolding StdoutSinkConfig_type_def StdoutSinkConfig_DeepCopyInto_def
  by (intro deep_copiers assigned_types list.rel_intros raftConfig.deep_copier_axioms outputConfig.deep_copier_axioms loggerConfig.deep_copier_axioms)

interpretation stderrSinkConfig: deep_copier StderrSinkConfig_type StderrSinkConfig_DeepCopyInto
  unfolding StderrSinkConfig_type_def StderrSinkConfig_DeepCopyInto_def
  by (intro deep_copiers assigned_types list.rel_intros raftConfig.deep_copier_axioms outputConfig.deep_copier_axioms loggerConfig.deep_copier_axioms stdoutSinkConfig.deep_copier_axioms)

interpretation fileSinkConfig: deep_copier FileSinkConfig_type FileSinkConfig_DeepCopyInto
  unfolding FileSinkConfig_type_def FileSinkConfig_DeepCopyInto_def
  by (intro deep_copiers assigned_types list.rel_intros raftConfig.deep_copier_axioms outputConfig.deep_copier_axioms loggerConfig.deep_copier_axioms stdoutSinkConfig.deep_copier_axioms stderrSinkConfig.deep_copier_axioms)

interpretation sinkConfig: deep_copier SinkConfig_type SinkConfig_DeepCopyInto
  unfolding SinkConfig_type_def SinkConfig_DeepCopyInto_def
  by (intro deep_copiers assigned_types list.rel_intros raftConfig.deep_copier_axioms outputConfig.deep_copier_axioms loggerConfig.deep_copier_axioms stdoutSinkConfig.deep_copier_axioms stderrSinkConfig.deep_copier_axioms fileSinkConfig.deep_copier_axioms)

interpretation loggingConfig: deep_copier LoggingConfig_type LoggingConfig_DeepCopyInto
  unfolding LoggingConfig_type_def LoggingConfig_DeepCopyInto_def
  by (intro deep_copiers assigned_types list.rel_intros raftConfig.deep_copier_axioms outputConfig.deep_copier_axioms loggerConfig.deep_copier_axioms stdoutSinkConfig.deep_copier_axioms stderrSinkConfig.deep_copier_axioms fileSinkConfig.deep_copier_axioms sinkConfig.deep_copier_axioms)

interpretation consensusStoreStatus: deep_copier ConsensusStoreStatus_type ConsensusStoreStatus_DeepCopyInto
  unfolding ConsensusStoreStatus_type_def ConsensusStoreStatus_DeepCopyInto_def
  by (intro deep_copiers assigned_types list.rel_intros raftConfig.deep_copier_axioms outputConfig.deep_copier_axioms loggerConfig.deep_copier_axioms stdoutSinkConfig.deep_copier_axioms stderrSinkConfig.deep_copier_axioms fileSinkConfig.deep_copier_axioms sinkConfig.deep_copier_axioms loggingConfig.deep_copier_axioms)

interpretation raftPartitionStatus: deep_copier RaftPartitionStatus_type RaftPartitionStatus_DeepCopyInto
  unfolding RaftPartitionStatus_type_def RaftPartitionStatus_DeepCopyInto_def
  by (intro deep_copiers assigned_types list.rel_intros raftConfig.deep_copier_axioms outputConfig.deep_copier_axioms loggerConfig.deep_copier_axioms stdoutSinkConfig.deep_copier_axioms stderrSinkConfig.deep_copier_axioms fileSinkConfig.deep_copier_axioms sinkConfig.deep_copier_axioms loggingConfig.deep_copier_axioms consensusStoreStatus.deep_copier_axioms)

interpretation multiRaftClusterStatus: deep_copier MultiRaftClusterStatus_type MultiRaftClusterStatus_DeepCopyInto
  unfolding MultiRaftClusterStatus_type_def MultiRaftClusterStatus_DeepCopyInto_def
  by (intro deep_copiers assigned_types list.rel_intros raftConfig.deep_copier_axioms outputConfig.deep_copier_axioms loggerConfig.deep_copier_axioms stdoutSinkConfig.deep_copier_axioms stderrSinkConfig.deep_copier_axioms fileSinkConfig.deep_copier_axioms sinkConfig.deep_copier_axioms loggingConfig.deep_copier_axioms consensusStoreStatus.deep_copier_axioms raftPartitionStatus.deep_copier_axioms)

interpretation raftGroupSpec: deep_copier RaftGroupSpec_type RaftGroupSpec_DeepCopyInto
  unfolding RaftGroupSpec_type_def RaftGroupSpec_DeepCopyInto_def
  by (intro deep_copiers assigned_types list.rel_intros raftConfig.deep_copier_axioms outputConfig.deep_copier_axioms loggerConfig.deep_copier_axioms stdoutSinkConfig.deep_copier_axioms stderrSinkConfig.deep_copier_axioms fileSinkConfig.deep_copier_axioms sinkConfig.deep_copier_axioms loggingConfig.deep_copier_axioms consensusStoreStatus.deep_copier_axioms raftPartitionStatus.deep_copier_axioms multiRaftClusterStatus.deep_copier_axioms)

interpretation raftGroupStatus: deep_copier RaftGroupStatus_type RaftGroupStatus_DeepCopyInto
  unfolding RaftGroupStatus_type_def RaftGroupStatus_DeepCopyInto_def
  by (intro deep_copiers assigned_types list.rel_intros raftConfig.deep_copier_axioms outputConfig.deep_copier_axioms loggerConfig.deep_copier_axioms stdoutSinkConfig.deep_copier_axioms stderrSinkConfig.deep_copier_axioms fileSinkConfig.deep_copier_axioms sinkConfig.deep_copier_axioms loggingConfig.deep_copier_axioms consensusStoreStatus.deep_copier_axioms raftPartitionStatus.deep_copier_axioms multiRaftClusterStatus.deep_copier_axioms raftGroupSpec.deep_copier_axioms)

interpretation raftMemberSpec: deep_copier RaftMemberSpec_type RaftMemberSpec_DeepCopyInto
  unfolding RaftMemberSpec_type_def RaftMemberSpec_DeepCopyInto_def
  by (intro deep_copiers assigned_types list.rel_intros raftConfig.deep_copier_axioms outputConfig.deep_copier_axioms loggerConfig.deep_copier_axioms stdoutSinkConfig.deep_copier_axioms stderrSinkConfig.deep_copier_axioms fileSinkConfig.deep_copier_axioms sinkConfig.deep_copier_axioms loggingConfig.deep_copier_axioms consensusStoreStatus.deep_copier_axioms raftPartitionStatus.deep_copier_axioms multiRaftClusterStatus.deep_copier_axioms raftGroupSpec.deep_copier_axioms raftGroupStatus.deep_copier_axioms)

lemmas config_copiers = raftConfig.deep_copier_axioms
  outputConfig.deep_copier_axioms
  loggerConfig.deep_copier_axioms
  stdoutSinkConfig.deep_copier_axioms
  stderrSinkConfig.deep_copier_axioms
  fileSinkConfig.deep_copier_axioms
  sinkConfig.deep_copier_axioms
  loggingConfig.deep_copier_axioms
  consensusStoreStatus.deep_copier_axioms
  raftPartitionStatus.deep_copier_axioms
  multiRaftClusterStatus.deep_copier_axioms
  raftGroupSpec.deep_copier_axioms
  raftGroupStatus.deep_copier_axioms
  raftMemberSpec.deep_copier_axioms

lemma MultiRaftServerConfig_copier:
  assumes "library_copies T C"
  shows "deep_copier (MultiRaftServerConfig_type T) (MultiRaftServerConfig_DeepCopyInto C)"
  unfolding MultiRaftServerConfig_type_def MultiRaftServerConfig_DeepCopyInto_def
  by (intro deep_copiers assigned_types config_copiers library_copier [OF assms] list.rel_intros)

lemma MultiRaftClusterConfig_copier:
  assumes "library_copies T C"
  shows "deep_copier (MultiRaftClusterConfig_type T) (MultiRaftClusterConfig_DeepCopyInto C)"
  unfolding MultiRaftClusterConfig_type_def MultiRaftClusterConfig_DeepCopyInto_def
  by (intro deep_copiers assigned_types config_copiers library_copier [OF assms] list.rel_intros
      MultiRaftServerConfig_copier [OF assms])

lemma MultiRaftClusterSpec_copier:
  assumes "library_copies T C"
  shows "deep_copier (MultiRaftClusterSpec_type T) (MultiRaftClusterSpec_DeepCopyInto C)"
  unfolding MultiRaftClusterSpec_type_def MultiRaftClusterSpec_DeepCopyInto_def
  by (intro deep_copiers assigned_types config_copiers library_copier [OF assms] list.rel_intros
      MultiRaftClusterConfig_copier [OF assms])

lemma ConsensusStoreSpec_copier:
  assumes "library_copies T C"
  shows "deep_copier (ConsensusStoreSpec_type T) (ConsensusStoreSpec_DeepCopyInto C)"
  unfolding ConsensusStoreSpec_type_def ConsensusStoreSpec_DeepCopyInto_def
  by (intro deep_copiers assigned_types config_copiers library_copier [OF assms] list.rel_intros
      MultiRaftClusterSpec_copier [OF assms])

lemma ConsensusStore_copier:
  assumes "library_copies T C"
  shows "deep_copier (ConsensusStore_type T) (ConsensusStore_DeepCopyInto C)"
  unfolding ConsensusStore_type_def ConsensusStore_DeepCopyInto_def
  by (intro deep_copiers assigned_types config_copiers library_copier [OF assms] list.rel_intros
      ConsensusStoreSpec_copier [OF assms])

lemma ConsensusStoreList_copier:
  assumes "library_copies T C"
  shows "deep_copier (ConsensusStoreList_type T) (ConsensusStoreList_DeepCopyInto C)"
  unfolding ConsensusStoreList_type_def ConsensusStoreList_DeepCopyInto_def
  by (intro deep_copiers assigned_types config_copiers library_copier [OF assms] list.rel_intros
      ConsensusStore_copier [OF assms])

lemma MultiRaftCluster_copier:
  assumes "library_copies T C"
  shows "deep_copier (MultiRaftCluster_type T) (MultiRaftCluster_DeepCopyInto C)"
  unfolding MultiRaftCluster_type_def MultiRaftCluster_DeepCopyInto_def
  by (intro deep_copiers assigned_types config_copiers library_copier [OF assms] list.rel_intros
      MultiRaftClusterSpec_copier [OF assms])

lemma MultiRaftClusterList_copier:
  assumes "library_copies T C"
  shows "deep_copier (MultiRaftClusterList_type T) (MultiRaftClusterList_DeepCopyInto C)"
  unfolding MultiRaftClusterList_type_def MultiRaftClusterList_DeepCopyInto_def
  by (intro deep_copiers assigned_types config_copiers library_copier [OF assms] list.rel_intros
      MultiRaftCluster_copier [OF assms])

lemma RaftGroup_copier:
  assumes "library_copies T C"
  shows "deep_copier (RaftGroup_type T) (RaftGroup_DeepCopyInto C)"
  unfolding RaftGroup_type_def RaftGroup_DeepCopyInto_def
  by (intro deep_copiers assigned_types config_copiers library_copier [OF assms] list.rel_intros)

lemma RaftGroupList_copier:
  assumes "library_copies T C"
  shows "deep_copier (RaftGroupList_type T) (RaftGroupList_DeepCopyInto C)"
  unfolding RaftGroupList_type_def RaftGroupList_DeepCopyInto_def
  by (intro deep_copiers assigned_types config_copiers library_copier [OF assms] list.rel_intros
      RaftGroup_copier [OF assms])

lemma RaftMemberStatus_copier:
  assumes "library_copies T C"
  shows "deep_copier (RaftMemberStatus_type T) (RaftMemberStatus_DeepCopyInto C)"
  unfolding RaftMemberStatus_type_def RaftMemberStatus_DeepCopyInto_def
  by (intro deep_copiers assigned_types config_copiers library_copier [OF assms] list.rel_intros)

lemma RaftMember_copier:
  assumes "library_copies T C"
  shows "deep_copier (RaftMember_type T) (RaftMember_DeepCopyInto C)"
  unfolding RaftMember_type_def RaftMember_DeepCopyInto_def
  by (intro deep_copiers assigned_types config_copiers library_copier [OF assms] list.rel_intros
      RaftMemberStatus_copier [OF assms])

lemma RaftMemberList_copier:
  assumes "library_copies T C"
  shows "deep_copier (RaftMemberList_type T) (RaftMemberList_DeepCopyInto C)"
  unfolding RaftMemberList_type_def RaftMemberList_DeepCopyInto_def
  by (intro deep_copiers assigned_types config_copiers library_copier [OF assms] list.rel_intros
      RaftMember_copier [OF assms])

lemmas object_copiers = MultiRaftServerConfig_copier
  MultiRaftClusterConfig_copier
  MultiRaftClusterSpec_copier
  ConsensusStoreSpec_copier
  ConsensusStore_copier
  ConsensusStoreList_copier
  MultiRaftCluster_copier
  MultiRaftClusterList_copier
  RaftGroup_copier
  RaftGroupList_copier
  RaftMemberStatus_copier
  RaftMember_copier
  RaftMemberList_copier

section \<open>A copy and its original are independent\<close>

text \<open>Every \<^verbatim>\<open>DeepCopy\<close> with the type of what it copies, and every \<^verbatim>\<open>DeepCopyObject\<close>.\<close>

definition apiCopies ::
  "'p apiTypes \<Rightarrow> 'p apiCopiers \<Rightarrow> (('p tree \<Rightarrow> bool) \<times> (nat option \<Rightarrow> ('p heap, nat option) state)) list"
where
  "apiCopies T C =
    [(MultiRaftServerConfig_type T, MultiRaftServerConfig_DeepCopy C),
     (RaftConfig_type, RaftConfig_DeepCopy),
     (OutputConfig_type, OutputConfig_DeepCopy),
     (LoggerConfig_type, LoggerConfig_DeepCopy),
     (StdoutSinkConfig_type, StdoutSinkConfig_DeepCopy),
     (StderrSinkConfig_type, StderrSinkConfig_DeepCopy),
     (FileSinkConfig_type, FileSinkConfig_DeepCopy),
     (SinkConfig_type, SinkConfig_DeepCopy),
     (LoggingConfig_type, LoggingConfig_DeepCopy),
     (MultiRaftClusterConfig_type T, MultiRaftClusterConfig_DeepCopy C),
     (MultiRaftClusterSpec_type T, MultiRaftClusterSpec_DeepCopy C),
     (ConsensusStoreSpec_type T, ConsensusStoreSpec_DeepCopy C),
     (ConsensusStoreStatus_type, ConsensusStoreStatus_DeepCopy),
     (ConsensusStore_type T, ConsensusStore_DeepCopy C),
     (ConsensusStoreList_type T, ConsensusStoreList_DeepCopy C),
     (RaftPartitionStatus_type, RaftPartitionStatus_DeepCopy),
     (MultiRaftClusterStatus_type, MultiRaftClusterStatus_DeepCopy),
     (MultiRaftCluster_type T, MultiRaftCluster_DeepCopy C),
     (MultiRaftClusterList_type T, MultiRaftClusterList_DeepCopy C),
     (RaftGroupSpec_type, RaftGroupSpec_DeepCopy),
     (RaftGroupStatus_type, RaftGroupStatus_DeepCopy),
     (RaftGroup_type T, RaftGroup_DeepCopy C),
     (RaftGroupList_type T, RaftGroupList_DeepCopy C),
     (RaftMemberSpec_type, RaftMemberSpec_DeepCopy),
     (RaftMemberStatus_type T, RaftMemberStatus_DeepCopy C),
     (RaftMember_type T, RaftMember_DeepCopy C),
     (RaftMemberList_type T, RaftMemberList_DeepCopy C),
     (ConsensusStore_type T, ConsensusStore_DeepCopyObject C),
     (ConsensusStoreList_type T, ConsensusStoreList_DeepCopyObject C),
     (MultiRaftCluster_type T, MultiRaftCluster_DeepCopyObject C),
     (MultiRaftClusterList_type T, MultiRaftClusterList_DeepCopyObject C),
     (RaftGroup_type T, RaftGroup_DeepCopyObject C),
     (RaftGroupList_type T, RaftGroupList_DeepCopyObject C),
     (RaftMember_type T, RaftMember_DeepCopyObject C),
     (RaftMemberList_type T, RaftMemberList_DeepCopyObject C)]"

lemmas copy_defs =
  MultiRaftServerConfig_DeepCopy_def RaftConfig_DeepCopy_def OutputConfig_DeepCopy_def
  LoggerConfig_DeepCopy_def StdoutSinkConfig_DeepCopy_def StderrSinkConfig_DeepCopy_def
  FileSinkConfig_DeepCopy_def SinkConfig_DeepCopy_def LoggingConfig_DeepCopy_def
  MultiRaftClusterConfig_DeepCopy_def MultiRaftClusterSpec_DeepCopy_def
  ConsensusStoreSpec_DeepCopy_def ConsensusStoreStatus_DeepCopy_def ConsensusStore_DeepCopy_def
  ConsensusStoreList_DeepCopy_def RaftPartitionStatus_DeepCopy_def
  MultiRaftClusterStatus_DeepCopy_def MultiRaftCluster_DeepCopy_def
  MultiRaftClusterList_DeepCopy_def RaftGroupSpec_DeepCopy_def RaftGroupStatus_DeepCopy_def
  RaftGroup_DeepCopy_def RaftGroupList_DeepCopy_def RaftMemberSpec_DeepCopy_def
  RaftMemberStatus_DeepCopy_def RaftMember_DeepCopy_def RaftMemberList_DeepCopy_def
  ConsensusStore_DeepCopyObject_def ConsensusStoreList_DeepCopyObject_def
  MultiRaftCluster_DeepCopyObject_def MultiRaftClusterList_DeepCopyObject_def
  RaftGroup_DeepCopyObject_def RaftGroupList_DeepCopyObject_def RaftMember_DeepCopyObject_def
  RaftMemberList_DeepCopyObject_def

definition deep_copy :: "('p tree \<Rightarrow> bool) \<Rightarrow> (nat option \<Rightarrow> ('p heap, nat option) state) \<Rightarrow> bool" where
  "deep_copy P copy \<longleftrightarrow> (\<exists>f. deep_copier P f \<and> (copy = DeepCopy f \<or> copy = DeepCopyObject f))"

lemma deep_copyI:
  "deep_copier P f \<Longrightarrow> deep_copy P (DeepCopy f)"
  "deep_copier P f \<Longrightarrow> deep_copy P (DeepCopyObject f)"
  by (auto simp: deep_copy_def)

lemma apiCopies_deep:
  assumes "library_copies T C"
  shows "list_all (\<lambda>(P, copy). deep_copy P copy) (apiCopies T C)"
  unfolding apiCopies_def copy_defs list.pred_inject(2) prod.case
  by (intro conjI list.pred_inject(1) deep_copyI config_copiers object_copiers [OF assms])

lemma DeepCopyObject_eq: "DeepCopyObject f p = DeepCopy f p"
  by (rule state.expand) (auto simp: DeepCopyObject_def fun_eq_iff run_simps split: prod.splits option.splits)

lemma deep_copy_nil: "deep_copy P copy \<Longrightarrow> run_state (copy None) h = (None, h)"
  by (auto simp: deep_copy_def DeepCopyObject_eq DeepCopy_def run_simps)

lemma deep_copy_separate:
  assumes "deep_copy P copy" and "heap_ok h" and "denotes h (Pointer (Some a)) (Ref t) F" and "P t"
    and "run_state (copy (Some a)) h = (p, h')"
  obtains b where "p = Some b" and "separate_copy h (Pointer (Some b)) (Ref t) h'"
proof -
  obtain f where f: "deep_copier P f" "run_state (DeepCopy f (Some a)) h = (p, h')"
    using assms(1,5) by (auto simp: deep_copy_def DeepCopyObject_eq)
  obtain v G where v: "hp_cells h a = Some (Pointee v)" "denotes h v t G"
    using assms(3) by (auto elim: denotes_RefE)
  obtain b h1 where b: "run_state (newVariable f v) h = (b, h1)" by (cases "run_state (newVariable f v) h")
  have "p = Some b" "h' = h1" using f(2) v(1) b by (simp_all add: DeepCopy_def run_simps)
  moreover have "separate_copy h (Pointer (Some b)) (Ref t) h1"
    by (rule deep_copier.copies_variable [OF f(1) assms(2) v(2) assms(4) b])
  ultimately show ?thesis using that by blast
qed

text \<open>
  C26. A deep copy of an object of the API says what the object says, in memory that was not in
  use before: nothing written through the copy can change the object, and nothing written through
  the object can change the copy. This holds of every \<^verbatim>\<open>DeepCopy\<close> and \<^verbatim>\<open>DeepCopyObject\<close> of the
  package, for every object of its type, however the object's own parts share memory; a nil
  pointer is copied to nil.
\<close>

theorem deep_copies_are_independent:
  assumes "library_copies T C" and "(P, copy) \<in> set (apiCopies T C)"
    and "heap_ok h" and "denotes h (Pointer (Some a)) (Ref t) F" and "P t"
    and "run_state (copy (Some a)) h = (p, h')"
  shows "run_state (copy None) h = (None, h) \<and>
    (\<exists>b G. p = Some b \<and> denotes h' (Pointer (Some b)) (Ref t) G \<and> denotes h' (Pointer (Some a)) (Ref t) F \<and>
      G \<inter> dom (hp_cells h) = {} \<and>
      (\<forall>h''. (\<forall>x. x \<notin> G \<longrightarrow> hp_cells h'' x = hp_cells h' x) \<longrightarrow> denotes h'' (Pointer (Some a)) (Ref t) F) \<and>
      (\<forall>h''. (\<forall>x. x \<notin> F \<longrightarrow> hp_cells h'' x = hp_cells h' x) \<longrightarrow> denotes h'' (Pointer (Some b)) (Ref t) G))"
proof -
  have dc: "deep_copy P copy" using apiCopies_deep [OF assms(1)] assms(2) by (auto simp: list_all_iff)
  obtain b where b: "p = Some b" "separate_copy h (Pointer (Some b)) (Ref t) h'"
    by (rule deep_copy_separate [OF dc assms(3-6)])
  then obtain G where G: "denotes h' (Pointer (Some b)) (Ref t) G" "G \<subseteq> new_addresses h h'"
      and g: "grows h h'"
    by (auto simp: separate_copy_def)
  have old: "denotes h' (Pointer (Some a)) (Ref t) F" by (rule grows_denotes(1) [OF assms(3) g assms(4)])
  have disj: "G \<inter> dom (hp_cells h) = {}"
    using G(2) assms(3) by (force simp: new_addresses_def heap_ok_def)
  then have "F \<inter> G = {}" using denotes_dom(1) [OF assms(4)] by blast
  then show ?thesis
    using b(1) G(1) old disj deep_copy_nil [OF dc]
    by (intro conjI exI [of _ b] exI [of _ G] allI impI)
       (auto intro!: denotes_frame(1) [OF old] denotes_frame(1) [OF G(1)])
qed

text \<open>A status of a group with one follower, copied.\<close>

definition plainTypes :: "string apiTypes" where
  "plainTypes = \<lparr>at_ObjectMeta = pointerFree, at_ListMeta = pointerFree, at_SecurityContext = pointerFree,
     at_PersistentVolumeClaim = pointerFree, at_Quantity = pointerFree, at_Time = pointerFree\<rparr>"

definition plainCopiers :: "string apiCopiers" where
  "plainCopiers = \<lparr>ac_ObjectMeta = assigned, ac_ListMeta = assigned, ac_SecurityContext = assigned,
     ac_PersistentVolumeClaim = assigned, ac_Quantity = assigned, ac_Time = assigned\<rparr>"

definition sampleHeap :: "string heap" where
  "sampleHeap = \<lparr>hp_next = 2, hp_cells =
     (\<lambda>_. None)(0 := Some (Elems [Struct [Atom ''m-2'']]),
       1 := Some (Pointee (Struct [Atom ''Ready'', Pointer None, Pointer None, Slice (Some (0, 1))])))\<rparr>"

definition sampleTree :: "string tree" where
  "sampleTree = Fields [Leaf ''Ready'', NilRef, NilRef, Seq [Fields [Leaf ''m-2'']]]"

definition copiedHeap :: "string heap" where
  "copiedHeap = \<lparr>hp_next = 4, hp_cells = (hp_cells sampleHeap)
     (2 := Some (Pointee (Struct [Atom ''Ready'', Pointer None, Pointer None, Slice (Some (3, 1))])),
      3 := Some (Elems [Struct [Atom ''m-2'']]))\<rparr>"

lemma plain_copies: "library_copies plainTypes plainCopiers"
  by (simp add: library_copies_def plainTypes_def plainCopiers_def assigned.deep_copier_axioms)

lemma sampleHeap_denotes: "denotes sampleHeap (Pointer (Some 1)) (Ref sampleTree) {0, 1}"
proof -
  have "denotes_all sampleHeap [Struct [Atom ''m-2'']] [Fields [Leaf ''m-2'']] (({} \<union> {}) \<union> {})"
    by (intro denotes_denotes_all.intros)
  then have slice: "denotes sampleHeap (Slice (Some (0, 1))) (Seq [Fields [Leaf ''m-2'']]) {0}"
    by (intro slice [of _ _ "[Struct [Atom ''m-2'']]"]) (simp_all add: sampleHeap_def)
  have fields: "denotes_all sampleHeap [Atom ''Ready'', Pointer None, Pointer None, Slice (Some (0, 1))]
      [Leaf ''Ready'', NilRef, NilRef, Seq [Fields [Leaf ''m-2'']]] ({} \<union> ({} \<union> ({} \<union> ({0} \<union> {}))))"
    by (intro atom nil_pointer slice no_values more_values)
  have "denotes sampleHeap (Pointer (Some 1)) (Ref sampleTree)
      (insert 1 ({} \<union> ({} \<union> ({} \<union> ({0} \<union> {})))))"
    unfolding sampleTree_def
    by (rule pointer [OF _ struct [OF fields]]) (simp add: sampleHeap_def)
  then show ?thesis by (simp add: insert_commute)
qed

lemma sample_copied: "run_state (RaftGroupStatus_DeepCopy (Some 1)) sampleHeap = (Some 2, copiedHeap)"
  by (simp add: RaftGroupStatus_DeepCopy_def DeepCopy_def RaftGroupStatus_DeepCopyInto_def copyStruct_def
      copyPointer_def copySlice_def newVariable_def assigned_def sampleHeap_def copiedHeap_def run_heap fun_eq_iff)

lemma sample_ok: "heap_ok sampleHeap" "RaftGroupStatus_type sampleTree"
  by (auto simp: heap_ok_def sampleHeap_def RaftGroupStatus_type_def sampleTree_def split: if_splits)

theorem deep_copies_are_independent_witness:
  "\<exists>G. denotes copiedHeap (Pointer (Some 2)) (Ref sampleTree) G \<and> G \<inter> {0, 1} = {}"
proof -
  have "(RaftGroupStatus_type, RaftGroupStatus_DeepCopy) \<in> set (apiCopies plainTypes plainCopiers)"
    by (simp add: apiCopies_def)
  from deep_copies_are_independent [OF plain_copies this sample_ok(1) sampleHeap_denotes sample_ok(2) sample_copied]
  show ?thesis by (auto simp: sampleHeap_def)
qed

end
