(* ===== verification/Spec2Isabelle.thy ===== *)
theory Spec2Isabelle
  imports Routing WireEvolution RecordRetry NodesToStatus Deployment Lifecycle ApiDeepCopy
begin

text \<open>
  A verification development of the consensus storage of Atomix: the Raft node
  (\<^verbatim>\<open>src/node\<close>), the Kubernetes controller that deploys nodes (\<^verbatim>\<open>src/controller\<close>) and the driver
  through which a client reaches them (\<^verbatim>\<open>src/driver\<close>). This theory imports all others and holds
  the properties that span the node and the controller.

  \<^bold>\<open>The program.\<close> A node runs many Raft groups on one dragonboat host. Per group, \<^verbatim>\<open>partition.go\<close>
  proposes client inputs to the log and queries the state machine, \<^verbatim>\<open>context.go\<close> keeps the
  response stream of every proposal in flight, \<^verbatim>\<open>statemachine.go\<close> applies the log, and
  \<^verbatim>\<open>events.go\<close> with \<^verbatim>\<open>protocol.go\<close> turns what Raft reports into events for watchers, which
  \<^verbatim>\<open>server.go\<close> streams over gRPC. The controller has three reconcilers: \<^verbatim>\<open>store.go\<close> makes a
  cluster of a store and publishes its partitions; \<^verbatim>\<open>cluster.go\<close> makes the Kubernetes objects,
  groups and members of a cluster and bootstraps the members; \<^verbatim>\<open>watcher.go\<close> watches the events of
  every pod and records them in the statuses of groups and members.

  \<^bold>\<open>The theories and the code.\<close>
  \<^item> \<open>Prelude\<close>: machine integers, decimal printing, results and early returns.
  \<^item> \<open>ProtocolContext\<close> (\<^verbatim>\<open>context.go\<close>): the record \<open>protocolContext\<close> and one definition per method;
    the locale \<open>stream_registry\<close> is what executor and state machine rely on.
  \<^item> \<open>ProtoWire\<close>, \<open>ProtoMessages\<close>, \<open>EventMessages\<close> (\<^verbatim>\<open>protocol.pb.go\<close>): the wire format, \<open>Size\<close>,
    \<open>MarshalToSizedBuffer\<close> and \<open>Unmarshal\<close> of every message; the locale \<open>message_codec\<close> gives a
    message its round trip and lets messages nest. \<open>WireEvolution\<close>: fields of another version of a
    message, which \<^verbatim>\<open>skipProtocol\<close> has to consume.
  \<^item> \<open>NodeConfig\<close> (\<^verbatim>\<open>config.go\<close>, \<^verbatim>\<open>options.go\<close>): defaults, options, durations.
  \<^item> \<open>Partition\<close> (\<^verbatim>\<open>partition.go\<close>), \<open>StateMachine\<close> (\<^verbatim>\<open>statemachine.go\<close>): proposing, querying and
    applying, for one member.
  \<^item> \<open>Routing\<close>: the two of them as a transition system over all members of a group, whose steps
    are the atomic actions of the code.
  \<^item> \<open>NodeEvents\<close> (\<^verbatim>\<open>events.go\<close>), \<open>NodeProtocol\<close> (\<^verbatim>\<open>protocol.go\<close>, \<^verbatim>\<open>server.go\<close>): events, watchers,
    starting, joining and leaving groups.
  \<^item> \<open>WatchHub\<close>: the locks, channels and goroutines behind \<open>publish\<close> and \<open>Watch\<close>, as a transition
    system; \<open>WatchDelivery\<close>: the same steps with the partitions, the events and what each stream was sent.
  \<^item> \<open>NodeMain\<close> (\<^verbatim>\<open>node/cmd\<close>): the executable, with its flags, its request for help and exit statuses.
  \<^item> \<open>ControllerTypes\<close> (\<^verbatim>\<open>apis/consensus/v1beta1\<close>): the resources as records; the laws of the
    Kubernetes client.
  \<^item> \<open>ClusterNaming\<close>, \<open>ClusterReconcile\<close>, \<open>ClusterSettles\<close> (\<^verbatim>\<open>cluster.go\<close>): sizes, names and
    placement; the reconciler, function by function; where its repetition leads.
  \<^item> \<open>PodWatch\<close> (\<^verbatim>\<open>watcher.go\<close>): the reconciler of pods, the event loop and the recording of
    statuses; the locale \<open>status_update\<close> is what every recorded event promises.
  \<^item> \<open>RecordRetry\<close>: the recording of one event over an API server whose requests may fail.
  \<^item> \<open>Recording\<close>: the goroutines of all streams recording events in one object, with stale reads and
    refused writes; the locale \<open>recorder\<close> is what an update promises to concurrent writers.
  \<^item> \<open>NodesToStatus\<close>: the hubs of all nodes and the recording goroutines together.
  \<^item> \<open>StoreReconcile\<close> (\<^verbatim>\<open>store.go\<close>, \<^verbatim>\<open>driver.go\<close>, \<^verbatim>\<open>conn.go\<close>): the reconciler of stores and the
    driver's connection.
  \<^item> \<open>ClientView\<close>, \<open>PodStart\<close>, \<open>Lifecycle\<close>: the three controllers and the driver together; a cluster
    whose pods are still to be started; and from the creation of a store to the configuration its
    clients read.
  \<^item> \<open>ControllerMain\<close> (\<^verbatim>\<open>controller.go\<close>, \<^verbatim>\<open>register.go\<close>, \<^verbatim>\<open>controller/cmd\<close>): the watches the three
    controllers register, the executable and its log sink.
  \<^item> \<open>Deployment\<close>: the driver's primitives, and a pod's start command against the executable of
    the node.
  \<^item> \<open>DeepCopy\<close>, \<open>ApiDeepCopy\<close> (\<^verbatim>\<open>zz_generated.deepcopy.go\<close>): copies of API objects on a heap; the
    locale \<open>deep_copier\<close> is what a copy promises.

  \<^bold>\<open>How code is translated.\<close> A struct is a record, an enumeration a datatype or the constants of the
  source. A method that changes its receiver returns it; a sequence of calls on the outside world is a
  \<open>State_Monad\<close> computation on a world \<open>'w\<close>. An error is the left side of a sum, a panic is \<open>None\<close>
  or a constructor of its own, and \<open>bindE\<close> is the early return. Words have the width of the
  source's integers; where the code uses signed integers they are mathematical ones, brought back
  into range by \<open>int64\<close> or \<open>signed_take_bit 31\<close> where they can leave it. A Go map is a partial
  function, and where its iteration order matters the order is an argument.

  \<^bold>\<open>What is proved.\<close>
  \<^item> Proposals: replicas that apply the same log agree, also after a recovery; outputs return to the
    client that proposed, unless term and leader are read while a leader event is
    being stored (a run that misroutes an output is exhibited, and such reads are shown to be the only
    cause).
  \<^item> Wire format: every message is written into exactly its size and read back as it was, also
    with fields of a newer version around it.
  \<^item> Watching: what a watcher is told amounts to the state of the partitions, also while publishers
    and new streams run concurrently (each member started once, and leader changes of a group
    reported one at a time); the hub never sends on a closed channel, but can stop for good.
  \<^item> Statuses: concurrent recording is serializable, an event is recorded once however many requests
    fail before; what is recorded does not depend on the order of the leader events, is sound at any
    time, survives replays and ends with what the nodes know. A leader that steps down within its term
    stays in the status, although its node no longer names it.
  \<^item> Deployment: members spread evenly over existing pods; peers are found under the addresses
    they announce; from the configuration map and the stateful set the controller creates, a pod
    starts its node with the address, options and Raft configuration of its cluster; both
    executables run, ask for help or fail as their configuration and their environment decide.
  \<^item> Reconciling: a member, a cluster and a store each settle after a bounded number of
    reconciliations, in the state they should be in, and what the watchers record in between keeps
    them able to; what a controller creates wakes it.
  \<^item> Clients: a new store comes up, whatever happens in between and whenever its pods are started, and
    the configuration the driver then decodes names the nodes that lead and follow every group.
  \<^item> API objects: a deep copy and its original share no memory.

  \<^bold>\<open>Bounds.\<close> Recursions follow lists or loops that shrink, so nothing is cut off by fuel, with two
  exceptions that are arguments: how many attempts at recording a status the backoff allows
  (\<open>retry\<close>; the code gives up after the backoff's default maximum elapsed time, and one attempt more
  than requests fail is enough) and how many messages a watch receives (\<open>watchLoop\<close>). The wire
  format is shown for messages whose size fits an \<^verbatim>\<open>int\<close>, cluster sizes for products below
  \<open>2 ^ 31\<close> (\<open>sizes_ok\<close>); a negative number of groups, with which the \<^verbatim>\<open>make\<close> of
  \<^verbatim>\<open>getPartitionStatuses\<close> panics, is outside these sizes, and the model lists no partition for it.

  \<^bold>\<open>Parameters.\<close> Code outside this repository is an argument, with the documented behaviour a
  proof relies on as a named hypothesis: dragonboat, the state machines and clients of the Atomix
  runtime, the Kubernetes client, manager and API types, the YAML and JSON codecs, the controller of
  stateful sets, and flag parsing, whose outcome is an error, the request for help (the process then
  prints the usage and ends with status 0) or the flags.

  \<^bold>\<open>Not modelled.\<close> The gRPC stubs, descriptors, getters and \<open>String\<close> methods of \<^verbatim>\<open>protocol.pb.go\<close>,
  which are generated glue for the gRPC and protobuf runtimes; the alternatives of an event whose
  payload is a nil pointer, which the code never builds and whose generated guards have no counterpart
  in \<open>isEvent_Event\<close>; what is only logged; the tests, Docker files and Helm charts.
\<close>

section \<open>Addresses\<close>

lemma foldl_upd_lookup:
  assumes "inj_on k (set xs)" and "x \<in> set xs"
  shows "foldl (\<lambda>m x. m(k x \<mapsto> v x)) m xs (k x) = Some (v x)"
  using assms
proof (induction xs rule: rev_induct)
  case (snoc y ys)
  then show ?case by (cases "x = y") (auto simp: inj_on_def)
qed simp

lemma foldl_upd_dom: "dom (foldl (\<lambda>m x. m(k x \<mapsto> v x)) m xs) = dom m \<union> k ` set xs"
proof (induction xs rule: rev_induct)
  case (snoc x xs)
  show ?case
    unfolding foldl_append foldl.simps dom_fun_upd snoc.IH set_append by simp
qed simp

lemma uint_word_of_int_32: "0 \<le> i \<Longrightarrow> i < 2 ^ 32 \<Longrightarrow> uint (word_of_int i :: 32 word) = i"
  by (simp add: uint_word_of_int)

lemma uint_ucast_32_64: "uint (ucast (x :: 32 word) :: 64 word) = uint x"
  unfolding uint_nat unat_ucast_64 ..

lemma podRaftAddress_member:
  assumes "getPodName c g m = numberedName (om_Name (mrc_Meta c)) i"
  shows "podRaftAddress domain c config i =
    hostPort (getPodDNSName domain (om_Namespace (mrc_Meta c)) (om_Name (mrc_Meta c)) (getPodName c g m))
      protocolPort"
  using assms
  by (simp add: podRaftAddress_def nodeHostConfig_def applyOptions_host_port raftHost_def
      getPodDNSName_def numberedName_def)

definition peerConfig :: "string \<Rightarrow> MultiRaftCluster \<Rightarrow> int \<Rightarrow> int \<Rightarrow> MemberConfig" where
  "peerConfig domain c g m =
     \<lparr>mc_MemberID = word_of_int m,
      mc_Host = getPodDNSName domain (om_Namespace (mrc_Meta c)) (om_Name (mrc_Meta c)) (getPodName c g m),
      mc_Port = word_of_int protocolPort\<rparr>"

lemma set_groupMemberConfigs:
  "set (groupMemberConfigs domain c g) = peerConfig domain c g ` {1..getNumMembers c}"
proof -
  have "{1..getNumMembers c} = (\<lambda>i. i + 1) ` {0..getNumMembers c - 1}" by simp
  then show ?thesis
    unfolding groupMemberConfigs_def set_map set_upto peerConfig_def by (simp only: image_image)
qed

lemma groupMembers_configs:
  assumes "getNumMembers c < 2 ^ 32" and "m \<in> {1..getNumMembers c}"
  shows "groupMembers (groupMemberConfigs domain c g) (word_of_int m) = Some (hostPort
      (getPodDNSName domain (om_Namespace (mrc_Meta c)) (om_Name (mrc_Meta c)) (getPodName c g m)) protocolPort)"
    and "dom (groupMembers (groupMemberConfigs domain c g)) = word_of_int ` {1..getNumMembers c}"
proof -
  let ?M = "getNumMembers c" and ?k = "\<lambda>x. ucast (mc_MemberID x) :: 64 word"
  have uint_key: "uint (?k (peerConfig domain c g i)) = i" if "i \<in> {1..?M}" for i
    using that assms(1) by (simp add: peerConfig_def uint_ucast_32_64 uint_word_of_int_32)
  then have key: "?k (peerConfig domain c g i) = word_of_int i" if "i \<in> {1..?M}" for i
    using that by (metis word_of_int_uint)
  have "inj_on ?k (set (groupMemberConfigs domain c g))"
    unfolding set_groupMemberConfigs
    by (rule inj_onI) (metis (no_types, lifting) image_iff uint_key)
  moreover have "peerConfig domain c g m \<in> set (groupMemberConfigs domain c g)"
    using assms(2) by (simp add: set_groupMemberConfigs)
  ultimately have "groupMembers (groupMemberConfigs domain c g) (?k (peerConfig domain c g m)) =
      Some (hostPort (mc_Host (peerConfig domain c g m)) (uint (mc_Port (peerConfig domain c g m))))"
    unfolding groupMembers_def by (rule foldl_upd_lookup)
  then show "groupMembers (groupMemberConfigs domain c g) (word_of_int m) = Some (hostPort
      (getPodDNSName domain (om_Namespace (mrc_Meta c)) (om_Name (mrc_Meta c)) (getPodName c g m)) protocolPort)"
    unfolding key [OF assms(2)] by (simp add: peerConfig_def protocolPort_def)
  have "?k ` set (groupMemberConfigs domain c g) = word_of_int ` {1..?M}"
    unfolding set_groupMemberConfigs image_image by (rule image_cong [OF refl key])
  then show "dom (groupMembers (groupMemberConfigs domain c g)) = word_of_int ` {1..?M}"
    by (simp add: groupMembers_def foldl_upd_dom)
qed

text \<open>
  C9. A bootstrap reaches the peers it names: the request the controller builds for any
  member of a group crosses the wire unchanged, and from the group configuration the node
  decodes, Raft learns for each member of the group exactly the address that the start
  command of the member's pod makes its node announce, and of no other member.
\<close>

theorem bootstrap_reaches_the_peers:
  assumes "sizes_ok c" and "m' \<in> {1..getNumMembers c}"
    and "getPodName c g m' = numberedName (om_Name (mrc_Meta c)) i"
    and "BootstrapRequest_Size (bootstrapRequest domain c type g m) < 2 ^ 63"
  shows "\<exists>bs r. marshal (BootstrapRequest_Size (bootstrapRequest domain c type g m))
      (BootstrapRequest_MarshalToSizedBuffer (bootstrapRequest domain c type g m)) = Inr bs \<and>
    BootstrapRequest_Unmarshal bs zeroBootstrapRequest = Inr r \<and>
    groupMembers (gc_Members (br_Group r)) (word_of_int m') = Some (podRaftAddress domain c config i) \<and>
    dom (groupMembers (gc_Members (br_Group r))) = word_of_int ` {1..getNumMembers c}"
proof -
  obtain bs where bs: "marshal (BootstrapRequest_Size (bootstrapRequest domain c type g m))
      (BootstrapRequest_MarshalToSizedBuffer (bootstrapRequest domain c type g m)) = Inr bs"
    "BootstrapRequest_Unmarshal bs zeroBootstrapRequest = Inr (bootstrapRequest domain c type g m)"
    using assms(4) BootstrapRequest.marshal_enc [of "bootstrapRequest domain c type g m"]
      BootstrapRequest.roundtrip [of "bootstrapRequest domain c type g m"]
    by (auto simp: BootstrapRequest_Unmarshal_def BootstrapRequest_sizes)
  have "getNumMembers c < 2 ^ 32" using getNumMembers_exact [OF assms(1)] by simp
  from groupMembers_configs [OF this assms(2), of domain g] bs show ?thesis
    by (simp add: bootstrapRequest_def podRaftAddress_member [OF assms(3)])
qed

lemma sample_pod_ordinals:
  "podOrdinal sampleCluster 1 1 = 0" "podOrdinal sampleCluster 1 2 = 1" "podOrdinal sampleCluster 1 3 = 2"
  by (simp_all add: podOrdinal_def sampleCluster_sizes int64_def signed_modulo_int_def signed_divide_int_def)

lemma sample_itoa: "itoa 0 = ''0''" "itoa 1 = ''1''" "itoa 2 = ''2''"
  by code_simp+

lemma sample_hosts:
  assumes "m \<in> {1, 2, 3}"
  shows "length (mc_Host (peerConfig ''local'' sampleCluster 1 m)) = 27"
proof -
  have "length (itoa (podOrdinal sampleCluster 1 m)) = 1"
    using assms by (auto simp: sample_pod_ordinals sample_itoa)
  moreover have "om_Name (mrc_Meta sampleCluster) = ''raft''" "om_Namespace (mrc_Meta sampleCluster) = ''ns''"
    by (simp_all add: sampleCluster_def newMeta_def)
  ultimately show ?thesis
    by (simp add: peerConfig_def getPodDNSName_def getPodName_def numberedName_def
        getHeadlessServiceName_def getResourceName_def headlessServiceSuffix_def)
qed

lemma sample_peer_size:
  assumes "m \<in> {1, 2, 3}"
  shows "MemberConfig_Size (peerConfig ''local'' sampleCluster 1 m) = 34"
proof -
  note host = sample_hosts [OF assms]
  show ?thesis
    unfolding MemberConfig_Size_def host using assms
    by (auto simp: peerConfig_def protocolPort_def sovProtocol_rec)
qed

lemma sample_peers:
  "groupMemberConfigs ''local'' sampleCluster 1 =
     [peerConfig ''local'' sampleCluster 1 1, peerConfig ''local'' sampleCluster 1 2,
      peerConfig ''local'' sampleCluster 1 3]"
  by (simp add: groupMemberConfigs_def peerConfig_def sampleCluster_sizes upto.simps)

theorem bootstrap_reaches_the_peers_witness:
  "\<exists>bs r. BootstrapRequest_Unmarshal bs zeroBootstrapRequest = Inr r \<and>
    groupMembers (gc_Members (br_Group r)) 3 = Some (podRaftAddress ''local'' sampleCluster timedConfig 2)"
proof -
  let ?r = "bootstrapRequest ''local'' sampleCluster RaftObserver 1 3"
  have "getPodName sampleCluster 1 3 = numberedName (om_Name (mrc_Meta sampleCluster)) 2"
    by (simp add: getPodName_def sample_pod_ordinals)
  moreover have "BootstrapRequest_Size ?r < 2 ^ 63"
    by (simp add: BootstrapRequest_Size_def GroupConfig_Size_def bootstrapRequest_def sample_peers
        sample_peer_size memberRole_def RaftVotingMember_def RaftObserver_def MemberRole_defs sovProtocol_rec)
  ultimately show ?thesis
    using bootstrap_reaches_the_peers [where c = sampleCluster and m' = 3 and i = 2
        and domain = "''local''" and type = RaftObserver and g = 1 and m = 3 and config = timedConfig]
      sampleCluster_sizes by auto
qed

section \<open>Roles\<close>

text \<open>
  C39. The roles of a group's members: member \<open>m\<close> runs under the identifiers \<open>g\<close> and \<open>m\<close>,
  as an observer exactly if it comes after the voting members, and never as a witness,
  although the controller and the node both handle that role.
\<close>

theorem member_roles:
  assumes "sizes_ok c" and "g \<in> {1..getNumGroups c}" and "m \<in> {1..getNumMembers c}"
    and "getRaftConfig config (br_Group (bootstrapRequest domain c (memberType c m) g m)) = Inr rc"
  shows "uint (rc_ClusterID rc) = g \<and> uint (rc_NodeID rc) = m \<and>
    (rc_IsObserver rc \<longleftrightarrow> getNumVotingMembers c < m) \<and> \<not> rc_IsWitness rc"
proof -
  have "g < 2 ^ 32" "m < 2 ^ 32"
    using assms(1-3) getNumMembers_exact [OF assms(1)] by (auto simp: sizes_ok_def)
  then have "uint (word_of_int g :: 32 word) = g" "uint (word_of_int m :: 32 word) = m"
    using assms(2,3) by (simp_all add: uint_word_of_int_32)
  moreover have "memberRole (memberType c m) =
      (if getNumVotingMembers c < m then MemberRole_OBSERVER else MemberRole_MEMBER)"
    using assms(3) by (simp add: memberType_def memberRole_def RaftVotingMember_def RaftObserver_def)
  ultimately show ?thesis
    using assms(4)
    by (auto simp: getRaftConfig_def bootstrapRequest_def uint_ucast_32_64 MemberRole_defs
        split: sum.splits if_splits)
qed

theorem member_roles_witness:
  "\<exists>rc. getRaftConfig timedConfig (br_Group (bootstrapRequest ''local'' sampleCluster
      (memberType sampleCluster 3) 2 3)) = Inr rc \<and>
    uint (rc_ClusterID rc) = 2 \<and> uint (rc_NodeID rc) = 3 \<and> rc_IsObserver rc"
proof -
  let ?g = "br_Group (bootstrapRequest ''local'' sampleCluster (memberType sampleCluster 3) 2 3)"
  obtain rc where rc: "getRaftConfig timedConfig ?g = Inr rc"
    using getRaftConfig_timing_witness getRaftConfig_defined by blast
  have "getNumVotingMembers sampleCluster < 3"
    by (simp add: getNumVotingMembers_def raftSpec_def sampleCluster_def)
  with rc show ?thesis
    using member_roles [OF sampleCluster_sizes(1) _ _ rc] sampleCluster_sizes by auto
qed

section \<open>Timing\<close>

lemma Milliseconds_eq_0: "Milliseconds d = 0 \<longleftrightarrow> \<bar>d\<bar> < Millisecond"
proof (cases "d = 0")
  case False
  have "\<bar>d\<bar> div 1000000 = 0 \<longleftrightarrow> \<bar>d\<bar> < 1000000" by arith
  with False show ?thesis
    by (simp add: Milliseconds_def Millisecond_def signed_divide_int_def sgn_0_0)
qed (simp add: Milliseconds_def Millisecond_def)

text \<open>
  C40. The controller passes on timings no node can start with: for a cluster whose spec
  sets an election timeout and a heartbeat period shorter than a millisecond, and for no
  other cluster, every \<^verbatim>\<open>Bootstrap\<close> and every \<^verbatim>\<open>Join\<close> on the configuration it writes
  ends in the division by zero, before anything is started.
\<close>

theorem heartbeat_below_a_millisecond:
  "(run_state (Bootstrap host Error (nc_Raft (newNodeConfig cluster)) group') w = (Inl DivideByZero, w) \<longleftrightarrow>
      rcs_ElectionTimeout (raftSpec cluster) \<noteq> None \<and>
      (\<exists>h. rcs_HeartbeatPeriod (raftSpec cluster) = Some h \<and> \<bar>h\<bar> < Millisecond)) \<and>
   (run_state (Join host Error (nc_Raft (newNodeConfig cluster)) group') w = (Inl DivideByZero, w) \<longleftrightarrow>
      rcs_ElectionTimeout (raftSpec cluster) \<noteq> None \<and>
      (\<exists>h. rcs_HeartbeatPeriod (raftSpec cluster) = Some h \<and> \<bar>h\<bar> < Millisecond))"
proof -
  have start: "run_state (startGroup join host Error nc group') w = (Inl DivideByZero, w) \<longleftrightarrow>
      getRaftConfig nc group' = Inl DivideByZero" for join nc
    by (auto simp: startGroup_def split: sum.splits prod.splits)
  have "getRaftConfig nc group' = Inl DivideByZero \<longleftrightarrow>
      nrc_ElectionTimeout nc \<noteq> None \<and> Milliseconds (GetHeartbeatPeriod nc) = 0" for nc
    by (auto simp: getRaftConfig_def electionRTT_def Let_def split: option.splits)
  moreover have "Milliseconds (GetHeartbeatPeriod (nc_Raft (newNodeConfig cluster))) = 0 \<longleftrightarrow>
      (\<exists>h. rcs_HeartbeatPeriod (raftSpec cluster) = Some h \<and> \<bar>h\<bar> < Millisecond)"
    by (auto simp: GetHeartbeatPeriod_def newNodeConfig_def Let_def Milliseconds_eq_0
        defaultHeartbeatPeriod_def Millisecond_def split: option.splits)
  ultimately show ?thesis
    unfolding Bootstrap_def Join_def start by (simp add: newNodeConfig_def Let_def)
qed

section \<open>Oversized groups\<close>

text \<open>
  C38. A group with more members than the cluster has replicas is never complete, and
  nobody notices: two of its members are placed on one pod, and once that pod's node has
  bootstrapped one of them, bootstrapping the other reports success and starts nothing.
\<close>

theorem oversized_group_never_complete:
  assumes "sizes_ok c" and "g \<in> {1..getNumGroups c}" and "getNumReplicas c < getNumMembers c"
    and "start_law running host"
  shows "\<exists>m \<in> {1..getNumMembers c}. \<exists>m' \<in> {1..getNumMembers c}. m \<noteq> m' \<and>
    getPodName c g m = getPodName c g m' \<and>
    (\<forall>w w' type type'.
       run_state (Bootstrap host Error config (br_Group (bootstrapRequest domain c type g m))) w = (Inr (), w') \<longrightarrow>
       run_state (Bootstrap host Error config (br_Group (bootstrapRequest domain c type' g m'))) w' = (Inr (), w'))"
proof -
  have "run_state (Bootstrap host Error config (br_Group (bootstrapRequest domain c type' g m'))) w' = (Inr (), w')"
    if "run_state (Bootstrap host Error config (br_Group (bootstrapRequest domain c type g m))) w = (Inr (), w')"
    for w w' type type' m m'
    by (rule startGroup_again(1) [OF assms(4) disjI1 [OF that]]) (simp add: bootstrapRequest_def)
  with oversized_group_shares_a_pod [OF assms(1-3)] show ?thesis by blast
qed

theorem oversized_group_never_complete_witness:
  "\<exists>m \<in> {1..3}. \<exists>m' \<in> {1..3}. m \<noteq> m' \<and> getPodName smallCluster 1 m = getPodName smallCluster 1 m' \<and>
     run_state (Bootstrap listHost (\<lambda>_. []) (pr_config sampleProtocol) (br_Group
       (bootstrapRequest ''local'' smallCluster RaftVotingMember 1 m'))) [1] = (Inr (), [1])"
proof -
  have boot: "run_state (Bootstrap listHost (\<lambda>_. []) (pr_config sampleProtocol) (br_Group
       (bootstrapRequest ''local'' smallCluster RaftVotingMember 1 m))) [] = (Inr (), [1])" for m
    by (simp add: Bootstrap_def startGroup_def getRaftConfig_def electionRTT_def sampleProtocol_def
        bootstrapRequest_def listHost_def)
  show ?thesis
    using oversized_group_never_complete [OF smallCluster_sizes(1) _ _ listHost_law, where g = 1
        and Error = "\<lambda>_. []" and config = "pr_config sampleProtocol" and domain = "''local''"]
      boot smallCluster_sizes
    by fastforce
qed

section \<open>From a node's partition to the group's status\<close>










end
